(* ===== verification/Prelude.thy ===== *)
theory Prelude
  imports Complex_Main "HOL-Library.Word" "HOL-Library.Multiset" "HOL-Library.Sublist" "HOL-Library.AList"
begin

text \<open>
  Shared vocabulary of the development: the Go built-in types the components use (byte strings,
  64-bit integers, durations), the error values that travel between the packages with
  \<^verbatim>\<open>errors.Is\<close> and \<^verbatim>\<open>errors.As\<close>, the decimal conversions of
  \<^verbatim>\<open>strconv\<close>, the few functions of \<^verbatim>\<open>strings\<close> the sources call, and generic lemmas
  on lists and finite maps. Everything is executable.
\<close>

section \<open>Fact collections\<close>

named_theorems op_defs \<open>definitions of the operations of a component\<close>
named_theorems inv_pres \<open>every operation keeps the invariant of its component\<close>
named_theorems frame_simps \<open>what an operation leaves unchanged\<close>

section \<open>Integers and durations\<close>

text \<open>Go's \<^verbatim>\<open>int\<close>, \<^verbatim>\<open>int64\<close> and \<^verbatim>\<open>time.Duration\<close> are 64-bit two's complement;
  \<open>wrap64\<close> is what an arithmetic operation leaves of a mathematical result, and \<open>wrap16\<close> what the
  conversion \<^verbatim>\<open>int16(x)\<close> leaves.\<close>

type_synonym bytes = string
type_synonym duration = int

definition wrap64 :: "int \<Rightarrow> int" where
  "wrap64 x = (x + 2 ^ 63) mod 2 ^ 64 - 2 ^ 63"

definition wrap16 :: "int \<Rightarrow> int" where
  "wrap16 x = (x + 2 ^ 15) mod 2 ^ 16 - 2 ^ 15"

definition is_int16 :: "int \<Rightarrow> bool" where
  "is_int16 x \<longleftrightarrow> - (2 ^ 15) \<le> x \<and> x < 2 ^ 15"

definition is_int32 :: "int \<Rightarrow> bool" where
  "is_int32 x \<longleftrightarrow> - (2 ^ 31) \<le> x \<and> x < 2 ^ 31"

definition is_int64 :: "int \<Rightarrow> bool" where
  "is_int64 x \<longleftrightarrow> - (2 ^ 63) \<le> x \<and> x < 2 ^ 63"

lemma wrap64_id: "is_int64 x \<Longrightarrow> wrap64 x = x"
  by (simp add: wrap64_def is_int64_def)

lemma wrap64_range: "is_int64 (wrap64 x)"
proof -
  have "0 \<le> (x + 2 ^ 63) mod 2 ^ 64" and "(x + 2 ^ 63) mod 2 ^ 64 < (2::int) ^ 64"
    by (rule pos_mod_sign pos_mod_bound, simp)+
  then show ?thesis by (simp add: wrap64_def is_int64_def)
qed

lemma wrap16_id: "is_int16 x \<Longrightarrow> wrap16 x = x"
  by (simp add: wrap16_def is_int16_def)

lemma wrap16_range: "is_int16 (wrap16 x)"
proof -
  have "0 \<le> (x + 2 ^ 15) mod 2 ^ 16" and "(x + 2 ^ 15) mod 2 ^ 16 < (2::int) ^ 16"
    by (rule pos_mod_sign pos_mod_bound, simp)+
  then show ?thesis by (simp add: wrap16_def is_int16_def)
qed

text \<open>\<^verbatim>\<open>wrap64\<close> is the value a 64-bit machine word holds.\<close>

lemma wrap64_word: "wrap64 x = sint (word_of_int x :: 64 word)"
proof -
  have "sint (word_of_int x :: 64 word) = signed_take_bit 63 x"
    by (simp add: sint_sbintrunc')
  then show ?thesis by (simp add: wrap64_def signed_take_bit_eq_take_bit_shift take_bit_eq_mod)
qed

abbreviation millisecond :: duration where "millisecond \<equiv> 1000000"
abbreviation second :: duration where "second \<equiv> 1000000000"
abbreviation minute :: duration where "minute \<equiv> 60000000000"
abbreviation hour :: duration where "hour \<equiv> 3600000000000"

text \<open>Go's integer division truncates towards zero.\<close>

definition go_div :: "int \<Rightarrow> int \<Rightarrow> int" where
  "go_div a b = sgn a * sgn b * (\<bar>a\<bar> div \<bar>b\<bar>)"

lemma go_div_nonneg: "0 \<le> a \<Longrightarrow> 0 < b \<Longrightarrow> go_div a b = a div b"
  by (cases "a = 0") (auto simp: go_div_def)

text \<open>The conversion \<^verbatim>\<open>time.Duration(x)\<close> of a fractional number truncates towards zero.\<close>

definition trunc_rat :: "rat \<Rightarrow> int" where
  "trunc_rat q = (if 0 \<le> q then \<lfloor>q\<rfloor> else - \<lfloor>- q\<rfloor>)"

section \<open>Decimal conversions: \<^verbatim>\<open>strconv\<close>\<close>

definition digit_char :: "nat \<Rightarrow> char" where
  "digit_char d = char_of (48 + d)"

definition digit_val :: "char \<Rightarrow> nat option" where
  "digit_val c = (let k = of_char c :: nat in if 48 \<le> k \<and> k \<le> 57 then Some (k - 48) else None)"

fun nat_str :: "nat \<Rightarrow> string" where
  "nat_str n = (if n < 10 then [digit_char n] else nat_str (n div 10) @ [digit_char (n mod 10)])"

declare nat_str.simps [simp del]

definition itoa :: "int \<Rightarrow> string" where
  "itoa i = (if i < 0 then CHR ''-'' # nat_str (nat (- i)) else nat_str (nat i))"

fun digits_val :: "nat \<Rightarrow> string \<Rightarrow> nat option" where
  "digits_val acc [] = Some acc"
| "digits_val acc (c # cs) =
     (case digit_val c of None \<Rightarrow> None | Some d \<Rightarrow> digits_val (10 * acc + d) cs)"

text \<open>\<^verbatim>\<open>strconv.ParseInt(s, 10, 64)\<close> and \<^verbatim>\<open>strconv.Atoi\<close>: an optional sign, at least one
  decimal digit, nothing else, and the value in range.\<close>

definition parse_nat :: "string \<Rightarrow> nat option" where
  "parse_nat s = (if s = [] then None else digits_val 0 s)"

definition in_range64 :: "int option \<Rightarrow> int option" where
  "in_range64 v = (case v of None \<Rightarrow> None | Some i \<Rightarrow> if is_int64 i then Some i else None)"

definition atoi :: "string \<Rightarrow> int option" where
  "atoi s =
     (case s of
        [] \<Rightarrow> None
      | c # cs \<Rightarrow>
          if c = CHR ''-'' then in_range64 (map_option (\<lambda>n. - int n) (parse_nat cs))
          else if c = CHR ''+'' then in_range64 (map_option int (parse_nat cs))
          else in_range64 (map_option int (parse_nat s)))"

lemma digit_val_char: "d < 10 \<Longrightarrow> digit_val (digit_char d) = Some d"
  by (simp add: digit_val_def digit_char_def Let_def)

lemma digit_char_neq:
  assumes "d < 10"
  shows "digit_char d \<noteq> CHR ''-''" and "digit_char d \<noteq> CHR ''+''"
proof -
  have "digit_val (digit_char d) = Some d" using assms by (rule digit_val_char)
  then show "digit_char d \<noteq> CHR ''-''" and "digit_char d \<noteq> CHR ''+''"
    by (auto simp: digit_val_def)
qed

lemma digits_val_append:
  "digits_val acc (xs @ ys) = (case digits_val acc xs of None \<Rightarrow> None | Some a \<Rightarrow> digits_val a ys)"
  by (induction xs arbitrary: acc) (auto split: option.splits)

lemma nat_str_nonempty: "nat_str n \<noteq> []"
  by (subst nat_str.simps) simp

lemma digits_val_nat_str: "digits_val 0 (nat_str n) = Some n"
proof (induction n rule: nat_str.induct)
  case (1 n)
  show ?case
  proof (cases "n < 10")
    case True
    then show ?thesis by (simp add: nat_str.simps [of n] digit_val_char)
  next
    case False
    then have "digits_val 0 (nat_str (n div 10)) = Some (n div 10)" by (rule "1.IH")
    with False show ?thesis
      by (simp add: nat_str.simps [of n] digits_val_append digit_val_char)
  qed
qed

lemma parse_nat_str: "parse_nat (nat_str n) = Some n"
  by (simp add: parse_nat_def nat_str_nonempty digits_val_nat_str)

lemma nat_str_digits: "c \<in> set (nat_str n) \<Longrightarrow> \<exists>d<10. c = digit_char d"
proof (induction n rule: nat_str.induct)
  case (1 n)
  show ?case
  proof (cases "c = digit_char (n mod 10)")
    case True
    moreover have "n mod 10 < 10" by simp
    ultimately show ?thesis by blast
  next
    case False
    with "1" show ?thesis
      by (cases "n < 10") (auto simp: nat_str.simps [of n])
  qed
qed

lemma nat_str_hd: "nat_str n = c # cs \<Longrightarrow> c \<noteq> CHR ''-'' \<and> c \<noteq> CHR ''+''"
  using nat_str_digits [of c n] digit_char_neq by auto

lemma atoi_itoa: "is_int64 i \<Longrightarrow> atoi (itoa i) = Some i"
proof (cases "i < 0")
  case True
  assume "is_int64 i"
  with True show ?thesis by (simp add: itoa_def atoi_def parse_nat_str in_range64_def)
next
  case False
  assume i: "is_int64 i"
  obtain c cs where s: "nat_str (nat i) = c # cs"
    using nat_str_nonempty by (cases "nat_str (nat i)") auto
  then have "c \<noteq> CHR ''-'' \<and> c \<noteq> CHR ''+''" by (rule nat_str_hd)
  moreover have "parse_nat (c # cs) = Some (nat i)"
    using parse_nat_str [of "nat i"] s by simp
  ultimately show ?thesis using False i s
    by (simp add: itoa_def atoi_def in_range64_def)
qed

lemma nat_str_inject: "nat_str m = nat_str n \<longleftrightarrow> m = n"
  by (metis digits_val_nat_str option.inject)

lemma itoa_inject: "itoa i = itoa j \<longleftrightarrow> i = j"
proof
  assume eq: "itoa i = itoa j"
  have sgn: "(k::int) < 0 \<longleftrightarrow> hd (itoa k) = CHR ''-''" for k
    by (cases "nat_str (nat k)") (auto simp: itoa_def nat_str_nonempty dest: nat_str_hd)
  from eq sgn [of i] sgn [of j] have "i < 0 \<longleftrightarrow> j < 0" by simp
  with eq show "i = j" by (auto simp: itoa_def nat_str_inject split: if_splits)
qed simp

lemma itoa_nonempty: "itoa i \<noteq> []"
  by (simp add: itoa_def nat_str_nonempty)

section \<open>String functions\<close>

definition has_prefix :: "string \<Rightarrow> string \<Rightarrow> bool" where
  "has_prefix s p \<longleftrightarrow> take (length p) s = p"

text \<open>The white space of \<^verbatim>\<open>unicode.IsSpace\<close> as it stands in UTF-8.\<close>

definition space_runes :: "string list" where
  "space_runes =
     [[CHR '' ''], [CHR 0x09], [CHR 0x0A], [CHR 0x0B], [CHR 0x0C], [CHR 0x0D],
      [CHR 0xC2, CHR 0x85], [CHR 0xC2, CHR 0xA0], [CHR 0xE1, CHR 0x9A, CHR 0x80],
      [CHR 0xE2, CHR 0x80, CHR 0x80], [CHR 0xE2, CHR 0x80, CHR 0x81], [CHR 0xE2, CHR 0x80, CHR 0x82],
      [CHR 0xE2, CHR 0x80, CHR 0x83], [CHR 0xE2, CHR 0x80, CHR 0x84], [CHR 0xE2, CHR 0x80, CHR 0x85],
      [CHR 0xE2, CHR 0x80, CHR 0x86], [CHR 0xE2, CHR 0x80, CHR 0x87], [CHR 0xE2, CHR 0x80, CHR 0x88],
      [CHR 0xE2, CHR 0x80, CHR 0x89], [CHR 0xE2, CHR 0x80, CHR 0x8A], [CHR 0xE2, CHR 0x80, CHR 0xA8],
      [CHR 0xE2, CHR 0x80, CHR 0xA9], [CHR 0xE2, CHR 0x80, CHR 0xAF], [CHR 0xE2, CHR 0x81, CHR 0x9F],
      [CHR 0xE3, CHR 0x80, CHR 0x80]]"

fun trim_front :: "string list \<Rightarrow> string \<Rightarrow> string" where
  "trim_front rs [] = []"
| "trim_front rs (c # s) =
     (case find (has_prefix (c # s)) rs of
        None \<Rightarrow> c # s
      | Some r \<Rightarrow> trim_front rs (drop (length r - 1) s))"

definition trim_space :: "string \<Rightarrow> string" where
  "trim_space s = rev (trim_front (map rev space_runes) (rev (trim_front space_runes s)))"

definition has_suffix :: "string \<Rightarrow> string \<Rightarrow> bool" where
  "has_suffix s p \<longleftrightarrow> has_prefix (rev s) (rev p)"

definition trim_prefix :: "string \<Rightarrow> string \<Rightarrow> string" where
  "trim_prefix s p = (if has_prefix s p then drop (length p) s else s)"

text \<open>\<^verbatim>\<open>strings.Split\<close> at a single character.\<close>

fun split_on :: "char \<Rightarrow> string \<Rightarrow> string list" where
  "split_on d [] = [[]]"
| "split_on d (c # s) =
     (if c = d then [] # split_on d s
      else case split_on d s of [] \<Rightarrow> [[c]] | f # fs \<Rightarrow> (c # f) # fs)"

lemma has_prefix_append [simp]: "has_prefix (p @ s) p"
  by (simp add: has_prefix_def)

lemma trim_prefix_append [simp]: "trim_prefix (p @ s) p = s"
  by (simp add: trim_prefix_def)

section \<open>Durations as text: \<^verbatim>\<open>time.ParseDuration\<close>\<close>

text \<open>A sequence of decimal numbers with units; the fraction of a number is taken exactly. Every
  value is kept at most \<open>2 ^ 63\<close>, as in the library.\<close>

definition unit_of :: "string \<Rightarrow> int option" where
  "unit_of u =
     (if u = ''ns'' then Some 1
      else if u = ''us'' \<or> u = [CHR 0xC2, CHR 0xB5, CHR ''s''] \<or> u = [CHR 0xCE, CHR 0xBC, CHR ''s''] then Some 1000
      else if u = ''ms'' then Some millisecond
      else if u = ''s'' then Some second
      else if u = ''m'' then Some minute
      else if u = ''h'' then Some hour
      else None)"

definition dec_digit :: "char \<Rightarrow> bool" where
  "dec_digit c \<longleftrightarrow> digit_val c \<noteq> None"

definition digits_num :: "string \<Rightarrow> int" where
  "digits_num ds = (case digits_val 0 ds of Some n \<Rightarrow> int n | None \<Rightarrow> 0)"

function duration_loop :: "int \<Rightarrow> string \<Rightarrow> int option" where
  "duration_loop acc s =
     (if s = [] then Some acc
      else
        let ip = takeWhile dec_digit s;
            s1 = dropWhile dec_digit s;
            dot = (s1 \<noteq> [] \<and> hd s1 = CHR ''.'');
            fp = (if dot then takeWhile dec_digit (tl s1) else []);
            s2 = (if dot then dropWhile dec_digit (tl s1) else s1);
            isu = (\<lambda>c. \<not> (c = CHR ''.'' \<or> dec_digit c));
            u = takeWhile isu s2;
            s3 = dropWhile isu s2;
            v = digits_num ip
        in if ip = [] \<and> fp = [] then None
           else case unit_of u of
             None \<Rightarrow> None
           | Some k \<Rightarrow>
               let x = acc + v * k + digits_num fp * k div 10 ^ length fp
               in if 2 ^ 63 < v * k \<or> 2 ^ 63 < x then None
                  else if length s3 < length s then duration_loop x s3 else None)"
  by pat_completeness auto
termination
  by (relation "measure (\<lambda>(acc, s). length s)") auto

declare duration_loop.simps [simp del]

definition parse_duration :: "string \<Rightarrow> duration option" where
  "parse_duration s =
     (let neg = (s \<noteq> [] \<and> hd s = CHR ''-'');
          s1 = (if s \<noteq> [] \<and> (hd s = CHR ''-'' \<or> hd s = CHR ''+'') then tl s else s)
      in if s1 = ''0'' then Some 0
         else if s1 = [] then None
         else case duration_loop 0 s1 of
           None \<Rightarrow> None
         | Some d \<Rightarrow> if neg then Some (- d) else if 2 ^ 63 - 1 < d then None else Some d)"

lemma parse_duration_examples:
  "parse_duration ''1h30m'' = Some (90 * minute)" "parse_duration ''1.5s'' = Some (1500 * millisecond)"
  "parse_duration ''-2ms'' = Some (- 2 * millisecond)" "parse_duration ''5'' = None" "parse_duration ''0'' = Some 0"
  by code_simp+

section \<open>Error values\<close>

text \<open>
  Sentinels (\<^verbatim>\<open>errors.New\<close> at package level), the typed errors the code inspects with
  \<^verbatim>\<open>errors.As\<close>, plain texts, and the wrapping \<^verbatim>\<open>fmt.Errorf("prefix%w")\<close>. \<open>ErrText\<close>
  stands for every error the code builds without a wrapped cause or receives from a library and
  never inspects.
\<close>

datatype tls_fault = CertificateInvalid | UnknownAuthority | HostnameMismatch | RecordHeader

datatype go_error =
    ErrEmpty                              \<comment> \<open>queue.ErrEmpty\<close>
  | ErrNotFound                           \<comment> \<open>payload.ErrNotFound\<close>
  | ErrRateLimited                        \<comment> \<open>proxy.ErrRateLimited\<close>
  | ErrNoProxy                            \<comment> \<open>proxy.ErrNoProxy\<close>
  | ErrAlreadySeen                        \<comment> \<open>worker.ErrAlreadySeen\<close>
  | Canceled                              \<comment> \<open>context.Canceled\<close>
  | DeadlineExceeded                      \<comment> \<open>context.DeadlineExceeded\<close>
  | RedisNil                              \<comment> \<open>redis.Nil\<close>
  | PermanentHTTP int                     \<comment> \<open>httpdo.permanentHTTPError\<close>
  | PgError string string string          \<comment> \<open>pgconn.PgError: code, detail, message\<close>
  | TLSError tls_fault                    \<comment> \<open>the x509 and tls errors of \<^verbatim>\<open>isProxyFault\<close>\<close>
  | Panic string                          \<comment> \<open>a run-time panic; no caller of the model recovers it except where stated\<close>
  | ErrText string
  | Wrapped string go_error               \<comment> \<open>\<^verbatim>\<open>fmt.Errorf("<prefix>%w", err)\<close>\<close>
  | WrappedWith go_error string           \<comment> \<open>\<^verbatim>\<open>fmt.Errorf("%w<suffix>", err)\<close>\<close>

text \<open>\<^verbatim>\<open>errors.Is\<close> walks the chain; the sentinels are compared by identity.\<close>

fun errors_is :: "go_error \<Rightarrow> go_error \<Rightarrow> bool" where
  "errors_is (Wrapped p e) t = (Wrapped p e = t \<or> errors_is e t)"
| "errors_is (WrappedWith e p) t = (WrappedWith e p = t \<or> errors_is e t)"
| "errors_is e t = (e = t)"

fun as_permanent :: "go_error \<Rightarrow> int option" where
  "as_permanent (PermanentHTTP c) = Some c"
| "as_permanent (Wrapped p e) = as_permanent e"
| "as_permanent (WrappedWith e p) = as_permanent e"
| "as_permanent _ = None"

fun as_pg :: "go_error \<Rightarrow> (string \<times> string \<times> string) option" where
  "as_pg (PgError c d m) = Some (c, d, m)"
| "as_pg (Wrapped p e) = as_pg e"
| "as_pg (WrappedWith e p) = as_pg e"
| "as_pg _ = None"

fun as_tls :: "go_error \<Rightarrow> tls_fault option" where
  "as_tls (TLSError t) = Some t"
| "as_tls (Wrapped p e) = as_tls e"
| "as_tls (WrappedWith e p) = as_tls e"
| "as_tls _ = None"

text \<open>The \<^verbatim>\<open>Error()\<close> method, where the text is part of a stored value.\<close>

fun err_string :: "go_error \<Rightarrow> string" where
  "err_string ErrEmpty = ''queue: no tasks available''"
| "err_string ErrNotFound = ''payload: not found''"
| "err_string ErrRateLimited = ''proxy: rate limited''"
| "err_string ErrNoProxy = ''proxy: none available''"
| "err_string ErrAlreadySeen = ''match already seen''"
| "err_string Canceled = ''context canceled''"
| "err_string DeadlineExceeded = ''context deadline exceeded''"
| "err_string RedisNil = ''redis: nil''"
| "err_string (PermanentHTTP c) = ''HTTP '' @ itoa c"
| "err_string (PgError c d m) = m @ '' (SQLSTATE '' @ c @ '')''"
| "err_string (TLSError t) = ''tls''"
| "err_string (Panic s) = s"
| "err_string (ErrText s) = s"
| "err_string (Wrapped p e) = p @ err_string e"
| "err_string (WrappedWith e p) = err_string e @ p"

lemma errors_is_refl [simp]: "errors_is e e"
  by (cases e) auto

section \<open>Generic lemmas on lists and maps\<close>

lemma take_drop_disjoint: "distinct xs \<Longrightarrow> set (take n xs) \<inter> set (drop n xs) = {}"
  by (metis append_take_drop_id distinct_append)

lemma map_of_eq_None_iff_fst: "map_of xs k = None \<longleftrightarrow> k \<notin> fst ` set xs"
  by (rule map_of_eq_None_iff)

lemma distinct_map_filter: "distinct (map f xs) \<Longrightarrow> distinct (map f (filter P xs))"
  by (induction xs) auto

lemma filter_neq_length_less: "x \<in> set xs \<Longrightarrow> length (filter (\<lambda>y. y \<noteq> x) xs) < length xs"
  by (induction xs) (auto simp: le_imp_less_Suc)

end
