(* ===== verification/Config.thy ===== *)
theory Config
  imports Prelude
begin

text \<open>
  The configuration (\<^verbatim>\<open>internal/config/config.go\<close>): one record per section, and \<open>config_Load\<close>, which
  reads every field from an environment variable or falls back to a default. The environment is a
  function, the empty text standing for an unset variable as in \<^verbatim>\<open>os.Getenv\<close>; reading a file of
  variables (godotenv) and the parser of \<^verbatim>\<open>float64\<close> texts are arguments.
\<close>

type_synonym env = "string \<Rightarrow> string"

section \<open>Reading a variable\<close>

definition getStr :: "env \<Rightarrow> string \<Rightarrow> string \<Rightarrow> string" where
  "getStr env key dflt = (if env key \<noteq> [] then env key else dflt)"

definition getStrs :: "env \<Rightarrow> string \<Rightarrow> string \<Rightarrow> string list" where
  "getStrs env key sp =
     (if env key \<noteq> [] then map trim_space (split_on (hd sp) (env key))
      else if key = ''REDIS_ADDRS'' then [''127.0.0.1:6379'']
      else [])"

text \<open>A variable of another type: a text that does not parse counts as unset.\<close>

definition getVal :: "(string \<Rightarrow> 'a option) \<Rightarrow> env \<Rightarrow> string \<Rightarrow> 'a \<Rightarrow> 'a" where
  "getVal parse env key dflt =
     (if env key \<noteq> [] then (case parse (env key) of Some n \<Rightarrow> n | None \<Rightarrow> dflt) else dflt)"

text \<open>\<^verbatim>\<open>strconv.ParseBool\<close>\<close>

definition parse_bool :: "string \<Rightarrow> bool option" where
  "parse_bool s =
     (if s \<in> {''1'', ''t'', ''T'', ''TRUE'', ''true'', ''True''} then Some True
      else if s \<in> {''0'', ''f'', ''F'', ''FALSE'', ''false'', ''False''} then Some False
      else None)"

definition getInt :: "env \<Rightarrow> string \<Rightarrow> int \<Rightarrow> int" where
  "getInt = getVal atoi"

definition getInt64 :: "env \<Rightarrow> string \<Rightarrow> int \<Rightarrow> int" where
  "getInt64 = getVal atoi"

definition getFloat :: "(string \<Rightarrow> rat option) \<Rightarrow> env \<Rightarrow> string \<Rightarrow> rat \<Rightarrow> rat" where
  "getFloat pf = getVal pf"

definition getBool :: "env \<Rightarrow> string \<Rightarrow> bool \<Rightarrow> bool" where
  "getBool = getVal parse_bool"

definition getDur :: "env \<Rightarrow> string \<Rightarrow> duration \<Rightarrow> duration" where
  "getDur = getVal parse_duration"

section \<open>The sections\<close>

record redis_config =
  rdc_Addrs :: "string list"
  rdc_Password :: string
  rdc_DB :: int
  rdc_PoolSize :: int
  rdc_MinIdleConns :: int
  rdc_MaxActiveConns :: int
  rdc_ConnMaxLifetime :: duration
  rdc_ConnMaxIdleTime :: duration
  rdc_DialTimeout :: duration
  rdc_ReadTimeout :: duration
  rdc_WriteTimeout :: duration
  rdc_ReadOnly :: bool

record proxy_config =
  pxc_Hold :: duration
  pxc_MinPoolSize :: int
  pxc_KeyPrefix :: string
  pxc_RateLimitPerSec :: int
  pxc_RateLimitBurst :: int
  pxc_RateLimitWindow :: duration
  pxc_RankingInitial :: rat
  pxc_RankingSuccess :: rat
  pxc_RankingFailure :: rat
  pxc_MaxFailures :: int
  pxc_SeedFile :: string
  pxc_CanaryURL :: string
  pxc_RemoteURL :: string
  pxc_ValidateTimeout :: duration
  pxc_ValidateParallel :: int
  pxc_ValidateChunkSize :: int
  pxc_ValidateMinPublish :: int
  pxc_RefreshInterval :: duration

record queue_config =
  quc_Group :: string
  quc_Consumer :: string
  quc_MaxLen :: int
  quc_DeleteOnAck :: bool
  quc_MaxRetries :: int
  quc_MaxBackoff :: duration
  quc_FetchStream :: string
  quc_FetchDLQStream :: string
  quc_ParseStream :: string
  quc_ParseDLQStream :: string
  quc_AsyncRetry :: bool
  quc_AsyncRetryZSet :: string

record postgres_config =
  pgc_DSN :: string
  pgc_MaxOpenConns :: int
  pgc_MaxIdleConns :: int
  pgc_ConnMaxLifetime :: duration
  pgc_ConnMaxIdleTime :: duration

record payload_config =
  plc_KeyPrefix :: string
  plc_DefaultTTL :: duration

record dedup_config =
  ddc_KeyPrefix :: string
  ddc_TTL :: duration
  ddc_UseBloom :: bool
  ddc_BloomCapacity :: int
  ddc_BloomErrorRate :: rat

record discovery_config =
  dsc_UpstreamURL :: string
  dsc_WaitTimeout :: duration
  dsc_HTTPTimeout :: duration
  dsc_Interval :: duration
  dsc_RunAtStart :: bool
  dsc_AllowDirect :: bool
  dsc_MaxRetries :: int
  dsc_RetryBackoff :: duration
  dsc_MinProxyPoolSize :: int
  dsc_QueriesDir :: string
  dsc_DefaultQueryKey :: string
  dsc_LeagueQueriesDir :: string
  dsc_LeagueInterval :: duration
  dsc_TeamQueriesDir :: string
  dsc_TeamInterval :: duration
  dsc_ProPlayerURL :: string
  dsc_ProPlayerInterval :: duration
  dsc_HeroStatsURL :: string
  dsc_HeroStatsInterval :: duration

record fetcher_config =
  ftc_UpstreamURL :: string
  ftc_Batch :: int
  ftc_Block :: duration
  ftc_HTTPTimeout :: duration
  ftc_PayloadTTL :: duration
  ftc_WaitTimeout :: duration
  ftc_MaxProxyRetries :: int
  ftc_ProxyBackoff :: duration
  ftc_AllowDirect :: bool

record parser_config =
  psc_Batch :: int
  psc_Block :: duration
  psc_PartitionMaintenanceInterval :: duration

record enrich_config =
  enc_BootstrapPrefix :: string
  enc_BootstrapTTL :: duration
  enc_DotaConstantsBaseURL :: string
  enc_HTTPTimeout :: duration
  enc_Interval :: duration
  enc_RunAtStart :: bool
  enc_AllowDirect :: bool
  enc_WaitTimeout :: duration
  enc_MaxProxyRetries :: int
  enc_ProxyBackoff :: duration
  enc_LocalBootstrapDir :: string
  enc_ForceBootstrap :: bool

record telemetry_config =
  tlc_Endpoint :: string
  tlc_SampleRate :: rat

record migrator_config =
  mgc_DSN :: string
  mgc_MigrationsDir :: string

record config =
  cfg_Redis :: redis_config
  cfg_Proxy :: proxy_config
  cfg_Queue :: queue_config
  cfg_Postgres :: postgres_config
  cfg_Payload :: payload_config
  cfg_Dedup :: dedup_config
  cfg_Discovery :: discovery_config
  cfg_Fetcher :: fetcher_config
  cfg_Parser :: parser_config
  cfg_Enrich :: enrich_config
  cfg_Telemetry :: telemetry_config
  cfg_Migrator :: migrator_config

section \<open>Loading\<close>

definition load_redis_config :: "env \<Rightarrow> redis_config" where
  "load_redis_config env =
     \<lparr>rdc_Addrs = getStrs env ''REDIS_ADDRS'' '','',
      rdc_Password = getStr env ''REDIS_PASSWORD'' [],
      rdc_DB = getInt env ''REDIS_DB'' 0,
      rdc_PoolSize = getInt env ''REDIS_POOL_SIZE'' 100,
      rdc_MinIdleConns = getInt env ''REDIS_MIN_IDLE_CONNS'' 10,
      rdc_MaxActiveConns = getInt env ''REDIS_MAX_ACTIVE_CONNS'' 0,
      rdc_ConnMaxLifetime = getDur env ''REDIS_CONN_MAX_LIFETIME'' (30 * minute),
      rdc_ConnMaxIdleTime = getDur env ''REDIS_CONN_MAX_IDLE_TIME'' (10 * minute),
      rdc_DialTimeout = getDur env ''REDIS_DIAL_TIMEOUT'' (5 * second),
      rdc_ReadTimeout = getDur env ''REDIS_READ_TIMEOUT'' (3 * second),
      rdc_WriteTimeout = getDur env ''REDIS_WRITE_TIMEOUT'' (3 * second),
      rdc_ReadOnly = getBool env ''REDIS_READ_ONLY'' False\<rparr>"

definition load_proxy_config :: "(string \<Rightarrow> rat option) \<Rightarrow> env \<Rightarrow> proxy_config" where
  "load_proxy_config pf env =
     \<lparr>pxc_Hold = getDur env ''PROXY_HOLD'' (30 * second),
      pxc_MinPoolSize = getInt env ''PROXY_MIN_POOL_SIZE'' 0,
      pxc_KeyPrefix = getStr env ''PROXY_KEY_PREFIX'' ''dota2:proxy'',
      pxc_RateLimitPerSec = getInt env ''PROXY_RATE_LIMIT_PER_SEC'' 0,
      pxc_RateLimitBurst = getInt env ''PROXY_RATE_LIMIT_BURST'' 0,
      pxc_RateLimitWindow = getDur env ''PROXY_RATE_LIMIT_WINDOW'' (1 * second),
      pxc_RankingInitial = getFloat pf env ''PROXY_RANKING_INITIAL'' 100,
      pxc_RankingSuccess = getFloat pf env ''PROXY_RANKING_SUCCESS'' 1,
      pxc_RankingFailure = getFloat pf env ''PROXY_RANKING_FAILURE'' 5,
      pxc_MaxFailures = getInt env ''PROXY_MAX_FAILURES'' 5,
      pxc_SeedFile = getStr env ''PROXY_SEED_FILE'' ''proxy.txt'',
      pxc_CanaryURL = getStr env ''PROXY_CANARY_URL'' ''https://api.ipify.org'',
      pxc_RemoteURL = getStr env ''PROXY_REMOTE_URL'' [],
      pxc_ValidateTimeout = getDur env ''PROXY_VALIDATE_TIMEOUT'' (10 * second),
      pxc_ValidateParallel = getInt env ''PROXY_VALIDATE_PARALLEL'' 50,
      pxc_ValidateChunkSize = getInt env ''PROXY_VALIDATE_CHUNK_SIZE'' 100,
      pxc_ValidateMinPublish = getInt env ''PROXY_VALIDATE_MIN_PUBLISH'' 0,
      pxc_RefreshInterval = getDur env ''PROXY_REFRESH_INTERVAL'' 0\<rparr>"

definition load_queue_config :: "env \<Rightarrow> queue_config" where
  "load_queue_config env =
     \<lparr>quc_Group = getStr env ''QUEUE_GROUP'' ''workers'',
      quc_Consumer = getStr env ''QUEUE_CONSUMER'' [],
      quc_MaxLen = getInt64 env ''QUEUE_MAX_LEN'' 10000,
      quc_DeleteOnAck = getBool env ''QUEUE_DELETE_ON_ACK'' False,
      quc_MaxRetries = getInt env ''QUEUE_MAX_RETRIES'' 3,
      quc_MaxBackoff = getDur env ''QUEUE_MAX_BACKOFF'' (30 * second),
      quc_FetchStream = getStr env ''QUEUE_FETCH_STREAM'' ''dota2:fetch'',
      quc_FetchDLQStream = getStr env ''QUEUE_FETCH_DLQ_STREAM'' ''dota2:fetch:dlq'',
      quc_ParseStream = getStr env ''QUEUE_PARSE_STREAM'' ''dota2:parse'',
      quc_ParseDLQStream = getStr env ''QUEUE_PARSE_DLQ_STREAM'' ''dota2:parse:dlq'',
      quc_AsyncRetry = getBool env ''QUEUE_ASYNC_RETRY'' False,
      quc_AsyncRetryZSet = getStr env ''QUEUE_ASYNC_RETRY_ZSET'' []\<rparr>"

definition load_postgres_config :: "env \<Rightarrow> postgres_config" where
  "load_postgres_config env =
     \<lparr>pgc_DSN = getStr env ''POSTGRES_DSN'' [],
      pgc_MaxOpenConns = getInt env ''POSTGRES_MAX_OPEN_CONNS'' 25,
      pgc_MaxIdleConns = getInt env ''POSTGRES_MAX_IDLE_CONNS'' 5,
      pgc_ConnMaxLifetime = getDur env ''POSTGRES_CONN_MAX_LIFETIME'' (30 * minute),
      pgc_ConnMaxIdleTime = getDur env ''POSTGRES_CONN_MAX_IDLE_TIME'' (10 * minute)\<rparr>"

definition load_payload_config :: "env \<Rightarrow> payload_config" where
  "load_payload_config env =
     \<lparr>plc_KeyPrefix = getStr env ''PAYLOAD_KEY_PREFIX'' ''dota2:payload'',
      plc_DefaultTTL = getDur env ''PAYLOAD_DEFAULT_TTL'' (24 * hour)\<rparr>"

definition load_dedup_config :: "(string \<Rightarrow> rat option) \<Rightarrow> env \<Rightarrow> dedup_config" where
  "load_dedup_config pf env =
     \<lparr>ddc_KeyPrefix = getStr env ''DEDUP_KEY_PREFIX'' ''dota2:seen'',
      ddc_TTL = getDur env ''DEDUP_TTL'' (24 * hour),
      ddc_UseBloom = getBool env ''DEDUP_USE_BLOOM'' False,
      ddc_BloomCapacity = getInt64 env ''DEDUP_BLOOM_CAPACITY'' 10000000,
      ddc_BloomErrorRate = getFloat pf env ''DEDUP_BLOOM_ERROR_RATE'' (1 / 100)\<rparr>"

definition load_discovery_config :: "env \<Rightarrow> discovery_config" where
  "load_discovery_config env =
     \<lparr>dsc_UpstreamURL = getStr env ''DISCOVERY_UPSTREAM_URL'' [],
      dsc_WaitTimeout = getDur env ''DISCOVERY_WAIT_TIMEOUT'' (5 * minute),
      dsc_HTTPTimeout = getDur env ''DISCOVERY_HTTP_TIMEOUT'' (30 * second),
      dsc_Interval = getDur env ''DISCOVERY_INTERVAL'' (24 * hour),
      dsc_RunAtStart = getBool env ''DISCOVERY_RUN_AT_START'' True,
      dsc_AllowDirect = getBool env ''DISCOVERY_ALLOW_DIRECT'' False,
      dsc_MaxRetries = getInt env ''DISCOVERY_MAX_RETRIES'' 8,
      dsc_RetryBackoff = getDur env ''DISCOVERY_RETRY_BACKOFF'' (500 * millisecond),
      dsc_MinProxyPoolSize = getInt env ''DISCOVERY_MIN_PROXY_POOL_SIZE'' 1,
      dsc_QueriesDir = getStr env ''DISCOVERY_QUERIES_DIR'' ''/queries'',
      dsc_DefaultQueryKey = getStr env ''DISCOVERY_DEFAULT_KEY'' ''default'',
      dsc_LeagueQueriesDir = getStr env ''DISCOVERY_LEAGUE_QUERIES_DIR'' [],
      dsc_LeagueInterval = getDur env ''DISCOVERY_LEAGUE_INTERVAL'' (6 * hour),
      dsc_TeamQueriesDir = getStr env ''DISCOVERY_TEAM_QUERIES_DIR'' [],
      dsc_TeamInterval = getDur env ''DISCOVERY_TEAM_INTERVAL'' (6 * hour),
      dsc_ProPlayerURL = getStr env ''DISCOVERY_PRO_PLAYER_URL'' ''https://api.opendota.com/api/proPlayers'',
      dsc_ProPlayerInterval = getDur env ''DISCOVERY_PRO_PLAYER_INTERVAL'' (6 * hour),
      dsc_HeroStatsURL = getStr env ''DISCOVERY_HERO_STATS_URL'' ''https://api.opendota.com/api/heroStats'',
      dsc_HeroStatsInterval = getDur env ''DISCOVERY_HERO_STATS_INTERVAL'' (6 * hour)\<rparr>"

definition load_fetcher_config :: "env \<Rightarrow> fetcher_config" where
  "load_fetcher_config env =
     \<lparr>ftc_UpstreamURL = getStr env ''FETCHER_UPSTREAM_URL'' [],
      ftc_Batch = getInt env ''FETCHER_BATCH'' 10,
      ftc_Block = getDur env ''FETCHER_BLOCK'' (2 * second),
      ftc_HTTPTimeout = getDur env ''FETCHER_HTTP_TIMEOUT'' (30 * second),
      ftc_PayloadTTL = getDur env ''FETCHER_PAYLOAD_TTL'' (72 * hour),
      ftc_WaitTimeout = getDur env ''FETCHER_WAIT_TIMEOUT'' (5 * minute),
      ftc_MaxProxyRetries = getInt env ''FETCHER_MAX_PROXY_RETRIES'' 1,
      ftc_ProxyBackoff = getDur env ''FETCHER_PROXY_BACKOFF'' (250 * millisecond),
      ftc_AllowDirect = getBool env ''FETCHER_ALLOW_DIRECT'' False\<rparr>"

definition load_parser_config :: "env \<Rightarrow> parser_config" where
  "load_parser_config env =
     \<lparr>psc_Batch = getInt env ''PARSER_BATCH'' 10,
      psc_Block = getDur env ''PARSER_BLOCK'' (2 * second),
      psc_PartitionMaintenanceInterval = getDur env ''PARSER_PARTITION_MAINTENANCE_INTERVAL'' (24 * hour)\<rparr>"

definition load_enrich_config :: "env \<Rightarrow> enrich_config" where
  "load_enrich_config env =
     \<lparr>enc_BootstrapPrefix = getStr env ''ENRICH_BOOTSTRAP_PREFIX'' ''dota2:enrich'',
      enc_BootstrapTTL = getDur env ''ENRICH_BOOTSTRAP_TTL'' (30 * 24 * hour),
      enc_DotaConstantsBaseURL = getStr env ''ENRICH_DOTACONSTANTS_BASE_URL'' ''https://raw.githubusercontent.com/odota/dotaconstants/master/build'',
      enc_HTTPTimeout = getDur env ''ENRICH_HTTP_TIMEOUT'' (30 * second),
      enc_Interval = getDur env ''ENRICH_INTERVAL'' (24 * hour),
      enc_RunAtStart = getBool env ''ENRICH_RUN_AT_START'' True,
      enc_AllowDirect = getBool env ''ENRICH_ALLOW_DIRECT'' False,
      enc_WaitTimeout = getDur env ''ENRICH_WAIT_TIMEOUT'' (5 * minute),
      enc_MaxProxyRetries = getInt env ''ENRICH_MAX_PROXY_RETRIES'' 5,
      enc_ProxyBackoff = getDur env ''ENRICH_PROXY_BACKOFF'' (500 * millisecond),
      enc_LocalBootstrapDir = getStr env ''ENRICH_LOCAL_DIR'' [],
      enc_ForceBootstrap = getBool env ''ENRICH_FORCE_BOOTSTRAP'' False\<rparr>"

definition load_telemetry_config :: "(string \<Rightarrow> rat option) \<Rightarrow> env \<Rightarrow> telemetry_config" where
  "load_telemetry_config pf env =
     \<lparr>tlc_Endpoint = getStr env ''OTEL_EXPORTER_OTLP_ENDPOINT'' [],
      tlc_SampleRate = getFloat pf env ''OTEL_SAMPLE_RATE'' 1\<rparr>"

definition load_migrator_config :: "env \<Rightarrow> migrator_config" where
  "load_migrator_config env =
     \<lparr>mgc_DSN = getStr env ''MIGRATOR_DSN'' [],
      mgc_MigrationsDir = getStr env ''MIGRATOR_MIGRATIONS_DIR'' ''/migrations''\<rparr>"

definition config_Load :: "(string \<Rightarrow> env \<Rightarrow> env) \<Rightarrow> (string \<Rightarrow> rat option) \<Rightarrow> string \<Rightarrow> env \<Rightarrow> config" where
  "config_Load dotenv pf path env0 =
     (let env = (if path \<noteq> [] then dotenv path env0 else env0)
      in \<lparr>cfg_Redis = load_redis_config env,
          cfg_Proxy = load_proxy_config pf env,
          cfg_Queue = load_queue_config env,
          cfg_Postgres = load_postgres_config env,
          cfg_Payload = load_payload_config env,
          cfg_Dedup = load_dedup_config pf env,
          cfg_Discovery = load_discovery_config env,
          cfg_Fetcher = load_fetcher_config env,
          cfg_Parser = load_parser_config env,
          cfg_Enrich = load_enrich_config env,
          cfg_Telemetry = load_telemetry_config pf env,
          cfg_Migrator = load_migrator_config env\<rparr>)"

section \<open>Facts about the readers\<close>

lemmas getters = getInt_def getInt64_def getFloat_def getBool_def getDur_def

text \<open>A malformed value is the same as none.\<close>

lemma malformed_is_unset: "parse (env key) = None \<Longrightarrow> getVal parse env key d = getVal parse (env(key := [])) key d"
  by (simp add: getVal_def)

lemma getVal_value: "env key \<noteq> [] \<Longrightarrow> parse (env key) = Some v \<Longrightarrow> getVal parse env key d = v"
  by (simp add: getVal_def)

lemma atoi_is_int64: "atoi s = Some n \<Longrightarrow> is_int64 n"
  by (cases s) (auto simp: atoi_def in_range64_def split: option.splits if_splits)

lemma getInt_range: "is_int64 d \<Longrightarrow> is_int64 (getInt env key d)"
  by (auto simp: getInt_def getVal_def split: option.splits dest: atoi_is_int64)

text \<open>What a variable says reaches its field, whatever the other variables say.\<close>

lemma retries_setting:
  "is_int64 n \<Longrightarrow> quc_MaxRetries (cfg_Queue (config_Load dotenv pf [] (env(''QUEUE_MAX_RETRIES'' := itoa n)))) = n"
  by (simp add: config_Load_def load_queue_config_def getInt_def getVal_def Let_def atoi_itoa itoa_nonempty)

text \<open>The variable of the URL cannot clear it: an empty value means the default.\<close>

lemma pro_player_url_nonempty: "dsc_ProPlayerURL (load_discovery_config env) \<noteq> []"
  by (simp add: load_discovery_config_def getStr_def)

lemma hero_stats_url_nonempty: "dsc_HeroStatsURL (load_discovery_config env) \<noteq> []"
  by (simp add: load_discovery_config_def getStr_def)

end
