(* ===== verification/Waiting.thy ===== *)
theory Waiting
  imports Config
begin

text \<open>
  Waiting for proxies and for Postgres at the start of a program (\<^verbatim>\<open>internal/bootstrap/wait.go\<close>,
  \<^verbatim>\<open>wait_postgres.go\<close>, and \<^verbatim>\<open>openWithRetry\<close> of the migrator). A wait is a run over the list of the
  events its \<^verbatim>\<open>select\<close> sees, with the result \<open>None\<close> as long as it still waits. The
  messages of the two time limits leave out the duration.
\<close>

section \<open>Proxies\<close>

record wait_config =
  wc_MinSize :: int
  wc_Timeout :: duration
  wc_PollInterval :: duration

text \<open>An event of the loop: the ticker fired, with the time read after it, or the context ended.\<close>

datatype wait_event = WaitTick int | WaitDone go_error

fun proxy_wait_loop :: "('w \<Rightarrow> (go_error + int) \<times> 'w) \<Rightarrow> wait_config \<Rightarrow> int \<Rightarrow> int \<Rightarrow> wait_event list \<Rightarrow> 'w \<Rightarrow> go_error option option \<times> 'w" where
  "proxy_wait_loop size_of c deadline lastSize [] w = (None, w)"
| "proxy_wait_loop size_of c deadline lastSize (WaitDone e # es) w = (Some (Some (Wrapped ''context cancelled: '' e)), w)"
| "proxy_wait_loop size_of c deadline lastSize (WaitTick t # es) w =
     (if deadline < t then
        (Some (Some (ErrText (''timeout waiting for proxy pool: need '' @ itoa (wc_MinSize c) @ '', have '' @ itoa lastSize))), w)
      else
        case size_of w of
          (Inl e, w1) \<Rightarrow> proxy_wait_loop size_of c deadline lastSize es w1
        | (Inr n, w1) \<Rightarrow>
            if wc_MinSize c \<le> n then (Some None, w1)
            else proxy_wait_loop size_of c deadline n es w1)"

definition WaitForProxies :: "('w \<Rightarrow> (go_error + int) \<times> 'w) \<Rightarrow> ('w \<Rightarrow> int) \<Rightarrow> wait_config \<Rightarrow> wait_event list \<Rightarrow> 'w \<Rightarrow> go_error option option \<times> 'w" where
  "WaitForProxies size_of now c es w =
     (if wc_MinSize c \<le> 0 then (Some None, w)
      else
        let timeout = (if wc_Timeout c \<le> 0 then 5 * minute else wc_Timeout c);
            deadline = now w + timeout
        in case size_of w of
             (Inl e, w1) \<Rightarrow> proxy_wait_loop size_of c deadline 0 es w1
           | (Inr n, w1) \<Rightarrow>
               if wc_MinSize c \<le> n then (Some None, w1) else proxy_wait_loop size_of c deadline n es w1)"

section \<open>Postgres\<close>

text \<open>\<open>open_pg\<close> is \<^verbatim>\<open>pgclient.Open\<close>.\<close>

definition boot_Postgres :: "('w \<Rightarrow> (go_error + 'p) \<times> 'w) \<Rightarrow> 'w \<Rightarrow> (go_error + 'p) \<times> 'w" where
  "boot_Postgres open_pg w =
     (case open_pg w of (Inl e, w1) \<Rightarrow> (Inl (Wrapped ''postgres: '' e), w1) | (Inr p, w1) \<Rightarrow> (Inr p, w1))"

text \<open>The loop of the wait for Postgres begins with an attempt; an event follows each failed one. The
  deadline is \<open>None\<close> without a time limit.\<close>

datatype pause = Polled | CtxEnded go_error

fun postgres_wait_loop :: "('w \<Rightarrow> (go_error + 'p) \<times> 'w) \<Rightarrow> ('w \<Rightarrow> int) \<Rightarrow> int option \<Rightarrow> pause list \<Rightarrow> nat \<Rightarrow> 'w \<Rightarrow> (go_error + 'p) option \<times> 'w" where
  "postgres_wait_loop open_pg now deadline es attempt w =
     (case boot_Postgres open_pg w of
        (Inr p, w1) \<Rightarrow> (Some (Inr p), w1)
      | (Inl e, w1) \<Rightarrow>
          (if (case deadline of None \<Rightarrow> False | Some t \<Rightarrow> t < now w1) then
             (Some (Inl (Wrapped (''timeout waiting for postgres ('' @ nat_str (attempt + 1) @ '' attempts): '') e)), w1)
           else
             case es of
               [] \<Rightarrow> (None, w1)
             | CtxEnded c # _ \<Rightarrow> (Some (Inl (Wrapped ''context cancelled waiting for postgres: '' c)), w1)
             | Polled # es' \<Rightarrow> postgres_wait_loop open_pg now deadline es' (attempt + 1) w1))"

definition WaitForPostgres :: "('w \<Rightarrow> (go_error + 'p) \<times> 'w) \<Rightarrow> ('w \<Rightarrow> int) \<Rightarrow> wait_config \<Rightarrow> pause list \<Rightarrow> 'w \<Rightarrow> (go_error + 'p) option \<times> 'w" where
  "WaitForPostgres open_pg now c es w =
     postgres_wait_loop open_pg now (if 0 < wc_Timeout c then Some (now w + wc_Timeout c) else None) es 0 w"

declare postgres_wait_loop.simps [simp del]

text \<open>The retry loop of the migrator: \<open>try_open\<close> opens the database and pings it; one second between two
  attempts, and the error of the context as it is.\<close>

fun open_retry_loop :: "('w \<Rightarrow> (go_error + 'p) \<times> 'w) \<Rightarrow> ('w \<Rightarrow> int) \<Rightarrow> int \<Rightarrow> pause list \<Rightarrow> 'w \<Rightarrow> (go_error + 'p) option \<times> 'w" where
  "open_retry_loop try_open now deadline es w =
     (case try_open w of
        (Inr p, w1) \<Rightarrow> (Some (Inr p), w1)
      | (Inl e, w1) \<Rightarrow>
          (if deadline < now w1 then (Some (Inl (Wrapped ''db not reachable after 30s: '' e)), w1)
           else
             case es of
               [] \<Rightarrow> (None, w1)
             | CtxEnded c # _ \<Rightarrow> (Some (Inl c), w1)
             | Polled # es' \<Rightarrow> open_retry_loop try_open now deadline es' w1))"

declare open_retry_loop.simps [simp del]

definition openWithRetry :: "('w \<Rightarrow> (go_error + 'p) \<times> 'w) \<Rightarrow> ('w \<Rightarrow> int) \<Rightarrow> pause list \<Rightarrow> 'w \<Rightarrow> (go_error + 'p) option \<times> 'w" where
  "openWithRetry try_open now es w = open_retry_loop try_open now (now w + 30 * second) es w"

section \<open>How the waits end\<close>

text \<open>A wait for proxies that succeeds has seen a pool of the wanted size.\<close>

lemma proxy_wait_loop_success:
  "proxy_wait_loop size_of c dl ls es w = (Some None, w') \<Longrightarrow>
    \<exists>w0 n. size_of w0 = (Inr n, w') \<and> wc_MinSize c \<le> n"
proof (induction es arbitrary: ls w)
  case (Cons ev es)
  show ?case
  proof (cases ev)
    case (WaitTick t)
    then show ?thesis using Cons by (auto split: if_splits sum.splits prod.splits)
  next
    case (WaitDone e)
    then show ?thesis using Cons.prems by simp
  qed
qed simp

text \<open>A tick after the deadline, or the end of the context, ends it.\<close>

definition ends_wait :: "int \<Rightarrow> wait_event \<Rightarrow> bool" where
  "ends_wait dl ev = (case ev of WaitTick t \<Rightarrow> dl < t | WaitDone _ \<Rightarrow> True)"

lemma proxy_wait_loop_ends:
  "\<exists>ev \<in> set es. ends_wait dl ev \<Longrightarrow> fst (proxy_wait_loop size_of c dl ls es w) \<noteq> None"
proof (induction es arbitrary: ls w)
  case (Cons ev es)
  show ?case
  proof (cases ev)
    case (WaitTick t)
    then show ?thesis using Cons by (auto simp: ends_wait_def split: sum.splits prod.splits)
  qed simp
qed simp

text \<open>(C39) Waiting for proxies: it succeeds only after a look at the pool that found enough of them, and once
  the context has ended or the ticker has fired after the deadline, five minutes by default, it has
  returned, even if the pool never answers.\<close>

theorem wait_for_proxies:
  assumes "WaitForProxies size_of now c es w = (r, w')"
    and "dl = now w + (if wc_Timeout c \<le> 0 then 5 * minute else wc_Timeout c)"
  shows "(r = Some None \<and> 0 < wc_MinSize c \<longrightarrow> (\<exists>w0 n. size_of w0 = (Inr n, w') \<and> wc_MinSize c \<le> n)) \<and>
    ((\<exists>ev \<in> set es. ends_wait dl ev) \<longrightarrow> r \<noteq> None)"
proof (cases "wc_MinSize c \<le> 0")
  case True
  then show ?thesis using assms by (auto simp: WaitForProxies_def)
next
  case False
  obtain x w1 where x: "size_of w = (x, w1)" by (rule prod.exhaust)
  show ?thesis
  proof (cases x)
    case (Inl e)
    then have "proxy_wait_loop size_of c dl 0 es w1 = (r, w')"
      using assms x False by (simp add: WaitForProxies_def Let_def)
    then show ?thesis using proxy_wait_loop_success proxy_wait_loop_ends [of es dl size_of c 0 w1] by (metis fst_conv)
  next
    case (Inr n)
    show ?thesis
    proof (cases "wc_MinSize c \<le> n")
      case True
      then show ?thesis using assms x Inr False by (auto simp: WaitForProxies_def Let_def)
    next
      case few: False
      then have "proxy_wait_loop size_of c dl n es w1 = (r, w')"
        using assms x Inr False by (simp add: WaitForProxies_def Let_def)
      then show ?thesis using proxy_wait_loop_success proxy_wait_loop_ends [of es dl size_of c n w1] by (metis fst_conv)
    qed
  qed
qed

theorem wait_for_proxies_witness:
  "fst (WaitForProxies (\<lambda>n. (Inr n, n + 1)) (\<lambda>w. 0) \<lparr>wc_MinSize = 2, wc_Timeout = second, wc_PollInterval = second\<rparr> [WaitTick 1, WaitTick 2] 0) = Some None \<and>
   (\<exists>w0 n. (Inr n, w0 + 1) = (Inr n :: go_error + int, (3::int)) \<and> (2::int) \<le> n) \<and>
   fst (WaitForProxies (\<lambda>n. (Inr n, n)) (\<lambda>w. 0) \<lparr>wc_MinSize = 2, wc_Timeout = second, wc_PollInterval = second\<rparr> [WaitTick 1, WaitTick (2 * second)] 0) \<noteq> None"
proof -
  let ?c = "\<lparr>wc_MinSize = 2, wc_Timeout = second, wc_PollInterval = second\<rparr>"
  have a: "WaitForProxies (\<lambda>n. (Inr n, n + 1)) (\<lambda>w. 0) ?c [WaitTick 1, WaitTick 2] 0 = (Some None, 3)" by code_simp
  obtain r w' where b: "WaitForProxies (\<lambda>n. (Inr n, n)) (\<lambda>w. 0) ?c [WaitTick 1, WaitTick (2 * second)] 0 = (r, w')" by (rule prod.exhaust)
  have "second < 2 * second" by code_simp
  then have "r \<noteq> None" using wait_for_proxies [OF b refl] by (auto simp: ends_wait_def)
  with a b wait_for_proxies [OF a refl] show ?thesis by auto
qed

text \<open>Without a time limit the wait for Postgres ends only with the context: as long as no attempt succeeds
  it waits, whatever the number of attempts.\<close>

lemma postgres_wait_is_unlimited:
  assumes "wc_Timeout c \<le> 0" and "\<And>w. \<exists>e w'. open_pg w = (Inl e, w')"
  shows "fst (WaitForPostgres open_pg now c (replicate n Polled) w) = None"
proof -
  have "fst (postgres_wait_loop open_pg now None (replicate n Polled) a w) = None" for a
  proof (induction n arbitrary: a w)
    case 0
    from assms(2) obtain e w' where "open_pg w = (Inl e, w')" by blast
    then show ?case by (simp add: boot_Postgres_def postgres_wait_loop.simps)
  next
    case (Suc n)
    from assms(2) obtain e w' where "open_pg w = (Inl e, w')" by blast
    then show ?case using Suc by (simp add: boot_Postgres_def postgres_wait_loop.simps [of _ _ _ "_ # _"])
  qed
  then show ?thesis using assms(1) by (simp add: WaitForPostgres_def)
qed

lemma postgres_wait_connected:
  assumes "postgres_wait_loop open_pg now dl es a w = (Some (Inr p), w')"
  shows "\<exists>w0. open_pg w0 = (Inr p, w')"
  using assms
proof (induction es arbitrary: a w)
  case Nil
  then show ?case
    by (auto simp: boot_Postgres_def postgres_wait_loop.simps [of _ _ _ "[]"] split: sum.splits prod.splits if_splits option.splits)
next
  case (Cons x es)
  then show ?case
    by (auto simp: boot_Postgres_def postgres_wait_loop.simps [of _ _ _ "_ # _"] split: sum.splits prod.splits if_splits option.splits pause.splits)
qed

end
