(* ===== verification/Metrics.thy ===== *)
theory Metrics
  imports Prelude
begin

text \<open>
  The metrics port (\<^verbatim>\<open>internal/metrics/metrics.go\<close>) with its in-memory and its empty adapter
  (\<^verbatim>\<open>internal/metrics/inmem/sink.go\<close>, \<^verbatim>\<open>internal/metrics/noop/sink.go\<close>). The counters are
  64-bit unsigned and wrap around. Every method is one step.
\<close>

section \<open>Kinds, stages and the port\<close>

type_synonym failure_kind = string

definition KindUnknown :: failure_kind where "KindUnknown = ''unknown''"
definition KindDecode :: failure_kind where "KindDecode = ''decode''"
definition KindValidate :: failure_kind where "KindValidate = ''validate''"
definition KindIngest :: failure_kind where "KindIngest = ''ingest''"
definition KindDB :: failure_kind where "KindDB = ''db''"
definition KindHTTP :: failure_kind where "KindHTTP = ''http''"
definition KindTimeout :: failure_kind where "KindTimeout = ''timeout''"
definition KindRateLimit :: failure_kind where "KindRateLimit = ''rate_limit''"
definition KindNotFound :: failure_kind where "KindNotFound = ''not_found''"
definition KindProxy :: failure_kind where "KindProxy = ''proxy''"
definition KindPayload :: failure_kind where "KindPayload = ''payload''"

definition AllKinds :: "failure_kind list" where
  "AllKinds =
     [KindUnknown, KindDecode, KindValidate, KindIngest, KindDB, KindHTTP, KindTimeout, KindRateLimit,
      KindNotFound, KindProxy, KindPayload]"

lemmas kind_defs = KindUnknown_def KindDecode_def KindValidate_def KindIngest_def KindDB_def KindHTTP_def
  KindTimeout_def KindRateLimit_def KindNotFound_def KindProxy_def KindPayload_def

type_synonym stage = string

definition StageIngest :: stage where "StageIngest = ''ingest''"
definition StageParse :: stage where "StageParse = ''parse''"
definition StageFetch :: stage where "StageFetch = ''fetch''"
definition StageDiscover :: stage where "StageDiscover = ''discover''"
definition StageEnrich :: stage where "StageEnrich = ''enrich''"

text \<open>The sink; a latency is a number of milliseconds.\<close>

record 'w sink_if =
  mt_IngestSuccess :: "'w \<Rightarrow> 'w"
  mt_IngestFailure :: "failure_kind \<Rightarrow> int \<Rightarrow> go_error option \<Rightarrow> 'w \<Rightarrow> 'w"
  mt_ParseSuccess :: "'w \<Rightarrow> 'w"
  mt_ParseFailure :: "failure_kind \<Rightarrow> 'w \<Rightarrow> 'w"
  mt_ParseDuplicate :: "'w \<Rightarrow> 'w"
  mt_FetchSuccess :: "'w \<Rightarrow> 'w"
  mt_FetchFailure :: "failure_kind \<Rightarrow> 'w \<Rightarrow> 'w"
  mt_RecordQueueDepth :: "string \<Rightarrow> int \<Rightarrow> int \<Rightarrow> 'w \<Rightarrow> 'w"
  mt_RecordLatency :: "stage \<Rightarrow> rat \<Rightarrow> 'w \<Rightarrow> 'w"

record failure_event =
  fe_At :: int
  fe_Stage :: string
  fe_Kind :: failure_kind
  fe_MatchID :: int
  fe_Message :: string

record snapshot =
  sp_TakenAt :: int
  sp_IngestSuccess :: int
  sp_IngestFailure :: int
  sp_ParseSuccess :: int
  sp_ParseFailure :: int
  sp_ParseDuplicate :: int
  sp_FetchSuccess :: int
  sp_FetchFailure :: int
  sp_FailuresByKind :: "(failure_kind \<times> int) list"
  sp_RecentFailures :: "failure_event list"

section \<open>The in-memory sink\<close>

text \<open>\<open>si_now\<close> is the clock.\<close>

record mem_sink =
  si_ingestSuccess :: int
  si_ingestFailure :: int
  si_parseSuccess :: int
  si_parseFailure :: int
  si_parseDuplicate :: int
  si_fetchSuccess :: int
  si_fetchFailure :: int
  si_failuresByKind :: "(failure_kind \<times> int) list"
  si_recent :: "failure_event list"
  si_now :: int

definition sink_New :: "int \<Rightarrow> mem_sink" where
  "sink_New now =
     \<lparr>si_ingestSuccess = 0, si_ingestFailure = 0, si_parseSuccess = 0, si_parseFailure = 0, si_parseDuplicate = 0,
      si_fetchSuccess = 0, si_fetchFailure = 0, si_failuresByKind = [], si_recent = [], si_now = now\<rparr>"

definition incr :: "int \<Rightarrow> int" where
  "incr n = (n + 1) mod 2 ^ 64"

definition kind_count :: "(failure_kind \<times> int) list \<Rightarrow> failure_kind \<Rightarrow> int" where
  "kind_count m k = (case map_of m k of None \<Rightarrow> 0 | Some n \<Rightarrow> n)"

definition incr_kind :: "failure_kind \<Rightarrow> (failure_kind \<times> int) list \<Rightarrow> (failure_kind \<times> int) list" where
  "incr_kind k m = AList.update k (incr (kind_count m k)) m"

definition maxRecent :: nat where "maxRecent = 100"

definition appendRecent :: "string \<Rightarrow> failure_kind \<Rightarrow> int \<Rightarrow> go_error option \<Rightarrow> mem_sink \<Rightarrow> mem_sink" where
  "appendRecent st k mid e s =
     (let ev = \<lparr>fe_At = si_now s, fe_Stage = st, fe_Kind = k, fe_MatchID = mid,
                fe_Message = (case e of None \<Rightarrow> [] | Some x \<Rightarrow> err_string x)\<rparr>;
          old = (if maxRecent \<le> length (si_recent s) then drop 1 (si_recent s) else si_recent s)
      in s\<lparr>si_recent := old @ [ev]\<rparr>)"

definition sink_IngestSuccess :: "mem_sink \<Rightarrow> mem_sink" where
  "sink_IngestSuccess s = s\<lparr>si_ingestSuccess := incr (si_ingestSuccess s)\<rparr>"

definition sink_IngestFailure :: "failure_kind \<Rightarrow> int \<Rightarrow> go_error option \<Rightarrow> mem_sink \<Rightarrow> mem_sink" where
  "sink_IngestFailure k mid e s =
     appendRecent ''ingest'' k mid e
       (s\<lparr>si_ingestFailure := incr (si_ingestFailure s), si_failuresByKind := incr_kind k (si_failuresByKind s)\<rparr>)"

definition sink_ParseSuccess :: "mem_sink \<Rightarrow> mem_sink" where
  "sink_ParseSuccess s = s\<lparr>si_parseSuccess := incr (si_parseSuccess s)\<rparr>"

definition sink_ParseFailure :: "failure_kind \<Rightarrow> mem_sink \<Rightarrow> mem_sink" where
  "sink_ParseFailure k s =
     s\<lparr>si_parseFailure := incr (si_parseFailure s), si_failuresByKind := incr_kind k (si_failuresByKind s)\<rparr>"

definition sink_ParseDuplicate :: "mem_sink \<Rightarrow> mem_sink" where
  "sink_ParseDuplicate s = s\<lparr>si_parseDuplicate := incr (si_parseDuplicate s)\<rparr>"

definition sink_FetchSuccess :: "mem_sink \<Rightarrow> mem_sink" where
  "sink_FetchSuccess s = s\<lparr>si_fetchSuccess := incr (si_fetchSuccess s)\<rparr>"

definition sink_FetchFailure :: "failure_kind \<Rightarrow> mem_sink \<Rightarrow> mem_sink" where
  "sink_FetchFailure k s =
     s\<lparr>si_fetchFailure := incr (si_fetchFailure s), si_failuresByKind := incr_kind k (si_failuresByKind s)\<rparr>"

definition mem_sink_if :: "mem_sink sink_if" where
  "mem_sink_if =
     \<lparr>mt_IngestSuccess = sink_IngestSuccess, mt_IngestFailure = sink_IngestFailure, mt_ParseSuccess = sink_ParseSuccess,
      mt_ParseFailure = sink_ParseFailure, mt_ParseDuplicate = sink_ParseDuplicate, mt_FetchSuccess = sink_FetchSuccess,
      mt_FetchFailure = sink_FetchFailure, mt_RecordQueueDepth = (\<lambda>_ _ _ s. s), mt_RecordLatency = (\<lambda>_ _ s. s)\<rparr>"

definition sink_Snapshot :: "mem_sink \<Rightarrow> snapshot" where
  "sink_Snapshot s =
     \<lparr>sp_TakenAt = si_now s, sp_IngestSuccess = si_ingestSuccess s, sp_IngestFailure = si_ingestFailure s,
      sp_ParseSuccess = si_parseSuccess s, sp_ParseFailure = si_parseFailure s, sp_ParseDuplicate = si_parseDuplicate s,
      sp_FetchSuccess = si_fetchSuccess s, sp_FetchFailure = si_fetchFailure s,
      sp_FailuresByKind = si_failuresByKind s, sp_RecentFailures = si_recent s\<rparr>"

section \<open>The empty sink\<close>

definition noop_if :: "'w sink_if" where
  "noop_if =
     \<lparr>mt_IngestSuccess = (\<lambda>w. w), mt_IngestFailure = (\<lambda>_ _ _ w. w), mt_ParseSuccess = (\<lambda>w. w),
      mt_ParseFailure = (\<lambda>_ w. w), mt_ParseDuplicate = (\<lambda>w. w), mt_FetchSuccess = (\<lambda>w. w),
      mt_FetchFailure = (\<lambda>_ w. w), mt_RecordQueueDepth = (\<lambda>_ _ _ w. w), mt_RecordLatency = (\<lambda>_ _ w. w)\<rparr>"

definition noop_Snapshot :: snapshot where
  "noop_Snapshot =
     \<lparr>sp_TakenAt = 0, sp_IngestSuccess = 0, sp_IngestFailure = 0, sp_ParseSuccess = 0, sp_ParseFailure = 0,
      sp_ParseDuplicate = 0, sp_FetchSuccess = 0, sp_FetchFailure = 0, sp_FailuresByKind = [], sp_RecentFailures = []\<rparr>"

section \<open>What the in-memory sink counts\<close>

datatype metric_event =
    MIngestOk | MIngestFail failure_kind int "go_error option" | MParseOk | MParseFail failure_kind
  | MParseDup | MFetchOk | MFetchFail failure_kind

fun sink_exec :: "metric_event \<Rightarrow> mem_sink \<Rightarrow> mem_sink" where
  "sink_exec MIngestOk = sink_IngestSuccess"
| "sink_exec (MIngestFail k i e) = sink_IngestFailure k i e"
| "sink_exec MParseOk = sink_ParseSuccess"
| "sink_exec (MParseFail k) = sink_ParseFailure k"
| "sink_exec MParseDup = sink_ParseDuplicate"
| "sink_exec MFetchOk = sink_FetchSuccess"
| "sink_exec (MFetchFail k) = sink_FetchFailure k"

fun kind_of_event :: "metric_event \<Rightarrow> failure_kind option" where
  "kind_of_event (MIngestFail k i e) = Some k"
| "kind_of_event (MParseFail k) = Some k"
| "kind_of_event (MFetchFail k) = Some k"
| "kind_of_event _ = None"

fun ingest_failure :: "metric_event \<Rightarrow> (failure_kind \<times> int) option" where
  "ingest_failure (MIngestFail k i e) = Some (k, i)"
| "ingest_failure _ = None"

text \<open>The number of events with a property, as a 64-bit counter shows it.\<close>

definition counted64 :: "('e \<Rightarrow> bool) \<Rightarrow> 'e list \<Rightarrow> int" where
  "counted64 P es = int (length (filter P es)) mod 2 ^ 64"

lemma counted64_snoc:
  "counted64 P (es @ [e]) = (if P e then incr (counted64 P es) else counted64 P es)"
  by (simp add: counted64_def incr_def mod_simps add.commute)

lemma kind_count_incr: "kind_count (incr_kind k m) k' = (if k' = k then incr (kind_count m k) else kind_count m k')"
  by (simp add: kind_count_def incr_kind_def update_conv')

lemma last_bounded:
  fixes xs :: "'x list"
  assumes "xs = drop (length ys - 100) ys"
  shows "(if 100 \<le> length xs then drop 1 xs else xs) @ [y] = drop (length (ys @ [y]) - 100) (ys @ [y])"
proof (cases "100 \<le> length ys")
  case True
  then have "length ys + 1 - 100 = 1 + (length ys - 100)" "length xs = 100" using assms by auto
  then show ?thesis using assms True by (simp add: drop_drop)
next
  case False
  then show ?thesis using assms by auto
qed

lemma sink_counts:
  "si_ingestSuccess (fold sink_exec es (sink_New now)) = counted64 (\<lambda>e. e = MIngestOk) es"
  "si_parseSuccess (fold sink_exec es (sink_New now)) = counted64 (\<lambda>e. e = MParseOk) es"
  "si_parseDuplicate (fold sink_exec es (sink_New now)) = counted64 (\<lambda>e. e = MParseDup) es"
  "si_fetchSuccess (fold sink_exec es (sink_New now)) = counted64 (\<lambda>e. e = MFetchOk) es"
  "kind_count (si_failuresByKind (fold sink_exec es (sink_New now))) k = counted64 (\<lambda>e. kind_of_event e = Some k) es"
  "map (\<lambda>e. (fe_Kind e, fe_MatchID e)) (si_recent (fold sink_exec es (sink_New now))) =
     (let fs = List.map_filter ingest_failure es in drop (length fs - 100) fs)"
proof (induction es rule: rev_induct)
  case Nil
  {
    case 1 show ?case by (simp add: sink_New_def counted64_def)
  next
    case 2 show ?case by (simp add: sink_New_def counted64_def)
  next
    case 3 show ?case by (simp add: sink_New_def counted64_def)
  next
    case 4 show ?case by (simp add: sink_New_def counted64_def)
  next
    case 5 show ?case by (simp add: sink_New_def counted64_def kind_count_def)
  next
    case 6 show ?case by (simp add: sink_New_def)
  }
next
  case (snoc e es)
  note ops = sink_IngestSuccess_def sink_IngestFailure_def sink_ParseSuccess_def sink_ParseFailure_def
    sink_ParseDuplicate_def sink_FetchSuccess_def sink_FetchFailure_def appendRecent_def Let_def
  {
    case 1 then show ?case using snoc by (cases e) (simp_all add: ops counted64_snoc)
  next
    case 2 then show ?case using snoc by (cases e) (simp_all add: ops counted64_snoc)
  next
    case 3 then show ?case using snoc by (cases e) (simp_all add: ops counted64_snoc)
  next
    case 4 then show ?case using snoc by (cases e) (simp_all add: ops counted64_snoc)
  next
    case 5 then show ?case using snoc by (cases e) (simp_all add: ops counted64_snoc kind_count_incr)
  next
    case 6
    let ?s = "fold sink_exec es (sink_New now)"
    let ?r = "map (\<lambda>e. (fe_Kind e, fe_MatchID e)) (si_recent ?s)"
    let ?fs = "List.map_filter ingest_failure es"
    have r: "?r = drop (length ?fs - 100) ?fs" using snoc(6) by (simp add: Let_def)
    have app: "List.map_filter ingest_failure (es @ [e]) =
        ?fs @ (case ingest_failure e of None \<Rightarrow> [] | Some x \<Rightarrow> [x])"
      by (simp add: List.map_filter_def split: option.split)
    show ?case
    proof (cases "ingest_failure e")
      case None
      then have "si_recent (fold sink_exec (es @ [e]) (sink_New now)) = si_recent ?s"
        by (cases e) (simp_all add: ops)
      with r app None show ?thesis by (simp add: Let_def)
    next
      case (Some x)
      then obtain k i er where e: "e = MIngestFail k i er" "x = (k, i)" by (cases e) auto
      have "map (\<lambda>e. (fe_Kind e, fe_MatchID e)) (si_recent (fold sink_exec (es @ [e]) (sink_New now))) =
          (if 100 \<le> length ?r then drop 1 ?r else ?r) @ [x]"
        by (simp add: e ops maxRecent_def drop_map [symmetric])
      also have "\<dots> = drop (length (?fs @ [x]) - 100) (?fs @ [x])" by (rule last_bounded [OF r])
      finally show ?thesis using app Some by (simp add: Let_def)
    qed
  }
qed

text \<open>The snapshot of the in-memory sink is exact: after any sequence of reports each counter is the
  number of reports of its sort (as a 64-bit counter), each kind has the number of failures of that
  kind over all three stages, and the recent failures are the last ingest failures in order, at most
  one hundred of them.\<close>

theorem metrics_snapshot_exact:
  "let sp = sink_Snapshot (fold sink_exec es (sink_New now)) in
   sp_IngestSuccess sp = counted64 (\<lambda>e. e = MIngestOk) es \<and> sp_ParseSuccess sp = counted64 (\<lambda>e. e = MParseOk) es \<and>
   sp_ParseDuplicate sp = counted64 (\<lambda>e. e = MParseDup) es \<and> sp_FetchSuccess sp = counted64 (\<lambda>e. e = MFetchOk) es \<and>
   (\<forall>k. kind_count (sp_FailuresByKind sp) k = counted64 (\<lambda>e. kind_of_event e = Some k) es) \<and>
   map (\<lambda>e. (fe_Kind e, fe_MatchID e)) (sp_RecentFailures sp) =
     (let fs = List.map_filter ingest_failure es in drop (length fs - 100) fs) \<and>
   length (sp_RecentFailures sp) \<le> 100"
proof -
  have "length (si_recent (fold sink_exec es (sink_New now))) \<le> 100"
    using arg_cong [OF sink_counts(6) [of es now], of length] by (simp add: Let_def)
  then show ?thesis by (simp add: sink_Snapshot_def sink_counts)
qed

end
