(* ===== verification/Redis.thy ===== *)
theory Redis
  imports Prelude
begin

text \<open>
  The Redis server as the program sees it. The client library and the server are not part of the
  repository, so they are an argument of every definition: a record of functions on a database of
  arbitrary type, which answer the commands the sources issue. Nothing is assumed about the answers
  except where a theorem says so. \<open>logged\<close> is the same server with a log of what it was asked, for
  the statements about the order of commands.
\<close>

section \<open>Commands and replies\<close>

text \<open>A stream entry as \<^verbatim>\<open>goredis.XMessage\<close> has it; the client delivers every field value as a
  string.\<close>

record xmessage =
  xID :: string
  xValues :: "(string \<times> string) list"

text \<open>The arguments are those the sources pass to the client; a maximal length of 0 in \<open>XADD\<close> means no
  trimming (the client leaves the option out), while \<open>XADD_MAXLEN\<close> is the text of a script, where 0 is
  a length like every other; and an expiry of 0 no expiry. Scores are exact numbers instead of \<^verbatim>\<open>float64\<close>.\<close>

datatype redis_cmd =
    XGROUP_CREATE string string string                  \<comment> \<open>stream, group, start\<close>
  | XADD string int "(string \<times> string) list"          \<comment> \<open>stream, maximal length, fields\<close>
  | XREADGROUP string string string int duration        \<comment> \<open>group, consumer, stream, count, block\<close>
  | XACK string string string                           \<comment> \<open>stream, group, entry\<close>
  | XADD_MAXLEN string int "(string \<times> string) list"   \<comment> \<open>stream, the argument of MAXLEN ~, fields\<close>
  | XREVRANGE string int                                \<comment> \<open>stream, count; from the newest entry\<close>
  | XDEL string "string list"                           \<comment> \<open>stream, entries\<close>
  | XAUTOCLAIM string string string duration string int \<comment> \<open>stream, group, consumer, idle, start, count\<close>
  | XLEN string
  | XPENDING string string                              \<comment> \<open>stream, group\<close>
  | ZADD string bool "(string \<times> rat) list"            \<comment> \<open>key, NX, members with scores\<close>
  | ZRANGEBYSCORE string rat int                        \<comment> \<open>key, highest score, count\<close>
  | ZREM string string
  | ZINCRBY string rat string
  | ZSCORE string string
  | ZCARD string
  | ZRANGE string int int
  | ZREVRANGE string int int
  | ZREMRANGEBYSCORE string rat rat
  | GET string
  | SET string string duration bool                     \<comment> \<open>key, value, expiry (0: none), NX\<close>
  | DEL "string list"
  | EXISTS string
  | EXPIRE string duration
  | PEXPIRE string int
  | INCR string
  | SADD string string
  | SISMEMBER string string
  | HSET string string string
  | HINCRBY string string int
  | TIME
  | BF_RESERVE string
  | BF_ADD string string
  | BF_EXISTS string string
  | BF_MEXISTS string "string list"

datatype redis_reply =
    RErr go_error
  | RNil
  | ROk
  | RInt int
  | RBulk string
  | RStrs "string list"
  | RInts "int list"
  | RScored "(string \<times> rat) list"
  | RMsgs string "xmessage list"

text \<open>\<^verbatim>\<open>Cmd.Err()\<close>: a nil reply is the error \<^verbatim>\<open>redis.Nil\<close>.\<close>

definition reply_err :: "redis_reply \<Rightarrow> go_error option" where
  "reply_err r = (case r of RErr e \<Rightarrow> Some e | RNil \<Rightarrow> Some RedisNil | _ \<Rightarrow> None)"

text \<open>The typed results; a reply of another kind is a client error.\<close>

definition bad_reply :: go_error where
  "bad_reply = ErrText ''redis: unexpected type''"

definition int_reply :: "redis_reply \<Rightarrow> go_error + int" where
  "int_reply r = (case reply_err r of Some e \<Rightarrow> Inl e | None \<Rightarrow> (case r of RInt i \<Rightarrow> Inr i | _ \<Rightarrow> Inl bad_reply))"

text \<open>\<^verbatim>\<open>BoolCmd\<close>: the client reads the nil reply of \<^verbatim>\<open>SET ... NX\<close> as \<^verbatim>\<open>false\<close>, without an error.\<close>

definition bool_reply :: "redis_reply \<Rightarrow> go_error + bool" where
  "bool_reply r =
     (case r of
        RErr e \<Rightarrow> Inl e
      | RNil \<Rightarrow> Inr False
      | RInt i \<Rightarrow> Inr (i = 1)
      | ROk \<Rightarrow> Inr True
      | _ \<Rightarrow> Inl bad_reply)"

definition str_reply :: "redis_reply \<Rightarrow> go_error + string" where
  "str_reply r = (case reply_err r of Some e \<Rightarrow> Inl e | None \<Rightarrow> (case r of RBulk s \<Rightarrow> Inr s | _ \<Rightarrow> Inl bad_reply))"

definition strs_reply :: "redis_reply \<Rightarrow> go_error + string list" where
  "strs_reply r = (case reply_err r of Some e \<Rightarrow> Inl e | None \<Rightarrow> (case r of RStrs s \<Rightarrow> Inr s | _ \<Rightarrow> Inl bad_reply))"

definition ints_reply :: "redis_reply \<Rightarrow> go_error + int list" where
  "ints_reply r = (case reply_err r of Some e \<Rightarrow> Inl e | None \<Rightarrow> (case r of RInts s \<Rightarrow> Inr s | _ \<Rightarrow> Inl bad_reply))"

definition scored_reply :: "redis_reply \<Rightarrow> go_error + (string \<times> rat) list" where
  "scored_reply r = (case reply_err r of Some e \<Rightarrow> Inl e | None \<Rightarrow> (case r of RScored s \<Rightarrow> Inr s | _ \<Rightarrow> Inl bad_reply))"

definition msgs_reply :: "redis_reply \<Rightarrow> go_error + string \<times> xmessage list" where
  "msgs_reply r = (case reply_err r of Some e \<Rightarrow> Inl e | None \<Rightarrow> (case r of RMsgs c m \<Rightarrow> Inr (c, m) | _ \<Rightarrow> Inl bad_reply))"

section \<open>The client\<close>

text \<open>
  \<open>rd_do\<close> is one command and its round trip; \<open>rd_pipe\<close> a \<^verbatim>\<open>Pipeline\<close>, whose commands are sent
  together and executed one by one, each with its own reply; \<open>rd_tx\<close> a \<^verbatim>\<open>TxPipeline\<close>;
  \<open>rd_call\<close> is \<^verbatim>\<open>redis.call\<close> inside a script, on the server; \<open>rd_fault\<close> is the failure of the
  round trip of a script before it runs.
\<close>

record 'd redis =
  rd_do :: "redis_cmd \<Rightarrow> 'd \<Rightarrow> redis_reply \<times> 'd"
  rd_pipe :: "redis_cmd list \<Rightarrow> 'd \<Rightarrow> redis_reply list \<times> 'd"
  rd_tx :: "redis_cmd list \<Rightarrow> 'd \<Rightarrow> redis_reply list \<times> 'd"
  rd_call :: "redis_cmd \<Rightarrow> 'd \<Rightarrow> redis_reply \<times> 'd"
  rd_fault :: "'d \<Rightarrow> go_error option \<times> 'd"

text \<open>\<^verbatim>\<open>Pipeline.Exec\<close> returns the first error of its commands.\<close>

fun pipe_err :: "redis_reply list \<Rightarrow> go_error option" where
  "pipe_err [] = None"
| "pipe_err (r # rs) = (case reply_err r of Some e \<Rightarrow> Some e | None \<Rightarrow> pipe_err rs)"

text \<open>\<^verbatim>\<open>redis.call\<close>: an error reply aborts the script.\<close>

definition call :: "'d redis \<Rightarrow> redis_cmd \<Rightarrow> (redis_reply \<Rightarrow> 'd \<Rightarrow> redis_reply \<times> 'd) \<Rightarrow> 'd \<Rightarrow> redis_reply \<times> 'd" where
  "call R c k d = (case rd_call R c d of (RErr e, d') \<Rightarrow> (RErr e, d') | (r, d') \<Rightarrow> k r d')"

text \<open>\<^verbatim>\<open>Script.Run\<close>: the round trip, then the script as one atomic step.\<close>

definition run_script :: "'d redis \<Rightarrow> ('d \<Rightarrow> redis_reply \<times> 'd) \<Rightarrow> 'd \<Rightarrow> redis_reply \<times> 'd" where
  "run_script R script d = (case rd_fault R d of (Some e, d') \<Rightarrow> (RErr e, d') | (None, d') \<Rightarrow> script d')"

section \<open>A server that keeps a log\<close>

type_synonym redis_log = "(redis_cmd \<times> redis_reply) list"

definition logged :: "'d redis \<Rightarrow> ('d \<times> redis_log) redis" where
  "logged R =
     \<lparr>rd_do = (\<lambda>c (d, l). let (r, d') = rd_do R c d in (r, d', l @ [(c, r)])),
      rd_pipe = (\<lambda>cs (d, l). let (rs, d') = rd_pipe R cs d in (rs, d', l @ zip cs rs)),
      rd_tx = (\<lambda>cs (d, l). let (rs, d') = rd_tx R cs d in (rs, d', l @ zip cs rs)),
      rd_call = (\<lambda>c (d, l). let (r, d') = rd_call R c d in (r, d', l @ [(c, r)])),
      rd_fault = (\<lambda>(d, l). let (e, d') = rd_fault R d in (e, d', l))\<rparr>"

text \<open>\<open>guarded P c l\<close>: every \<open>c\<close>-command of the log comes after a successful \<open>P\<close>-command.\<close>

fun guarded :: "(redis_cmd \<Rightarrow> bool) \<Rightarrow> (redis_cmd \<Rightarrow> bool) \<Rightarrow> redis_log \<Rightarrow> bool" where
  "guarded P C [] = True"
| "guarded P C ((c, r) # l) = (\<not> C c \<and> ((P c \<and> reply_err r = None) \<or> guarded P C l))"

lemma guarded_no_cmd: "(\<forall>x \<in> set l. \<not> C (fst x)) \<Longrightarrow> guarded P C l"
  by (induction P C l rule: guarded.induct) auto

end
