(* ===== verification/Stores.thy ===== *)
theory Stores
  imports Redis
begin

text \<open>
  The payload store and the set of seen keys: the ports (\<^verbatim>\<open>internal/payload/store.go\<close>,
  \<^verbatim>\<open>internal/dedup/seen.go\<close>) with their contracts as locales, the in-memory adapters, which are
  instances of the contracts, and the Redis adapters over an arbitrary server.
\<close>

section \<open>The payload store\<close>

record 'w payload_if =
  ps_Put :: "string \<Rightarrow> bytes \<Rightarrow> duration \<Rightarrow> 'w \<Rightarrow> go_error option \<times> 'w"
  ps_Get :: "string \<Rightarrow> 'w \<Rightarrow> (go_error + bytes) \<times> 'w"
  ps_Delete :: "string \<Rightarrow> 'w \<Rightarrow> go_error option \<times> 'w"
  ps_ExtendTTL :: "string \<Rightarrow> duration \<Rightarrow> 'w \<Rightarrow> go_error option \<times> 'w"

text \<open>\<open>content\<close> is what the store holds for a key at the present moment. An operation that reports an
  error may have failed on either side of its effect.\<close>

locale payload_store =
  fixes S :: "'w payload_if"
    and content :: "'w \<Rightarrow> string \<Rightarrow> bytes option"
  assumes put: "ps_Put S k v ttl w = (None, w') \<Longrightarrow> content w' = (content w)(k := Some v)"
    and put_err: "ps_Put S k v ttl w = (Some e, w') \<Longrightarrow> content w' = content w \<or> content w' = (content w)(k := Some v)"
    and get_ok: "ps_Get S k w = (Inr v, w') \<Longrightarrow> content w k = Some v \<and> content w' = content w"
    and get_err: "ps_Get S k w = (Inl e, w') \<Longrightarrow> (errors_is e ErrNotFound \<longrightarrow> content w k = None) \<and> content w' = content w"
    and del: "ps_Delete S k w = (None, w') \<Longrightarrow> content w' = (content w)(k := None)"
    and del_err: "ps_Delete S k w = (Some e, w') \<Longrightarrow> content w' = content w \<or> content w' = (content w)(k := None)"
    and extend: "ps_ExtendTTL S k ttl w = (r, w') \<Longrightarrow> content w k \<noteq> None \<Longrightarrow> content w' = content w"
begin

text \<open>A stored payload is read back, and the other keys are not disturbed.\<close>

lemma put_get:
  assumes "ps_Put S k v ttl w = (None, w1)" and "ps_Get S k w1 = (Inr u, w2)"
  shows "u = v" and "\<And>k'. k' \<noteq> k \<Longrightarrow> content w2 k' = content w k'"
  using put [OF assms(1)] get_ok [OF assms(2)] by auto

lemma delete_get:
  assumes "ps_Delete S k w = (None, w1)" and "ps_Get S k w1 = (r, w2)"
  shows "\<exists>e. r = Inl e"
  using del [OF assms(1)] get_ok [of k w1 _ w2] assms(2) by (cases r) auto

end

subsection \<open>In memory\<close>

record payload_entry =
  data :: bytes
  expiresAt :: "int option"

text \<open>The world of the adapter is its map and the clock.\<close>

record inmem_store =
  st_m :: "(string \<times> payload_entry) list"
  st_now :: int

definition store_New :: "int \<Rightarrow> inmem_store" where
  "store_New now = \<lparr>st_m = [], st_now = now\<rparr>"

definition store_Put :: "string \<Rightarrow> bytes \<Rightarrow> duration \<Rightarrow> inmem_store \<Rightarrow> go_error option \<times> inmem_store" where
  "store_Put key d ttl s =
     (let e = (if 0 < ttl then Some (st_now s + ttl) else None)
      in (None, s\<lparr>st_m := AList.update key \<lparr>data = d, expiresAt = e\<rparr> (st_m s)\<rparr>))"

definition expired :: "int \<Rightarrow> payload_entry \<Rightarrow> bool" where
  "expired now e = (case expiresAt e of None \<Rightarrow> False | Some t \<Rightarrow> t < now)"

definition store_Get :: "string \<Rightarrow> inmem_store \<Rightarrow> (go_error + bytes) \<times> inmem_store" where
  "store_Get key s =
     (case map_of (st_m s) key of
        None \<Rightarrow> (Inl ErrNotFound, s)
      | Some e \<Rightarrow>
          if expired (st_now s) e then (Inl ErrNotFound, s\<lparr>st_m := AList.delete key (st_m s)\<rparr>)
          else (Inr (data e), s))"

definition store_Delete :: "string \<Rightarrow> inmem_store \<Rightarrow> go_error option \<times> inmem_store" where
  "store_Delete key s = (None, s\<lparr>st_m := AList.delete key (st_m s)\<rparr>)"

text \<open>An entry that has expired but was not read since is still in the map, and extending its time
  brings it back.\<close>

definition store_ExtendTTL :: "string \<Rightarrow> duration \<Rightarrow> inmem_store \<Rightarrow> go_error option \<times> inmem_store" where
  "store_ExtendTTL key ttl s =
     (case map_of (st_m s) key of
        None \<Rightarrow> (Some ErrNotFound, s)
      | Some e \<Rightarrow>
          let t = (if ttl \<le> 0 then hour else ttl)
          in (None, s\<lparr>st_m := AList.update key (e\<lparr>expiresAt := Some (st_now s + t)\<rparr>) (st_m s)\<rparr>))"

definition store_Len :: "inmem_store \<Rightarrow> int" where
  "store_Len s = int (length (st_m s))"

definition store_if :: "inmem_store payload_if" where
  "store_if = \<lparr>ps_Put = store_Put, ps_Get = store_Get, ps_Delete = store_Delete, ps_ExtendTTL = store_ExtendTTL\<rparr>"

definition store_content :: "inmem_store \<Rightarrow> string \<Rightarrow> bytes option" where
  "store_content s k =
     (case map_of (st_m s) k of None \<Rightarrow> None | Some e \<Rightarrow> if expired (st_now s) e then None else Some (data e))"

lemma store_content_update [simp]:
  "store_content (s\<lparr>st_m := AList.update k e (st_m s)\<rparr>) =
     (store_content s)(k := (if expired (st_now s) e then None else Some (data e)))"
  by (simp add: fun_eq_iff store_content_def update_conv' split: option.split)

lemma store_content_delete [simp]:
  "store_content (s\<lparr>st_m := AList.delete k (st_m s)\<rparr>) = (store_content s)(k := None)"
  by (simp add: fun_eq_iff store_content_def delete_conv' split: option.split)

lemma store_content_Some:
  "store_content s k = Some v \<longleftrightarrow> (\<exists>e. map_of (st_m s) k = Some e \<and> \<not> expired (st_now s) e \<and> data e = v)"
  by (auto simp: store_content_def split: option.splits)

lemma store_content_None:
  "store_content s k = None \<longleftrightarrow> (\<forall>e. map_of (st_m s) k = Some e \<longrightarrow> expired (st_now s) e)"
  by (auto simp: store_content_def split: option.splits)

interpretation store: payload_store store_if store_content
proof
  fix k v ttl e w' r and s :: inmem_store
  show "ps_Put store_if k v ttl s = (None, w') \<Longrightarrow> store_content w' = (store_content s)(k := Some v)"
    by (auto simp: store_if_def store_Put_def expired_def)
  show "ps_Put store_if k v ttl s = (Some e, w') \<Longrightarrow> store_content w' = store_content s \<or> store_content w' = (store_content s)(k := Some v)"
    by (simp add: store_if_def store_Put_def)
  show "ps_Get store_if k s = (Inr v, w') \<Longrightarrow> store_content s k = Some v \<and> store_content w' = store_content s"
    by (auto simp: store_if_def store_Get_def store_content_Some split: option.splits if_splits)
  show "ps_Get store_if k s = (Inl e, w') \<Longrightarrow> (errors_is e ErrNotFound \<longrightarrow> store_content s k = None) \<and> store_content w' = store_content s"
    using store_content_None [of s k]
    by (auto simp: store_if_def store_Get_def fun_upd_idem split: option.splits if_splits)
  show "ps_Delete store_if k s = (None, w') \<Longrightarrow> store_content w' = (store_content s)(k := None)"
    by (auto simp: store_if_def store_Delete_def)
  show "ps_Delete store_if k s = (Some e, w') \<Longrightarrow> store_content w' = store_content s \<or> store_content w' = (store_content s)(k := None)"
    by (simp add: store_if_def store_Delete_def)
  show "ps_ExtendTTL store_if k ttl s = (r, w') \<Longrightarrow> store_content s k \<noteq> None \<Longrightarrow> store_content w' = store_content s"
    by (auto simp: store_if_def store_ExtendTTL_def store_content_Some expired_def Let_def fun_upd_idem
        split: option.splits if_splits)
qed

subsection \<open>In Redis\<close>

record payload_cfg =
  pc_KeyPrefix :: string
  pc_DefaultTTL :: duration

definition blob_key :: "payload_cfg \<Rightarrow> string \<Rightarrow> string" where
  "blob_key c k = pc_KeyPrefix c @ '':'' @ k"

text \<open>The configuration never changes after construction, so it is an argument of the methods and
  the database is the world.\<close>

definition rstore_New :: "bool \<Rightarrow> payload_cfg \<Rightarrow> go_error + payload_cfg" where
  "rstore_New nil_client c =
     (if nil_client then Inl (ErrText ''redispayload: nil redis client'')
      else if pc_KeyPrefix c = [] then Inl (ErrText ''redispayload: KeyPrefix is required'')
      else Inr c)"

definition effective_ttl :: "payload_cfg \<Rightarrow> duration \<Rightarrow> duration" where
  "effective_ttl c ttl = (if ttl \<le> 0 then pc_DefaultTTL c else ttl)"

definition rstore_Put :: "'d redis \<Rightarrow> payload_cfg \<Rightarrow> string \<Rightarrow> bytes \<Rightarrow> duration \<Rightarrow> 'd \<Rightarrow> go_error option \<times> 'd" where
  "rstore_Put R c key v ttl d =
     (let (r, d1) = rd_do R (SET (blob_key c key) v (effective_ttl c ttl) False) d
      in (map_option (Wrapped ''payload set: '') (reply_err r), d1))"

definition rstore_Get :: "'d redis \<Rightarrow> payload_cfg \<Rightarrow> string \<Rightarrow> 'd \<Rightarrow> (go_error + bytes) \<times> 'd" where
  "rstore_Get R c key d =
     (let (r, d1) = rd_do R (GET (blob_key c key)) d
      in case str_reply r of
           Inl e \<Rightarrow> if errors_is e RedisNil then (Inl ErrNotFound, d1) else (Inl (Wrapped ''payload get: '' e), d1)
         | Inr b \<Rightarrow> (Inr b, d1))"

definition rstore_Delete :: "'d redis \<Rightarrow> payload_cfg \<Rightarrow> string \<Rightarrow> 'd \<Rightarrow> go_error option \<times> 'd" where
  "rstore_Delete R c key d =
     (let (r, d1) = rd_do R (DEL [blob_key c key]) d
      in (map_option (Wrapped ''payload del: '') (reply_err r), d1))"

definition rstore_ExtendTTL :: "'d redis \<Rightarrow> payload_cfg \<Rightarrow> string \<Rightarrow> duration \<Rightarrow> 'd \<Rightarrow> go_error option \<times> 'd" where
  "rstore_ExtendTTL R c key ttl d =
     (let (r, d1) = rd_do R (EXPIRE (blob_key c key) (effective_ttl c ttl)) d
      in (map_option (Wrapped ''payload expire: '') (reply_err r), d1))"

definition rstore_if :: "'d redis \<Rightarrow> payload_cfg \<Rightarrow> 'd payload_if" where
  "rstore_if R c = \<lparr>ps_Put = rstore_Put R c, ps_Get = rstore_Get R c, ps_Delete = rstore_Delete R c, ps_ExtendTTL = rstore_ExtendTTL R c\<rparr>"

text \<open>The documented behaviour of the string commands. \<open>val d k\<close> is the unexpired value of a key;
  every command may also fail with an error other than the nil reply, before or after its effect.\<close>

definition faulty :: "redis_reply \<Rightarrow> bool" where
  "faulty r = (case r of RErr e \<Rightarrow> \<not> errors_is e RedisNil \<and> \<not> errors_is e ErrNotFound | _ \<Rightarrow> False)"

definition string_laws :: "'d redis \<Rightarrow> ('d \<Rightarrow> string \<Rightarrow> string option) \<Rightarrow> bool" where
  "string_laws R val \<longleftrightarrow>
     (\<forall>k v t d r d'. 0 \<le> t \<longrightarrow> rd_do R (SET k v t False) d = (r, d') \<longrightarrow>
        r = ROk \<and> val d' = (val d)(k := Some v) \<or>
        faulty r \<and> (val d' = val d \<or> val d' = (val d)(k := Some v))) \<and>
     (\<forall>k d r d'. rd_do R (GET k) d = (r, d') \<longrightarrow>
        val d' = val d \<and> (r = (case val d k of Some v \<Rightarrow> RBulk v | None \<Rightarrow> RNil) \<or> faulty r)) \<and>
     (\<forall>k d r d'. rd_do R (DEL [k]) d = (r, d') \<longrightarrow>
        (\<exists>n. r = RInt n) \<and> val d' = (val d)(k := None) \<or>
        faulty r \<and> (val d' = val d \<or> val d' = (val d)(k := None))) \<and>
     (\<forall>k t d r d'. 0 < t \<longrightarrow> rd_do R (EXPIRE k t) d = (r, d') \<longrightarrow>
        val d' = val d \<and> ((\<exists>n. r = RInt n) \<or> faulty r))"

definition rstore_content :: "('d \<Rightarrow> string \<Rightarrow> string option) \<Rightarrow> payload_cfg \<Rightarrow> 'd \<Rightarrow> string \<Rightarrow> bytes option" where
  "rstore_content val c d k = val d (blob_key c k)"

lemma blob_key_inject [simp]: "blob_key c k = blob_key c k' \<longleftrightarrow> k = k'"
  by (simp add: blob_key_def)

lemma faulty_err: "faulty r \<Longrightarrow> \<exists>e. r = RErr e \<and> \<not> errors_is e RedisNil \<and> \<not> errors_is e ErrNotFound"
  by (auto simp: faulty_def split: redis_reply.splits)

lemma content_upd:
  "rstore_content val c d' = (rstore_content val c d)(k := v)" if "val d' = (val d)(blob_key c k := v)"
  using that by (auto simp: rstore_content_def fun_eq_iff)

lemma rstore_contract:
  assumes "string_laws R val" and "0 < pc_DefaultTTL c"
  shows "payload_store (rstore_if R c) (rstore_content val c)"
proof
  have ttl: "0 < effective_ttl c t" for t using assms(2) by (simp add: effective_ttl_def)
  note L = assms(1) [unfolded string_laws_def]
  note set_law = L [THEN conjunct1, rule_format, OF less_imp_le [OF ttl]]
  note get_law = L [THEN conjunct2, THEN conjunct1, rule_format]
  note del_law = L [THEN conjunct2, THEN conjunct2, THEN conjunct1, rule_format]
  note exp_law = L [THEN conjunct2, THEN conjunct2, THEN conjunct2, rule_format, OF ttl]
  fix k v t e r and d d' :: 'a
  obtain r1 d1 where s: "rd_do R (SET (blob_key c k) v (effective_ttl c t) False) d = (r1, d1)" by fastforce
  show "ps_Put (rstore_if R c) k v t d = (None, d') \<Longrightarrow> rstore_content val c d' = (rstore_content val c d)(k := Some v)"
    using set_law [OF s] s content_upd [of val d1 d c k "Some v"]
    by (auto simp: rstore_if_def rstore_Put_def reply_err_def dest: faulty_err)
  show "ps_Put (rstore_if R c) k v t d = (Some e, d') \<Longrightarrow>
      rstore_content val c d' = rstore_content val c d \<or> rstore_content val c d' = (rstore_content val c d)(k := Some v)"
    using set_law [OF s] s content_upd [of val d1 d c k "Some v"]
    by (auto simp: rstore_if_def rstore_Put_def reply_err_def rstore_content_def)
  obtain r2 d2 where g: "rd_do R (GET (blob_key c k)) d = (r2, d2)" by fastforce
  show "ps_Get (rstore_if R c) k d = (Inr v, d') \<Longrightarrow> rstore_content val c d k = Some v \<and> rstore_content val c d' = rstore_content val c d"
    using get_law [OF g] g
    by (auto simp: rstore_if_def rstore_Get_def str_reply_def reply_err_def rstore_content_def
        split: if_splits option.splits dest!: faulty_err)
  show "ps_Get (rstore_if R c) k d = (Inl e, d') \<Longrightarrow>
      (errors_is e ErrNotFound \<longrightarrow> rstore_content val c d k = None) \<and> rstore_content val c d' = rstore_content val c d"
    using get_law [OF g] g
    by (auto simp: rstore_if_def rstore_Get_def str_reply_def reply_err_def rstore_content_def
        split: if_splits option.splits dest!: faulty_err)
  obtain r3 d3 where l: "rd_do R (DEL [blob_key c k]) d = (r3, d3)" by fastforce
  show "ps_Delete (rstore_if R c) k d = (None, d') \<Longrightarrow> rstore_content val c d' = (rstore_content val c d)(k := None)"
    using del_law [OF l] l content_upd [of val d3 d c k None]
    by (auto simp: rstore_if_def rstore_Delete_def reply_err_def dest: faulty_err)
  show "ps_Delete (rstore_if R c) k d = (Some e, d') \<Longrightarrow>
      rstore_content val c d' = rstore_content val c d \<or> rstore_content val c d' = (rstore_content val c d)(k := None)"
    using del_law [OF l] l content_upd [of val d3 d c k None]
    by (auto simp: rstore_if_def rstore_Delete_def reply_err_def rstore_content_def)
  obtain r4 d4 where x: "rd_do R (EXPIRE (blob_key c k) (effective_ttl c t)) d = (r4, d4)" by fastforce
  show "ps_ExtendTTL (rstore_if R c) k t d = (r, d') \<Longrightarrow> rstore_content val c d k \<noteq> None \<Longrightarrow> rstore_content val c d' = rstore_content val c d"
    using exp_law [OF x] x by (auto simp: rstore_if_def rstore_ExtendTTL_def rstore_content_def)
qed

section \<open>Seen keys\<close>

record 'w seen_if =
  sn_MarkSeen :: "string \<Rightarrow> 'w \<Rightarrow> (go_error + bool) \<times> 'w"
  sn_IsSeen :: "string \<Rightarrow> 'w \<Rightarrow> (go_error + bool) \<times> 'w"
  sn_CheckBatch :: "string list \<Rightarrow> 'w \<Rightarrow> (go_error + bool list) \<times> 'w"

text \<open>\<open>seen\<close> is the set of marked keys. Marking tells whether the key was marked before; an error may
  come before or after the marking.\<close>

locale dedup_seen =
  fixes D :: "'w seen_if"
    and seen :: "'w \<Rightarrow> string set"
  assumes mark: "sn_MarkSeen D k w = (Inr b, w') \<Longrightarrow> b = (k \<in> seen w) \<and> seen w' = insert k (seen w)"
    and mark_err: "sn_MarkSeen D k w = (Inl e, w') \<Longrightarrow> seen w' = seen w \<or> seen w' = insert k (seen w)"
    and is_seen: "sn_IsSeen D k w = (Inr b, w') \<Longrightarrow> b = (k \<in> seen w) \<and> seen w' = seen w"
    and is_seen_err: "sn_IsSeen D k w = (Inl e, w') \<Longrightarrow> seen w' = seen w"
    and batch: "sn_CheckBatch D ks w = (Inr bs, w') \<Longrightarrow> bs = map (\<lambda>k. k \<in> seen w) ks \<and> seen w' = seen w"
    and batch_err: "sn_CheckBatch D ks w = (Inl e, w') \<Longrightarrow> seen w' = seen w"

text \<open>A run of marks, one after the other, with their answers.\<close>

fun marks :: "'w seen_if \<Rightarrow> string list \<Rightarrow> 'w \<Rightarrow> (go_error + bool) list \<times> 'w" where
  "marks D [] w = ([], w)"
| "marks D (k # ks) w =
     (let (r, w1) = sn_MarkSeen D k w; (rs, w2) = marks D ks w1 in (r # rs, w2))"

context dedup_seen
begin

lemma seen_mono:
  assumes "sn_MarkSeen D k w = (r, w')"
  shows "seen w \<subseteq> seen w'" and "seen w' \<subseteq> insert k (seen w)"
  using assms mark [of k w _ w'] mark_err [of k w _ w'] by (cases r; blast)+

text \<open>A key is reported as new at most once, even when other marks fail.\<close>

lemma new_once:
  assumes "marks D ks w = (rs, w')"
  shows "length rs = length ks" and "seen w \<subseteq> seen w'"
    and "k \<in> seen w \<Longrightarrow> \<forall>i < length ks. ks ! i = k \<longrightarrow> rs ! i \<noteq> Inr False"
    and "\<forall>i j. i < j \<longrightarrow> j < length ks \<longrightarrow> ks ! i = ks ! j \<longrightarrow> \<not> (rs ! i = Inr False \<and> rs ! j = Inr False)"
proof -
  have "length rs = length ks \<and> seen w \<subseteq> seen w' \<and>
      (\<forall>k. k \<in> seen w \<longrightarrow> (\<forall>i < length ks. ks ! i = k \<longrightarrow> rs ! i \<noteq> Inr False)) \<and>
      (\<forall>i j. i < j \<longrightarrow> j < length ks \<longrightarrow> ks ! i = ks ! j \<longrightarrow> \<not> (rs ! i = Inr False \<and> rs ! j = Inr False))"
    using assms
  proof (induction ks arbitrary: w rs)
    case (Cons x ks)
    obtain r w1 where m: "sn_MarkSeen D x w = (r, w1)" by fastforce
    obtain rs1 where rs: "marks D ks w1 = (rs1, w')" "rs = r # rs1"
      using Cons.prems m by (auto split: prod.splits)
    note IH = Cons.IH [OF rs(1)]
    have mono: "seen w \<subseteq> seen w1" using m by (rule seen_mono)
    have new: "x \<in> seen w1" "x \<notin> seen w" if "r = Inr False" using mark [of x w False w1] m that by auto
    have "rs ! i \<noteq> Inr False" if "k \<in> seen w" "i < length (x # ks)" "(x # ks) ! i = k" for k i
      using that IH mono new(2) rs(2) by (cases i) auto
    moreover have "\<not> (rs ! i = Inr False \<and> rs ! j = Inr False)"
      if "i < j" "j < length (x # ks)" "(x # ks) ! i = (x # ks) ! j" for i j
    proof (cases i)
      case 0
      then show ?thesis using that IH new(1) rs(2) by (cases j) auto
    next
      case (Suc i')
      then show ?thesis using that IH rs(2) by (cases j) auto
    qed
    ultimately show ?case using IH mono rs(2) by auto
  qed simp
  then show "length rs = length ks" and "seen w \<subseteq> seen w'"
    and "k \<in> seen w \<Longrightarrow> \<forall>i < length ks. ks ! i = k \<longrightarrow> rs ! i \<noteq> Inr False"
    and "\<forall>i j. i < j \<longrightarrow> j < length ks \<longrightarrow> ks ! i = ks ! j \<longrightarrow> \<not> (rs ! i = Inr False \<and> rs ! j = Inr False)"
    by blast+
qed

end

subsection \<open>In memory\<close>

type_synonym inmem_seen = "string list"

definition seen_New :: inmem_seen where
  "seen_New = []"

definition seen_MarkSeen :: "string \<Rightarrow> inmem_seen \<Rightarrow> (go_error + bool) \<times> inmem_seen" where
  "seen_MarkSeen key s = (if key \<in> set s then (Inr True, s) else (Inr False, key # s))"

definition seen_IsSeen :: "string \<Rightarrow> inmem_seen \<Rightarrow> (go_error + bool) \<times> inmem_seen" where
  "seen_IsSeen key s = (Inr (key \<in> set s), s)"

definition seen_CheckBatch :: "string list \<Rightarrow> inmem_seen \<Rightarrow> (go_error + bool list) \<times> inmem_seen" where
  "seen_CheckBatch ks s = (Inr (map (\<lambda>k. k \<in> set s) ks), s)"

definition mem_seen_if :: "inmem_seen seen_if" where
  "mem_seen_if = \<lparr>sn_MarkSeen = seen_MarkSeen, sn_IsSeen = seen_IsSeen, sn_CheckBatch = seen_CheckBatch\<rparr>"

interpretation inmem_seen: dedup_seen mem_seen_if set
  by unfold_locales
     (auto simp: mem_seen_if_def seen_MarkSeen_def seen_IsSeen_def seen_CheckBatch_def split: if_splits)

subsection \<open>In Redis\<close>

record seen_cfg =
  sc_KeyPrefix :: string
  sc_TTL :: duration
  sc_UseBloom :: bool

definition seen_set_key :: "seen_cfg \<Rightarrow> string" where
  "seen_set_key c = sc_KeyPrefix c @ '':seen''"

definition seenKey :: "seen_cfg \<Rightarrow> string \<Rightarrow> string" where
  "seenKey c i = sc_KeyPrefix c @ '':seen:'' @ i"

definition dlqGuard :: "seen_cfg \<Rightarrow> string" where
  "dlqGuard c = sc_KeyPrefix c @ '':dlq:guard''"

definition bloomKey :: "seen_cfg \<Rightarrow> string" where
  "bloomKey c = sc_KeyPrefix c @ '':bloom''"

fun contains :: "string \<Rightarrow> string \<Rightarrow> bool" where
  "contains [] p = (p = [])"
| "contains (c # s) p = (has_prefix (c # s) p \<or> contains s p)"

definition isAlreadyExists :: "go_error option \<Rightarrow> bool" where
  "isAlreadyExists e =
     (case e of None \<Rightarrow> False
      | Some e \<Rightarrow> contains (err_string e) ''already exists'' \<or> contains (err_string e) ''BUSYKEY'')"

definition isUnknownCommand :: "go_error option \<Rightarrow> bool" where
  "isUnknownCommand e = (case e of None \<Rightarrow> False | Some e \<Rightarrow> contains (err_string e) ''unknown command'')"

definition rseen_New :: "'d redis \<Rightarrow> bool \<Rightarrow> seen_cfg \<Rightarrow> 'd \<Rightarrow> (go_error + seen_cfg) \<times> 'd" where
  "rseen_New R nil_client c d =
     (if nil_client then (Inl (ErrText ''redisseen: nil redis client''), d)
      else if sc_KeyPrefix c = [] then (Inl (ErrText ''redisseen: KeyPrefix is required''), d)
      else if sc_UseBloom c then
        (let (r, d1) = rd_do R (BF_RESERVE (bloomKey c)) d
         in case reply_err r of
              Some e \<Rightarrow>
                if isAlreadyExists (Some e) then (Inr c, d1)
                else if isUnknownCommand (Some e) then (Inl (Wrapped ''bf.reserve: RedisBloom module not loaded: '' e), d1)
                else (Inl (Wrapped ''bf.reserve: '' e), d1)
            | None \<Rightarrow> (Inr c, d1))
      else (Inr c, d))"

text \<open>One query: the command, how its reply is read, and the prefix of its errors.\<close>

definition query :: "'d redis \<Rightarrow> redis_cmd \<Rightarrow> (redis_reply \<Rightarrow> go_error + 'a) \<Rightarrow> string \<Rightarrow> ('a \<Rightarrow> 'b) \<Rightarrow> 'd \<Rightarrow> (go_error + 'b) \<times> 'd" where
  "query R c rd pre f d =
     (let (r, d1) = rd_do R c d in (case rd r of Inl e \<Rightarrow> Inl (Wrapped pre e) | Inr x \<Rightarrow> Inr (f x), d1))"

definition rseen_MarkSeen :: "'d redis \<Rightarrow> seen_cfg \<Rightarrow> string \<Rightarrow> 'd \<Rightarrow> (go_error + bool) \<times> 'd" where
  "rseen_MarkSeen R c key d =
     (if sc_UseBloom c then query R (BF_ADD (bloomKey c) key) int_reply ''bf.add: '' (\<lambda>n. n = 0) d
      else if sc_TTL c \<le> 0 then query R (SADD (seen_set_key c) key) int_reply ''sadd: '' (\<lambda>n. n = 0) d
      else query R (SET (seenKey c key) ''1'' (sc_TTL c) True) bool_reply ''setnx: '' Not d)"

definition rseen_IsSeen :: "'d redis \<Rightarrow> seen_cfg \<Rightarrow> string \<Rightarrow> 'd \<Rightarrow> (go_error + bool) \<times> 'd" where
  "rseen_IsSeen R c key d =
     (if sc_UseBloom c then query R (BF_EXISTS (bloomKey c) key) int_reply ''bf.exists: '' (\<lambda>n. 0 < n) d
      else if sc_TTL c \<le> 0 then query R (SISMEMBER (seen_set_key c) key) bool_reply ''sismember: '' id d
      else query R (EXISTS (seenKey c key)) int_reply ''exists: '' (\<lambda>n. 0 < n) d)"

definition smismember :: "'d redis \<Rightarrow> seen_cfg \<Rightarrow> string list \<Rightarrow> 'd \<Rightarrow> (go_error + bool list) \<times> 'd" where
  "smismember R c ks d =
     (let (rs, d1) = rd_pipe R (map (SISMEMBER (seen_set_key c)) ks) d
      in case pipe_err rs of
           Some e \<Rightarrow> (Inl e, d1)
         | None \<Rightarrow> (Inr (map (\<lambda>r. case bool_reply r of Inr b \<Rightarrow> b | Inl _ \<Rightarrow> False) rs), d1))"

fun exists_each :: "'d redis \<Rightarrow> seen_cfg \<Rightarrow> string list \<Rightarrow> 'd \<Rightarrow> (go_error + bool list) \<times> 'd" where
  "exists_each R c [] d = (Inr [], d)"
| "exists_each R c (k # ks) d =
     (case query R (EXISTS (seenKey c k)) int_reply ''exists: '' (\<lambda>n. 0 < n) d of
        (Inl e, d1) \<Rightarrow> (Inl e, d1)
      | (Inr b, d1) \<Rightarrow> (case exists_each R c ks d1 of (Inl e, d2) \<Rightarrow> (Inl e, d2) | (Inr bs, d2) \<Rightarrow> (Inr (b # bs), d2)))"

text \<open>The Bloom filter answers as many numbers as it was asked keys; further ones would be written
  past the end of the result.\<close>

definition rseen_CheckBatch :: "'d redis \<Rightarrow> seen_cfg \<Rightarrow> string list \<Rightarrow> 'd \<Rightarrow> (go_error + bool list) \<times> 'd" where
  "rseen_CheckBatch R c ks d =
     (if sc_UseBloom c then
        (let (r, d1) = rd_do R (BF_MEXISTS (bloomKey c) ks) d
         in case ints_reply r of
              Inl e \<Rightarrow> (Inl (Wrapped ''bf.mexists: '' e), d1)
            | Inr ns \<Rightarrow>
                if length ks < length ns then (Inl (Panic ''index out of range''), d1)
                else (Inr (map (\<lambda>n. 0 < n) ns @ replicate (length ks - length ns) False), d1))
      else if sc_TTL c \<le> 0 then smismember R c ks d
      else exists_each R c ks d)"

definition rseen_if :: "'d redis \<Rightarrow> seen_cfg \<Rightarrow> 'd seen_if" where
  "rseen_if R c = \<lparr>sn_MarkSeen = rseen_MarkSeen R c, sn_IsSeen = rseen_IsSeen R c, sn_CheckBatch = rseen_CheckBatch R c\<rparr>"

text \<open>The documented behaviour of the commands on sets and keys: \<open>mem d k\<close> are the members of the set
  at \<open>k\<close>, \<open>live d\<close> the unexpired keys.\<close>

definition seen_laws :: "'d redis \<Rightarrow> ('d \<Rightarrow> string \<Rightarrow> string set) \<Rightarrow> ('d \<Rightarrow> string set) \<Rightarrow> bool" where
  "seen_laws R mem live \<longleftrightarrow>
     (\<forall>k m d r d'. rd_do R (SADD k m) d = (r, d') \<longrightarrow>
        r = RInt (of_bool (m \<notin> mem d k)) \<and> mem d' = (mem d)(k := insert m (mem d k)) \<or>
        faulty r \<and> (mem d' = mem d \<or> mem d' = (mem d)(k := insert m (mem d k)))) \<and>
     (\<forall>k m d r d'. rd_do R (SISMEMBER k m) d = (r, d') \<longrightarrow>
        mem d' = mem d \<and> (r = RInt (of_bool (m \<in> mem d k)) \<or> faulty r)) \<and>
     (\<forall>k ms d rs d'. rd_pipe R (map (SISMEMBER k) ms) d = (rs, d') \<longrightarrow>
        mem d' = mem d \<and> (pipe_err rs = None \<longrightarrow> rs = map (\<lambda>m. RInt (of_bool (m \<in> mem d k))) ms)) \<and>
     (\<forall>k v t d r d'. 0 < t \<longrightarrow> rd_do R (SET k v t True) d = (r, d') \<longrightarrow>
        r = RInt (of_bool (k \<notin> live d)) \<and> live d' = insert k (live d) \<or>
        faulty r \<and> (live d' = live d \<or> live d' = insert k (live d))) \<and>
     (\<forall>k d r d'. rd_do R (EXISTS k) d = (r, d') \<longrightarrow>
        live d' = live d \<and> (r = RInt (of_bool (k \<in> live d)) \<or> faulty r))"

definition rseen_view :: "('d \<Rightarrow> string \<Rightarrow> string set) \<Rightarrow> ('d \<Rightarrow> string set) \<Rightarrow> seen_cfg \<Rightarrow> 'd \<Rightarrow> string set" where
  "rseen_view mem live c d = (if sc_TTL c \<le> 0 then mem d (seen_set_key c) else {k. seenKey c k \<in> live d})"

lemma seenKey_inject [simp]: "seenKey c k = seenKey c k' \<longleftrightarrow> k = k'"
  by (simp add: seenKey_def)

lemma reply_int_simps [simp]:
  "int_reply (RInt n) = Inr n" "bool_reply (RInt n) = Inr (n = 1)"
  by (simp_all add: int_reply_def bool_reply_def reply_err_def)

lemma faulty_replies:
  assumes "faulty r"
  shows "\<exists>e. int_reply r = Inl e" and "\<exists>e. bool_reply r = Inl e"
  using faulty_err [OF assms] by (auto simp: int_reply_def bool_reply_def reply_err_def)

lemma exists_each_view:
  assumes "\<And>k d r d'. rd_do R (EXISTS k) d = (r, d') \<Longrightarrow> live d' = live d \<and> (r = RInt (of_bool (k \<in> live d)) \<or> faulty r)"
    and "exists_each R c ks d = (res, d')"
  shows "live d' = live d \<and> (\<forall>bs. res = Inr bs \<longrightarrow> bs = map (\<lambda>k. seenKey c k \<in> live d) ks)"
  using assms(2)
proof (induction ks arbitrary: d res)
  case (Cons k ks)
  obtain r d1 where e: "rd_do R (EXISTS (seenKey c k)) d = (r, d1)" by fastforce
  note law = assms(1) [OF e]
  show ?case
  proof (cases "faulty r")
    case True
    then obtain x where "int_reply r = Inl x" using faulty_replies(1) by blast
    then show ?thesis using Cons.prems e law by (auto simp: query_def)
  next
    case False
    with law have r: "r = RInt (of_bool (seenKey c k \<in> live d))" and l: "live d1 = live d" by auto
    obtain res1 d2 where rest: "exists_each R c ks d1 = (res1, d2)" by fastforce
    with Cons.prems e r have "d' = d2" "res = map_sum id ((#) (seenKey c k \<in> live d)) res1"
      by (auto simp: query_def split: sum.splits)
    then show ?thesis using Cons.IH [of d1 res1] rest l by (cases res1) auto
  qed
qed simp

lemma view_insert:
  "{k'. seenKey c k' \<in> insert (seenKey c k) L} = insert k {k'. seenKey c k' \<in> L}"
  by auto

lemma rseen_contract:
  assumes "seen_laws R mem live" and "\<not> sc_UseBloom c"
  shows "dedup_seen (rseen_if R c) (rseen_view mem live c)"
proof
  note L = assms(1) [unfolded seen_laws_def]
  note sadd = L [THEN conjunct1, rule_format]
  note sis = L [THEN conjunct2, THEN conjunct1, rule_format]
  note pipe = L [THEN conjunct2, THEN conjunct2, THEN conjunct1, rule_format]
  note setnx = L [THEN conjunct2, THEN conjunct2, THEN conjunct2, THEN conjunct1, rule_format]
  note ex = L [THEN conjunct2, THEN conjunct2, THEN conjunct2, THEN conjunct2, rule_format]
  fix k ks b e bs and d d' :: 'a
  have mk: "(case res of Inr b \<Rightarrow> b = (k \<in> rseen_view mem live c d) \<and> rseen_view mem live c d' = insert k (rseen_view mem live c d)
      | Inl e \<Rightarrow> rseen_view mem live c d' = rseen_view mem live c d \<or> rseen_view mem live c d' = insert k (rseen_view mem live c d))"
    if "rseen_MarkSeen R c k d = (res, d')" for res
  proof (cases "sc_TTL c \<le> 0")
    case True
    obtain r d1 where s: "rd_do R (SADD (seen_set_key c) k) d = (r, d1)" by fastforce
    then show ?thesis using True that assms(2) sadd [OF s]
      by (auto simp: rseen_MarkSeen_def query_def rseen_view_def dest!: faulty_replies(1) split: sum.splits)
  next
    case False
    obtain r d1 where s: "rd_do R (SET (seenKey c k) ''1'' (sc_TTL c) True) d = (r, d1)" by fastforce
    have law: "r = RInt (of_bool (seenKey c k \<notin> live d)) \<and> live d1 = insert (seenKey c k) (live d) \<or>
        faulty r \<and> (live d1 = live d \<or> live d1 = insert (seenKey c k) (live d))"
      using setnx [OF _ s] False by simp
    have d1: "d' = d1" "res = map_sum (Wrapped ''setnx: '') Not (bool_reply r)"
      using that False assms(2) s by (auto simp: rseen_MarkSeen_def query_def split: sum.splits)
    show ?thesis
    proof (cases "faulty r")
      case True
      then obtain x where "bool_reply r = Inl x" using faulty_replies(2) by blast
      moreover have "live d1 = live d \<or> live d1 = insert (seenKey c k) (live d)" using law by auto
      ultimately show ?thesis using False d1 view_insert [of c k "live d"] by (auto simp: rseen_view_def)
    next
      case nf: False
      with law have "r = RInt (of_bool (seenKey c k \<notin> live d))" "live d1 = insert (seenKey c k) (live d)" by auto
      then show ?thesis using False d1 view_insert [of c k "live d"] by (auto simp: rseen_view_def)
    qed
  qed
  show "sn_MarkSeen (rseen_if R c) k d = (Inr b, d') \<Longrightarrow> b = (k \<in> rseen_view mem live c d) \<and> rseen_view mem live c d' = insert k (rseen_view mem live c d)"
    using mk [of "Inr b"] by (simp add: rseen_if_def)
  show "sn_MarkSeen (rseen_if R c) k d = (Inl e, d') \<Longrightarrow> rseen_view mem live c d' = rseen_view mem live c d \<or> rseen_view mem live c d' = insert k (rseen_view mem live c d)"
    using mk [of "Inl e"] by (simp add: rseen_if_def)
  have iss: "rseen_view mem live c d' = rseen_view mem live c d \<and> (\<forall>b. res = Inr b \<longrightarrow> b = (k \<in> rseen_view mem live c d))"
    if "rseen_IsSeen R c k d = (res, d')" for res
  proof (cases "sc_TTL c \<le> 0")
    case True
    obtain r d1 where s: "rd_do R (SISMEMBER (seen_set_key c) k) d = (r, d1)" by fastforce
    then show ?thesis using True that assms(2) sis [OF s]
      by (auto simp: rseen_IsSeen_def query_def rseen_view_def dest!: faulty_replies(2))
  next
    case False
    obtain r d1 where s: "rd_do R (EXISTS (seenKey c k)) d = (r, d1)" by fastforce
    have d1: "d' = d1" "res = map_sum (Wrapped ''exists: '') (\<lambda>n. 0 < n) (int_reply r)"
      using that False assms(2) s by (auto simp: rseen_IsSeen_def query_def split: sum.splits)
    have l: "live d1 = live d" and r: "r = RInt (of_bool (seenKey c k \<in> live d)) \<or> faulty r" using ex [OF s] by auto
    from r have "\<forall>b. res = Inr b \<longrightarrow> b = (seenKey c k \<in> live d)"
    proof
      assume "faulty r"
      then obtain x where "int_reply r = Inl x" using faulty_replies(1) by blast
      then show ?thesis using d1(2) by simp
    qed (simp add: d1(2))
    then show ?thesis using False d1(1) l by (simp add: rseen_view_def)
  qed
  show "sn_IsSeen (rseen_if R c) k d = (Inr b, d') \<Longrightarrow> b = (k \<in> rseen_view mem live c d) \<and> rseen_view mem live c d' = rseen_view mem live c d"
    and "sn_IsSeen (rseen_if R c) k d = (Inl e, d') \<Longrightarrow> rseen_view mem live c d' = rseen_view mem live c d"
    using iss [of "Inr b"] iss [of "Inl e"] by (simp_all add: rseen_if_def)
  have bt: "rseen_view mem live c d' = rseen_view mem live c d \<and> (\<forall>bs. res = Inr bs \<longrightarrow> bs = map (\<lambda>k. k \<in> rseen_view mem live c d) ks)"
    if "rseen_CheckBatch R c ks d = (res, d')" for res
  proof (cases "sc_TTL c \<le> 0")
    case True
    obtain rs d1 where s: "rd_pipe R (map (SISMEMBER (seen_set_key c)) ks) d = (rs, d1)" by fastforce
    then show ?thesis using True that assms(2) pipe [OF s]
      by (auto simp: rseen_CheckBatch_def smismember_def rseen_view_def split: option.splits)
  next
    case False
    then have e: "exists_each R c ks d = (res, d')" using that assms(2) by (simp add: rseen_CheckBatch_def)
    show ?thesis using False exists_each_view [of R live, OF ex e] by (auto simp: rseen_view_def)
  qed
  show "sn_CheckBatch (rseen_if R c) ks d = (Inr bs, d') \<Longrightarrow> bs = map (\<lambda>k. k \<in> rseen_view mem live c d) ks \<and> rseen_view mem live c d' = rseen_view mem live c d"
    and "sn_CheckBatch (rseen_if R c) ks d = (Inl e, d') \<Longrightarrow> rseen_view mem live c d' = rseen_view mem live c d"
    using bt [of "Inr bs"] bt [of "Inl e"] by (simp_all add: rseen_if_def)
qed

section \<open>A server with the documented behaviour\<close>

text \<open>Strings and sets without expiry: an instance of the laws, for the witnesses.\<close>

record mini_db =
  kv :: "(string \<times> string) list"
  sets :: "(string \<times> string) list"

fun mini_do :: "redis_cmd \<Rightarrow> mini_db \<Rightarrow> redis_reply \<times> mini_db" where
  "mini_do (SET k v t nx) d =
     (if nx then
        (if map_of (kv d) k \<noteq> None then (RInt 0, d) else (RInt 1, d\<lparr>kv := AList.update k v (kv d)\<rparr>))
      else (ROk, d\<lparr>kv := AList.update k v (kv d)\<rparr>))"
| "mini_do (GET k) d = (case map_of (kv d) k of Some v \<Rightarrow> RBulk v | None \<Rightarrow> RNil, d)"
| "mini_do (DEL ks) d = (RInt 1, d\<lparr>kv := fold AList.delete ks (kv d)\<rparr>)"
| "mini_do (EXPIRE k t) d = (RInt 1, d)"
| "mini_do (EXISTS k) d = (RInt (of_bool (map_of (kv d) k \<noteq> None)), d)"
| "mini_do (SADD k m) d =
     (RInt (of_bool ((k, m) \<notin> set (sets d))), d\<lparr>sets := List.insert (k, m) (sets d)\<rparr>)"
| "mini_do (SISMEMBER k m) d = (RInt (of_bool ((k, m) \<in> set (sets d))), d)"
| "mini_do _ d = (ROk, d)"

fun mini_pipe :: "redis_cmd list \<Rightarrow> mini_db \<Rightarrow> redis_reply list \<times> mini_db" where
  "mini_pipe [] d = ([], d)"
| "mini_pipe (c # cs) d = (let (r, d1) = mini_do c d; (rs, d2) = mini_pipe cs d1 in (r # rs, d2))"

definition mini_redis :: "mini_db redis" where
  "mini_redis = \<lparr>rd_do = mini_do, rd_pipe = mini_pipe, rd_tx = mini_pipe, rd_call = mini_do, rd_fault = (\<lambda>d. (None, d))\<rparr>"

lemma mini_string_laws: "string_laws mini_redis (\<lambda>d. map_of (kv d))"
  by (auto simp: string_laws_def mini_redis_def update_conv' delete_conv' split: option.splits)

lemma mini_pipe_members:
  "mini_pipe (map (SISMEMBER k) ms) d = (map (\<lambda>m. RInt (of_bool ((k, m) \<in> set (sets d)))) ms, d)"
  by (induction ms) simp_all

lemma mini_seen_laws: "seen_laws mini_redis (\<lambda>d k. {m. (k, m) \<in> set (sets d)}) (\<lambda>d. fst ` set (kv d))"
  by (auto simp: seen_laws_def mini_redis_def mini_pipe_members fun_eq_iff dom_update map_of_eq_None_iff
      dest: map_of_SomeD weak_map_of_SomeI intro: rev_image_eqI)

section \<open>Properties\<close>



text \<open>Among all the marks of a key, by whichever discoverer and however many other marks fail in
  between, at most one is told that the key is new: a match is not enqueued twice while its mark
  lives.\<close>

theorem mark_new_at_most_once:
  assumes "seen_laws R mem live" and "\<not> sc_UseBloom c" and "marks (rseen_if R c) ks d = (rs, d')"
    and "i < j" and "j < length ks" and "ks ! i = ks ! j"
  shows "\<not> (rs ! i = Inr False \<and> rs ! j = Inr False)"
  using dedup_seen.new_once(4) [OF rseen_contract [OF assms(1,2)] assms(3)] assms(4-6) by blast

theorem mark_new_at_most_once_witness:
  "\<exists>rs d'. marks (rseen_if mini_redis \<lparr>sc_KeyPrefix = ''s'', sc_TTL = 0, sc_UseBloom = False\<rparr>) [''7'', ''8'', ''7''] \<lparr>kv = [], sets = []\<rparr> = (rs, d') \<and>
     rs ! 0 = Inr False \<and> rs ! 2 \<noteq> Inr False"
proof -
  let ?m = "marks (rseen_if mini_redis \<lparr>sc_KeyPrefix = ''s'', sc_TTL = 0, sc_UseBloom = False\<rparr>) [''7'', ''8'', ''7''] \<lparr>kv = [], sets = []\<rparr>"
  obtain rs d' where m: "?m = (rs, d')" by fastforce
  have "fst ?m ! 0 = Inr False" by code_simp
  then have "rs ! 0 = Inr False" using m by simp
  then show ?thesis
    using m mark_new_at_most_once [OF mini_seen_laws _ m, of 0 2] by auto
qed

end
