(* ===== verification/ProxyPool.thy ===== *)
theory ProxyPool
  imports Prelude
begin

text \<open>
  Proxy leases: the port and the lease object (\<^verbatim>\<open>internal/proxy/pool.go\<close>), the rate limit and the
  ranking (\<^verbatim>\<open>internal/proxy/policy.go\<close>), the contract of a pool as the locale \<open>proxy_pool\<close>, and the
  in-memory pool (\<^verbatim>\<open>internal/proxy/inmem/pool.go\<close>).
\<close>

section \<open>Policies\<close>

record rate_limit =
  RatePerSec :: int
  Burst :: int
  Window :: duration

definition Disabled :: "rate_limit \<Rightarrow> bool" where
  "Disabled r \<longleftrightarrow> RatePerSec r \<le> 0 \<or> Burst r \<le> 0"

text \<open>The weights are exact numbers instead of \<^verbatim>\<open>float64\<close>.\<close>

record ranking =
  FailurePenalty :: rat
  SuccessBoost :: rat
  InitialWeight :: rat

definition WithDefaults :: "ranking \<Rightarrow> ranking" where
  "WithDefaults r =
     (let r1 = (if InitialWeight r = 0 then r\<lparr>InitialWeight := 100\<rparr> else r);
          r2 = (if SuccessBoost r1 = 0 then r1\<lparr>SuccessBoost := 1\<rparr> else r1)
      in if FailurePenalty r2 = 0 then r2\<lparr>FailurePenalty := 5\<rparr> else r2)"

section \<open>Leases\<close>

text \<open>The closures of a lease capture the pool and what identifies the lease there: \<open>token\<close> is what
  the release closure captured, \<open>URL\<close> what the other two did.\<close>

record lease =
  URL :: string
  token :: string
  released :: bool

record 'w pool_if =
  pl_Acquire :: "duration \<Rightarrow> 'w \<Rightarrow> (go_error + lease) \<times> 'w"
  pl_Size :: "'w \<Rightarrow> (go_error + int) \<times> 'w"
  pl_Replace :: "string list \<Rightarrow> 'w \<Rightarrow> go_error option \<times> 'w"
  pl_Add :: "string list \<Rightarrow> 'w \<Rightarrow> go_error option \<times> 'w"
  pl_release :: "string \<Rightarrow> 'w \<Rightarrow> go_error option \<times> 'w"
  pl_success :: "string \<Rightarrow> 'w \<Rightarrow> go_error option \<times> 'w"
  pl_failure :: "string \<Rightarrow> go_error option \<Rightarrow> 'w \<Rightarrow> go_error option \<times> 'w"

definition NewLease :: "string \<Rightarrow> string \<Rightarrow> lease" where
  "NewLease url tok = \<lparr>URL = url, token = tok, released = False\<rparr>"

text \<open>The compare-and-swap makes the release take effect once.\<close>

definition Release :: "'w pool_if \<Rightarrow> lease \<Rightarrow> 'w \<Rightarrow> go_error option \<times> lease \<times> 'w" where
  "Release P l w =
     (if released l then (None, l, w)
      else let (e, w1) = pl_release P (token l) w in (e, l\<lparr>released := True\<rparr>, w1))"

definition MarkSuccess :: "'w pool_if \<Rightarrow> lease \<Rightarrow> 'w \<Rightarrow> 'w" where
  "MarkSuccess P l w = snd (pl_success P (URL l) w)"

definition MarkFailure :: "'w pool_if \<Rightarrow> lease \<Rightarrow> go_error option \<Rightarrow> 'w \<Rightarrow> 'w" where
  "MarkFailure P l err w = snd (pl_failure P (URL l) err w)"

section \<open>The contract of a pool\<close>

text \<open>\<open>held\<close> are the tokens of the leases that were acquired and neither released nor expired.\<close>

locale proxy_pool =
  fixes P :: "'w pool_if"
    and invar :: "'w \<Rightarrow> bool"
    and held :: "'w \<Rightarrow> string set"
  assumes acquire: "invar w \<Longrightarrow> pl_Acquire P h w = (Inr l, w') \<Longrightarrow>
      invar w' \<and> \<not> released l \<and> token l \<notin> held w \<and> held w' = insert (token l) (held w)"
    and acquire_err: "invar w \<Longrightarrow> pl_Acquire P h w = (Inl e, w') \<Longrightarrow> invar w' \<and> held w' = held w"
    and release: "invar w \<Longrightarrow> pl_release P t w = (r, w') \<Longrightarrow> invar w' \<and> held w' = held w - {t}"
    and success: "invar w \<Longrightarrow> pl_success P u w = (r, w') \<Longrightarrow> invar w' \<and> held w' = held w"
    and failure: "invar w \<Longrightarrow> pl_failure P u c w = (r, w') \<Longrightarrow> invar w' \<and> held w' = held w"
begin

lemma Release_held:
  assumes "invar w" and "Release P l w = (e, l', w')"
  shows "invar w'" and "held w' = (if released l then held w else held w - {token l})"
  using assms release by (auto simp: Release_def split: if_splits prod.splits)

lemma MarkSuccess_held: "invar w \<Longrightarrow> invar (MarkSuccess P l w) \<and> held (MarkSuccess P l w) = held w"
  using success by (auto simp: MarkSuccess_def) (metis prod.collapse)+

lemma MarkFailure_held: "invar w \<Longrightarrow> invar (MarkFailure P l c w) \<and> held (MarkFailure P l c w) = held w"
  using failure by (auto simp: MarkFailure_def) (metis prod.collapse)+

text \<open>Acquire, use and release leaves the pool's leases as they were.\<close>

lemma acquire_release_balanced:
  assumes "invar w" and "pl_Acquire P h w = (Inr l, w1)" and "Release P l (MarkFailure P l c w1) = (e, l', w2)"
  shows "invar w2" and "held w2 = held w"
  using acquire [OF assms(1,2)] MarkFailure_held [of w1 l c] Release_held [OF _ assms(3)] by auto

end

section \<open>The in-memory pool\<close>

record pool_stats =
  Successes :: int
  Failures :: int

record inmem_pool =
  proxies :: "string list"
  cursor :: nat
  leased :: "string list"
  stats :: "(string \<times> pool_stats) list"

definition pool_New :: "string list \<Rightarrow> inmem_pool" where
  "pool_New initial = \<lparr>proxies = initial, cursor = 0, leased = [], stats = []\<rparr>"

text \<open>The scan from the cursor: \<open>n\<close> positions are left.\<close>

fun pool_scan :: "inmem_pool \<Rightarrow> nat \<Rightarrow> nat \<Rightarrow> (nat \<times> string) option" where
  "pool_scan p i 0 = None"
| "pool_scan p i (Suc n) =
     (let idx = (cursor p + i) mod length (proxies p); url = proxies p ! idx
      in if url \<in> set (leased p) then pool_scan p (Suc i) n else Some (idx, url))"

text \<open>\<open>ctx\<close> is the error of the context, if it has ended.\<close>

definition pool_Acquire :: "go_error option \<Rightarrow> inmem_pool \<Rightarrow> (go_error + lease) \<times> inmem_pool" where
  "pool_Acquire ctx p =
     (case ctx of
        Some e \<Rightarrow> (Inl e, p)
      | None \<Rightarrow>
          if proxies p = [] then (Inl ErrNoProxy, p)
          else
            case pool_scan p 0 (length (proxies p)) of
              None \<Rightarrow> (Inl ErrNoProxy, p)
            | Some (idx, url) \<Rightarrow>
                (Inr (NewLease url url),
                 p\<lparr>leased := url # leased p, cursor := (idx + 1) mod length (proxies p)\<rparr>))"

definition pool_Size :: "go_error option \<Rightarrow> inmem_pool \<Rightarrow> (go_error + int) \<times> inmem_pool" where
  "pool_Size ctx p = (case ctx of Some e \<Rightarrow> Inl e | None \<Rightarrow> Inr (int (length (proxies p))), p)"

definition pool_Replace :: "go_error option \<Rightarrow> string list \<Rightarrow> inmem_pool \<Rightarrow> go_error option \<times> inmem_pool" where
  "pool_Replace ctx healthy p =
     (case ctx of
        Some e \<Rightarrow> (Some e, p)
      | None \<Rightarrow> (None, p\<lparr>leased := filter (\<lambda>u. u \<in> set healthy) (leased p), proxies := healthy, cursor := 0\<rparr>))"

fun add_new :: "string list \<Rightarrow> string list \<Rightarrow> string list" where
  "add_new [] ps = ps"
| "add_new (u # us) ps = (if u \<in> set ps then add_new us ps else add_new us (ps @ [u]))"

definition pool_Add :: "go_error option \<Rightarrow> string list \<Rightarrow> inmem_pool \<Rightarrow> go_error option \<times> inmem_pool" where
  "pool_Add ctx healthy p =
     (case ctx of Some e \<Rightarrow> (Some e, p) | None \<Rightarrow> (None, p\<lparr>proxies := add_new healthy (proxies p)\<rparr>))"

definition StatsFor :: "string \<Rightarrow> inmem_pool \<Rightarrow> pool_stats" where
  "StatsFor url p = (case map_of (stats p) url of Some s \<Rightarrow> s | None \<Rightarrow> \<lparr>Successes = 0, Failures = 0\<rparr>)"

definition LeasedCount :: "inmem_pool \<Rightarrow> int" where
  "LeasedCount p = int (length (leased p))"

definition releaseFn :: "string \<Rightarrow> inmem_pool \<Rightarrow> go_error option \<times> inmem_pool" where
  "releaseFn url p = (None, p\<lparr>leased := removeAll url (leased p)\<rparr>)"

definition successFn :: "string \<Rightarrow> inmem_pool \<Rightarrow> go_error option \<times> inmem_pool" where
  "successFn url p =
     (let s = StatsFor url p
      in (None, p\<lparr>stats := AList.update url (s\<lparr>Successes := Successes s + 1\<rparr>) (stats p)\<rparr>))"

definition failureFn :: "string \<Rightarrow> go_error option \<Rightarrow> inmem_pool \<Rightarrow> go_error option \<times> inmem_pool" where
  "failureFn url cause p =
     (let s = StatsFor url p
      in (None, p\<lparr>stats := AList.update url (s\<lparr>Failures := Failures s + 1\<rparr>) (stats p)\<rparr>))"

definition mem_pool_if :: "go_error option \<Rightarrow> inmem_pool pool_if" where
  "mem_pool_if ctx =
     \<lparr>pl_Acquire = (\<lambda>h. pool_Acquire ctx), pl_Size = pool_Size ctx, pl_Replace = pool_Replace ctx, pl_Add = pool_Add ctx,
      pl_release = releaseFn, pl_success = successFn, pl_failure = failureFn\<rparr>"

lemma pool_scan_Some:
  assumes "pool_scan p i n = Some (idx, url)" and "proxies p \<noteq> []"
  shows "url \<in> set (proxies p)" and "url \<notin> set (leased p)" and "idx < length (proxies p)"
  using assms by (induction p i n rule: pool_scan.induct) (auto simp: Let_def split: if_splits)

lemma pool_scan_None:
  assumes "pool_scan p i n = None"
  shows "\<forall>j < n. proxies p ! ((cursor p + i + j) mod length (proxies p)) \<in> set (leased p)"
  using assms
proof (induction p i n rule: pool_scan.induct)
  case (2 p i n)
  then have "\<forall>j < n. proxies p ! ((cursor p + Suc i + j) mod length (proxies p)) \<in> set (leased p)"
    and "proxies p ! ((cursor p + i) mod length (proxies p)) \<in> set (leased p)"
    by (auto simp: Let_def split: if_splits)
  then show ?case by (auto simp: less_Suc_eq_0_disj)
qed simp

text \<open>The scan visits every position.\<close>

lemma pool_scan_all:
  assumes "pool_scan p 0 (length (proxies p)) = None"
  shows "set (proxies p) \<subseteq> set (leased p)"
proof
  fix u
  assume "u \<in> set (proxies p)"
  then obtain k where k: "k < length (proxies p)" "proxies p ! k = u" by (auto simp: in_set_conv_nth)
  let ?n = "length (proxies p)"
  define j where "j = (k + (?n - cursor p mod ?n)) mod ?n"
  have n: "0 < ?n" using k(1) by (rule le_less_trans [OF le0])
  have "(cursor p + j) mod ?n = (cursor p mod ?n + (k + (?n - cursor p mod ?n))) mod ?n"
    by (simp add: j_def mod_simps)
  also have "cursor p mod ?n + (k + (?n - cursor p mod ?n)) = k + ?n"
    using mod_less_divisor [OF n, of "cursor p"] by simp
  finally have "(cursor p + j) mod ?n = k" using k(1) by simp
  moreover have "j < ?n" using n by (simp add: j_def)
  ultimately show "u \<in> set (leased p)" using pool_scan_None [OF assms] k(2) by fastforce
qed

interpretation inmem_pool: proxy_pool "mem_pool_if ctx" "\<lambda>p. True" "\<lambda>p. set (leased p)" for ctx
  by unfold_locales
     (auto simp: mem_pool_if_def pool_Acquire_def releaseFn_def successFn_def failureFn_def NewLease_def Let_def
       dest: pool_scan_Some split: option.splits if_splits)

section \<open>Exclusive use\<close>

text \<open>The goroutines that share a pool as a step relation on the pool and the leases they hold. The
  replacement of the proxy list is not among the steps: it forgets the leases of proxies that are not
  in the new list.\<close>

inductive pool_step :: "inmem_pool \<times> lease list \<Rightarrow> inmem_pool \<times> lease list \<Rightarrow> bool" where
  acquire: "pool_Acquire ctx p = (Inr l, p') \<Longrightarrow> pool_step (p, ls) (p', l # ls)"
| refused: "pool_Acquire ctx p = (Inl e, p') \<Longrightarrow> pool_step (p, ls) (p', ls)"
| release: "l \<in> set ls \<Longrightarrow> Release (mem_pool_if ctx) l p = (e, l', p') \<Longrightarrow> pool_step (p, ls) (p', removeAll l ls)"
| success: "pool_step (p, ls) (MarkSuccess (mem_pool_if ctx) l p, ls)"
| failure: "pool_step (p, ls) (MarkFailure (mem_pool_if ctx) l c p, ls)"
| add: "pool_Add ctx us p = (e, p') \<Longrightarrow> pool_step (p, ls) (p', ls)"

inductive_cases pool_stepE: "pool_step s s'"

definition exclusive :: "inmem_pool \<times> lease list \<Rightarrow> bool" where
  "exclusive s \<longleftrightarrow>
     (\<forall>l \<in> set (snd s). \<not> released l \<and> token l = URL l) \<and>
     distinct (map URL (snd s)) \<and> set (map URL (snd s)) = set (leased (fst s))"

lemma pool_Acquire_Inr:
  assumes "pool_Acquire ctx p = (Inr l, p')"
  shows "\<not> released l \<and> token l = URL l \<and> URL l \<in> set (proxies p) \<and> URL l \<notin> set (leased p) \<and> leased p' = URL l # leased p"
  using assms by (auto simp: pool_Acquire_def NewLease_def dest: pool_scan_Some split: option.splits if_splits)

lemma pool_Acquire_Inl: "pool_Acquire ctx p = (Inl e, p') \<Longrightarrow> p' = p"
  by (auto simp: pool_Acquire_def split: option.splits if_splits)

lemma Mark_leased [simp]:
  "leased (MarkSuccess (mem_pool_if ctx) l p) = leased p" "leased (MarkFailure (mem_pool_if ctx) l c p) = leased p"
  by (simp_all add: MarkSuccess_def MarkFailure_def mem_pool_if_def successFn_def failureFn_def Let_def)

lemma Release_leased:
  "\<not> released l \<Longrightarrow> Release (mem_pool_if ctx) l p = (e, l', p') \<Longrightarrow> leased p' = removeAll (token l) (leased p)"
  by (auto simp: Release_def mem_pool_if_def releaseFn_def)

lemma removeAll_URL:
  assumes "distinct (map URL ls)" and "l \<in> set ls"
  shows "set (map URL (removeAll l ls)) = set (map URL ls) - {URL l}" and "distinct (map URL (removeAll l ls))"
proof -
  have "inj_on URL (set ls)" using assms(1) by (simp add: distinct_map)
  then show "set (map URL (removeAll l ls)) = set (map URL ls) - {URL l}"
    using assms(2) by (auto simp: inj_on_def)
  show "distinct (map URL (removeAll l ls))"
    using assms(1) by (simp add: removeAll_filter_not_eq distinct_map_filter)
qed

lemma exclusive_step: "pool_step s s' \<Longrightarrow> exclusive s \<Longrightarrow> exclusive s'"
proof (induction rule: pool_step.induct)
  case (acquire ctx p l p' ls)
  then show ?case using pool_Acquire_Inr [OF acquire(1)] by (auto simp: exclusive_def)
next
  case (refused ctx p e p' ls)
  then show ?case using pool_Acquire_Inl by blast
next
  case (release l ls ctx p e l' p')
  then have "\<not> released l" "token l = URL l" by (auto simp: exclusive_def)
  then have "leased p' = removeAll (URL l) (leased p)" using Release_leased release(2) by metis
  then show ?case
    using release(1,3) removeAll_URL [of ls l] by (auto simp: exclusive_def)
next
  case (add ctx us p e p' ls)
  then have "leased p' = leased p" by (auto simp: pool_Add_def split: option.splits)
  with add(2) show ?case by (simp add: exclusive_def)
qed (simp_all add: exclusive_def)

lemma exclusive_reachable: "pool_step\<^sup>*\<^sup>* s s' \<Longrightarrow> exclusive s \<Longrightarrow> exclusive s'"
  by (induction rule: rtranclp_induct) (auto intro: exclusive_step)

section \<open>Properties\<close>

text \<open>(C26) Two leases held at the same time are leases of different proxies: whatever goroutines
  acquire, release, report and add in whatever order, from a new pool with any list of proxies
  (repetitions included), the held leases have pairwise different URLs and are exactly what the pool
  counts as leased.\<close>

theorem inmem_lease_exclusive:
  assumes "pool_step\<^sup>*\<^sup>* (pool_New initial, []) (p, ls)"
  shows "distinct (map URL ls) \<and> set (map URL ls) = set (leased p)"
  using exclusive_reachable [OF assms] by (simp add: exclusive_def pool_New_def)

theorem inmem_lease_exclusive_witness:
  "\<exists>p ls. pool_step\<^sup>*\<^sup>* (pool_New [''a'', ''b'', ''a''], []) (p, ls) \<and> map URL ls = [''b'', ''a''] \<and>
     set (map URL ls) = set (leased p)"
proof -
  let ?p = "pool_New [''a'', ''b'', ''a'']"
  let ?p1 = "\<lparr>proxies = [''a'', ''b'', ''a''], cursor = 1, leased = [''a''], stats = []\<rparr>"
  let ?p2 = "\<lparr>proxies = [''a'', ''b'', ''a''], cursor = 2, leased = [''b'', ''a''], stats = []\<rparr>"
  let ?l1 = "NewLease ''a'' ''a''" and ?l2 = "NewLease ''b'' ''b''"
  have "pool_Acquire None ?p = (Inr ?l1, ?p1)" by code_simp
  then have s1: "pool_step (?p, []) (?p1, [?l1])" by (rule pool_step.acquire)
  have "pool_Acquire None ?p1 = (Inr ?l2, ?p2)" by code_simp
  then have s2: "pool_step (?p1, [?l1]) (?p2, [?l2, ?l1])" by (rule pool_step.acquire)
  have r: "pool_step\<^sup>*\<^sup>* (?p, []) (?p2, [?l2, ?l1])"
    by (rule converse_rtranclp_into_rtranclp [of pool_step, OF s1 r_into_rtranclp [of pool_step, OF s2]])
  have u: "map URL [?l2, ?l1] = [''b'', ''a'']" by (simp add: NewLease_def)
  have "set (map URL [?l2, ?l1]) = set (leased ?p2)" using inmem_lease_exclusive [OF r] by (rule conjunct2)
  with r u show ?thesis by (intro exI conjI)
qed

text \<open>The pool refuses a lease only when it has none to give: with a live context, acquiring fails
  with \<^verbatim>\<open>ErrNoProxy\<close> exactly when every proxy is leased (or there is none), and then changes
  nothing; otherwise it leases a proxy of the list that is free, the one at the cursor if that is
  free, and leaves the cursor behind it.\<close>

theorem inmem_acquire_complete:
  "(pool_Acquire None p = (Inl ErrNoProxy, p) \<longleftrightarrow> set (proxies p) \<subseteq> set (leased p)) \<and>
   (\<not> set (proxies p) \<subseteq> set (leased p) \<longrightarrow>
     (\<exists>l p'. pool_Acquire None p = (Inr l, p') \<and> URL l \<in> set (proxies p) - set (leased p) \<and>
       leased p' = URL l # leased p \<and>
       (proxies p ! (cursor p mod length (proxies p)) \<notin> set (leased p) \<longrightarrow>
         URL l = proxies p ! (cursor p mod length (proxies p)) \<and>
         cursor p' = (cursor p + 1) mod length (proxies p))))"
proof (cases "set (proxies p) \<subseteq> set (leased p)")
  case True
  have "proxies p = [] \<or> pool_scan p 0 (length (proxies p)) = None"
  proof (rule ccontr)
    assume ne: "\<not> ?thesis"
    then obtain idx url where "pool_scan p 0 (length (proxies p)) = Some (idx, url)" by fastforce
    with ne True pool_scan_Some [of p 0 "length (proxies p)" idx url] show False by blast
  qed
  with True show ?thesis by (auto simp: pool_Acquire_def)
next
  case False
  then have ne: "proxies p \<noteq> []" by auto
  obtain idx url where s: "pool_scan p 0 (length (proxies p)) = Some (idx, url)"
    using False pool_scan_all [of p] by (cases "pool_scan p 0 (length (proxies p))") auto
  then have a: "pool_Acquire None p = (Inr (NewLease url url),
      p\<lparr>leased := url # leased p, cursor := (idx + 1) mod length (proxies p)\<rparr>)"
    using ne by (simp add: pool_Acquire_def)
  have "idx = cursor p mod length (proxies p) \<and> url = proxies p ! (cursor p mod length (proxies p))"
    if "proxies p ! (cursor p mod length (proxies p)) \<notin> set (leased p)"
    using s that ne by (cases "length (proxies p)") (auto simp: Let_def)
  then show ?thesis using False a pool_scan_Some [OF s ne] by (auto simp: NewLease_def mod_simps)
qed

theorem inmem_acquire_complete_witness:
  "pool_Acquire None (pool_New []) = (Inl ErrNoProxy, pool_New []) \<and>
   (\<exists>l p'. pool_Acquire None (pool_New [''a'']) = (Inr l, p') \<and> URL l \<in> {''a''})"
  using inmem_acquire_complete [of "pool_New []"] inmem_acquire_complete [of "pool_New [''a'']"]
  by (auto simp: pool_New_def)

end
