(* ===== verification/HttpDo.thy ===== *)
theory HttpDo
  imports ProxyPool
begin

text \<open>
  Requests through leased proxies (\<^verbatim>\<open>internal/proxy/httpdo/doer.go\<close>) and the choice of the
  transport (\<^verbatim>\<open>internal/proxy/transport/transport.go\<close>): the retry loop with one lease per
  attempt, the classification of failures, and the bounded cache of clients. The network, the
  context and the clock are arguments that act on a world of arbitrary type; the pool is a value of
  the port.
\<close>

section \<open>Transports\<close>

record url =
  u_Scheme :: string
  u_Rest :: string

datatype transport = DirectDial | HttpProxy url | Socks5Dial url

definition lower_char :: "char \<Rightarrow> char" where
  "lower_char c = (let k = of_char c :: nat in if 65 \<le> k \<and> k \<le> 90 then char_of (k + 32) else c)"

text \<open>\<open>dialer\<close> is \<^verbatim>\<open>xproxy.FromURL\<close>: its error, or whether the dialer it made takes a context.\<close>

definition transport_For :: "(url \<Rightarrow> go_error + bool) \<Rightarrow> url option \<Rightarrow> go_error + transport" where
  "transport_For dialer pu =
     (case pu of
        None \<Rightarrow> Inr DirectDial
      | Some u \<Rightarrow>
          let s = map lower_char (u_Scheme u)
          in if s \<in> {''http'', ''https'', ''''} then Inr (HttpProxy u)
             else if s \<in> {''socks5'', ''socks5h''} then
               (let d = (if s = ''socks5h'' then u\<lparr>u_Scheme := ''socks5''\<rparr> else u)
                in case dialer d of
                     Inl e \<Rightarrow> Inl (Wrapped ''socks5 dialer: '' e)
                   | Inr ctx_ok \<Rightarrow>
                       if ctx_ok then Inr (Socks5Dial d) else Inl (ErrText ''socks5 dialer does not support context''))
             else Inl (ErrText (''unsupported proxy scheme: '' @ u_Scheme u)))"

section \<open>Requests and the world\<close>

record response =
  StatusCode :: int
  Body :: bytes

record ('w, 'q) http_env =
  he_pool :: "'w pool_if"
  he_parse :: "string \<Rightarrow> go_error + url"
  he_dialer :: "url \<Rightarrow> go_error + bool"
  he_send :: "transport \<Rightarrow> 'q \<Rightarrow> 'w \<Rightarrow> (go_error + response) \<times> 'w"
  he_read :: "response \<Rightarrow> 'w \<Rightarrow> (go_error + bytes) \<times> 'w"
  he_ctx :: "'w \<Rightarrow> go_error option"
  he_wait :: "duration \<Rightarrow> 'w \<Rightarrow> go_error option \<times> 'w"
  he_now :: "'w \<Rightarrow> int"

text \<open>\<open>he_ctx\<close> is \<^verbatim>\<open>ctx.Err()\<close>; \<open>he_wait\<close> is the \<^verbatim>\<open>select\<close> on the delay and the context, with the
  error of the context when that ended first.\<close>

record doer_cfg =
  Hold :: duration
  Timeout :: duration
  dc_MaxRetries :: int
  dc_Backoff :: duration
  AllowDirect :: bool

record client_entry =
  ce_client :: transport
  lastUsed :: int

record doer =
  transports :: "(string \<times> client_entry) list"
  accessOrder :: "string list"

definition doer_New :: "bool \<Rightarrow> doer_cfg \<Rightarrow> go_error + doer_cfg \<times> doer" where
  "doer_New nil_pool c =
     (if nil_pool then Inl (ErrText ''httpdo: pool required'')
      else Inr (c\<lparr>dc_MaxRetries := (if dc_MaxRetries c \<le> 0 then 5 else dc_MaxRetries c),
                  dc_Backoff := (if dc_Backoff c \<le> 0 then 250 * millisecond else dc_Backoff c),
                  Timeout := (if Timeout c \<le> 0 then 30 * second else Timeout c)\<rparr>,
                \<lparr>transports = [], accessOrder = []\<rparr>))"

definition isProxyFault :: "go_error option \<Rightarrow> bool" where
  "isProxyFault err = (case err of None \<Rightarrow> False | Some e \<Rightarrow> as_tls e \<noteq> None)"

definition IsPermanent :: "int \<Rightarrow> bool" where
  "IsPermanent code \<longleftrightarrow> code \<in> {400, 401, 403, 404, 410}"

section \<open>The client cache\<close>

definition maxCacheEntries :: nat where
  "maxCacheEntries = 100"

definition touchAccessOrder :: "string \<Rightarrow> doer \<Rightarrow> doer" where
  "touchAccessOrder k d = d\<lparr>accessOrder := remove1 k (accessOrder d) @ [k]\<rparr>"

definition evict_oldest :: "doer \<Rightarrow> doer" where
  "evict_oldest d =
     (case accessOrder d of
        [] \<Rightarrow> d
      | k # ks \<Rightarrow>
          if maxCacheEntries \<le> length (transports d) then d\<lparr>transports := AList.delete k (transports d), accessOrder := ks\<rparr>
          else d)"

definition getClient :: "('w, 'q) http_env \<Rightarrow> string \<Rightarrow> doer \<Rightarrow> 'w \<Rightarrow> (go_error + transport) \<times> doer" where
  "getClient E proxyURL d w =
     (case he_parse E proxyURL of
        Inl e \<Rightarrow> (Inl (Wrapped ''parse proxy url: '' e), d)
      | Inr pu \<Rightarrow>
          case map_of (transports d) proxyURL of
            Some entry \<Rightarrow>
              (Inr (ce_client entry),
               touchAccessOrder proxyURL (d\<lparr>transports := AList.update proxyURL (entry\<lparr>lastUsed := he_now E w\<rparr>) (transports d)\<rparr>))
          | None \<Rightarrow>
              case transport_For (he_dialer E) (Some pu) of
                Inl e \<Rightarrow> (Inl e, d)
              | Inr tr \<Rightarrow>
                  let d1 = evict_oldest d
                  in (Inr tr, d1\<lparr>transports := AList.update proxyURL \<lparr>ce_client = tr, lastUsed = he_now E w\<rparr> (transports d1),
                                accessOrder := accessOrder d1 @ [proxyURL]\<rparr>))"

definition direct_key :: string where
  "direct_key = ''__direct__''"

definition touch_direct :: "int \<Rightarrow> doer \<Rightarrow> transport \<times> doer" where
  "touch_direct now d =
     (let entry = (case map_of (transports d) direct_key of Some e \<Rightarrow> e | None \<Rightarrow> \<lparr>ce_client = DirectDial, lastUsed = now\<rparr>)
      in (ce_client entry, d\<lparr>transports := AList.update direct_key (entry\<lparr>lastUsed := now\<rparr>) (transports d)\<rparr>))"

definition evictIdleEntries :: "int \<Rightarrow> doer \<Rightarrow> doer" where
  "evictIdleEntries now d =
     (let ts = filter (\<lambda>(u, e). \<not> 10 * minute < now - lastUsed e) (transports d)
      in d\<lparr>transports := ts, accessOrder := filter (\<lambda>u. u \<in> fst ` set ts) (accessOrder d)\<rparr>)"

datatype cleanup_event = CleanupTick int | CleanupStop

fun cleanupLoop :: "cleanup_event list \<Rightarrow> doer \<Rightarrow> doer" where
  "cleanupLoop [] d = d"
| "cleanupLoop (CleanupStop # es) d = d"
| "cleanupLoop (CleanupTick now # es) d = cleanupLoop es (evictIdleEntries now d)"

definition doer_Close :: "doer \<Rightarrow> doer" where
  "doer_Close d = \<lparr>transports = [], accessOrder = []\<rparr>"

section \<open>Sending a request\<close>

definition doDirect :: "('w, 'q) http_env \<Rightarrow> 'q \<Rightarrow> doer \<Rightarrow> 'w \<Rightarrow> (go_error + response) \<times> doer \<times> 'w" where
  "doDirect E req d w =
     (let (tr, d1) = touch_direct (he_now E w) d; (r, w1) = he_send E tr req w in (r, d1, w1))"

text \<open>The use of a lease, up to but without its release. What the exchange means for the proxy is
  reported to the pool.\<close>

definition use_lease :: "('w, 'q) http_env \<Rightarrow> lease \<Rightarrow> 'q \<Rightarrow> doer \<Rightarrow> 'w \<Rightarrow> (go_error + response) \<times> doer \<times> 'w" where
  "use_lease E l req d w =
     (let P = he_pool E
      in case getClient E (URL l) d w of
           (Inl e, d1) \<Rightarrow> (Inl (Wrapped ''proxy transport: '' e), d1, MarkFailure P l (Some e) w)
         | (Inr tr, d1) \<Rightarrow>
             case he_send E tr req w of
               (Inl e, w1) \<Rightarrow> (Inl e, d1, MarkFailure P l (Some e) w1)
             | (Inr resp, w1) \<Rightarrow>
                 if 400 \<le> StatusCode resp then
                   (if StatusCode resp = 429 then
                      (let e = WrappedWith ErrRateLimited ('': HTTP '' @ itoa (StatusCode resp))
                       in (Inl e, d1, MarkFailure P l (Some e) w1))
                    else
                      (let e = PermanentHTTP (StatusCode resp) in (Inl e, d1, MarkFailure P l (Some e) w1)))
                 else
                   case he_read E resp w1 of
                     (Inl e, w2) \<Rightarrow> (Inl e, d1, MarkFailure P l (Some (Wrapped ''read body: '' e)) w2)
                   | (Inr b, w2) \<Rightarrow> (Inr (resp\<lparr>Body := b\<rparr>), d1, MarkSuccess P l w2))"

definition doWithLease :: "('w, 'q) http_env \<Rightarrow> doer_cfg \<Rightarrow> 'q \<Rightarrow> doer \<Rightarrow> 'w \<Rightarrow> (go_error + response) \<times> doer \<times> 'w" where
  "doWithLease E c req d w =
     (case pl_Acquire (he_pool E) (Hold c) w of
        (Inl e, w1) \<Rightarrow>
          if errors_is e ErrNoProxy then
            (if \<not> AllowDirect c then (Inl (Wrapped ''no proxy available: '' e), d, w1) else doDirect E req d w1)
          else (Inl (Wrapped ''acquire proxy: '' e), d, w1)
      | (Inr l, w1) \<Rightarrow>
          let (r, d2, w2) = use_lease E l req d w1;
              (_, _, w3) = Release (he_pool E) l w2
          in (r, d2, w3))"

text \<open>After the attempts: the direct request if it is allowed, otherwise the last error.\<close>

definition give_up :: "('w, 'q) http_env \<Rightarrow> doer_cfg \<Rightarrow> 'q \<Rightarrow> go_error option \<Rightarrow> doer \<Rightarrow> 'w \<Rightarrow> (go_error + response) \<times> doer \<times> 'w" where
  "give_up E c req lastErr d w =
     (if AllowDirect c then doDirect E req d w
      else (Inl (case lastErr of Some e \<Rightarrow> e
                 | None \<Rightarrow> ErrText (''exhausted '' @ itoa (dc_MaxRetries c) @ '' proxy attempts'')), d, w))"

text \<open>The loop, with the number of attempts left.\<close>

fun do_loop :: "('w, 'q) http_env \<Rightarrow> doer_cfg \<Rightarrow> 'q \<Rightarrow> nat \<Rightarrow> go_error option \<Rightarrow> doer \<Rightarrow> 'w \<Rightarrow> (go_error + response) \<times> doer \<times> 'w" where
  "do_loop E c req 0 lastErr d w = give_up E c req lastErr d w"
| "do_loop E c req (Suc n) lastErr d w =
     (case he_ctx E w of
        Some e \<Rightarrow> (Inl e, d, w)
      | None \<Rightarrow>
          case doWithLease E c req d w of
            (Inr resp, d1, w1) \<Rightarrow> (Inr resp, d1, w1)
          | (Inl err, d1, w1) \<Rightarrow>
              if (\<exists>code \<in> set_option (as_permanent err). IsPermanent code) then (Inl err, d1, w1)
              else if errors_is err ErrRateLimited then (Inl err, d1, w1)
              else
                case he_ctx E w1 of
                  Some e \<Rightarrow> (Inl e, d1, w1)
                | None \<Rightarrow>
                    if isProxyFault (Some err) then do_loop E c req n (Some err) d1 w1
                    else
                      case he_wait E (dc_Backoff c) w1 of
                        (Some e, w2) \<Rightarrow> (Inl e, d1, w2)
                      | (None, w2) \<Rightarrow> do_loop E c req n (Some err) d1 w2)"

declare do_loop.simps(2) [simp del]

definition Do :: "('w, 'q) http_env \<Rightarrow> doer_cfg \<Rightarrow> 'q \<Rightarrow> doer \<Rightarrow> 'w \<Rightarrow> (go_error + response) \<times> doer \<times> 'w" where
  "Do E c req d w = do_loop E c req (nat (dc_MaxRetries c)) None d w"

section \<open>Every lease is returned\<close>

text \<open>A client of a pool that keeps the pool's contract: the network, the waiting and the reading of
  bodies do not touch the pool.\<close>

locale lease_client =
  fixes E :: "('w, 'q) http_env"
    and invar :: "'w \<Rightarrow> bool"
    and held :: "'w \<Rightarrow> string set"
  assumes contract: "proxy_pool (he_pool E) invar held"
    and send: "invar w \<Longrightarrow> he_send E tr req w = (r, w') \<Longrightarrow> invar w' \<and> held w' = held w"
    and read: "invar w \<Longrightarrow> he_read E resp w = (b, w') \<Longrightarrow> invar w' \<and> held w' = held w"
    and wait: "invar w \<Longrightarrow> he_wait E t w = (e, w') \<Longrightarrow> invar w' \<and> held w' = held w"

sublocale lease_client \<subseteq> pool: proxy_pool "he_pool E" invar held
  by (rule contract)

context lease_client
begin

lemma doDirect_held:
  "invar w \<Longrightarrow> doDirect E req d w = (r, d', w') \<Longrightarrow> invar w' \<and> held w' = held w"
  using send by (auto simp: doDirect_def Let_def split: prod.splits)

lemma use_lease_held:
  assumes "invar w" and "use_lease E l req d w = (r, d', w')"
  shows "invar w' \<and> held w' = held w"
proof -
  obtain g d1 where g: "getClient E (URL l) d w = (g, d1)" by fastforce
  show ?thesis
  proof (cases g)
    case (Inl e)
    then show ?thesis using assms g pool.MarkFailure_held by (auto simp: use_lease_def Let_def)
  next
    case (Inr tr)
    obtain s w1 where s: "he_send E tr req w = (s, w1)" by fastforce
    have w1: "invar w1" "held w1 = held w" using send [OF assms(1) s] by auto
    show ?thesis
    proof (cases s)
      case (Inl e)
      then show ?thesis using assms g Inr s w1 pool.MarkFailure_held by (auto simp: use_lease_def Let_def)
    next
      case resp: (Inr resp)
      obtain b w2 where b: "he_read E resp w1 = (b, w2)" by fastforce
      have w2: "invar w2" "held w2 = held w" using read [OF w1(1) b] w1 by auto
      show ?thesis using assms g Inr s resp b w1 w2 pool.MarkFailure_held pool.MarkSuccess_held
        by (auto simp: use_lease_def Let_def split: sum.splits if_splits)
    qed
  qed
qed

lemma doWithLease_held:
  assumes "invar w" and "doWithLease E c req d w = (r, d', w')"
  shows "invar w' \<and> held w' = held w"
proof -
  obtain a w1 where a: "pl_Acquire (he_pool E) (Hold c) w = (a, w1)" by fastforce
  show ?thesis
  proof (cases a)
    case (Inl e)
    then have "invar w1 \<and> held w1 = held w" using pool.acquire_err [OF assms(1)] a by simp
    then show ?thesis using assms(2) a Inl doDirect_held [of w1]
      by (auto simp: doWithLease_def split: if_splits)
  next
    case (Inr l)
    then have w1: "invar w1" "\<not> released l" "token l \<notin> held w" "held w1 = insert (token l) (held w)"
      using pool.acquire [OF assms(1)] a by auto
    obtain u d2 w2 where u: "use_lease E l req d w1 = (u, d2, w2)" by (metis prod.exhaust)
    have w2: "invar w2" "held w2 = held w1" using use_lease_held [OF w1(1) u] by auto
    obtain e l' w3 where rel: "Release (he_pool E) l w2 = (e, l', w3)" by (metis prod.exhaust)
    from pool.Release_held [OF w2(1) rel] have w3: "invar w3" "held w3 = held w2 - {token l}" using w1(2) by auto
    have "w' = w3" using assms(2) a Inr u rel by (simp add: doWithLease_def)
    then show ?thesis using w1 w2 w3 by auto
  qed
qed

lemma do_loop_held:
  "invar w \<Longrightarrow> do_loop E c req n le d w = (r, d', w') \<Longrightarrow> invar w' \<and> held w' = held w"
proof (induction n arbitrary: le d w)
  case 0
  then show ?case using doDirect_held by (auto simp: give_up_def split: if_splits)
next
  case (Suc n)
  obtain x d1 w1 where l: "doWithLease E c req d w = (x, d1, w1)" by (metis prod.exhaust)
  have w1: "invar w1" "held w1 = held w" using doWithLease_held [OF Suc.prems(1) l] by auto
  obtain y w2 where y: "he_wait E (dc_Backoff c) w1 = (y, w2)" by fastforce
  have w2: "invar w2" "held w2 = held w" using wait [OF w1(1) y] w1 by auto
  show ?case
    using Suc.prems(2) Suc.IH [OF w1(1)] Suc.IH [OF w2(1)] w1 w2 l y Suc.prems(1)
    by (simp add: do_loop.simps(2) split: option.splits sum.splits if_splits)
qed

lemma Do_held: "invar w \<Longrightarrow> Do E c req d w = (r, d', w') \<Longrightarrow> invar w' \<and> held w' = held w"
  unfolding Do_def by (rule do_loop_held)

end

text \<open>The in-memory pool next to the rest of the world.\<close>

definition beside :: "'p pool_if \<Rightarrow> ('p \<times> 'x) pool_if" where
  "beside P =
     (\<lparr>pl_Acquire = (\<lambda>h (p, x). let (r, p') = pl_Acquire P h p in (r, (p', x))),
          pl_Size = (\<lambda>(p, x). let (r, p') = pl_Size P p in (r, (p', x))),
          pl_Replace = (\<lambda>us (p, x). let (r, p') = pl_Replace P us p in (r, (p', x))),
          pl_Add = (\<lambda>us (p, x). let (r, p') = pl_Add P us p in (r, (p', x))),
          pl_release = (\<lambda>t (p, x). let (r, p') = pl_release P t p in (r, (p', x))),
          pl_success = (\<lambda>u (p, x). let (r, p') = pl_success P u p in (r, (p', x))),
          pl_failure = (\<lambda>u e (p, x). let (r, p') = pl_failure P u e p in (r, (p', x)))\<rparr>)"

definition mem_env :: "go_error option \<Rightarrow> (string \<Rightarrow> go_error + url) \<Rightarrow> (transport \<Rightarrow> 'q \<Rightarrow> 'x \<Rightarrow> (go_error + response) \<times> 'x) \<Rightarrow> (inmem_pool \<times> 'x, 'q) http_env" where
  "mem_env ctx parse net =
     \<lparr>he_pool = beside (mem_pool_if ctx), he_parse = parse, he_dialer = (\<lambda>u. Inr True),
      he_send = (\<lambda>tr req (p, x). let (r, x') = net tr req x in (r, (p, x'))),
      he_read = (\<lambda>resp w. (Inr (Body resp), w)), he_ctx = (\<lambda>w. ctx), he_wait = (\<lambda>t w. (ctx, w)), he_now = (\<lambda>w. 0)\<rparr>"

lemma beside_contract:
  assumes "proxy_pool P invar held"
  shows "proxy_pool (beside P) (\<lambda>w. invar (fst w)) (\<lambda>w. held (fst w))"
proof
  fix h l e t u c r and w w' :: "'a \<times> 'b"
  obtain p x where w: "w = (p, x)" by fastforce
  assume inv: "invar (fst w)"
  then have p: "invar p" using w by simp
  obtain a p1 where a: "pl_Acquire P h p = (a, p1)" by fastforce
  show "pl_Acquire (beside P) h w = (Inr l, w') \<Longrightarrow>
      invar (fst w') \<and> \<not> released l \<and> token l \<notin> held (fst w) \<and> held (fst w') = insert (token l) (held (fst w))"
    using proxy_pool.acquire [OF assms p] a w by (auto simp: beside_def)
  show "pl_Acquire (beside P) h w = (Inl e, w') \<Longrightarrow> invar (fst w') \<and> held (fst w') = held (fst w)"
    using proxy_pool.acquire_err [OF assms p] a w by (auto simp: beside_def)
  obtain r2 p2 where "pl_release P t p = (r2, p2)" by fastforce
  then show "pl_release (beside P) t w = (r, w') \<Longrightarrow> invar (fst w') \<and> held (fst w') = held (fst w) - {t}"
    using proxy_pool.release [OF assms p] w by (auto simp: beside_def)
  obtain r3 p3 where "pl_success P u p = (r3, p3)" by fastforce
  then show "pl_success (beside P) u w = (r, w') \<Longrightarrow> invar (fst w') \<and> held (fst w') = held (fst w)"
    using proxy_pool.success [OF assms p] w by (auto simp: beside_def)
  obtain r4 p4 where "pl_failure P u c p = (r4, p4)" by fastforce
  then show "pl_failure (beside P) u c w = (r, w') \<Longrightarrow> invar (fst w') \<and> held (fst w') = held (fst w)"
    using proxy_pool.failure [OF assms p] w by (auto simp: beside_def)
qed

interpretation mem_client: lease_client "mem_env ctx parse net" "\<lambda>w. True" "\<lambda>w. set (leased (fst w))" for ctx parse net
proof (rule lease_client.intro)
  have "proxy_pool (mem_pool_if ctx) (\<lambda>p. True) (\<lambda>p. set (leased p))"
    by (rule inmem_pool.proxy_pool_axioms)
  from beside_contract [OF this] show "proxy_pool (he_pool (mem_env ctx parse net)) (\<lambda>w. True) (\<lambda>w. set (leased (fst w)))"
    by (simp add: mem_env_def)
qed (auto simp: mem_env_def split: prod.splits)

section \<open>Properties of a request\<close>

lemma doWithLease_status:
  assumes "\<not> AllowDirect c" and "doWithLease E c req d w = (Inr resp, d', w')"
  shows "StatusCode resp < 400"
  using assms
  by (auto simp: doWithLease_def use_lease_def Let_def split: sum.splits if_splits prod.splits)

lemma do_loop_status:
  assumes "\<not> AllowDirect c" and "do_loop E c req n le d w = (Inr resp, d', w')"
  shows "StatusCode resp < 400"
  using assms(2)
proof (induction n arbitrary: le d w)
  case 0
  then show ?case using assms(1) by (simp add: give_up_def)
next
  case (Suc n)
  obtain x d1 w1 where l: "doWithLease E c req d w = (x, d1, w1)" by (metis prod.exhaust)
  show ?case
    using Suc.prems Suc.IH l doWithLease_status [OF assms(1), of E req d w]
    by (auto simp: do_loop.simps(2) split: option.splits sum.splits if_splits prod.splits)
qed

text \<open>A measure of the world that counts the leases asked for.\<close>

definition counts_acquires :: "('w, 'q) http_env \<Rightarrow> ('w \<Rightarrow> nat) \<Rightarrow> bool" where
  "counts_acquires E cnt \<longleftrightarrow>
     (\<forall>h w r w'. pl_Acquire (he_pool E) h w = (r, w') \<longrightarrow> cnt w' = Suc (cnt w)) \<and>
     (\<forall>t w r w'. pl_release (he_pool E) t w = (r, w') \<longrightarrow> cnt w' = cnt w) \<and>
     (\<forall>u w r w'. pl_success (he_pool E) u w = (r, w') \<longrightarrow> cnt w' = cnt w) \<and>
     (\<forall>u e w r w'. pl_failure (he_pool E) u e w = (r, w') \<longrightarrow> cnt w' = cnt w) \<and>
     (\<forall>tr q w r w'. he_send E tr q w = (r, w') \<longrightarrow> cnt w' = cnt w) \<and>
     (\<forall>x w r w'. he_read E x w = (r, w') \<longrightarrow> cnt w' = cnt w) \<and>
     (\<forall>t w r w'. he_wait E t w = (r, w') \<longrightarrow> cnt w' = cnt w)"

lemma counts_simps:
  assumes "counts_acquires E cnt"
  shows "cnt (MarkFailure (he_pool E) l e w) = cnt w" and "cnt (MarkSuccess (he_pool E) l w) = cnt w"
    and "Release (he_pool E) l w = (x, l', w') \<Longrightarrow> cnt w' = cnt w"
  using assms unfolding counts_acquires_def MarkFailure_def MarkSuccess_def Release_def
  by (metis prod.collapse, metis prod.collapse, auto split: if_splits prod.splits)

lemma doDirect_count: "counts_acquires E cnt \<Longrightarrow> doDirect E req d w = (r, d', w') \<Longrightarrow> cnt w' = cnt w"
  by (auto simp: doDirect_def counts_acquires_def Let_def split: prod.splits)

lemma use_lease_count:
  assumes "counts_acquires E cnt" and "use_lease E l req d w = (r, d', w')"
  shows "cnt w' = cnt w"
proof -
  have s: "he_send E tr req w = (x, w1) \<Longrightarrow> cnt w1 = cnt w" for tr x w1 using assms(1) by (simp add: counts_acquires_def)
  have b: "he_read E y w1 = (x, w2) \<Longrightarrow> cnt w2 = cnt w1" for y x w1 w2 using assms(1) by (simp add: counts_acquires_def)
  from assms(2) show ?thesis
    by (auto simp: use_lease_def Let_def counts_simps(1,2) [OF assms(1)] dest!: s b split: sum.splits if_splits prod.splits)
qed

lemma doWithLease_count:
  assumes "counts_acquires E cnt" and "doWithLease E c req d w = (r, d', w')"
  shows "cnt w' = Suc (cnt w)"
proof -
  obtain a w1 where a: "pl_Acquire (he_pool E) (Hold c) w = (a, w1)" by fastforce
  then have w1: "cnt w1 = Suc (cnt w)" using assms(1) by (simp add: counts_acquires_def)
  show ?thesis
    using assms(2) a w1 doDirect_count [OF assms(1), of req d w1] use_lease_count [OF assms(1), of _ req d w1]
      counts_simps(3) [OF assms(1)]
    by (fastforce simp: doWithLease_def split: sum.splits if_splits prod.splits)
qed

lemma do_loop_count:
  assumes "counts_acquires E cnt"
  shows "do_loop E c req n le d w = (r, d', w') \<Longrightarrow> cnt w' \<le> cnt w + n"
proof (induction n arbitrary: le d w)
  case 0
  then show ?case using doDirect_count [OF assms] by (auto simp: give_up_def split: if_splits)
next
  case (Suc n)
  obtain x d1 w1 where l: "doWithLease E c req d w = (x, d1, w1)" by (metis prod.exhaust)
  note w1 = doWithLease_count [OF assms l]
  obtain y w2 where y: "he_wait E (dc_Backoff c) w1 = (y, w2)" by fastforce
  then have w2: "cnt w2 = cnt w1" using assms by (simp add: counts_acquires_def)
  show ?case using Suc.prems Suc.IH [of "Some _" d1 w1] Suc.IH [of "Some _" d1 w2] l y w1 w2
    by (fastforce simp: do_loop.simps(2) split: option.splits sum.splits if_splits)
qed

text \<open>(C7) A request never leaks a proxy: whatever the network, the pool and the context do, when the
  request returns, with a response or with an error, the leases the pool counts as held are the ones
  it counted before. This holds for every pool that keeps the pool contract.\<close>

theorem request_returns_leases:
  assumes "lease_client E invar held" and "invar w" and "Do E c req d w = (r, d', w')"
  shows "invar w' \<and> held w' = held w"
  using lease_client.Do_held [OF assms] .

definition sample_net :: "transport \<Rightarrow> string \<Rightarrow> int list \<Rightarrow> (go_error + response) \<times> int list" where
  "sample_net tr req codes =
     (case codes of [] \<Rightarrow> (Inl (ErrText ''EOF''), []) | s # ss \<Rightarrow> (Inr \<lparr>StatusCode = s, Body = ''x''\<rparr>, ss))"

definition sample_env :: "(inmem_pool \<times> int list, string) http_env" where
  "sample_env = mem_env None (\<lambda>u. Inr \<lparr>u_Scheme = ''http'', u_Rest = u\<rparr>) sample_net"

definition sample_doer_cfg :: doer_cfg where
  "sample_doer_cfg = \<lparr>Hold = second, Timeout = second, dc_MaxRetries = 3, dc_Backoff = millisecond, AllowDirect = False\<rparr>"

theorem request_returns_leases_witness:
  "case Do sample_env sample_doer_cfg ''GET /'' \<lparr>transports = [], accessOrder = []\<rparr> (pool_New [''a'', ''b''], [503, 200]) of
     (r, d', w') \<Rightarrow> r = Inr \<lparr>StatusCode = 200, Body = ''x''\<rparr> \<and> set (leased (fst w')) = {}"
proof -
  let ?do = "Do sample_env sample_doer_cfg ''GET /'' \<lparr>transports = [], accessOrder = []\<rparr> (pool_New [''a'', ''b''], [503, 200])"
  obtain r d' w' where d: "?do = (r, d', w')" by (metis prod.exhaust)
  have "fst ?do = Inr \<lparr>StatusCode = 200, Body = ''x''\<rparr>" by code_simp
  moreover have "lease_client sample_env (\<lambda>w. True) (\<lambda>w. set (leased (fst w)))"
    unfolding sample_env_def by (rule mem_client.lease_client_axioms)
  note request_returns_leases [OF this _ d]
  ultimately show ?thesis using d by (simp add: pool_New_def)
qed

text \<open>A request that may not go around the proxies asks for at most \<^verbatim>\<open>MaxRetries\<close> leases, and
  what it returns as a response has a status below 400: an error status is always an error.\<close>

theorem request_bounded_and_classified:
  assumes "counts_acquires E cnt" and "Do E c req d w = (r, d', w')"
  shows "cnt w' \<le> cnt w + nat (dc_MaxRetries c) \<and>
    (\<not> AllowDirect c \<longrightarrow> (\<forall>resp. r = Inr resp \<longrightarrow> StatusCode resp < 400))"
  using do_loop_count [OF assms(1)] do_loop_status [of c E req] assms(2) unfolding Do_def by metis

text \<open>An environment beside a counter of the leases asked for.\<close>

definition counted :: "('w, 'q) http_env \<Rightarrow> ('w \<times> nat, 'q) http_env" where
  "counted E =
     \<lparr>he_pool = (beside (he_pool E))\<lparr>pl_Acquire := (\<lambda>h (w, n). let (r, w') = pl_Acquire (he_pool E) h w in (r, (w', Suc n)))\<rparr>,
      he_parse = he_parse E, he_dialer = he_dialer E,
      he_send = (\<lambda>tr q (w, n). let (r, w') = he_send E tr q w in (r, (w', n))),
      he_read = (\<lambda>x (w, n). let (r, w') = he_read E x w in (r, (w', n))),
      he_ctx = (\<lambda>(w, n). he_ctx E w),
      he_wait = (\<lambda>t (w, n). let (r, w') = he_wait E t w in (r, (w', n))),
      he_now = (\<lambda>(w, n). he_now E w)\<rparr>"

lemma counted_counts: "counts_acquires (counted E) snd"
  by (auto simp: counts_acquires_def counted_def beside_def split: prod.splits)

theorem request_bounded_and_classified_witness:
  "case Do (counted sample_env) sample_doer_cfg ''GET /'' \<lparr>transports = [], accessOrder = []\<rparr> ((pool_New [''a''], [500, 500, 500, 500]), 0) of
     (r, d', w') \<Rightarrow> r = Inl (PermanentHTTP 500) \<and> snd w' \<le> 3"
proof -
  let ?do = "Do (counted sample_env) sample_doer_cfg ''GET /'' \<lparr>transports = [], accessOrder = []\<rparr> ((pool_New [''a''], [500, 500, 500, 500]), 0)"
  obtain r d' w' where d: "?do = (r, d', w')" by (metis prod.exhaust)
  have "fst ?do = Inl (PermanentHTTP 500)" by code_simp
  with d request_bounded_and_classified [OF counted_counts d] show ?thesis
    by (simp add: sample_doer_cfg_def)
qed

section \<open>The cache stays small and consistent\<close>

text \<open>The access order lists every cached proxy once; only the entry of the direct client is not in
  it.\<close>

definition cache_ok :: "doer \<Rightarrow> bool" where
  "cache_ok d \<longleftrightarrow>
     distinct (map fst (transports d)) \<and> distinct (accessOrder d) \<and> direct_key \<notin> set (accessOrder d) \<and>
     set (accessOrder d) = fst ` set (transports d) - {direct_key} \<and> length (accessOrder d) \<le> maxCacheEntries"

lemma keys_length:
  assumes "distinct (map fst ts)" and "distinct ks" and "set ks = fst ` set ts - {x}"
  shows "length ks \<le> length ts" and "length ts \<le> length ks + 1"
proof -
  have len: "length ts = card (fst ` set ts)" using assms(1) by (metis distinct_card length_map set_map)
  have "length ks = card (fst ` set ts - {x})" using assms(2,3) by (metis distinct_card)
  then show "length ks \<le> length ts" "length ts \<le> length ks + 1"
    unfolding len using card_Diff1_le [of "fst ` set ts" x] by (auto simp: card_Diff_singleton_if)
qed

lemma cache_ok_size: "cache_ok d \<Longrightarrow> length (transports d) \<le> maxCacheEntries + 1"
  using keys_length [of "transports d" "accessOrder d" direct_key] by (auto simp: cache_ok_def)

lemma cache_ok_touch:
  assumes "cache_ok d" and "k \<in> fst ` set (transports d)" and "k \<noteq> direct_key"
  shows "cache_ok (touchAccessOrder k (d\<lparr>transports := AList.update k e (transports d)\<rparr>))"
proof -
  have k: "k \<in> set (accessOrder d)" using assms by (auto simp: cache_ok_def)
  then have "length (remove1 k (accessOrder d) @ [k]) = length (accessOrder d)"
    using length_pos_if_in_set [OF k] by (simp add: length_remove1)
  moreover have "set (remove1 k (accessOrder d) @ [k]) = set (accessOrder d)"
    using assms(1) k by (auto simp: cache_ok_def set_remove1_eq)
  ultimately show ?thesis
    using assms by (auto simp: cache_ok_def touchAccessOrder_def distinct_update dom_update set_remove1_eq insert_absorb)
qed

lemma delete_keys: "fst ` set (AList.delete k m) = fst ` set m - {k}"
  by (auto simp: AList.delete_eq)

lemma cache_ok_evict:
  assumes "cache_ok d"
  shows "cache_ok (evict_oldest d)" and "length (accessOrder (evict_oldest d)) < maxCacheEntries"
    and "fst ` set (transports (evict_oldest d)) \<subseteq> fst ` set (transports d)"
proof -
  note len = keys_length [of "transports d" "accessOrder d" direct_key]
  have sz: "length (transports d) \<le> length (accessOrder d) + 1" "length (accessOrder d) \<le> length (transports d)"
    using assms len by (auto simp: cache_ok_def)
  show "cache_ok (evict_oldest d)"
  proof (cases "accessOrder d")
    case Nil
    then show ?thesis using assms by (simp add: evict_oldest_def)
  next
    case (Cons k ks)
    have k: "distinct (k # ks)" "direct_key \<notin> set (k # ks)" and keys: "insert k (set ks) = fst ` set (transports d) - {direct_key}"
      using assms unfolding cache_ok_def Cons by simp_all
    have "set ks = insert k (set ks) - {k}" using k(1) by auto
    also have "\<dots> = fst ` set (AList.delete k (transports d)) - {direct_key}" unfolding keys delete_keys by blast
    finally have "set ks = fst ` set (AList.delete k (transports d)) - {direct_key}" .
    moreover have "distinct (map fst (AList.delete k (transports d)))" and "length ks \<le> maxCacheEntries"
      using assms Cons by (simp_all add: cache_ok_def distinct_delete)
    ultimately have "cache_ok (d\<lparr>transports := AList.delete k (transports d), accessOrder := ks\<rparr>)"
      using k by (simp add: cache_ok_def)
    then show ?thesis using assms Cons by (simp add: evict_oldest_def)
  qed
  show "length (accessOrder (evict_oldest d)) < maxCacheEntries"
    using assms sz by (auto simp: evict_oldest_def cache_ok_def maxCacheEntries_def split: list.splits)
  show "fst ` set (transports (evict_oldest d)) \<subseteq> fst ` set (transports d)"
    by (auto simp: evict_oldest_def delete_keys split: list.splits)
qed

lemma cache_ok_getClient:
  assumes "cache_ok d" and "u \<noteq> direct_key"
  shows "cache_ok (snd (getClient E u d w))"
proof (cases "map_of (transports d) u")
  case (Some e)
  then have "u \<in> fst ` set (transports d)" by (force dest: map_of_SomeD)
  then show ?thesis using Some assms(1) cache_ok_touch [OF assms(1) _ assms(2)]
    by (auto simp: getClient_def split: sum.splits)
next
  case None
  then have "u \<notin> fst ` set (transports d)" by (simp add: map_of_eq_None_iff)
  then have new: "u \<notin> fst ` set (transports (evict_oldest d))" using cache_ok_evict(3) [OF assms(1)] by blast
  let ?d = "evict_oldest d"
  have "cache_ok (?d\<lparr>transports := AList.update u e (transports ?d), accessOrder := accessOrder ?d @ [u]\<rparr>)" for e
    using cache_ok_evict(1,2) [OF assms(1)] new assms(2)
    by (auto simp: cache_ok_def distinct_update dom_update)
  then show ?thesis using None assms(1) by (auto simp: getClient_def Let_def split: sum.splits)
qed

lemma cache_ok_direct: "cache_ok d \<Longrightarrow> cache_ok (snd (touch_direct now d))"
  by (auto simp: touch_direct_def Let_def cache_ok_def distinct_update dom_update)

lemma cache_ok_idle:
  assumes "cache_ok d"
  shows "cache_ok (evictIdleEntries now d)"
proof -
  let ?ts = "filter (\<lambda>(u, e). \<not> 10 * minute < now - lastUsed e) (transports d)"
  have sub: "fst ` set ?ts \<subseteq> fst ` set (transports d)" by auto
  have "distinct (map fst ?ts)" using assms by (simp add: cache_ok_def distinct_map_filter)
  moreover have "length (filter (\<lambda>u. u \<in> fst ` set ?ts) (accessOrder d)) \<le> maxCacheEntries"
    using assms by (intro order_trans [OF length_filter_le]) (simp add: cache_ok_def)
  moreover have "set (filter (\<lambda>u. u \<in> fst ` set ?ts) (accessOrder d)) = fst ` set ?ts - {direct_key}"
    using assms sub unfolding cache_ok_def set_filter by blast
  ultimately show ?thesis
    using assms by (simp add: cache_ok_def evictIdleEntries_def Let_def)
qed

datatype cache_event = UseProxy string | UseDirect | Tick | CloseAll

fun cache_exec :: "('w, 'q) http_env \<Rightarrow> 'w \<Rightarrow> cache_event \<Rightarrow> doer \<Rightarrow> doer" where
  "cache_exec E w (UseProxy u) d = snd (getClient E u d w)"
| "cache_exec E w UseDirect d = snd (touch_direct (he_now E w) d)"
| "cache_exec E w Tick d = evictIdleEntries (he_now E w) d"
| "cache_exec E w CloseAll d = doer_Close d"

lemma cache_ok_execs:
  assumes "cache_ok d" and "\<forall>(e, w) \<in> set es. e \<noteq> UseProxy direct_key"
  shows "cache_ok (fold (\<lambda>(e, w). cache_exec E w e) es d)"
  using assms
proof (induction es arbitrary: d)
  case (Cons x es)
  obtain e w where x: "x = (e, w)" by fastforce
  have "cache_ok (cache_exec E w e d)"
    using Cons.prems x by (cases e)
      (auto simp: cache_ok_getClient cache_ok_direct cache_ok_idle doer_Close_def cache_ok_def [of "\<lparr>transports = [], accessOrder = []\<rparr>"])
  then show ?case using Cons.IH Cons.prems(2) x by simp
qed simp

text \<open>The cache of clients stays bounded and consistent: after any sequence of uses of proxies and
  of the direct client, idle evictions and closing, it holds at most 100 proxy clients and the direct
  one, each key once, and the access order lists exactly the cached proxies, once each, so that the
  least recently used one can be evicted.\<close>

theorem client_cache_bounded:
  assumes "\<forall>(e, w) \<in> set es. e \<noteq> UseProxy direct_key"
  shows "cache_ok (fold (\<lambda>(e, w). cache_exec E w e) es \<lparr>transports = [], accessOrder = []\<rparr>) \<and>
    length (transports (fold (\<lambda>(e, w). cache_exec E w e) es \<lparr>transports = [], accessOrder = []\<rparr>)) \<le> 101"
proof -
  have "cache_ok \<lparr>transports = [], accessOrder = []\<rparr>" by (simp add: cache_ok_def)
  from cache_ok_execs [OF this assms] show ?thesis using cache_ok_size by (fastforce simp: maxCacheEntries_def)
qed

theorem client_cache_bounded_witness:
  "cache_ok (fold (\<lambda>(e, w). cache_exec sample_env w e)
     [(UseProxy ''a'', (pool_New [], [])), (UseProxy ''b'', (pool_New [], [])), (UseDirect, (pool_New [], [])), (UseProxy ''a'', (pool_New [], []))]
     \<lparr>transports = [], accessOrder = []\<rparr>)"
  using client_cache_bounded [of "[(UseProxy ''a'', (pool_New [], [])), (UseProxy ''b'', (pool_New [], [])), (UseDirect, (pool_New [], [])), (UseProxy ''a'', (pool_New [], []))]" sample_env]
  by (simp add: direct_key_def)

end
