(* ===== verification/Queue.thy ===== *)
theory Queue
  imports Prelude
begin

text \<open>
  The queue port (\<^verbatim>\<open>internal/queue/queue.go\<close>): tasks, the \<^verbatim>\<open>Queue\<close> interface as a
  record of operations on a world, the retry policy; the contract its clients rely on as the
  locale \<open>task_queue\<close>; and the in-memory adapter (\<^verbatim>\<open>internal/queue/inmem/queue.go\<close>), which
  fulfils the contract. Every method of the adapter holds its mutex from entry to return, so an
  operation is one atomic state transformer; only \<^verbatim>\<open>Pop\<close> releases the mutex between polls,
  and its model takes what happens meanwhile as an argument.
\<close>

section \<open>The port\<close>

text \<open>\<open>Ctx\<close> is the trace context a task carries: the W3C header fields, or none.\<close>

record task =
  ID :: string
  Payload :: bytes
  RetryCount :: int
  Ctx :: "(string \<times> string) list option"

record 'w queue_if =
  q_Push :: "bytes \<Rightarrow> 'w \<Rightarrow> go_error option \<times> 'w"
  q_Pop :: "int \<Rightarrow> duration \<Rightarrow> 'w \<Rightarrow> (go_error + task list) \<times> 'w"
  q_Ack :: "string \<Rightarrow> 'w \<Rightarrow> go_error option \<times> 'w"
  q_Retry :: "task \<Rightarrow> string \<Rightarrow> 'w \<Rightarrow> go_error option \<times> 'w"
  q_RecoverStale :: "duration \<Rightarrow> int \<Rightarrow> 'w \<Rightarrow> (go_error + task list) \<times> 'w"
  q_PendingLen :: "'w \<Rightarrow> int \<times> 'w"
  q_InFlightLen :: "'w \<Rightarrow> int \<times> 'w"

subsection \<open>The retry policy\<close>

record retry_policy =
  MaxRetries :: int
  MaxBackoff :: duration

text \<open>The quadratic delay, capped. The products are 64-bit.\<close>

definition base_backoff :: "retry_policy \<Rightarrow> int \<Rightarrow> duration" where
  "base_backoff p retryCount =
     (let d = wrap64 (wrap64 (retryCount * retryCount) * second)
      in if 0 < MaxBackoff p \<and> MaxBackoff p < d then MaxBackoff p else d)"

text \<open>\<open>r\<close> is the value of \<^verbatim>\<open>rand.Float64()\<close>, in the half-open unit interval; the
  floating-point products are taken as exact.\<close>

definition Backoff :: "rat \<Rightarrow> retry_policy \<Rightarrow> int \<Rightarrow> duration" where
  "Backoff r p retryCount =
     (if retryCount \<le> 0 then 0
      else
        let d = base_backoff p retryCount;
            jitter = of_int d * (1 / 4) * (2 * r - 1);
            d' = trunc_rat (of_int d + jitter)
        in if d' < 0 then 0 else d')"

definition ShouldDLQ :: "retry_policy \<Rightarrow> int \<Rightarrow> bool" where
  "ShouldDLQ p retryCount \<longleftrightarrow> 0 < MaxRetries p \<and> MaxRetries p < retryCount"

lemma base_backoff_exact:
  assumes "0 < n" and "n \<le> 96038"
  shows "base_backoff p n = (if 0 < MaxBackoff p \<and> MaxBackoff p < n * n * second then MaxBackoff p else n * n * second)"
proof -
  define m where "m = n * n"
  have m: "0 \<le> m" "m \<le> 96038 * 96038"
    using assms mult_mono [of n 96038 n 96038] by (simp_all add: m_def)
  then have "wrap64 m = m" and "wrap64 (m * second) = m * second"
    by (auto intro!: wrap64_id simp: is_int64_def)
  then show ?thesis by (simp add: base_backoff_def Let_def flip: m_def)
qed

lemma base_backoff_capped: "0 < MaxBackoff p \<Longrightarrow> base_backoff p n \<le> MaxBackoff p"
  by (auto simp: base_backoff_def Let_def)

text \<open>The jitter keeps the delay within a quarter of the base delay.\<close>

lemma trunc_jitter:
  fixes r :: rat
  assumes "0 \<le> d" and "0 \<le> r" and "r < 1"
  shows "3 * d div 4 \<le> trunc_rat (of_int d + of_int d * (1 / 4) * (2 * r - 1))"
    and "trunc_rat (of_int d + of_int d * (1 / 4) * (2 * r - 1)) \<le> 5 * d div 4"
proof -
  let ?x = "of_int d + of_int d * (1 / 4) * (2 * r - 1) :: rat"
  have d: "0 \<le> (of_int d :: rat)" using assms(1) by simp
  have "?x = 3 / 4 * of_int d + of_int d * r / 2" by (simp add: field_simps)
  moreover have "0 \<le> of_int d * r" using d assms(2) by simp
  moreover have "of_int d * r \<le> of_int d" using d assms(3) by (simp add: mult_left_le)
  ultimately have lo: "3 / 4 * of_int d \<le> ?x" and hi: "?x \<le> 5 / 4 * of_int d" by linarith+
  have t: "trunc_rat ?x = \<lfloor>?x\<rfloor>" using lo d by (simp add: trunc_rat_def)
  have "\<lfloor>3 / 4 * of_int d :: rat\<rfloor> = 3 * d div 4" and "\<lfloor>5 / 4 * of_int d :: rat\<rfloor> = 5 * d div 4"
    using floor_divide_of_int_eq [of "3 * d" 4, where ?'a = rat]
      floor_divide_of_int_eq [of "5 * d" 4, where ?'a = rat] by simp_all
  with lo hi t show "3 * d div 4 \<le> trunc_rat ?x" and "trunc_rat ?x \<le> 5 * d div 4"
    by (metis floor_mono)+
qed

section \<open>The contract of a queue\<close>

text \<open>
  \<open>pend\<close>, \<open>infl\<close> and \<open>dead\<close> observe what a world holds: the waiting tasks in order, the tasks
  handed out and not yet settled, and the dead letters. The laws say what each method does to
  them; clients are verified against these laws only.
\<close>

locale task_queue =
  fixes Q :: "'w queue_if"
    and policy :: retry_policy
    and invar :: "'w \<Rightarrow> bool"
    and pend :: "'w \<Rightarrow> task list"
    and infl :: "'w \<Rightarrow> string \<Rightarrow> task option"
    and dead :: "'w \<Rightarrow> task list"
  assumes push: "invar w \<Longrightarrow> q_Push Q p w = (e, w') \<Longrightarrow>
      invar w' \<and> e = None \<and> infl w' = infl w \<and> dead w' = dead w \<and>
      (\<exists>i. pend w' = pend w @ [\<lparr>ID = i, Payload = p, RetryCount = 0, Ctx = None\<rparr>])"
    and ack: "invar w \<Longrightarrow> q_Ack Q i w = (e, w') \<Longrightarrow>
      invar w' \<and> e = None \<and> pend w' = pend w \<and> infl w' = (infl w)(i := None) \<and> dead w' = dead w"
    and retry: "invar w \<Longrightarrow> q_Retry Q t reason w = (e, w') \<Longrightarrow>
      invar w' \<and> e = None \<and> infl w' = (infl w)(ID t := None) \<and>
      (if ShouldDLQ policy (RetryCount t + 1)
       then pend w' = pend w \<and> dead w' = dead w @ [t\<lparr>RetryCount := RetryCount t + 1\<rparr>]
       else dead w' = dead w \<and> (\<exists>i. pend w' = pend w @ [t\<lparr>RetryCount := RetryCount t + 1, ID := i\<rparr>]))"
    and pop: "invar w \<Longrightarrow> 0 \<le> n \<Longrightarrow> q_Pop Q n b w = (Inr ts, w') \<Longrightarrow>
      invar w' \<and> pend w = ts @ pend w' \<and> int (length ts) \<le> n \<and> dead w' = dead w \<and>
      infl w' = infl w ++ map_of (map (\<lambda>t. (ID t, t)) ts)"
    and pop_ids: "invar w \<Longrightarrow> q_Pop Q n b w = (Inr ts, w') \<Longrightarrow> distinct (map ID ts)"

section \<open>The in-memory adapter\<close>

record inmem_queue =
  pending :: "task list"
  inFlight :: "(string \<times> task) list"
  policy :: retry_policy
  dlq :: "task list"
  seq :: nat

definition inmem_New :: "retry_policy \<Rightarrow> inmem_queue" where
  "inmem_New p = \<lparr>pending = [], inFlight = [], policy = p, dlq = [], seq = 0\<rparr>"

definition nextID :: "inmem_queue \<Rightarrow> string \<times> inmem_queue" where
  "nextID q = (let q' = q\<lparr>seq := seq q + 1\<rparr> in (''inmem-'' @ nat_str (seq q'), q'))"

definition inmem_Push :: "bytes \<Rightarrow> inmem_queue \<Rightarrow> go_error option \<times> inmem_queue" where
  "inmem_Push payload q =
     (let (i, q1) = nextID q
      in (None, q1\<lparr>pending := pending q1 @ [\<lparr>ID = i, Payload = payload, RetryCount = 0, Ctx = None\<rparr>]\<rparr>))"

text \<open>One pass of \<^verbatim>\<open>Pop\<close>'s loop under the mutex: \<open>None\<close> when nothing is pending. A negative
  batch makes \<^verbatim>\<open>make\<close> panic.\<close>

definition inmem_tryPop :: "int \<Rightarrow> inmem_queue \<Rightarrow> ((go_error + task list) \<times> inmem_queue) option" where
  "inmem_tryPop batch q =
     (if pending q = [] then None
      else if batch < 0 then Some (Inl (Panic ''makeslice: len out of range''), q)
      else
        let n = (if batch > int (length (pending q)) then length (pending q) else nat batch);
            out = take n (pending q)
        in Some (Inr out,
                 q\<lparr>pending := drop n (pending q),
                   inFlight := fold (\<lambda>t m. AList.update (ID t) t m) out (inFlight q)\<rparr>))"

text \<open>The polling: each element of the list is one wait of 10 ms, with what the other goroutines
  did meanwhile or the cancellation that ended it; the deadline has passed when the list is
  empty.\<close>

datatype poll = Sleep "inmem_queue \<Rightarrow> inmem_queue" | CtxDone go_error

fun inmem_Pop :: "poll list \<Rightarrow> int \<Rightarrow> inmem_queue \<Rightarrow> (go_error + task list) \<times> inmem_queue" where
  "inmem_Pop [] batch q =
     (case inmem_tryPop batch q of Some r \<Rightarrow> r | None \<Rightarrow> (Inl ErrEmpty, q))"
| "inmem_Pop (CtxDone e # ps) batch q = (Inl e, q)"
| "inmem_Pop (Sleep env # ps) batch q =
     (case inmem_tryPop batch q of Some r \<Rightarrow> r | None \<Rightarrow> inmem_Pop ps batch (env q))"

definition inmem_Ack :: "string \<Rightarrow> inmem_queue \<Rightarrow> go_error option \<times> inmem_queue" where
  "inmem_Ack taskID q = (None, q\<lparr>inFlight := AList.delete taskID (inFlight q)\<rparr>)"

definition inmem_Retry :: "task \<Rightarrow> string \<Rightarrow> inmem_queue \<Rightarrow> go_error option \<times> inmem_queue" where
  "inmem_Retry t reason q =
     (let q1 = q\<lparr>inFlight := AList.delete (ID t) (inFlight q)\<rparr>;
          t1 = t\<lparr>RetryCount := RetryCount t + 1\<rparr>
      in if ShouldDLQ (policy q1) (RetryCount t1) then (None, q1\<lparr>dlq := dlq q1 @ [t1]\<rparr>)
         else
           let (i, q2) = nextID q1
           in (None, q2\<lparr>pending := pending q2 @ [t1\<lparr>ID := i\<rparr>]\<rparr>))"

definition inmem_RecoverStale :: "duration \<Rightarrow> int \<Rightarrow> inmem_queue \<Rightarrow> (go_error + task list) \<times> inmem_queue" where
  "inmem_RecoverStale idleFor n q = (Inr [], q)"

definition inmem_DLQ :: "inmem_queue \<Rightarrow> task list" where
  "inmem_DLQ q = dlq q"

definition inmem_PendingLen :: "inmem_queue \<Rightarrow> int" where
  "inmem_PendingLen q = int (length (pending q))"

definition inmem_InFlightLen :: "inmem_queue \<Rightarrow> int" where
  "inmem_InFlightLen q = int (length (inFlight q))"

text \<open>The adapter as a value of the interface, when no other goroutine runs during a poll.\<close>

definition inmem_if :: "inmem_queue queue_if" where
  "inmem_if =
     \<lparr>q_Push = inmem_Push,
      q_Pop = (\<lambda>n b. inmem_Pop [] n),
      q_Ack = inmem_Ack,
      q_Retry = inmem_Retry,
      q_RecoverStale = inmem_RecoverStale,
      q_PendingLen = (\<lambda>q. (inmem_PendingLen q, q)),
      q_InFlightLen = (\<lambda>q. (inmem_InFlightLen q, q))\<rparr>"

lemmas inmem_defs [op_defs] =
  inmem_Push_def inmem_Ack_def inmem_Retry_def inmem_RecoverStale_def nextID_def Let_def

subsection \<open>The invariant\<close>

text \<open>Task identifiers come from the counter and are never shared: not between two waiting tasks,
  nor between a waiting task and one in flight.\<close>

definition issued :: "inmem_queue \<Rightarrow> string set" where
  "issued q = (\<lambda>k. ''inmem-'' @ nat_str k) ` {1..seq q}"

definition inmem_inv :: "inmem_queue \<Rightarrow> bool" where
  "inmem_inv q \<longleftrightarrow>
     distinct (map ID (pending q) @ map fst (inFlight q)) \<and>
     set (map ID (pending q)) \<union> fst ` set (inFlight q) \<subseteq> issued q \<and>
     (\<forall>x \<in> set (inFlight q). ID (snd x) = fst x)"

lemma issued_fresh: "''inmem-'' @ nat_str (Suc (seq q)) \<notin> issued q"
  by (auto simp: issued_def nat_str_inject)

lemma issued_Suc: "issued (q\<lparr>seq := Suc (seq q)\<rparr>) = insert (''inmem-'' @ nat_str (Suc (seq q))) (issued q)"
proof -
  have "{1..Suc (seq q)} = insert (Suc (seq q)) {1..seq q}" by auto
  then show ?thesis by (simp add: issued_def)
qed

lemma issued_frame [simp]:
  "issued (q\<lparr>pending := ts\<rparr>) = issued q" "issued (q\<lparr>inFlight := m\<rparr>) = issued q"
  "issued (q\<lparr>dlq := ts\<rparr>) = issued q"
  "issued (q\<lparr>seq := n, pending := ts\<rparr>) = issued (q\<lparr>seq := n\<rparr>)"
  by (simp_all add: issued_def)

lemma fold_update_fst:
  "set (map fst (fold (\<lambda>t m. AList.update (ID t) t m) ts m)) = ID ` set ts \<union> fst ` set m"
  by (induction ts arbitrary: m) (auto simp: dom_update)

lemma fold_update_distinct:
  "distinct (map fst m) \<Longrightarrow> distinct (map fst (fold (\<lambda>t m. AList.update (ID t) t m) ts m))"
  by (induction ts arbitrary: m) (auto simp: distinct_update)

lemma fold_update_ids:
  "\<forall>x \<in> set m. ID (snd x) = fst x \<Longrightarrow> \<forall>x \<in> set (fold (\<lambda>t m. AList.update (ID t) t m) ts m). ID (snd x) = fst x"
proof (induction ts arbitrary: m)
  case (Cons x ts)
  have "set (AList.update (ID x) x m) \<subseteq> insert (ID x, x) (set m)"
    by (induction m) auto
  with Cons.prems have "\<forall>y \<in> set (AList.update (ID x) x m). ID (snd y) = fst y" by fastforce
  then show ?case using Cons.IH by simp
qed simp

lemma map_of_fold_update:
  "map_of (fold (\<lambda>t m. AList.update (ID t) t m) ts m) = map_of m ++ map_of (rev (map (\<lambda>t. (ID t, t)) ts))"
proof (induction ts arbitrary: m)
  case (Cons t ts)
  then show ?case by (simp add: update_conv' map_add_def fun_eq_iff split: option.splits)
qed simp

lemma inmem_inv_New [inv_pres]: "inmem_inv (inmem_New p)"
  by (simp add: inmem_inv_def inmem_New_def)

lemma inmem_inv_Push [inv_pres]: "inmem_inv q \<Longrightarrow> inmem_inv (snd (inmem_Push p q))"
  using issued_fresh [of q]
  by (auto simp: inmem_inv_def inmem_defs issued_Suc)

lemma set_delete_subset: "set (AList.delete k m) \<subseteq> set m"
  by (auto simp: AList.delete_eq)

lemma inmem_inv_fewer:
  assumes "inmem_inv q" and "set m \<subseteq> set (inFlight q)" and "distinct (map fst m)"
  shows "inmem_inv (q\<lparr>inFlight := m\<rparr>)"
proof -
  let ?P = "set (map ID (pending q))" and ?F = "fst ` set (inFlight q)"
  have sub: "fst ` set m \<subseteq> ?F" using assms(2) by (rule image_mono)
  have inv: "distinct (map ID (pending q))" "?P \<inter> ?F = {}" "?P \<union> ?F \<subseteq> issued q"
    and ids: "\<forall>x \<in> set (inFlight q). ID (snd x) = fst x"
    using assms(1) by (simp_all add: inmem_inv_def)
  from sub inv(2,3) have "?P \<inter> fst ` set m = {}" and "?P \<union> fst ` set m \<subseteq> issued q" by blast+
  moreover from ids assms(2) have "\<forall>x \<in> set m. ID (snd x) = fst x" by blast
  ultimately show ?thesis using inv(1) assms(3) by (simp add: inmem_inv_def)
qed

lemma inmem_inv_Ack [inv_pres]: "inmem_inv q \<Longrightarrow> inmem_inv (snd (inmem_Ack i q))"
  unfolding inmem_Ack_def snd_conv
  by (rule inmem_inv_fewer) (simp_all add: set_delete_subset distinct_delete inmem_inv_def)

lemma inmem_inv_Retry [inv_pres]:
  assumes "inmem_inv q"
  shows "inmem_inv (snd (inmem_Retry t r q))"
proof -
  let ?q1 = "q\<lparr>inFlight := AList.delete (ID t) (inFlight q)\<rparr>"
  have q1: "inmem_inv ?q1" using inmem_inv_Ack [OF assms, of "ID t"] by (simp add: inmem_defs)
  then have "inmem_inv (?q1\<lparr>dlq := d\<rparr>)" for d
    by (simp add: inmem_inv_def)
  moreover have "inmem_inv (?q1\<lparr>seq := Suc (seq q), pending := pending q @ [t\<lparr>RetryCount := n, ID := ''inmem-'' @ nat_str (Suc (seq q))\<rparr>]\<rparr>)" for n
    using q1 issued_fresh [of ?q1] issued_Suc [of ?q1]
    by (auto simp: inmem_inv_def)
  ultimately show ?thesis by (simp add: inmem_defs)
qed

lemma inmem_tryPop_Some:
  assumes "inmem_tryPop n q = Some (Inr ts, q')"
  shows "pending q = ts @ pending q'" and "int (length ts) \<le> n" and "0 \<le> n"
    and "inFlight q' = fold (\<lambda>t m. AList.update (ID t) t m) ts (inFlight q)"
    and "dlq q' = dlq q" and "policy q' = policy q" and "seq q' = seq q"
    and "length ts = min (nat n) (length (pending q))"
  using assms by (auto simp: inmem_tryPop_def Let_def split: if_splits)

lemma inmem_inv_tryPop:
  assumes inv: "inmem_inv q" and pop: "inmem_tryPop n q = Some (Inr ts, q')"
  shows "inmem_inv q'"
proof -
  note p = inmem_tryPop_Some [OF pop]
  have "distinct (map fst (inFlight q'))"
    using inv unfolding p(4) by (intro fold_update_distinct) (simp add: inmem_inv_def)
  moreover have "fst ` set (inFlight q') = ID ` set ts \<union> fst ` set (inFlight q)"
    using fold_update_fst [of ts "inFlight q"] by (simp add: p(4))
  moreover have "\<forall>x \<in> set (inFlight q'). ID (snd x) = fst x"
    unfolding p(4) using inv by (intro fold_update_ids) (simp add: inmem_inv_def)
  ultimately show ?thesis
    using inv p(1) p(7) unfolding inmem_inv_def issued_def by auto
qed

lemma inmem_tryPop_Inl: "inmem_tryPop n q = Some (Inl e, q') \<Longrightarrow> q' = q"
  by (auto simp: inmem_tryPop_def Let_def split: if_splits)

lemma inmem_Pop_cases:
  "inmem_Pop [] n q = (r, q') \<Longrightarrow> (inmem_tryPop n q = None \<and> r = Inl ErrEmpty \<and> q' = q) \<or> inmem_tryPop n q = Some (r, q')"
  by (auto split: option.splits)

lemma inmem_tryPop_inv: "inmem_inv q \<Longrightarrow> inmem_tryPop n q = Some (r, q') \<Longrightarrow> inmem_inv q'"
  by (cases r) (auto dest: inmem_tryPop_Inl inmem_inv_tryPop)

lemma inmem_inv_Pop [inv_pres]:
  assumes "inmem_inv q" and "\<forall>env. Sleep env \<in> set ps \<longrightarrow> (\<forall>x. inmem_inv x \<longrightarrow> inmem_inv (env x))"
  shows "inmem_inv (snd (inmem_Pop ps n q))"
  using assms
  by (induction ps n q rule: inmem_Pop.induct)
     (auto dest: inmem_tryPop_inv split: option.splits)

interpretation inmem: task_queue inmem_if "policy q0" "\<lambda>q. inmem_inv q \<and> policy q = policy q0" pending "\<lambda>q. map_of (inFlight q)" dlq for q0
proof (unfold_locales, goal_cases)
  case (1 w p e w')
  then show ?case using inmem_inv_Push [of w p] by (auto simp: inmem_if_def inmem_defs)
next
  case (2 w i e w')
  then show ?case using inmem_inv_Ack [of w i] by (auto simp: inmem_if_def inmem_defs delete_conv')
next
  case (3 w t reason e w')
  then show ?case using inmem_inv_Retry [of w t reason]
    by (auto simp: inmem_if_def inmem_defs delete_conv' split: if_splits)
next
  case (4 w n b ts w')
  then have pop: "inmem_tryPop n w = Some (Inr ts, w')"
    by (auto simp: inmem_if_def split: option.splits)
  note p = inmem_tryPop_Some [OF pop]
  have "distinct (map ID ts)" using 4 p(1) by (auto simp: inmem_inv_def)
  then have "map_of (rev (map (\<lambda>t. (ID t, t)) ts)) = map_of (map (\<lambda>t. (ID t, t)) ts)"
    by (subst map_of_inject_set) (simp_all add: comp_def rev_map [symmetric])
  then have "map_of (inFlight w') = map_of (inFlight w) ++ map_of (map (\<lambda>t. (ID t, t)) ts)"
    by (simp add: p(4) map_of_fold_update)
  moreover have "inmem_inv w' \<and> policy w' = policy q0"
    using 4 p(6) inmem_inv_tryPop [OF _ pop] by simp
  ultimately show ?case using p(1,2,5) by argo
next
  case (5 w n b ts w')
  then have "inmem_tryPop n w = Some (Inr ts, w')"
    by (auto simp: inmem_if_def split: option.splits)
  then have "pending w = ts @ pending w'" by (rule inmem_tryPop_Some)
  with 5 show ?case by (auto simp: inmem_inv_def)
qed

section \<open>Sequences of operations\<close>

text \<open>Since each operation is atomic, an execution of any number of goroutines is a sequence of
  operations. \<open>held\<close> counts the payloads the queue is responsible for.\<close>

datatype qevent = EvPush bytes | EvPop int | EvAck string | EvRetry task string

fun inmem_exec :: "qevent \<Rightarrow> inmem_queue \<Rightarrow> inmem_queue" where
  "inmem_exec (EvPush p) q = snd (inmem_Push p q)"
| "inmem_exec (EvPop n) q = snd (inmem_Pop [] n q)"
| "inmem_exec (EvAck i) q = snd (inmem_Ack i q)"
| "inmem_exec (EvRetry t r) q = snd (inmem_Retry t r q)"

definition held :: "inmem_queue \<Rightarrow> bytes multiset" where
  "held q = mset (map Payload (pending q)) + mset (map (\<lambda>x. Payload (snd x)) (inFlight q)) +
     mset (map Payload (dlq q))"

fun pushed :: "qevent list \<Rightarrow> bytes multiset" where
  "pushed [] = {#}"
| "pushed (e # es) = (case e of EvPush p \<Rightarrow> {#p#} | _ \<Rightarrow> {#}) + pushed es"

definition acked_by :: "qevent \<Rightarrow> inmem_queue \<Rightarrow> bytes multiset" where
  "acked_by e q =
     (case e of
        EvAck i \<Rightarrow> (case map_of (inFlight q) i of Some t \<Rightarrow> {#Payload t#} | None \<Rightarrow> {#})
      | _ \<Rightarrow> {#})"

fun acked :: "qevent list \<Rightarrow> inmem_queue \<Rightarrow> bytes multiset" where
  "acked [] q = {#}"
| "acked (e # es) q = acked_by e q + acked es (inmem_exec e q)"

text \<open>The clients only retry tasks they hold.\<close>

fun retries_held :: "qevent list \<Rightarrow> inmem_queue \<Rightarrow> bool" where
  "retries_held [] q = True"
| "retries_held (e # es) q =
     ((case e of
         EvRetry t r \<Rightarrow> map_option Payload (map_of (inFlight q) (ID t)) = Some (Payload t)
       | _ \<Rightarrow> True) \<and> retries_held es (inmem_exec e q))"

lemma inmem_inv_exec [inv_pres]: "inmem_inv q \<Longrightarrow> inmem_inv (inmem_exec e q)"
  using inmem_inv_Pop [of q "[]"] by (cases e) (auto intro: inmem_inv_Push inmem_inv_Ack inmem_inv_Retry simp del: inmem_Pop.simps)

lemma inmem_inv_execs: "inmem_inv q \<Longrightarrow> inmem_inv (fold inmem_exec es q)"
  by (induction es arbitrary: q) (auto intro: inmem_inv_exec)

lemma mset_delete:
  assumes "distinct (map fst m)"
  shows "mset (map f (AList.delete k m)) + (case map_of m k of Some v \<Rightarrow> {#f (k, v)#} | None \<Rightarrow> {#}) = mset (map f m)"
  using assms
proof (induction m)
  case (Cons x m)
  show ?case
  proof (cases "fst x = k")
    case True
    with Cons.prems have "AList.delete k m = m" by (auto intro!: delete_id)
    with True show ?thesis by (cases x) simp
  next
    case False
    with Cons show ?thesis by (cases x) (simp add: union_mset_add_mset_left)
  qed
qed simp

lemma update_new: "k \<notin> fst ` set m \<Longrightarrow> AList.update k v m = m @ [(k, v)]"
  by (induction m) auto

lemma fold_update_append:
  assumes "distinct (map ID ts)" and "ID ` set ts \<inter> fst ` set m = {}"
  shows "fold (\<lambda>t m. AList.update (ID t) t m) ts m = m @ map (\<lambda>t. (ID t, t)) ts"
  using assms
proof (induction ts arbitrary: m)
  case (Cons t ts)
  then have "AList.update (ID t) t m = m @ [(ID t, t)]" by (intro update_new) auto
  with Cons show ?case by auto
qed simp

lemma held_Push: "held (snd (inmem_Push p q)) = held q + {#p#}"
  by (simp add: held_def inmem_defs)

lemma held_Pop:
  assumes "inmem_inv q"
  shows "held (snd (inmem_Pop [] n q)) = held q"
proof (cases "inmem_tryPop n q")
  case (Some a)
  obtain r q' where a: "a = (r, q')" by fastforce
  show ?thesis
  proof (cases r)
    case (Inl e)
    with Some a have "q' = q" by (auto dest: inmem_tryPop_Inl)
    with Some a show ?thesis by simp
  next
    case (Inr ts)
    with Some a have pop: "inmem_tryPop n q = Some (Inr ts, q')" by simp
    note p = inmem_tryPop_Some [OF pop]
    have "distinct (map ID ts)" "ID ` set ts \<inter> fst ` set (inFlight q) = {}"
      using assms p(1) by (auto simp: inmem_inv_def)
    then have "inFlight q' = inFlight q @ map (\<lambda>t. (ID t, t)) ts"
      unfolding p(4) by (rule fold_update_append)
    then show ?thesis using pop p(1,5) by (simp add: held_def comp_def)
  qed
qed simp

lemma held_Ack:
  assumes "inmem_inv q"
  shows "held (snd (inmem_Ack i q)) + acked_by (EvAck i) q = held q"
  using mset_delete [of "inFlight q" "\<lambda>x. Payload (snd x)" i] assms
  by (cases "map_of (inFlight q) i")
     (auto simp: held_def inmem_Ack_def acked_by_def inmem_inv_def ac_simps)

lemma held_Retry:
  assumes "inmem_inv q" and "map_option Payload (map_of (inFlight q) (ID t)) = Some (Payload t)"
  shows "held (snd (inmem_Retry t r q)) = held q"
  using mset_delete [of "inFlight q" "\<lambda>x. Payload (snd x)" "ID t"] assms
  by (auto simp: held_def inmem_defs inmem_inv_def ac_simps split: option.splits)

lemma held_execs:
  assumes "inmem_inv q" and "retries_held es q"
  shows "held (fold inmem_exec es q) + acked es q = held q + pushed es"
  using assms
proof (induction es arbitrary: q)
  case (Cons e es)
  have IH: "held (fold inmem_exec es (inmem_exec e q)) + acked es (inmem_exec e q) =
      held (inmem_exec e q) + pushed es"
    using Cons.prems inmem_inv_exec [OF Cons.prems(1), of e] by (intro Cons.IH) auto
  have "held (inmem_exec e q) + acked_by e q = held q + pushed [e]"
    using Cons.prems held_Ack [OF Cons.prems(1)]
    by (cases e) (auto simp: held_Push held_Pop held_Retry acked_by_def simp del: inmem_Pop.simps)
  with IH show ?case by (simp add: ac_simps)
qed simp

section \<open>Properties\<close>

text \<open>Whatever sequence of pushes, pops, acknowledgements and retries the goroutines sharing an
  in-memory queue perform, task identifiers stay unique: no two waiting tasks share one, no waiting
  task shares one with a task in flight, all were issued by the counter, and each in-flight entry is
  filed under its own identifier.\<close>

theorem inmem_queue_invariant: "inmem_inv (fold inmem_exec es (inmem_New p))"
  by (rule inmem_inv_execs [OF inmem_inv_New])

text \<open>(C8) No payload is lost or duplicated: in any sequence of operations in which clients retry
  only tasks they hold, the payloads pushed are exactly those acknowledged plus those still waiting,
  in flight or dead-lettered.\<close>

theorem inmem_queue_conserves:
  assumes "retries_held es (inmem_New p)"
  shows "held (fold inmem_exec es (inmem_New p)) + acked es (inmem_New p) = pushed es"
  using held_execs [OF inmem_inv_New assms] by (simp add: held_def inmem_New_def)

theorem inmem_queue_conserves_witness:
  "retries_held [EvPush ''a'', EvPop 1, EvRetry \<lparr>ID = ''inmem-1'', Payload = ''a'', RetryCount = 0, Ctx = None\<rparr> ''x'', EvPush ''b'', EvPop 2, EvAck ''inmem-2'']
     (inmem_New \<lparr>MaxRetries = 3, MaxBackoff = second\<rparr>) \<and>
   held (fold inmem_exec [EvPush ''a'', EvPop 1, EvRetry \<lparr>ID = ''inmem-1'', Payload = ''a'', RetryCount = 0, Ctx = None\<rparr> ''x'', EvPush ''b'', EvPop 2, EvAck ''inmem-2'']
     (inmem_New \<lparr>MaxRetries = 3, MaxBackoff = second\<rparr>)) +
   acked [EvPush ''a'', EvPop 1, EvRetry \<lparr>ID = ''inmem-1'', Payload = ''a'', RetryCount = 0, Ctx = None\<rparr> ''x'', EvPush ''b'', EvPop 2, EvAck ''inmem-2'']
     (inmem_New \<lparr>MaxRetries = 3, MaxBackoff = second\<rparr>) = {#''a'', ''b''#}"
proof -
  let ?es = "[EvPush ''a'', EvPop 1, EvRetry \<lparr>ID = ''inmem-1'', Payload = ''a'', RetryCount = 0, Ctx = None\<rparr> ''x'', EvPush ''b'', EvPop 2, EvAck ''inmem-2'']"
  let ?q = "inmem_New \<lparr>MaxRetries = 3, MaxBackoff = second\<rparr>"
  have h: "retries_held ?es ?q" by code_simp
  show ?thesis using h inmem_queue_conserves [OF h] by simp
qed

lemma pending_pushes:
  "map Payload (pending (fold inmem_exec (map EvPush xs) q)) = map Payload (pending q) @ xs"
  by (induction xs arbitrary: q) (simp_all add: inmem_defs)

text \<open>First in, first out: after pushing a list of payloads into a new queue, a pop hands out
  the first ones in the order they were pushed, as many as asked for or available, and leaves the
  others waiting in order.\<close>

theorem inmem_queue_fifo:
  assumes "xs \<noteq> []" and "0 \<le> n"
  shows "\<exists>ts q'. inmem_Pop [] n (fold inmem_exec (map EvPush xs) (inmem_New p)) = (Inr ts, q') \<and>
    map Payload ts = take (nat n) xs \<and> map Payload (pending q') = drop (nat n) xs"
proof -
  let ?q = "fold inmem_exec (map EvPush xs) (inmem_New p)"
  have xs: "map Payload (pending ?q) = xs"
    using pending_pushes [of xs "inmem_New p"] by (simp add: inmem_New_def)
  then have "pending ?q \<noteq> []" using assms(1) by auto
  then obtain ts q' where pop: "inmem_tryPop n ?q = Some (Inr ts, q')"
    using assms(2) by (auto simp: inmem_tryPop_def Let_def)
  note p = inmem_tryPop_Some [OF pop]
  have "map Payload ts @ map Payload (pending q') = xs" using p(1) xs by (metis map_append)
  then have "map Payload ts = take (length ts) xs" and "map Payload (pending q') = drop (length ts) xs"
    by (auto simp: append_eq_conv_conj)
  moreover have "length ts = min (nat n) (length xs)"
    using p(8) xs by (metis length_map)
  ultimately show ?thesis using pop by (cases "nat n \<le> length xs") (auto simp: min_def)
qed

theorem inmem_queue_fifo_witness:
  "\<exists>ts q'. inmem_Pop [] 2 (fold inmem_exec (map EvPush [''a'', ''b'', ''c'']) (inmem_New \<lparr>MaxRetries = 3, MaxBackoff = 0\<rparr>)) = (Inr ts, q') \<and>
    map Payload ts = [''a'', ''b''] \<and> map Payload (pending q') = [''c'']"
  using inmem_queue_fifo [of "[''a'', ''b'', ''c'']" 2 "\<lparr>MaxRetries = 3, MaxBackoff = 0\<rparr>"]
  by (simp add: numeral_2_eq_2 del: inmem_Pop.simps)

text \<open>One failed delivery: the task is popped and handed back with \<^verbatim>\<open>Retry\<close>.\<close>

definition fail_once :: "string \<Rightarrow> inmem_queue \<Rightarrow> inmem_queue" where
  "fail_once reason q =
     (case inmem_Pop [] 1 q of (Inr [t], q') \<Rightarrow> snd (inmem_Retry t reason q') | (_, q') \<Rightarrow> q')"

lemma fail_once_single:
  assumes "pending q = [t]" and "inFlight q = []"
  shows "pending (fail_once r q) =
      (if ShouldDLQ (policy q) (RetryCount t + 1) then []
       else [t\<lparr>RetryCount := RetryCount t + 1, ID := ''inmem-'' @ nat_str (Suc (seq q))\<rparr>])"
    and "inFlight (fail_once r q) = []" and "policy (fail_once r q) = policy q"
    and "dlq (fail_once r q) =
      dlq q @ (if ShouldDLQ (policy q) (RetryCount t + 1) then [t\<lparr>RetryCount := RetryCount t + 1\<rparr>] else [])"
  using assms by (auto simp: fail_once_def inmem_tryPop_def inmem_defs)

lemma fail_rounds:
  assumes "int k \<le> MaxRetries pol"
  shows "\<exists>t. pending ((fail_once r ^^ k) (snd (inmem_Push p (inmem_New pol)))) = [t] \<and>
      Payload t = p \<and> RetryCount t = int k \<and>
      inFlight ((fail_once r ^^ k) (snd (inmem_Push p (inmem_New pol)))) = [] \<and>
      policy ((fail_once r ^^ k) (snd (inmem_Push p (inmem_New pol)))) = pol \<and>
      dlq ((fail_once r ^^ k) (snd (inmem_Push p (inmem_New pol)))) = []"
  using assms
proof (induction k)
  case 0
  then show ?case by (simp add: inmem_defs inmem_New_def)
next
  case (Suc k)
  let ?q = "(fail_once r ^^ k) (snd (inmem_Push p (inmem_New pol)))"
  obtain t where t: "pending ?q = [t]" "Payload t = p" "RetryCount t = int k"
    "inFlight ?q = []" "policy ?q = pol" "dlq ?q = []"
    using Suc.IH Suc.prems by auto
  have "\<not> ShouldDLQ (policy ?q) (RetryCount t + 1)"
    using Suc.prems t by (simp add: ShouldDLQ_def)
  with t fail_once_single [OF t(1,4), of r] show ?case by simp
qed

text \<open>(C10) A task that never succeeds does not circulate forever: with a retry limit of \<open>m > 0\<close> it is
  handed out with retry counts 0 to \<open>m\<close>, and the failure after that leaves the queue empty with the
  task as its only dead letter, its payload intact and its count one above the limit.\<close>

theorem inmem_retry_ends_in_dlq:
  assumes "MaxRetries pol = int m" and "0 < m"
  shows "(\<forall>k \<le> m. map RetryCount (pending ((fail_once r ^^ k) (snd (inmem_Push p (inmem_New pol))))) = [int k]) \<and>
    (let q = (fail_once r ^^ Suc m) (snd (inmem_Push p (inmem_New pol)))
     in pending q = [] \<and> inFlight q = [] \<and>
        map (\<lambda>t. (Payload t, RetryCount t)) (inmem_DLQ q) = [(p, int m + 1)])"
proof -
  let ?q = "(fail_once r ^^ m) (snd (inmem_Push p (inmem_New pol)))"
  obtain t where t: "pending ?q = [t]" "Payload t = p" "RetryCount t = int m"
    "inFlight ?q = []" "policy ?q = pol" "dlq ?q = []"
    using fail_rounds [of m pol r p] assms(1) by auto
  have "ShouldDLQ (policy ?q) (RetryCount t + 1)"
    using assms t by (simp add: ShouldDLQ_def)
  with t fail_once_single [OF t(1,4), of r] have "let q = fail_once r ?q in pending q = [] \<and>
      inFlight q = [] \<and> map (\<lambda>t. (Payload t, RetryCount t)) (inmem_DLQ q) = [(p, int m + 1)]"
    by (simp add: Let_def inmem_DLQ_def)
  moreover have "\<forall>k \<le> m. map RetryCount (pending ((fail_once r ^^ k) (snd (inmem_Push p (inmem_New pol))))) = [int k]"
    using fail_rounds [of _ pol r p] assms(1) by force
  ultimately show ?thesis by simp
qed

theorem inmem_retry_ends_in_dlq_witness:
  "(let q = (fail_once ''boom'' ^^ Suc 2) (snd (inmem_Push ''a'' (inmem_New \<lparr>MaxRetries = 2, MaxBackoff = 0\<rparr>)))
    in pending q = [] \<and> inFlight q = [] \<and>
       map (\<lambda>t. (Payload t, RetryCount t)) (inmem_DLQ q) = [(''a'', 3)])"
  using inmem_retry_ends_in_dlq [of "\<lparr>MaxRetries = 2, MaxBackoff = 0\<rparr>" 2 "''boom''" "''a''"]
  by (simp add: Let_def del: funpow.simps)

lemma backoff_parts:
  assumes "0 \<le> r" and "r < 1" and "0 < MaxBackoff p"
  shows "0 \<le> Backoff r p n" and "Backoff r p n \<le> 5 * MaxBackoff p div 4"
    and "0 < n \<and> n \<le> 96038 \<longrightarrow>
      3 * min (MaxBackoff p) (n * n * second) div 4 \<le> Backoff r p n \<and>
      Backoff r p n \<le> 5 * min (MaxBackoff p) (n * n * second) div 4"
proof -
  show "0 \<le> Backoff r p n" by (simp add: Backoff_def Let_def)
  show "Backoff r p n \<le> 5 * MaxBackoff p div 4"
  proof (cases "0 \<le> base_backoff p n")
    case True
    note j = trunc_jitter [OF True assms(1,2)]
    have "base_backoff p n \<le> MaxBackoff p" using assms(3) by (rule base_backoff_capped)
    then have "5 * base_backoff p n div 4 \<le> 5 * MaxBackoff p div 4" by (intro zdiv_mono1) simp_all
    with j assms(3) show ?thesis by (auto simp: Backoff_def Let_def)
  next
    case False
    let ?d = "of_int (base_backoff p n) :: rat"
    have "?d < 0" using False by simp
    moreover have "0 < 3 / 4 + r / 2" using assms(1) by simp
    ultimately have "?d * (3 / 4 + r / 2) < 0" by (rule mult_neg_pos)
    then have "?d + ?d * (1 / 4) * (2 * r - 1) < 0" by (simp add: field_simps)
    then have "trunc_rat (?d + ?d * (1 / 4) * (2 * r - 1)) \<le> 0"
      by (simp add: trunc_rat_def)
    moreover have "0 \<le> 5 * MaxBackoff p div 4" using assms(3) by simp
    ultimately show ?thesis by (auto simp: Backoff_def Let_def)
  qed
  show "0 < n \<and> n \<le> 96038 \<longrightarrow>
      3 * min (MaxBackoff p) (n * n * second) div 4 \<le> Backoff r p n \<and>
      Backoff r p n \<le> 5 * min (MaxBackoff p) (n * n * second) div 4"
  proof
    assume n: "0 < n \<and> n \<le> 96038"
    then have b: "base_backoff p n = min (MaxBackoff p) (n * n * second)"
      using assms(3) base_backoff_exact [of n p] by (auto simp: min_def)
    have "0 \<le> base_backoff p n" using n assms(3) unfolding b by simp
    note trunc_jitter [OF this assms(1,2)]
    with n show "3 * min (MaxBackoff p) (n * n * second) div 4 \<le> Backoff r p n \<and>
      Backoff r p n \<le> 5 * min (MaxBackoff p) (n * n * second) div 4"
      unfolding Backoff_def b [symmetric] Let_def by (auto simp: \<open>0 \<le> base_backoff p n\<close>)
  qed
qed



end
