(* ===== verification/Json.thy ===== *)
theory Json
  imports Prelude
begin

text \<open>
  What the sources use of \<^verbatim>\<open>encoding/json\<close>: JSON values, the syntax check and reading of a text
  (\<open>json_parse\<close>, a lexer and the push-down automaton of the package's scanner), the compact text
  \<^verbatim>\<open>json.Marshal\<close> writes (\<open>json_print\<close>) with the round trip between the two, and the reading of a
  value into a Go type (\<open>conforms\<close>: \<^verbatim>\<open>json.Unmarshal\<close> reports no error; the \<open>get_\<close> functions:
  what it leaves in a struct field). Number literals are kept as text, since
  \<^verbatim>\<open>json.RawMessage\<close> and the integer types read the text. Strings are byte strings; bytes above
  127 are copied unchanged, so the replacement of invalid UTF-8 is not modelled.
\<close>

section \<open>Values\<close>

datatype json =
    JNull
  | JBool bool
  | JNum string
  | JStr string
  | JArr "json list"
  | JObj "(string \<times> json) list"

datatype token =
    TLBrace | TRBrace | TLBrack | TRBrack | TColon | TComma
  | TNull | TTrue | TFalse | TNum string | TStr string

section \<open>Lexical syntax\<close>

definition is_digit :: "char \<Rightarrow> bool" where
  "is_digit c \<longleftrightarrow> digit_val c \<noteq> None"

definition num_char :: "char \<Rightarrow> bool" where
  "num_char c \<longleftrightarrow> is_digit c \<or> c \<in> {CHR ''-'', CHR ''+'', CHR ''.'', CHR ''e'', CHR ''E''}"

definition json_space :: "char \<Rightarrow> bool" where
  "json_space c \<longleftrightarrow> c \<in> {CHR '' '', CHR 0x09, CHR 0x0A, CHR 0x0D}"

text \<open>The number grammar: sign, integer part without a leading zero, fraction, exponent.\<close>

definition exp_ok :: "string \<Rightarrow> bool" where
  "exp_ok s =
     (case s of
        [] \<Rightarrow> True
      | c # cs \<Rightarrow>
          (c = CHR ''e'' \<or> c = CHR ''E'') \<and>
          (let ds = (case cs of d # r \<Rightarrow> if d = CHR ''+'' \<or> d = CHR ''-'' then r else cs | [] \<Rightarrow> [])
           in ds \<noteq> [] \<and> list_all is_digit ds))"

definition frac_ok :: "string \<Rightarrow> bool" where
  "frac_ok s =
     (case s of
        [] \<Rightarrow> True
      | c # cs \<Rightarrow>
          if c = CHR ''.'' then takeWhile is_digit cs \<noteq> [] \<and> exp_ok (dropWhile is_digit cs)
          else exp_ok s)"

definition is_number :: "string \<Rightarrow> bool" where
  "is_number s =
     (let u = (case s of c # r \<Rightarrow> if c = CHR ''-'' then r else s | [] \<Rightarrow> []);
          ip = takeWhile is_digit u
      in ip \<noteq> [] \<and> (hd ip = CHR ''0'' \<longrightarrow> length ip = 1) \<and> frac_ok (dropWhile is_digit u) \<and>
         list_all num_char s)"

definition hex_val :: "char \<Rightarrow> nat option" where
  "hex_val c =
     (let k = of_char c :: nat in
      if 48 \<le> k \<and> k \<le> 57 then Some (k - 48)
      else if 97 \<le> k \<and> k \<le> 102 then Some (k - 87)
      else if 65 \<le> k \<and> k \<le> 70 then Some (k - 55)
      else None)"

definition hex4 :: "char \<Rightarrow> char \<Rightarrow> char \<Rightarrow> char \<Rightarrow> nat option" where
  "hex4 a b c d =
     (case (hex_val a, hex_val b, hex_val c, hex_val d) of
        (Some w, Some x, Some y, Some z) \<Rightarrow> Some (((w * 16 + x) * 16 + y) * 16 + z)
      | _ \<Rightarrow> None)"

definition utf8 :: "nat \<Rightarrow> string" where
  "utf8 k =
     (if k < 128 then [char_of k]
      else if k < 2048 then [char_of (192 + k div 64), char_of (128 + k mod 64)]
      else if k < 65536 then
        [char_of (224 + k div 4096), char_of (128 + k div 64 mod 64), char_of (128 + k mod 64)]
      else
        [char_of (240 + k div 262144), char_of (128 + k div 4096 mod 64),
         char_of (128 + k div 64 mod 64), char_of (128 + k mod 64)])"

definition unescape :: "char \<Rightarrow> char option" where
  "unescape e =
     (if e = CHR 0x22 then Some (CHR 0x22)
      else if e = CHR 0x5C then Some (CHR 0x5C)
      else if e = CHR ''/'' then Some (CHR ''/'')
      else if e = CHR ''b'' then Some (CHR 0x08)
      else if e = CHR ''f'' then Some (CHR 0x0C)
      else if e = CHR ''n'' then Some (CHR 0x0A)
      else if e = CHR ''r'' then Some (CHR 0x0D)
      else if e = CHR ''t'' then Some (CHR 0x09)
      else None)"

text \<open>\<open>read_escape\<close> reads what follows a backslash: the bytes it stands for and the rest. A lone
  surrogate reads as U+FFFD, a surrogate pair as the code point it encodes.\<close>

fun low_surrogate :: "string \<Rightarrow> (nat \<times> string) option" where
  "low_surrogate (q # u # a # b # x # d # r) =
     (if q = CHR 0x5C \<and> u = CHR ''u'' then
        (case hex4 a b x d of
           Some l \<Rightarrow> if 0xDC00 \<le> l \<and> l < 0xE000 then Some (l, r) else None
         | None \<Rightarrow> None)
      else None)"
| "low_surrogate _ = None"

fun read_unicode :: "string \<Rightarrow> (string \<times> string) option" where
  "read_unicode (a # b # x # d # es) =
     (case hex4 a b x d of
        None \<Rightarrow> None
      | Some k \<Rightarrow>
          if 0xD800 \<le> k \<and> k < 0xE000 then
            (case low_surrogate es of
               Some (l, r) \<Rightarrow>
                 if k < 0xDC00 then Some (utf8 (0x10000 + (k - 0xD800) * 0x400 + (l - 0xDC00)), r)
                 else Some (utf8 0xFFFD, es)
             | None \<Rightarrow> Some (utf8 0xFFFD, es))
          else Some (utf8 k, es))"
| "read_unicode _ = None"

fun read_escape :: "string \<Rightarrow> (string \<times> string) option" where
  "read_escape [] = None"
| "read_escape (e # ds) =
     (if e = CHR ''u'' then read_unicode ds
      else map_option (\<lambda>y. ([y], ds)) (unescape e))"

lemma low_surrogate_shorter: "low_surrogate s = Some (l, r) \<Longrightarrow> length r < length s"
  by (cases s rule: low_surrogate.cases) (auto split: if_splits option.splits)

lemma read_unicode_shorter: "read_unicode s = Some (x, r) \<Longrightarrow> length r < length s"
  by (cases s rule: read_unicode.cases)
     (auto split: if_splits option.splits dest!: low_surrogate_shorter)

lemma read_escape_shorter: "read_escape s = Some (x, r) \<Longrightarrow> length r < length s"
  by (cases s) (auto split: if_splits dest: read_unicode_shorter)

text \<open>\<open>lex_str\<close> reads the rest of a string after its opening quote.\<close>

function lex_str :: "string \<Rightarrow> (string \<times> string) option" where
  "lex_str [] = None"
| "lex_str (c # cs) =
     (if c = CHR 0x22 then Some ([], cs)
      else if c = CHR 0x5C then
        (case read_escape cs of
           None \<Rightarrow> None
         | Some (x, ds) \<Rightarrow> map_option (\<lambda>(s, r). (x @ s, r)) (lex_str ds))
      else if of_char c < (32::nat) then None
      else map_option (\<lambda>(s, r). (c # s, r)) (lex_str cs))"
  by pat_completeness auto
termination
  by (relation "measure length") (auto dest: read_escape_shorter)

lemma lex_str_shorter: "lex_str cs = Some (s, r) \<Longrightarrow> length r < length cs"
proof (induction cs arbitrary: s r rule: lex_str.induct)
  case (2 c cs)
  show ?case
  proof (cases "c = CHR 0x5C")
    case True
    with "2.prems" obtain x ds t where "read_escape cs = Some (x, ds)" "lex_str ds = Some (t, r)"
      by (auto split: option.splits)
    with True "2.IH"(1) show ?thesis by (fastforce dest: read_escape_shorter)
  next
    case False
    with "2.prems" "2.IH"(2) show ?thesis by (auto split: if_splits dest: less_SucI)
  qed
qed simp

declare lex_str.simps [simp del]

definition punct :: "char \<Rightarrow> token option" where
  "punct c =
     (if c = CHR ''{'' then Some TLBrace else if c = CHR ''}'' then Some TRBrace
      else if c = CHR ''['' then Some TLBrack else if c = CHR '']'' then Some TRBrack
      else if c = CHR '':'' then Some TColon else if c = CHR '','' then Some TComma else None)"

function lex :: "string \<Rightarrow> token list option" where
  "lex [] = Some []"
| "lex (c # cs) =
     (if json_space c then lex cs
      else case punct c of
        Some t \<Rightarrow> map_option ((#) t) (lex cs)
      | None \<Rightarrow>
          if c = CHR 0x22 then
            (case lex_str cs of
               None \<Rightarrow> None
             | Some (s, r) \<Rightarrow> map_option ((#) (TStr s)) (lex r))
          else if num_char c then
            (let n = takeWhile num_char (c # cs) in
             if is_number n then map_option ((#) (TNum n)) (lex (dropWhile num_char (c # cs)))
             else None)
          else if has_prefix (c # cs) ''null'' then map_option ((#) TNull) (lex (drop 4 (c # cs)))
          else if has_prefix (c # cs) ''true'' then map_option ((#) TTrue) (lex (drop 4 (c # cs)))
          else if has_prefix (c # cs) ''false'' then map_option ((#) TFalse) (lex (drop 5 (c # cs)))
          else None)"
  by pat_completeness auto
termination
  by (relation "measure length") (auto dest: lex_str_shorter simp: less_Suc_eq_le length_dropWhile_le)

declare lex.simps(2) [simp del]

section \<open>Values: the push-down automaton of the scanner\<close>

text \<open>A frame is an array or an object under construction, its elements in reverse; the object
  frame also holds the key whose value is being read.\<close>

datatype frame = FArr "json list" | FObj "(string \<times> json) list" string

datatype pstate =
    BeginValue "frame list"
  | BeginValueOrEmpty "frame list"
  | BeginString "(string \<times> json) list" "frame list"
  | BeginStringOrEmpty "frame list"
  | AfterKey "(string \<times> json) list" string "frame list"
  | EndValue frame "frame list"
  | EndTop json
  | PError

fun add_value :: "json \<Rightarrow> frame \<Rightarrow> frame" where
  "add_value v (FArr vs) = FArr (v # vs)"
| "add_value v (FObj kvs k) = FObj ((k, v) # kvs) k"

fun complete :: "json \<Rightarrow> frame list \<Rightarrow> pstate" where
  "complete v [] = EndTop v"
| "complete v (f # fs) = EndValue (add_value v f) fs"

fun begin_value :: "frame list \<Rightarrow> token \<Rightarrow> pstate" where
  "begin_value fs TNull = complete JNull fs"
| "begin_value fs TTrue = complete (JBool True) fs"
| "begin_value fs TFalse = complete (JBool False) fs"
| "begin_value fs (TNum n) = complete (JNum n) fs"
| "begin_value fs (TStr s) = complete (JStr s) fs"
| "begin_value fs TLBrack = BeginValueOrEmpty fs"
| "begin_value fs TLBrace = BeginStringOrEmpty fs"
| "begin_value fs _ = PError"

fun pstep :: "pstate \<Rightarrow> token \<Rightarrow> pstate" where
  "pstep (BeginValue fs) t = begin_value fs t"
| "pstep (BeginValueOrEmpty fs) t =
     (if t = TRBrack then complete (JArr []) fs else begin_value (FArr [] # fs) t)"
| "pstep (BeginStringOrEmpty fs) t =
     (case t of TRBrace \<Rightarrow> complete (JObj []) fs | TStr k \<Rightarrow> AfterKey [] k fs | _ \<Rightarrow> PError)"
| "pstep (BeginString kvs fs) t = (case t of TStr k \<Rightarrow> AfterKey kvs k fs | _ \<Rightarrow> PError)"
| "pstep (AfterKey kvs k fs) t = (if t = TColon then BeginValue (FObj kvs k # fs) else PError)"
| "pstep (EndValue (FArr vs) fs) t =
     (case t of TComma \<Rightarrow> BeginValue (FArr vs # fs) | TRBrack \<Rightarrow> complete (JArr (rev vs)) fs | _ \<Rightarrow> PError)"
| "pstep (EndValue (FObj kvs k) fs) t =
     (case t of TComma \<Rightarrow> BeginString kvs fs | TRBrace \<Rightarrow> complete (JObj (rev kvs)) fs | _ \<Rightarrow> PError)"
| "pstep (EndTop v) t = PError"
| "pstep PError t = PError"

definition json_parse :: "string \<Rightarrow> json option" where
  "json_parse s =
     (case lex s of
        None \<Rightarrow> None
      | Some ts \<Rightarrow> (case fold (\<lambda>t st. pstep st t) ts (BeginValue []) of EndTop v \<Rightarrow> Some v | _ \<Rightarrow> None))"

section \<open>Printing: \<^verbatim>\<open>json.Marshal\<close>\<close>

definition hex_digit :: "nat \<Rightarrow> char" where
  "hex_digit d = (if d < 10 then char_of (48 + d) else char_of (87 + d))"

definition esc_char :: "char \<Rightarrow> string" where
  "esc_char c =
     (if c = CHR 0x22 then [CHR 0x5C, CHR 0x22]
      else if c = CHR 0x5C then [CHR 0x5C, CHR 0x5C]
      else if c = CHR 0x08 then [CHR 0x5C, CHR ''b'']
      else if c = CHR 0x0C then [CHR 0x5C, CHR ''f'']
      else if c = CHR 0x0A then [CHR 0x5C, CHR ''n'']
      else if c = CHR 0x0D then [CHR 0x5C, CHR ''r'']
      else if c = CHR 0x09 then [CHR 0x5C, CHR ''t'']
      else if of_char c < (32::nat) \<or> c \<in> {CHR ''<'', CHR ''>'', CHR ''&''} then
        [CHR 0x5C, CHR ''u'', CHR ''0'', CHR ''0'', hex_digit (of_char c div 16), hex_digit (of_char c mod 16)]
      else [c])"

definition quote :: "string \<Rightarrow> string" where
  "quote s = CHR 0x22 # concat (map esc_char s) @ [CHR 0x22]"

fun join :: "string list \<Rightarrow> string" where
  "join [] = []"
| "join [x] = x"
| "join (x # xs) = x @ '','' @ join xs"

fun json_print :: "json \<Rightarrow> string" where
  "json_print JNull = ''null''"
| "json_print (JBool b) = (if b then ''true'' else ''false'')"
| "json_print (JNum n) = n"
| "json_print (JStr s) = quote s"
| "json_print (JArr vs) = ''['' @ join (map json_print vs) @ '']''"
| "json_print (JObj kvs) =
     ''{'' @ join (map (\<lambda>(k, v). quote k @ '':'' @ json_print v) kvs) @ ''}''"

fun wf_json :: "json \<Rightarrow> bool" where
  "wf_json (JNum n) = is_number n"
| "wf_json (JArr vs) = list_all wf_json vs"
| "wf_json (JObj kvs) = list_all (\<lambda>(k, v). wf_json v) kvs"
| "wf_json _ = True"

subsection \<open>The round trip\<close>

text \<open>The token sequence of a value, the middle ground between text and value.\<close>

fun sep :: "token list list \<Rightarrow> token list" where
  "sep [] = []"
| "sep [x] = x"
| "sep (x # xs) = x @ TComma # sep xs"

fun tokens :: "json \<Rightarrow> token list" where
  "tokens JNull = [TNull]"
| "tokens (JBool b) = (if b then [TTrue] else [TFalse])"
| "tokens (JNum n) = [TNum n]"
| "tokens (JStr s) = [TStr s]"
| "tokens (JArr vs) = TLBrack # sep (map tokens vs) @ [TRBrack]"
| "tokens (JObj kvs) = TLBrace # sep (map (\<lambda>(k, v). TStr k # TColon # tokens v) kvs) @ [TRBrace]"

abbreviation run_tokens :: "token list \<Rightarrow> pstate \<Rightarrow> pstate" where
  "run_tokens ts st \<equiv> fold (\<lambda>t st. pstep st t) ts st"

lemma run_elems:
  assumes "\<And>v fs. v \<in> set vs \<Longrightarrow> run_tokens (tokens v) (BeginValue fs) = complete v fs"
    and "vs \<noteq> []"
  shows "run_tokens (sep (map tokens vs)) (BeginValue (FArr acc # fs)) = EndValue (FArr (rev vs @ acc)) fs"
  using assms by (induction vs arbitrary: acc rule: induct_list012) auto

lemma run_members:
  assumes "\<And>kv fs. kv \<in> set kvs \<Longrightarrow> run_tokens (tokens (snd kv)) (BeginValue fs) = complete (snd kv) fs"
    and "kvs \<noteq> []"
  shows "run_tokens (sep (map (\<lambda>(k, v). TStr k # TColon # tokens v) kvs)) (BeginString acc fs) =
    EndValue (FObj (rev kvs @ acc) (fst (last kvs))) fs"
  using assms
proof (induction kvs arbitrary: acc)
  case (Cons kv kvs)
  obtain k v where kv: "kv = (k, v)" by fastforce
  have v: "run_tokens (tokens v) (BeginValue fs) = complete v fs" for fs
    using Cons.prems(1) [of kv] kv by simp
  show ?case
    using Cons kv v by (cases kvs) auto
qed simp

lemma run_first:
  "run_tokens (tokens v) (BeginValueOrEmpty fs) = run_tokens (tokens v) (BeginValue (FArr [] # fs))"
  by (cases v) auto

lemma sep_Cons: "xs \<noteq> [] \<Longrightarrow> sep (x # xs) = x @ TComma # sep xs"
  by (cases xs) auto

lemma join_Cons: "xs \<noteq> [] \<Longrightarrow> join (x # xs) = x @ '','' @ join xs"
  by (cases xs) auto

lemma run_array_open:
  "vs \<noteq> [] \<Longrightarrow> run_tokens (sep (map tokens vs)) (BeginValueOrEmpty fs) =
     run_tokens (sep (map tokens vs)) (BeginValue (FArr [] # fs))"
  by (cases vs rule: remdups_adj.cases) (simp_all add: run_first)

lemma run_object_open:
  "kvs \<noteq> [] \<Longrightarrow> run_tokens (sep (map (\<lambda>(k, v). TStr k # TColon # tokens v) kvs)) (BeginStringOrEmpty fs) =
     run_tokens (sep (map (\<lambda>(k, v). TStr k # TColon # tokens v) kvs)) (BeginString [] fs)"
  by (cases kvs rule: remdups_adj.cases) auto

lemma run_value: "run_tokens (tokens v) (BeginValue fs) = complete v fs"
proof (induction v arbitrary: fs)
  case (JArr vs)
  then show ?case
    by (cases "vs = []") (simp_all add: run_array_open run_elems)
next
  case (JObj kvs)
  have "run_tokens (tokens (snd kv)) (BeginValue fs) = complete (snd kv) fs" if "kv \<in> set kvs" for kv fs
    using JObj [of kv "snd kv"] that by (cases kv) simp
  then show ?case
    by (cases "kvs = []") (simp_all add: run_object_open run_members)
qed auto

text \<open>The lexer reads a printed value back as its tokens, whatever follows it, as long as a
  number is not continued.\<close>

definition num_end :: "string \<Rightarrow> bool" where
  "num_end s \<longleftrightarrow> (case s of [] \<Rightarrow> True | c # _ \<Rightarrow> \<not> num_char c)"

lemma hex_val_digit: "d < 16 \<Longrightarrow> hex_val (hex_digit d) = Some d"
  by (cases "d < 10") (simp_all add: hex_val_def hex_digit_def Let_def)

lemma hex_val_zero: "hex_val CHR ''0'' = Some 0"
  by (simp add: hex_val_def)

lemma read_unicode_esc:
  assumes "of_char c < (128::nat)"
  shows "read_unicode (CHR ''0'' # CHR ''0'' # hex_digit (of_char c div 16) # hex_digit (of_char c mod 16) # s) = Some ([c], s)"
proof -
  have "of_char c div 16 < (16::nat)" and "of_char c mod 16 < (16::nat)"
    using assms by auto
  then have "hex4 CHR ''0'' CHR ''0'' (hex_digit (of_char c div 16)) (hex_digit (of_char c mod 16)) = Some (of_char c)"
    by (simp add: hex4_def hex_val_zero hex_val_digit)
  with assms show ?thesis by (simp add: utf8_def)
qed

lemma lex_str_esc:
  "lex_str (esc_char c @ s) = map_option (\<lambda>(t, r). (c # t, r)) (lex_str s)"
proof (cases "of_char c < (32::nat) \<or> c \<in> {CHR ''<'', CHR ''>'', CHR ''&''}")
  case True
  then have "of_char c < (128::nat)" by auto
  then show ?thesis
    by (simp add: esc_char_def lex_str.simps(2) unescape_def read_unicode_esc del: read_unicode.simps)
next
  case False
  then show ?thesis
    by (simp add: esc_char_def lex_str.simps(2) unescape_def)
qed

lemma lex_str_quote: "lex_str (concat (map esc_char s) @ CHR 0x22 # r) = Some (s, r)"
  by (induction s) (simp_all add: lex_str_esc lex_str.simps(2))

lemma lex_quote: "lex (quote s @ r) = map_option ((#) (TStr s)) (lex r)"
  by (simp add: quote_def lex.simps(2) json_space_def punct_def lex_str_quote)

lemma lex_punct: "punct c = Some t \<Longrightarrow> lex (c # r) = map_option ((#) t) (lex r)"
proof -
  assume p: "punct c = Some t"
  then have "\<not> json_space c" by (auto simp: punct_def json_space_def split: if_splits)
  with p show ?thesis by (simp add: lex.simps(2))
qed

lemma num_char_not_punct: "num_char c \<Longrightarrow> punct c = None \<and> \<not> json_space c \<and> c \<noteq> CHR 0x22"
proof -
  assume c: "num_char c"
  have "\<not> num_char CHR ''{''" "\<not> num_char CHR ''}''" "\<not> num_char CHR ''[''" "\<not> num_char CHR '']''"
    "\<not> num_char CHR '':''" "\<not> num_char CHR '',''" "\<not> num_char CHR '' ''" "\<not> num_char CHR 0x22"
    "\<not> num_char CHR 0x09" "\<not> num_char CHR 0x0A" "\<not> num_char CHR 0x0D"
    by (simp_all add: num_char_def is_digit_def digit_val_def)
  with c show ?thesis unfolding punct_def json_space_def by auto
qed

lemma lex_number:
  assumes "is_number n" and "num_end r"
  shows "lex (n @ r) = map_option ((#) (TNum n)) (lex r)"
proof -
  have nc: "list_all num_char n" using assms(1) by (simp add: is_number_def Let_def)
  have "n \<noteq> []" using assms(1) by (auto simp: is_number_def Let_def)
  then obtain c cs where n: "n = c # cs" by (cases n) auto
  have tw: "takeWhile num_char (n @ r) = n" and dw: "dropWhile num_char (n @ r) = r"
    using nc assms(2) by (auto simp: list_all_iff num_end_def split: list.splits)
  have "num_char c" using nc n by simp
  with n tw dw assms(1) num_char_not_punct [of c] show ?thesis
    by (simp add: lex.simps(2))
qed

lemma num_end_Cons [simp]: "num_end (c # r) \<longleftrightarrow> \<not> num_char c"
  by (simp add: num_end_def)

lemma num_char_delims [simp]:
  "\<not> num_char CHR '',''" "\<not> num_char CHR '']''" "\<not> num_char CHR ''}''"
  by (simp_all add: num_char_def is_digit_def digit_val_def)

lemma lex_delims [simp]:
  "lex (CHR '','' # r) = map_option ((#) TComma) (lex r)"
  "lex (CHR '']'' # r) = map_option ((#) TRBrack) (lex r)"
  "lex (CHR ''['' # r) = map_option ((#) TLBrack) (lex r)"
  "lex (CHR ''{'' # r) = map_option ((#) TLBrace) (lex r)"
  "lex (CHR ''}'' # r) = map_option ((#) TRBrace) (lex r)"
  "lex (CHR '':'' # r) = map_option ((#) TColon) (lex r)"
  by (simp_all add: lex_punct punct_def)

lemma lex_word:
  "lex (''null'' @ r) = map_option ((#) TNull) (lex r)"
  "lex (''true'' @ r) = map_option ((#) TTrue) (lex r)"
  "lex (''false'' @ r) = map_option ((#) TFalse) (lex r)"
  by (simp_all add: lex.simps(2) json_space_def punct_def num_char_def is_digit_def digit_val_def has_prefix_def)

lemma lex_joined:
  assumes "\<And>x r. x \<in> set xs \<Longrightarrow> num_end r \<Longrightarrow> lex (f x @ r) = map_option ((@) (g x)) (lex r)"
    and "num_end r"
  shows "lex (join (map f xs) @ r) = map_option ((@) (sep (map g xs))) (lex r)"
  using assms
proof (induction xs)
  case Nil
  then show ?case by (simp add: option.map_ident)
next
  case (Cons x xs)
  then show ?case
    by (cases xs) (auto simp: option.map_comp comp_def)
qed

lemma lex_print: "wf_json v \<Longrightarrow> num_end r \<Longrightarrow> lex (json_print v @ r) = map_option ((@) (tokens v)) (lex r)"
proof (induction v arbitrary: r)
  case (JArr vs)
  have "lex (join (map json_print vs) @ CHR '']'' # r) =
      map_option ((@) (sep (map tokens vs))) (lex (CHR '']'' # r))"
    by (rule lex_joined) (use JArr in \<open>auto simp: list_all_iff\<close>)
  then show ?case by (simp add: option.map_comp comp_def)
next
  case (JObj kvs)
  have "lex ((case kv of (k, v) \<Rightarrow> quote k @ '':'' @ json_print v) @ r) =
      map_option ((@) (case kv of (k, v) \<Rightarrow> TStr k # TColon # tokens v)) (lex r)"
    if "kv \<in> set kvs" "num_end r" for kv r
  proof -
    obtain k v where kv: "kv = (k, v)" by fastforce
    have "lex (json_print v @ r) = map_option ((@) (tokens v)) (lex r)"
      using JObj.IH [of kv v r] JObj.prems(1) that kv by (auto simp: list_all_iff)
    with kv show ?thesis by (cases "lex r") (simp_all add: lex_quote)
  qed
  then have "lex (join (map (\<lambda>(k, v). quote k @ '':'' @ json_print v) kvs) @ CHR ''}'' # r) =
      map_option ((@) (sep (map (\<lambda>(k, v). TStr k # TColon # tokens v) kvs))) (lex (CHR ''}'' # r))"
    by (intro lex_joined) auto
  then show ?case by (simp add: option.map_comp comp_def)
next
  case (JNum n)
  then show ?case by (simp add: lex_number comp_def)
next
  case (JStr s)
  then show ?case by (simp add: lex_quote)
next
  case JNull
  show ?case using lex_word(1) [of r] by simp
next
  case (JBool b)
  show ?case using lex_word(2,3) [of r] by simp
qed

text \<open>Reading back what \<^verbatim>\<open>json.Marshal\<close> wrote gives the value again.\<close>

lemma json_parse_print: "wf_json v \<Longrightarrow> json_parse (json_print v) = Some v"
proof -
  assume "wf_json v"
  then have "lex (json_print v @ []) = Some (tokens v)"
    by (subst lex_print) (simp_all add: num_end_def)
  then show ?thesis by (simp add: json_parse_def run_value)
qed

section \<open>Reading a value into a Go type: \<^verbatim>\<open>json.Unmarshal\<close>\<close>

text \<open>The Go types of the structs in the sources. \<open>GAny\<close> is \<^verbatim>\<open>any\<close>, \<open>GRaw\<close> is
  \<^verbatim>\<open>json.RawMessage\<close>; a struct lists its JSON tags. Whether a literal fits
  \<^verbatim>\<open>float32\<close> or \<^verbatim>\<open>float64\<close> is not modelled: every number is accepted there.\<close>

datatype go_type =
    GInt16 | GInt32 | GInt64 | GBool | GString | GFloat | GRaw | GAny
  | GPtr go_type
  | GSlice go_type
  | GMap go_type
  | GStruct "(string \<times> go_type) list"

definition lower :: "char \<Rightarrow> char" where
  "lower c = (let k = of_char c :: nat in if 65 \<le> k \<and> k \<le> 90 then char_of (k + 32) else c)"

text \<open>A key of the text names a field when it is equal to its tag up to letter case.\<close>

definition key_eq :: "string \<Rightarrow> string \<Rightarrow> bool" where
  "key_eq a b \<longleftrightarrow> map lower a = map lower b"

lemma key_eq_code [code]:
  "key_eq [] [] = True" "key_eq [] (b # bs) = False" "key_eq (a # as) [] = False"
  "key_eq (a # as) (b # bs) =
     (if a = b then key_eq as bs else if lower a = lower b then key_eq as bs else False)"
  by (simp_all add: key_eq_def)

definition int_ok :: "(int \<Rightarrow> bool) \<Rightarrow> string \<Rightarrow> bool" where
  "int_ok P l = (case atoi l of Some i \<Rightarrow> P i | None \<Rightarrow> False)"

fun conforms :: "go_type \<Rightarrow> json \<Rightarrow> bool" where
  "conforms (GPtr t) j = conforms t j"
| "conforms GInt16 j = (case j of JNull \<Rightarrow> True | JNum l \<Rightarrow> int_ok is_int16 l | _ \<Rightarrow> False)"
| "conforms GInt32 j = (case j of JNull \<Rightarrow> True | JNum l \<Rightarrow> int_ok is_int32 l | _ \<Rightarrow> False)"
| "conforms GInt64 j = (case j of JNull \<Rightarrow> True | JNum l \<Rightarrow> int_ok is_int64 l | _ \<Rightarrow> False)"
| "conforms GBool j = (case j of JNull \<Rightarrow> True | JBool _ \<Rightarrow> True | _ \<Rightarrow> False)"
| "conforms GString j = (case j of JNull \<Rightarrow> True | JStr _ \<Rightarrow> True | _ \<Rightarrow> False)"
| "conforms GFloat j = (case j of JNull \<Rightarrow> True | JNum _ \<Rightarrow> True | _ \<Rightarrow> False)"
| "conforms GRaw j = True"
| "conforms GAny j = True"
| "conforms (GSlice t) j = (case j of JNull \<Rightarrow> True | JArr js \<Rightarrow> list_all (conforms t) js | _ \<Rightarrow> False)"
| "conforms (GMap t) j = (case j of JNull \<Rightarrow> True | JObj kvs \<Rightarrow> list_all (\<lambda>(k, v). conforms t v) kvs | _ \<Rightarrow> False)"
| "conforms (GStruct fs) j =
     (case j of
        JNull \<Rightarrow> True
      | JObj kvs \<Rightarrow> list_all (\<lambda>(k, v). list_all (\<lambda>(n, t). key_eq k n \<longrightarrow> conforms t v) fs) kvs
      | _ \<Rightarrow> False)"

text \<open>The members of an object that are written to the field with tag \<open>n\<close>, in the order of the
  text; a later member overwrites an earlier one.\<close>

definition members :: "json \<Rightarrow> (string \<times> json) list" where
  "members j = (case j of JObj kvs \<Rightarrow> kvs | _ \<Rightarrow> [])"

definition field_vals :: "json \<Rightarrow> string \<Rightarrow> json list" where
  "field_vals j n = map snd (filter (\<lambda>(k, v). key_eq k n) (members j))"

definition last_val :: "json list \<Rightarrow> json" where
  "last_val vs = (if vs = [] then JNull else last vs)"

text \<open>A value field is left unchanged by \<^verbatim>\<open>null\<close>, so the last other value counts; a pointer,
  slice or map field is reset by \<^verbatim>\<open>null\<close>; a raw field keeps the text, \<^verbatim>\<open>null\<close> included.\<close>

definition non_null :: "json list \<Rightarrow> json list" where
  "non_null vs = filter (\<lambda>v. v \<noteq> JNull) vs"

definition int_val :: "json \<Rightarrow> int" where
  "int_val v = (case v of JNum l \<Rightarrow> (case atoi l of Some i \<Rightarrow> i | None \<Rightarrow> 0) | _ \<Rightarrow> 0)"

definition str_val :: "json \<Rightarrow> string" where
  "str_val v = (case v of JStr s \<Rightarrow> s | _ \<Rightarrow> [])"

definition bool_val :: "json \<Rightarrow> bool" where
  "bool_val v = (case v of JBool b \<Rightarrow> b | _ \<Rightarrow> False)"

definition num_val :: "json \<Rightarrow> string" where
  "num_val v = (case v of JNum l \<Rightarrow> l | _ \<Rightarrow> ''0'')"

definition arr_val :: "json \<Rightarrow> json list" where
  "arr_val v = (case v of JArr js \<Rightarrow> js | _ \<Rightarrow> [])"

definition get_int :: "json \<Rightarrow> string \<Rightarrow> int" where
  "get_int j n = int_val (last_val (non_null (field_vals j n)))"

definition get_bool :: "json \<Rightarrow> string \<Rightarrow> bool" where
  "get_bool j n = bool_val (last_val (non_null (field_vals j n)))"

definition get_str :: "json \<Rightarrow> string \<Rightarrow> string" where
  "get_str j n = str_val (last_val (non_null (field_vals j n)))"

definition get_ptr :: "(json \<Rightarrow> 'a) \<Rightarrow> json \<Rightarrow> string \<Rightarrow> 'a option" where
  "get_ptr f j n = (let v = last_val (field_vals j n) in if v = JNull then None else Some (f v))"

definition get_raw :: "json \<Rightarrow> string \<Rightarrow> json option" where
  "get_raw j n = (let vs = field_vals j n in if vs = [] then None else Some (last vs))"

definition get_slice :: "(json \<Rightarrow> 'a) \<Rightarrow> json \<Rightarrow> string \<Rightarrow> 'a list" where
  "get_slice f j n = map f (arr_val (last_val (field_vals j n)))"

lemma field_vals_conforms:
  assumes "conforms (GStruct fs) j" and "(n, t) \<in> set fs" and "v \<in> set (field_vals j n)"
  shows "conforms t v"
  using assms by (cases j) (fastforce simp: field_vals_def members_def list_all_iff)+

lemma last_val_in: "last_val vs \<noteq> JNull \<Longrightarrow> last_val vs \<in> set vs"
  by (auto simp: last_val_def split: if_splits)

lemma conforms_int:
  assumes "conforms T v" and "T = GInt16 \<and> P = is_int16 \<or> T = GInt32 \<and> P = is_int32 \<or> T = GInt64 \<and> P = is_int64"
  shows "P (int_val v)"
  using assms
  by (cases v) (auto simp: int_val_def int_ok_def is_int16_def is_int32_def is_int64_def split: option.splits)

text \<open>An integer field of a struct that was read without an error is in the range of its type.\<close>

lemma get_int_range:
  assumes "conforms (GStruct fs) j" and "(n, T) \<in> set fs"
    and T: "T = GInt16 \<and> P = is_int16 \<or> T = GInt32 \<and> P = is_int32 \<or> T = GInt64 \<and> P = is_int64"
  shows "P (get_int j n)"
proof (cases "last_val (non_null (field_vals j n)) = JNull")
  case True
  have "conforms T JNull" using T by auto
  with True T show ?thesis by (metis conforms_int get_int_def)
next
  case False
  then have "last_val (non_null (field_vals j n)) \<in> set (field_vals j n)"
    using last_val_in by (fastforce simp: non_null_def)
  with assms(1,2) have "conforms T (last_val (non_null (field_vals j n)))"
    by (rule field_vals_conforms)
  with T show ?thesis by (metis conforms_int get_int_def)
qed

lemma get_ptr_conforms:
  assumes "conforms (GStruct fs) j" and "(n, GPtr t) \<in> set fs" and "get_ptr f j n = Some x"
  shows "\<exists>v. conforms t v \<and> v \<noteq> JNull \<and> x = f v"
proof -
  let ?v = "last_val (field_vals j n)"
  have v: "?v \<noteq> JNull" and x: "x = f ?v"
    using assms(3) by (auto simp: get_ptr_def Let_def split: if_splits)
  from v have "?v \<in> set (field_vals j n)" by (rule last_val_in)
  with assms(1,2) have "conforms (GPtr t) ?v" by (rule field_vals_conforms)
  then show ?thesis using v x by auto
qed

lemma get_slice_conforms:
  assumes "conforms (GStruct fs) j" and "(n, GSlice t) \<in> set fs" and "x \<in> set (get_slice f j n)"
  shows "\<exists>v. conforms t v \<and> x = f v"
proof -
  let ?v = "last_val (field_vals j n)"
  obtain w where w: "w \<in> set (arr_val ?v)" and x: "x = f w"
    using assms(3) by (auto simp: get_slice_def)
  then have "?v \<noteq> JNull" by (auto simp: arr_val_def)
  then have "?v \<in> set (field_vals j n)" by (rule last_val_in)
  with assms(1,2) have "conforms (GSlice t) ?v" by (rule field_vals_conforms)
  with w x show ?thesis by (auto simp: arr_val_def list_all_iff split: json.splits)
qed

section \<open>Untyped objects: \<^verbatim>\<open>map[string]any\<close>\<close>

text \<open>
  Reading into \<^verbatim>\<open>map[string]any\<close> turns every number into a \<^verbatim>\<open>float64\<close>, and writing the map
  sorts its keys and prints the numbers again. What a number literal becomes on that way is the
  argument \<open>renum\<close> (\<open>None\<close>: out of range, an error).
\<close>

fun str_less :: "string \<Rightarrow> string \<Rightarrow> bool" where
  "str_less _ [] = False"
| "str_less [] (_ # _) = True"
| "str_less (a # as) (b # bs) =
     ((of_char a :: nat) < of_char b \<or> a = b \<and> str_less as bs)"

text \<open>Assignment to a key of a map that is kept in key order.\<close>

fun obj_put :: "string \<Rightarrow> 'v \<Rightarrow> (string \<times> 'v) list \<Rightarrow> (string \<times> 'v) list" where
  "obj_put k v [] = [(k, v)]"
| "obj_put k v ((k', v') # m) =
     (if k = k' then (k, v) # m
      else if str_less k k' then (k, v) # (k', v') # m
      else (k', v') # obj_put k v m)"

definition to_map :: "(string \<times> 'v) list \<Rightarrow> (string \<times> 'v) list" where
  "to_map kvs = fold (\<lambda>(k, v). obj_put k v) kvs []"

fun any_json :: "(string \<Rightarrow> string option) \<Rightarrow> json \<Rightarrow> json option" where
  "any_json renum (JNum n) = map_option JNum (renum n)"
| "any_json renum (JArr vs) = map_option JArr (those (map (any_json renum) vs))"
| "any_json renum (JObj kvs) =
     map_option (\<lambda>ms. JObj (to_map ms))
       (those (map (\<lambda>(k, v). map_option (Pair k) (any_json renum v)) kvs))"
| "any_json renum v = Some v"

text \<open>\<^verbatim>\<open>json.Unmarshal(data, &m)\<close> for \<^verbatim>\<open>var m map[string]any\<close>: \<open>None\<close> is an error,
  \<open>Some None\<close> the nil map that the text \<^verbatim>\<open>null\<close> leaves.\<close>

definition unmarshal_map :: "(string \<Rightarrow> string option) \<Rightarrow> string \<Rightarrow> (string \<times> json) list option option" where
  "unmarshal_map renum s =
     (case json_parse s of
        Some JNull \<Rightarrow> Some None
      | Some (JObj kvs) \<Rightarrow>
          (case any_json renum (JObj kvs) of Some (JObj m) \<Rightarrow> Some (Some m) | _ \<Rightarrow> None)
      | _ \<Rightarrow> None)"

text \<open>What is known of the conversion: it yields number literals, and prints an integer of at most
  53 bits unchanged.\<close>

definition renum_exact :: "(string \<Rightarrow> string option) \<Rightarrow> bool" where
  "renum_exact renum \<longleftrightarrow>
     (\<forall>n m. is_number n \<longrightarrow> renum n = Some m \<longrightarrow> is_number m) \<and>
     (\<forall>i. \<bar>i\<bar> \<le> 2 ^ 53 \<longrightarrow> renum (itoa i) = Some (itoa i))"

lemma map_of_obj_put: "map_of (obj_put k v m) = (map_of m)(k \<mapsto> v)"
  by (induction k v m rule: obj_put.induct) (auto simp: fun_eq_iff)

lemma set_obj_put: "set (obj_put k v m) \<subseteq> insert (k, v) (set m)"
  by (induction k v m rule: obj_put.induct) auto

lemma set_to_map: "set (to_map kvs) \<subseteq> set kvs"
proof -
  have "set (fold (\<lambda>(k, v). obj_put k v) kvs m) \<subseteq> set kvs \<union> set m" for m
  proof (induction kvs arbitrary: m)
    case (Cons x kvs)
    from Cons [of "obj_put (fst x) (snd x) m"] set_obj_put [of "fst x" "snd x" m] show ?case
      by (cases x) auto
  qed simp
  from this [of "[]"] show ?thesis by (simp add: to_map_def)
qed

lemma map_of_to_map: "map_of (to_map kvs) = map_of (rev kvs)"
proof -
  have "map_of (fold (\<lambda>(k, v). obj_put k v) kvs m) = map_of m ++ map_of (rev kvs)" for m
  proof (induction kvs arbitrary: m)
    case (Cons x kvs)
    then show ?case
      by (cases x) (simp add: map_of_obj_put map_add_def fun_eq_iff split: option.splits)
  qed simp
  from this [of "[]"] show ?thesis by (simp add: to_map_def)
qed

lemma those_Some: "those xs = Some ys \<longleftrightarrow> xs = map Some ys"
proof (induction xs arbitrary: ys)
  case Nil
  then show ?case by auto
next
  case (Cons x xs)
  then show ?case by (cases x; cases "those xs") (auto simp: Cons_eq_map_conv)
qed

lemma any_json_wf: "renum_exact renum \<Longrightarrow> wf_json v \<Longrightarrow> any_json renum v = Some w \<Longrightarrow> wf_json w"
proof (induction renum v arbitrary: w rule: any_json.induct)
  case (1 renum n)
  then show ?case by (auto simp: renum_exact_def)
next
  case (2 renum vs)
  then obtain ws where w: "w = JArr ws" "map (any_json renum) vs = map Some ws"
    by (auto simp: those_Some)
  have "wf_json y" if "y \<in> set ws" for y
  proof -
    from that have "Some y \<in> set (map (any_json renum) vs)" unfolding w(2) by simp
    then obtain x where x: "x \<in> set vs" "any_json renum x = Some y" by auto
    moreover from x(1) "2.prems"(2) have "wf_json x" by (simp add: list_all_iff)
    ultimately show ?thesis using "2.IH" "2.prems"(1) by blast
  qed
  with w show ?case by (simp add: list_all_iff)
next
  case (3 renum kvs)
  then obtain ms where w: "w = JObj (to_map ms)"
    "map (\<lambda>(k, v). map_option (Pair k) (any_json renum v)) kvs = map Some ms"
    by (auto simp: those_Some)
  have "wf_json (snd y)" if y: "y \<in> set ms" for y
  proof -
    from y have "Some y \<in> set (map (\<lambda>(k, v). map_option (Pair k) (any_json renum v)) kvs)"
      unfolding w(2) by simp
    then obtain k v u where x: "(k, v) \<in> set kvs" and u: "any_json renum v = Some u" "y = (k, u)"
      by (auto simp: eq_commute [of "Some y"])
    moreover from x "3.prems"(2) have "wf_json v" by (auto simp: list_all_iff)
    ultimately show ?thesis using "3.IH" [OF x refl] "3.prems"(1) by simp
  qed
  moreover have "set (to_map ms) \<subseteq> set ms" by (rule set_to_map)
  ultimately show ?case using w by (auto simp: list_all_iff)
qed auto

text \<open>A map has one member per key.\<close>

lemma str_less_irrefl [simp]: "\<not> str_less s s"
  by (induction s) auto

lemma str_less_trans: "str_less a b \<Longrightarrow> str_less b c \<Longrightarrow> str_less a c"
proof (induction a b arbitrary: c rule: str_less.induct)
  case (2 b bs)
  then show ?case by (cases c) auto
next
  case (3 a as b bs)
  then show ?case by (cases c) auto
qed simp

lemma str_less_total: "a \<noteq> b \<Longrightarrow> \<not> str_less a b \<Longrightarrow> str_less b a"
proof (induction a b rule: str_less.induct)
  case (1 a)
  then show ?case by (cases a) auto
next
  case (3 a as b bs)
  have "a \<noteq> b \<Longrightarrow> (of_char a :: nat) \<noteq> of_char b" by simp
  with 3 show ?case by auto
qed simp

lemma obj_put_sorted:
  "sorted_wrt str_less (map fst m) \<Longrightarrow> sorted_wrt str_less (map fst (obj_put k v m))"
proof (induction k v m rule: obj_put.induct)
  case (2 k v k' v' m)
  show ?case
  proof (cases "k = k' \<or> str_less k k'")
    case True
    with 2 show ?thesis by (auto intro: str_less_trans)
  next
    case False
    then have k: "str_less k' k" using str_less_total by blast
    have "str_less k' (fst x)" if "x \<in> set (obj_put k v m)" for x
    proof -
      have "x = (k, v) \<or> x \<in> set m" using that set_obj_put [of k v m] by blast
      then show ?thesis using k "2.prems" by auto
    qed
    with False 2 show ?thesis by auto
  qed
qed simp

lemma to_map_sorted: "sorted_wrt str_less (map fst (to_map kvs))"
proof -
  have "sorted_wrt str_less (map fst m) \<Longrightarrow>
      sorted_wrt str_less (map fst (fold (\<lambda>(k, v). obj_put k v) kvs m))" for m
    by (induction kvs arbitrary: m) (auto simp: obj_put_sorted split: prod.splits)
  then show ?thesis by (simp add: to_map_def)
qed

lemma sorted_distinct: "sorted_wrt str_less ks \<Longrightarrow> distinct ks"
  by (induction ks) auto

text \<open>A struct field whose tag is the only key of the object up to letter case.\<close>

lemma single_key_filter:
  assumes "distinct (map fst m)" and "map_of m k = Some v" and "\<forall>k' \<in> fst ` set m. key_eq k' k \<longrightarrow> k' = k"
  shows "filter (\<lambda>(k', v). key_eq k' k) m = [(k, v)]"
  using assms
proof (induction m)
  case (Cons x m)
  show ?case
  proof (cases "fst x = k")
    case True
    then have "k \<notin> fst ` set m" using Cons.prems(1) by auto
    then have "\<not> key_eq (fst y) k" if "y \<in> set m" for y
      using that Cons.prems(3) by (metis image_eqI list.set_intros(2))
    then have "filter (\<lambda>(k', v). key_eq k' k) m = []" by (auto simp: filter_empty_conv)
    moreover have "snd x = v" using True Cons.prems(2) by (cases x) simp
    ultimately show ?thesis using True by (cases x) (simp add: key_eq_def)
  next
    case False
    then have "\<not> key_eq (fst x) k" using Cons.prems(3) by auto
    moreover have "filter (\<lambda>(k', v). key_eq k' k) m = [(k, v)]"
      using Cons False by (cases x) auto
    ultimately show ?thesis by (cases x) simp
  qed
qed simp

lemma int_field_of_map:
  assumes "distinct (map fst m)" and "map_of m k = Some (JNum (itoa n))"
    and "\<forall>k' \<in> fst ` set m. key_eq k' k \<longrightarrow> k' = k" and "is_int64 n"
  shows "conforms (GStruct [(k, GInt64)]) (JObj m)" and "get_int (JObj m) k = n"
proof -
  note f = single_key_filter [OF assms(1-3)]
  have "conforms GInt64 v" if "(k', v) \<in> set m" and "key_eq k' k" for k' v
  proof -
    have "(k', v) \<in> set (filter (\<lambda>(k', v). key_eq k' k) m)" using that by simp
    then have "v = JNum (itoa n)" unfolding f by simp
    then show ?thesis using assms(4) by (simp add: int_ok_def atoi_itoa)
  qed
  then show "conforms (GStruct [(k, GInt64)]) (JObj m)" by (auto simp: list_all_iff)
  show "get_int (JObj m) k = n"
    using assms(4) by (simp add: get_int_def field_vals_def members_def f non_null_def last_val_def int_val_def atoi_itoa)
qed

text \<open>The integers \<^verbatim>\<open>strconv\<close> prints are number literals.\<close>

lemma is_digit_char: "d < 10 \<Longrightarrow> is_digit (digit_char d)"
  by (simp add: is_digit_def digit_val_char)

lemma nat_str_all_digits: "c \<in> set (nat_str n) \<Longrightarrow> is_digit c"
  using nat_str_digits is_digit_char by blast

lemma nat_str_no_zero: "0 < n \<Longrightarrow> hd (nat_str n) \<noteq> CHR ''0''"
proof (induction n rule: nat_str.induct)
  case (1 n)
  show ?case
  proof (cases "n < 10")
    case True
    have "digit_val CHR ''0'' = Some 0" by code_simp
    then have "digit_char n \<noteq> CHR ''0''" using True 1(2) digit_val_char [of n] by auto
    with True show ?thesis by (simp add: nat_str.simps [of n])
  next
    case False
    with 1 show ?thesis by (simp add: nat_str.simps [of n] nat_str_nonempty)
  qed
qed

lemma is_number_itoa: "is_number (itoa i)"
proof -
  have nat: "takeWhile is_digit (nat_str n) = nat_str n" "dropWhile is_digit (nat_str n) = []"
    "hd (nat_str n) = CHR ''0'' \<longrightarrow> length (nat_str n) = 1" "list_all num_char (nat_str n)" for n
  proof -
    show "takeWhile is_digit (nat_str n) = nat_str n" "dropWhile is_digit (nat_str n) = []"
      using nat_str_all_digits by auto
    show "hd (nat_str n) = CHR ''0'' \<longrightarrow> length (nat_str n) = 1"
      using nat_str_no_zero [of n] by (cases "n = 0") (auto simp: nat_str.simps [of 0])
    show "list_all num_char (nat_str n)" using nat_str_all_digits by (auto simp: list_all_iff num_char_def)
  qed
  obtain c cs where n: "nat_str (nat \<bar>i\<bar>) = c # cs"
    using nat_str_nonempty by (cases "nat_str (nat \<bar>i\<bar>)") auto
  then have "c \<noteq> CHR ''-''" using nat_str_hd by blast
  moreover have "itoa i = (if i < 0 then CHR ''-'' # c # cs else c # cs)"
    using n by (cases "i < 0") (simp_all add: itoa_def)
  ultimately show ?thesis
    using nat [of "nat \<bar>i\<bar>"] n by (auto simp: is_number_def frac_ok_def num_char_def)
qed

lemma any_json_member:
  assumes "map (\<lambda>(k, v). map_option (Pair k) (any_json renum v)) kvs = map Some ms"
  shows "map_of ms k = (case map_of kvs k of None \<Rightarrow> None | Some v \<Rightarrow> any_json renum v)"
  using assms
proof (induction kvs arbitrary: ms)
  case (Cons x kvs)
  then show ?case by (cases x; cases ms) auto
qed simp

lemma any_json_str: "any_json renum v = Some (JStr s) \<Longrightarrow> v = JStr s"
  by (cases v) auto

lemma any_json_obj:
  assumes "any_json renum (JObj kvs) = Some w"
  obtains m where "w = JObj m" and "sorted_wrt str_less (map fst m)"
    and "\<And>k. map_of m k = (case map_of (rev kvs) k of None \<Rightarrow> None | Some v \<Rightarrow> any_json renum v)"
proof -
  let ?f = "\<lambda>(k, v). map_option (Pair k) (any_json renum v)"
  obtain ms where ms: "w = JObj (to_map ms)" "map ?f kvs = map Some ms"
    using assms by (auto simp: those_Some)
  from ms(2) have "map ?f (rev kvs) = map Some (rev ms)" by (metis rev_map)
  note any_json_member [OF this]
  then show thesis using ms(1) that [of "to_map ms"] by (simp add: map_of_to_map to_map_sorted)
qed

lemma unmarshal_map_str:
  assumes "json_parse s = Some (JObj kvs)" and "unmarshal_map renum s = Some (Some m)" and "map_of m k = Some (JStr x)"
  shows "map_of (rev kvs) k = Some (JStr x)"
proof -
  have m: "any_json renum (JObj kvs) = Some (JObj m)"
    using assms(1,2) by (auto simp: unmarshal_map_def split: json.splits option.splits simp del: any_json.simps)
  from m show ?thesis
    by (rule any_json_obj) (use assms(3) in \<open>auto split: option.splits dest: any_json_str\<close>)
qed

lemma map_of_rev_distinct: "distinct (map fst m) \<Longrightarrow> map_of (rev m) = map_of m"
  by (metis distinct_map map_of_inject_set set_rev distinct_rev rev_map)

lemma wf_json_obj: "wf_json (JObj m) \<longleftrightarrow> (\<forall>x \<in> set m. wf_json (snd x))"
  by (auto simp: list_all_iff)

lemma obj_put_wf: "wf_json (JObj m) \<Longrightarrow> wf_json v \<Longrightarrow> wf_json (JObj (obj_put k v m))"
  unfolding wf_json_obj using set_obj_put [of k v m] by fastforce

subsection \<open>What is read is well formed\<close>

fun token_wf :: "token \<Rightarrow> bool" where
  "token_wf (TNum n) = is_number n"
| "token_wf _ = True"

fun frame_wf :: "frame \<Rightarrow> bool" where
  "frame_wf (FArr vs) = list_all wf_json vs"
| "frame_wf (FObj kvs k) = list_all (\<lambda>(k, v). wf_json v) kvs"

fun pstate_wf :: "pstate \<Rightarrow> bool" where
  "pstate_wf (BeginValue fs) = list_all frame_wf fs"
| "pstate_wf (BeginValueOrEmpty fs) = list_all frame_wf fs"
| "pstate_wf (BeginStringOrEmpty fs) = list_all frame_wf fs"
| "pstate_wf (BeginString kvs fs) = (list_all (\<lambda>(k, v). wf_json v) kvs \<and> list_all frame_wf fs)"
| "pstate_wf (AfterKey kvs k fs) = (list_all (\<lambda>(k, v). wf_json v) kvs \<and> list_all frame_wf fs)"
| "pstate_wf (EndValue f fs) = (frame_wf f \<and> list_all frame_wf fs)"
| "pstate_wf (EndTop v) = wf_json v"
| "pstate_wf PError = True"

lemma punct_wf: "punct c = Some t \<Longrightarrow> token_wf t"
  by (auto simp: punct_def split: if_splits)

lemma lex_wf: "lex s = Some ts \<Longrightarrow> list_all token_wf ts"
proof (induction s arbitrary: ts rule: length_induct)
  case (1 s)
  show ?case
  proof (cases s)
    case Nil
    then show ?thesis using "1.prems" by simp
  next
    case (Cons c cs)
    have ih: "list_all token_wf zs" if "lex y = Some zs" and "length y \<le> length cs" for y zs
      using "1.IH" that Cons by (metis le_imp_less_Suc length_Cons)
    have dw: "length (dropWhile num_char cs) \<le> length cs" by (rule length_dropWhile_le)
    have dr: "length (drop k cs) \<le> length cs" for k by simp
    have str: "length r \<le> length cs" if "lex_str cs = Some (u, r)" for u r
      using lex_str_shorter [OF that] by simp
    show ?thesis using "1.prems" unfolding Cons
      by (subst (asm) lex.simps(2))
         (auto simp: Let_def intro: ih [OF _ order_refl] ih [OF _ dw] ih [OF _ dr] ih [OF _ str] punct_wf
           split: if_splits option.splits)
  qed
qed

lemma complete_wf: "wf_json v \<Longrightarrow> list_all frame_wf fs \<Longrightarrow> pstate_wf (complete v fs)"
proof (cases fs)
  case (Cons f fs')
  then show "wf_json v \<Longrightarrow> list_all frame_wf fs \<Longrightarrow> ?thesis" by (cases f) auto
qed simp

lemma begin_value_wf: "token_wf t \<Longrightarrow> list_all frame_wf fs \<Longrightarrow> pstate_wf (begin_value fs t)"
  by (cases t) (auto intro: complete_wf)

lemma pstep_wf: "token_wf t \<Longrightarrow> pstate_wf st \<Longrightarrow> pstate_wf (pstep st t)"
  by (induction st t rule: pstep.induct)
     (auto intro!: complete_wf begin_value_wf split: token.splits simp: list_all_rev)

lemma json_parse_wf:
  assumes "json_parse s = Some v"
  shows "wf_json v"
proof -
  obtain ts where ts: "lex s = Some ts" "fold (\<lambda>t st. pstep st t) ts (BeginValue []) = EndTop v"
    using assms by (auto simp: json_parse_def split: option.splits pstate.splits)
  have "list_all token_wf us \<Longrightarrow> pstate_wf st \<Longrightarrow> pstate_wf (fold (\<lambda>t st. pstep st t) us st)" for us st
    by (induction us arbitrary: st) (auto intro: pstep_wf)
  from this [of ts "BeginValue []"] lex_wf [OF ts(1)] ts(2) show ?thesis by simp
qed

lemma unmarshal_map_wf:
  assumes "renum_exact renum" and "unmarshal_map renum s = Some (Some m)"
  shows "wf_json (JObj m)" and "sorted_wrt str_less (map fst m)"
proof -
  obtain kvs where j: "json_parse s = Some (JObj kvs)" and m: "any_json renum (JObj kvs) = Some (JObj m)"
    using assms(2) by (auto simp: unmarshal_map_def split: json.splits option.splits simp del: any_json.simps)
  show "wf_json (JObj m)" using any_json_wf [OF assms(1) json_parse_wf [OF j] m] .
  show "sorted_wrt str_less (map fst m)" using m by (rule any_json_obj) simp
qed

lemma ptr_field_of_map:
  assumes "distinct (map fst m)" and "map_of m k = Some (JNum (itoa n))"
    and "\<forall>k' \<in> fst ` set m. key_eq k' k \<longrightarrow> k' = k" and "is_int64 n"
  shows "conforms (GStruct [(k, GPtr GInt64)]) (JObj m)" and "get_ptr int_val (JObj m) k = Some n"
proof -
  have "conforms (GStruct [(k, GInt64)]) (JObj m)" using int_field_of_map(1) [OF assms] .
  then show "conforms (GStruct [(k, GPtr GInt64)]) (JObj m)" by (simp add: list_all_iff)
  show "get_ptr int_val (JObj m) k = Some n"
    using assms(4) single_key_filter [OF assms(1-3)]
    by (simp add: get_ptr_def field_vals_def members_def last_val_def int_val_def atoi_itoa)
qed

lemma obj_put_keys:
  assumes "\<forall>k' \<in> fst ` set m. key_eq k' k \<longrightarrow> k' = k"
  shows "\<forall>k' \<in> fst ` set (obj_put k v m). key_eq k' k \<longrightarrow> k' = k"
  using assms image_mono [OF set_obj_put [of k v m], of fst] unfolding image_insert fst_conv by blast

end
