(* ===== verification/Runner.thy ===== *)
theory Runner
  imports Queue Json
begin

text \<open>
  The worker loop (\<^verbatim>\<open>internal/worker/runner.go\<close>): taking tasks from a queue, running a handler
  on each, settling it by the handler's result; the adaptation of the batch to the backlog; the
  recovery of stale deliveries; and the circuit breaker. The queue is a value of the port, the
  handler a function on the world that returns or panics.
\<close>

section \<open>Handlers\<close>

text \<open>\<^verbatim>\<open>Result\<close> is a string type; the three constants are its named values.\<close>

type_synonym work_result = string

definition ResultSuccess :: work_result where "ResultSuccess = ''success''"
definition ResultRetry :: work_result where "ResultRetry = ''retry''"
definition ResultDrop :: work_result where "ResultDrop = ''drop''"

lemmas result_defs = ResultSuccess_def ResultRetry_def ResultDrop_def

datatype outcome = Returned work_result "go_error option" | Panicked string

type_synonym 'w handler = "task \<Rightarrow> 'w \<Rightarrow> outcome \<times> 'w"

record run_cfg =
  rc_Batch :: int
  rc_Block :: duration
  rc_RecoverStale :: bool
  rc_Backpressure :: bool   \<comment> \<open>\<^verbatim>\<open>QueueProvider\<close> is set\<close>

section \<open>The circuit breaker\<close>

text \<open>
  Every method is taken as one step. \<open>timers\<close> are the goroutines that wait for the half-open delay,
  by the channel that stops them; closing a channel ends its goroutine.
\<close>

datatype circuit_state = circuitClosed | circuitOpen | circuitHalfOpen

record circuit_breaker =
  failures :: int
  successes :: int
  threshold :: int
  halfOpenAfter :: duration
  halfOpenSuccessTarget :: int
  cb_state :: circuit_state
  timerCh :: "nat option"
  timers :: "nat list"
  channels :: nat

definition NewCircuitBreaker :: "int \<Rightarrow> duration \<Rightarrow> circuit_breaker" where
  "NewCircuitBreaker t d =
     \<lparr>failures = 0, successes = 0, threshold = t, halfOpenAfter = d, halfOpenSuccessTarget = 3,
      cb_state = circuitClosed, timerCh = None, timers = [], channels = 0\<rparr>"

definition Allow :: "circuit_breaker \<Rightarrow> bool" where
  "Allow cb = (case cb_state cb of circuitOpen \<Rightarrow> False | circuitHalfOpen \<Rightarrow> True | circuitClosed \<Rightarrow> True)"

definition stop_timer :: "circuit_breaker \<Rightarrow> circuit_breaker" where
  "stop_timer cb = (case timerCh cb of None \<Rightarrow> cb | Some ch \<Rightarrow> cb\<lparr>timers := removeAll ch (timers cb)\<rparr>)"

definition start_timer :: "circuit_breaker \<Rightarrow> circuit_breaker" where
  "start_timer cb =
     cb\<lparr>timerCh := Some (channels cb), timers := channels cb # timers cb, channels := channels cb + 1\<rparr>"

definition RecordFailure :: "circuit_breaker \<Rightarrow> circuit_breaker" where
  "RecordFailure cb =
     (case cb_state cb of
        circuitOpen \<Rightarrow> cb
      | circuitHalfOpen \<Rightarrow>
          start_timer ((stop_timer cb)\<lparr>cb_state := circuitOpen, successes := 0, failures := 0\<rparr>)
      | circuitClosed \<Rightarrow>
          let n = failures cb + 1; cb1 = cb\<lparr>failures := n\<rparr>
          in if threshold cb \<le> n then start_timer (stop_timer (cb1\<lparr>cb_state := circuitOpen, successes := 0, failures := 0\<rparr>))
             else cb1)"

definition RecordSuccess :: "circuit_breaker \<Rightarrow> circuit_breaker" where
  "RecordSuccess cb =
     (if cb_state cb \<noteq> circuitHalfOpen then cb
      else
        let s = successes cb + 1
        in if halfOpenSuccessTarget cb \<le> s then cb\<lparr>cb_state := circuitClosed, successes := 0\<rparr>
           else cb\<lparr>successes := s\<rparr>)"

text \<open>A timer that was not stopped ends by storing the half-open state.\<close>

definition fire :: "nat \<Rightarrow> circuit_breaker \<Rightarrow> circuit_breaker" where
  "fire ch cb = cb\<lparr>cb_state := circuitHalfOpen, timers := removeAll ch (timers cb)\<rparr>"

section \<open>One task\<close>

text \<open>The count that the stale recovery wrote into the payload.\<close>

definition read_retry :: "task \<Rightarrow> task" where
  "read_retry t =
     (case json_parse (Payload t) of
        None \<Rightarrow> t
      | Some j \<Rightarrow>
          if conforms (GStruct [(''_retry'', GPtr GInt64)]) j then
            (case get_ptr int_val j ''_retry'' of
               None \<Rightarrow> t
             | Some n \<Rightarrow> if RetryCount t < n then t\<lparr>RetryCount := n\<rparr> else t)
          else t)"

text \<open>The handler under \<^verbatim>\<open>recover\<close>.\<close>

definition protect :: "outcome \<Rightarrow> work_result \<times> go_error option" where
  "protect out =
     (case out of
        Returned r e \<Rightarrow> (r, e)
      | Panicked s \<Rightarrow> (ResultRetry, Some (ErrText (''process panic: '' @ s))))"

definition settle :: "'w queue_if \<Rightarrow> task \<Rightarrow> work_result \<Rightarrow> go_error option \<Rightarrow> 'w \<Rightarrow> 'w" where
  "settle Q t result procErr w =
     (if result = ResultSuccess then snd (q_Ack Q (ID t) w)
      else if result = ResultDrop then snd (q_Ack Q (ID t) w)
      else if result = ResultRetry then
        snd (q_Retry Q t (case procErr of Some e \<Rightarrow> err_string e | None \<Rightarrow> ''retry'') w)
      else
        case procErr of
          Some e \<Rightarrow> snd (q_Retry Q t (err_string e) w)
        | None \<Rightarrow> snd (q_Ack Q (ID t) w))"

definition process_task :: "'w queue_if \<Rightarrow> 'w handler \<Rightarrow> task \<Rightarrow> 'w \<Rightarrow> 'w" where
  "process_task Q h t0 w =
     (let t = read_retry t0;
          (out, w1) = h t w;
          (result, procErr) = protect out
      in settle Q t result procErr w1)"

definition process_all :: "'w queue_if \<Rightarrow> 'w handler \<Rightarrow> task list \<Rightarrow> 'w \<Rightarrow> 'w" where
  "process_all Q h ts w = fold (process_task Q h) ts w"

section \<open>Backpressure\<close>

definition maxBlockDuration :: duration where "maxBlockDuration = 5 * second"
definition recoverThreshold :: int where "recoverThreshold = 1000"

definition adjustForBackpressure :: "int \<Rightarrow> int \<times> duration \<Rightarrow> int \<Rightarrow> duration \<Rightarrow> int \<times> duration" where
  "adjustForBackpressure pend bb baseBatch baseBlock =
     (let (batch, block) = bb
      in if 10000 < pend then (max (go_div batch 2) 1, min (wrap64 (block * 2)) maxBlockDuration)
         else if pend < recoverThreshold \<and> (batch < baseBatch \<or> baseBlock < block) then
           (min (batch + 1) baseBatch, if baseBlock < block then max (go_div block 2) baseBlock else block)
         else (batch, block))"

section \<open>The loop\<close>

text \<open>One pass: the error that ends the loop, or the batch and block for the next pass. \<open>ctx\<close> is
  \<^verbatim>\<open>ctx.Err()\<close>.\<close>

definition run_pass :: "('w \<Rightarrow> go_error option) \<Rightarrow> 'w queue_if \<Rightarrow> run_cfg \<Rightarrow> 'w handler \<Rightarrow> int \<Rightarrow> duration \<Rightarrow> int \<times> duration \<Rightarrow> 'w \<Rightarrow> (go_error + int \<times> duration) \<times> 'w" where
  "run_pass ctx Q c h baseBatch baseBlock bb w =
     (case ctx w of
        Some e \<Rightarrow> (Inl e, w)
      | None \<Rightarrow>
          let (bb1, w1) = (if rc_Backpressure c then
                             (let (p, wa) = q_PendingLen Q w; (_, wb) = q_InFlightLen Q wa
                              in (adjustForBackpressure p bb baseBatch baseBlock, wb))
                           else (bb, w))
          in case q_Pop Q (fst bb1) (snd bb1) w1 of
               (Inl e, w2) \<Rightarrow>
                 if errors_is e ErrEmpty then (Inr bb1, w2)
                 else if errors_is e Canceled \<or> errors_is e DeadlineExceeded then (Inl e, w2)
                 else (Inr bb1, w2)
             | (Inr ts, w2) \<Rightarrow> (Inr bb1, process_all Q h ts w2))"

text \<open>The loop ends only with an error; \<open>None\<close> means that it is still running after the given number of
  passes.\<close>

fun run_loop :: "nat \<Rightarrow> ('w \<Rightarrow> go_error option) \<Rightarrow> 'w queue_if \<Rightarrow> run_cfg \<Rightarrow> 'w handler \<Rightarrow> int \<Rightarrow> duration \<Rightarrow> int \<times> duration \<Rightarrow> 'w \<Rightarrow> go_error option \<times> 'w" where
  "run_loop 0 ctx Q c h baseBatch baseBlock bb w = (None, w)"
| "run_loop (Suc n) ctx Q c h baseBatch baseBlock bb w =
     (case run_pass ctx Q c h baseBatch baseBlock bb w of
        (Inl e, w1) \<Rightarrow> (Some e, w1)
      | (Inr bb1, w1) \<Rightarrow> run_loop n ctx Q c h baseBatch baseBlock bb1 w1)"

definition Run :: "nat \<Rightarrow> ('w \<Rightarrow> go_error option) \<Rightarrow> 'w queue_if \<Rightarrow> run_cfg \<Rightarrow> 'w handler \<Rightarrow> 'w \<Rightarrow> go_error option \<times> 'w" where
  "Run n ctx Q c h w =
     (let baseBatch = (if rc_Batch c \<le> 0 then 10 else rc_Batch c);
          baseBlock = (if rc_Block c \<le> 0 then 2 * second else rc_Block c)
      in run_loop n ctx Q c h baseBatch baseBlock (baseBatch, baseBlock) w)"

section \<open>Stale deliveries\<close>

definition withRetryCount :: "(string \<Rightarrow> string option) \<Rightarrow> bytes \<Rightarrow> int \<Rightarrow> go_error + bytes" where
  "withRetryCount renum payload retryCount =
     (if retryCount \<le> 0 then Inr payload
      else
        case unmarshal_map renum payload of
          None \<Rightarrow> Inr payload
        | Some None \<Rightarrow> Inl (Panic ''assignment to entry in nil map'')
        | Some (Some m) \<Rightarrow> Inr (json_print (JObj (obj_put ''_retry'' (JNum (itoa retryCount)) m))))"

text \<open>The recovered tasks of one tick; a panic ends the process.\<close>

fun requeue_stale :: "'w queue_if \<Rightarrow> (string \<Rightarrow> string option) \<Rightarrow> task list \<Rightarrow> 'w \<Rightarrow> go_error option \<times> 'w" where
  "requeue_stale Q renum [] w = (None, w)"
| "requeue_stale Q renum (t # ts) w =
     (case withRetryCount renum (Payload t) (RetryCount t) of
        Inl e \<Rightarrow> (Some e, w)
      | Inr p \<Rightarrow>
          case q_Push Q p w of
            (Some e, w1) \<Rightarrow> requeue_stale Q renum ts w1
          | (None, w1) \<Rightarrow> requeue_stale Q renum ts (snd (q_Ack Q (ID t) w1)))"

datatype stale_event = StaleTick | StaleDone

fun staleRecoveryLoop :: "'w queue_if \<Rightarrow> (string \<Rightarrow> string option) \<Rightarrow> stale_event list \<Rightarrow> 'w \<Rightarrow> go_error option \<times> 'w" where
  "staleRecoveryLoop Q renum [] w = (None, w)"
| "staleRecoveryLoop Q renum (StaleDone # es) w = (None, w)"
| "staleRecoveryLoop Q renum (StaleTick # es) w =
     (case q_RecoverStale Q (10 * minute) 100 w of
        (Inl e, w1) \<Rightarrow> staleRecoveryLoop Q renum es w1
      | (Inr ts, w1) \<Rightarrow>
          case requeue_stale Q renum ts w1 of
            (Some e, w2) \<Rightarrow> (Some e, w2)
          | (None, w2) \<Rightarrow> staleRecoveryLoop Q renum es w2)"

section \<open>The circuit breaker as a state machine\<close>

inductive cb_reach :: "int \<Rightarrow> duration \<Rightarrow> circuit_breaker \<Rightarrow> bool" for t d where
  start: "cb_reach t d (NewCircuitBreaker t d)"
| failure: "cb_reach t d cb \<Longrightarrow> cb_reach t d (RecordFailure cb)"
| success: "cb_reach t d cb \<Longrightarrow> cb_reach t d (RecordSuccess cb)"
| timer: "cb_reach t d cb \<Longrightarrow> ch \<in> set (timers cb) \<Longrightarrow> cb_reach t d (fire ch cb)"

definition cb_inv :: "int \<Rightarrow> circuit_breaker \<Rightarrow> bool" where
  "cb_inv t cb \<longleftrightarrow>
     threshold cb = t \<and> halfOpenSuccessTarget cb = 3 \<and>
     (case cb_state cb of
        circuitOpen \<Rightarrow> (\<exists>ch. timerCh cb = Some ch \<and> timers cb = [ch]) \<and> failures cb = 0 \<and> successes cb = 0
      | circuitHalfOpen \<Rightarrow> timers cb = [] \<and> failures cb = 0 \<and> 0 \<le> successes cb \<and> successes cb < 3
      | circuitClosed \<Rightarrow> timers cb = [] \<and> 0 \<le> failures cb \<and> (0 < t \<longrightarrow> failures cb < t) \<and> (t \<le> 0 \<longrightarrow> failures cb = 0) \<and> successes cb = 0)"

lemma cb_inv_stop:
  "cb_inv t cb \<Longrightarrow> cb_state cb \<noteq> circuitOpen \<Longrightarrow> timers (stop_timer cb) = []"
  by (cases "cb_state cb") (auto simp: cb_inv_def stop_timer_def split: option.splits)

lemma timer_frame [simp]:
  "cb_state (start_timer cb) = cb_state cb" "failures (start_timer cb) = failures cb" "successes (start_timer cb) = successes cb"
  "threshold (start_timer cb) = threshold cb" "halfOpenSuccessTarget (start_timer cb) = halfOpenSuccessTarget cb"
  "cb_state (stop_timer cb) = cb_state cb" "failures (stop_timer cb) = failures cb" "successes (stop_timer cb) = successes cb"
  "threshold (stop_timer cb) = threshold cb" "halfOpenSuccessTarget (stop_timer cb) = halfOpenSuccessTarget cb"
  "timerCh (start_timer cb) = Some (channels cb)" "timers (start_timer cb) = channels cb # timers cb"
  "timerCh (stop_timer cb) = timerCh cb"
  by (simp_all add: start_timer_def stop_timer_def split: option.splits)

lemma stop_timer_none [simp]: "timers cb = [] \<Longrightarrow> timers (stop_timer cb) = []"
  by (simp add: stop_timer_def split: option.splits)

lemma cb_inv_failure: "cb_inv t cb \<Longrightarrow> cb_inv t (RecordFailure cb)"
  by (cases "cb_state cb") (auto simp: cb_inv_def RecordFailure_def Let_def)

lemma cb_inv_success: "cb_inv t cb \<Longrightarrow> cb_inv t (RecordSuccess cb)"
  by (cases "cb_state cb") (auto simp: cb_inv_def RecordSuccess_def Let_def)

lemma cb_inv_fire: "cb_inv t cb \<Longrightarrow> ch \<in> set (timers cb) \<Longrightarrow> cb_inv t (fire ch cb)"
  by (cases "cb_state cb") (auto simp: cb_inv_def fire_def)

lemma cb_reach_inv: "cb_reach t d cb \<Longrightarrow> cb_inv t cb"
proof (induction rule: cb_reach.induct)
  case start
  then show ?case by (simp add: cb_inv_def NewCircuitBreaker_def)
qed (auto intro: cb_inv_failure cb_inv_success cb_inv_fire)



lemma RecordFailure_open: "cb_state cb = circuitOpen \<Longrightarrow> RecordFailure cb = cb"
  by (simp add: RecordFailure_def)

lemma RecordFailure_closed:
  assumes "cb_state cb = circuitClosed"
  shows "failures cb + 1 < threshold cb \<Longrightarrow> RecordFailure cb = cb\<lparr>failures := failures cb + 1\<rparr>"
    and "threshold cb \<le> failures cb + 1 \<Longrightarrow> cb_state (RecordFailure cb) = circuitOpen"
  using assms by (simp_all add: RecordFailure_def Let_def)

lemma failures_closed:
  assumes "0 < t"
  shows "int n < t \<Longrightarrow> cb_state ((RecordFailure ^^ n) (NewCircuitBreaker t d)) = circuitClosed \<and>
      failures ((RecordFailure ^^ n) (NewCircuitBreaker t d)) = int n \<and>
      threshold ((RecordFailure ^^ n) (NewCircuitBreaker t d)) = t"
proof (induction n)
  case 0
  then show ?case by (simp add: NewCircuitBreaker_def)
next
  case (Suc n)
  then show ?case using RecordFailure_closed(1) [of "(RecordFailure ^^ n) (NewCircuitBreaker t d)"] by simp
qed

lemma failures_open:
  assumes "0 < t" and "t \<le> int n"
  shows "cb_state ((RecordFailure ^^ n) (NewCircuitBreaker t d)) = circuitOpen"
  using assms(2)
proof (induction n)
  case 0
  then show ?case using assms(1) by simp
next
  case (Suc n)
  show ?case
  proof (cases "t \<le> int n")
    case True
    then show ?thesis using Suc.IH RecordFailure_open by simp
  next
    case False
    then show ?thesis
      using failures_closed [OF assms(1), of n d] Suc.prems
        RecordFailure_closed(2) [of "(RecordFailure ^^ n) (NewCircuitBreaker t d)"] by simp
  qed
qed

text \<open>The life of the breaker: with threshold \<open>t > 0\<close> a new breaker stays closed for \<open>t - 1\<close>
  failures and is open from the \<open>t\<close>-th on; from a half-open state, reached in any way, one failure
  opens it again, and three successes in a row close it with the failure count at zero.\<close>

theorem circuit_breaker_cycle:
  assumes "0 < t"
  shows "(Allow ((RecordFailure ^^ n) (NewCircuitBreaker t d)) \<longleftrightarrow> int n < t) \<and>
    (\<forall>cb. cb_reach t d cb \<and> cb_state cb = circuitHalfOpen \<and> successes cb = 0 \<longrightarrow>
      cb_state (RecordFailure cb) = circuitOpen \<and>
      cb_state (RecordSuccess (RecordSuccess cb)) = circuitHalfOpen \<and>
      cb_state (RecordSuccess (RecordSuccess (RecordSuccess cb))) = circuitClosed \<and>
      failures (RecordSuccess (RecordSuccess (RecordSuccess cb))) = 0)"
proof
  show "Allow ((RecordFailure ^^ n) (NewCircuitBreaker t d)) \<longleftrightarrow> int n < t"
    using failures_closed [OF assms, of n d] failures_open [OF assms, of n d]
    by (cases "int n < t") (simp_all add: Allow_def)
  show "\<forall>cb. cb_reach t d cb \<and> cb_state cb = circuitHalfOpen \<and> successes cb = 0 \<longrightarrow>
      cb_state (RecordFailure cb) = circuitOpen \<and>
      cb_state (RecordSuccess (RecordSuccess cb)) = circuitHalfOpen \<and>
      cb_state (RecordSuccess (RecordSuccess (RecordSuccess cb))) = circuitClosed \<and>
      failures (RecordSuccess (RecordSuccess (RecordSuccess cb))) = 0"
    by (auto dest!: cb_reach_inv simp: cb_inv_def RecordFailure_def RecordSuccess_def)
qed

theorem circuit_breaker_cycle_witness:
  "Allow ((RecordFailure ^^ 9) (NewCircuitBreaker 10 (30 * second))) \<and>
   \<not> Allow ((RecordFailure ^^ 10) (NewCircuitBreaker 10 (30 * second)))"
  using circuit_breaker_cycle [of 10 9 "30 * second"] circuit_breaker_cycle [of 10 10 "30 * second"]
  by (simp del: funpow.simps)

text \<open>Successes in the closed state do not reset the failure count: isolated failures add up over any
  number of successes.\<close>

lemma closed_failures_accumulate:
  "cb_state (RecordFailure (RecordSuccess (RecordSuccess (RecordFailure (NewCircuitBreaker 2 d))))) = circuitOpen"
  by (simp add: NewCircuitBreaker_def RecordFailure_def RecordSuccess_def)

section \<open>Backpressure bounds\<close>

definition bp_ok :: "int \<Rightarrow> duration \<Rightarrow> int \<times> duration \<Rightarrow> bool" where
  "bp_ok baseBatch baseBlock bb \<longleftrightarrow>
     1 \<le> fst bb \<and> fst bb \<le> baseBatch \<and> baseBlock \<le> snd bb \<and> snd bb \<le> maxBlockDuration"

lemma bp_ok_step:
  assumes "0 < baseBlock" and "bp_ok baseBatch baseBlock bb"
  shows "bp_ok baseBatch baseBlock (adjustForBackpressure n bb baseBatch baseBlock)"
proof -
  obtain batch block where bb: "bb = (batch, block)" by fastforce
  have b: "1 \<le> batch" "batch \<le> baseBatch" "baseBlock \<le> block" "block \<le> 5 * second"
    using assms(2) by (simp_all add: bp_ok_def bb maxBlockDuration_def)
  then have "is_int64 (block * 2)" using assms(1) by (simp add: is_int64_def)
  then have w: "wrap64 (block * 2) = block * 2" by (rule wrap64_id)
  have d: "go_div batch 2 = batch div 2" "go_div block 2 = block div 2"
    using b assms(1) by (simp_all add: go_div_nonneg)
  show ?thesis using b assms(1)
    by (auto simp: bb bp_ok_def adjustForBackpressure_def w d maxBlockDuration_def)
qed

lemma bp_recovers_step:
  assumes "n < 1000" and "0 < baseBlock" and "bp_ok baseBatch baseBlock (batch, block)"
  shows "adjustForBackpressure n (batch, block) baseBatch baseBlock =
    (min (batch + 1) baseBatch, max (block div 2) baseBlock)"
proof -
  have b: "1 \<le> batch" "batch \<le> baseBatch" "baseBlock \<le> block" using assms(3) by (simp_all add: bp_ok_def)
  then have "go_div block 2 = block div 2" using assms(2) by (simp add: go_div_nonneg)
  then show ?thesis using assms(1,2) b by (auto simp: adjustForBackpressure_def recoverThreshold_def)
qed

lemma bp_recovers:
  assumes "0 < baseBlock" and "bp_ok baseBatch baseBlock bb" and "\<forall>n \<in> set ns. n < 1000"
  shows "let (batch, block) = fold (\<lambda>n bb. adjustForBackpressure n bb baseBatch baseBlock) ns bb
    in min baseBatch (fst bb + int (length ns)) \<le> batch \<and> block \<le> max baseBlock (snd bb div 2 ^ length ns)"
  using assms(2,3)
proof (induction ns arbitrary: bb)
  case Nil
  then show ?case by (auto simp: bp_ok_def)
next
  case (Cons n ns)
  obtain batch block where bb: "bb = (batch, block)" by fastforce
  let ?bb = "(min (batch + 1) baseBatch, max (block div 2) baseBlock)"
  have step: "adjustForBackpressure n bb baseBatch baseBlock = ?bb"
    using bp_recovers_step [OF _ assms(1)] Cons.prems bb by simp
  have ok: "bp_ok baseBatch baseBlock ?bb"
    using bp_ok_step [OF assms(1) Cons.prems(1), of n] step by simp
  have half: "max (block div 2) baseBlock div 2 ^ length ns \<le> max baseBlock (block div 2 ^ Suc (length ns))"
  proof (cases "baseBlock \<le> block div 2")
    case True
    then show ?thesis by (simp add: max_def zdiv_zmult2_eq)
  next
    case False
    have "baseBlock div 2 ^ length ns \<le> baseBlock div 1" using assms(1) by (intro zdiv_mono2) simp_all
    then show ?thesis using False by simp
  qed
  from Cons.IH [OF ok] Cons.prems(2) half show ?case
    by (auto simp: step [unfolded bb] bb Let_def split: prod.splits)
qed

lemma bp_ok_fold:
  assumes "0 < baseBlock" and "bp_ok baseBatch baseBlock bb"
  shows "bp_ok baseBatch baseBlock (fold (\<lambda>n bb. adjustForBackpressure n bb baseBatch baseBlock) ns bb)"
  using assms(2)
proof (induction ns arbitrary: bb)
  case (Cons n ns)
  from Cons.IH [OF bp_ok_step [OF assms(1) Cons.prems, of n]] show ?case by simp
qed simp

text \<open>The adaptation to the backlog stays within bounds and undoes itself. From the configured
  values (with a block of at most 5 seconds), whatever backlogs are observed, the batch stays between
  1 and the configured one and the block between the configured one and 5 seconds; and \<open>k\<close> passes with
  a small backlog raise the batch by \<open>k\<close>, up to the configured one, and shrink the block by a factor
  of \<open>2 ^ k\<close>, down to the configured one.\<close>

theorem backpressure_bounds:
  assumes "1 \<le> baseBatch" and "0 < baseBlock" and "baseBlock \<le> maxBlockDuration" and "\<forall>n \<in> set low. n < 1000"
  shows "let bb = fold (\<lambda>n bb. adjustForBackpressure n bb baseBatch baseBlock) ns (baseBatch, baseBlock)
    in 1 \<le> fst bb \<and> fst bb \<le> baseBatch \<and> baseBlock \<le> snd bb \<and> snd bb \<le> maxBlockDuration \<and>
       (let (batch, block) = fold (\<lambda>n bb. adjustForBackpressure n bb baseBatch baseBlock) low bb
        in min baseBatch (fst bb + int (length low)) \<le> batch \<and> block \<le> max baseBlock (snd bb div 2 ^ length low))"
proof -
  let ?bb = "fold (\<lambda>n bb. adjustForBackpressure n bb baseBatch baseBlock) ns (baseBatch, baseBlock)"
  have "bp_ok baseBatch baseBlock (baseBatch, baseBlock)" using assms by (simp add: bp_ok_def)
  then have ok: "bp_ok baseBatch baseBlock ?bb" by (rule bp_ok_fold [OF assms(2)])
  from bp_recovers [OF assms(2) ok assms(4)] ok show ?thesis unfolding bp_ok_def Let_def by blast
qed

theorem backpressure_bounds_witness:
  "let (batch, block) = fold (\<lambda>n bb. adjustForBackpressure n bb 8 (2 * second)) (replicate 8 0)
     (fold (\<lambda>n bb. adjustForBackpressure n bb 8 (2 * second)) [20000, 20000, 20000] (8, 2 * second))
   in 8 \<le> batch \<and> block \<le> 2 * second"
proof -
  have "fold (\<lambda>n bb. adjustForBackpressure n bb 8 (2 * second)) [20000, 20000, 20000] (8, 2 * second) = (1, 5 * second)"
    by code_simp
  with backpressure_bounds [of 8 "2 * second" "replicate 8 0" "[20000, 20000, 20000]"] show ?thesis
    by (auto simp: maxBlockDuration_def)
qed

text \<open>A configured block above 5 seconds is lowered, not raised, when the backlog grows.\<close>

lemma backpressure_lowers_long_block:
  "adjustForBackpressure 20000 (8, 10 * second) 8 (10 * second) = (4, 5 * second)"
  by code_simp

section \<open>Every task is settled\<close>

text \<open>A worker on a queue that keeps the queue contract, with a handler that leaves this queue alone.\<close>

locale worker_client = task_queue Q policy invar pend infl dead
  for Q :: "'w queue_if" and policy invar pend infl dead +
  fixes h :: "'w handler"
  assumes handler: "invar w \<Longrightarrow> h t w = (out, w') \<Longrightarrow> invar w' \<and> pend w' = pend w \<and> infl w' = infl w \<and> dead w' = dead w"

text \<open>Whether the handler's outcome sends the task back.\<close>

definition sent_back :: "outcome \<Rightarrow> bool" where
  "sent_back out =
     (let (r, e) = protect out
      in r = ResultRetry \<or> r \<noteq> ResultSuccess \<and> r \<noteq> ResultDrop \<and> e \<noteq> None)"

text \<open>The payloads that the handler finished with, in a run over a list of tasks.\<close>

fun finished :: "'w queue_if \<Rightarrow> 'w handler \<Rightarrow> task list \<Rightarrow> 'w \<Rightarrow> bytes multiset" where
  "finished Q h [] w = {#}"
| "finished Q h (t # ts) w =
     (if sent_back (fst (h (read_retry t) w)) then {#} else {#Payload t#}) + finished Q h ts (process_task Q h t w)"

lemma read_retry_frame [simp]: "ID (read_retry t) = ID t" "Payload (read_retry t) = Payload t"
  by (simp_all add: read_retry_def split: option.splits)

lemma settle_cases:
  "settle Q t r e w =
     (if r = ResultRetry \<or> r \<noteq> ResultSuccess \<and> r \<noteq> ResultDrop \<and> e \<noteq> None
      then snd (q_Retry Q t (case e of Some x \<Rightarrow> err_string x | None \<Rightarrow> ''retry'') w)
      else snd (q_Ack Q (ID t) w))"
  by (auto simp: settle_def result_defs split: option.splits)

context worker_client
begin

abbreviation stock :: "'w \<Rightarrow> bytes multiset" where
  "stock w \<equiv> mset (map Payload (pend w)) + mset (map Payload (dead w))"

lemma process_task_settles:
  assumes "invar w"
  shows "invar (process_task Q h t w) \<and> infl (process_task Q h t w) = (infl w)(ID t := None) \<and>
    stock (process_task Q h t w) + (if sent_back (fst (h (read_retry t) w)) then {#} else {#Payload t#}) =
      stock w + {#Payload t#}"
proof -
  obtain out w1 where h: "h (read_retry t) w = (out, w1)" by fastforce
  have w1: "invar w1" "pend w1 = pend w" "infl w1 = infl w" "dead w1 = dead w" using handler [OF assms h] by auto
  obtain r e where p: "protect out = (r, e)" by fastforce
  show ?thesis
  proof (cases "sent_back out")
    case True
    let ?reason = "case e of Some x \<Rightarrow> err_string x | None \<Rightarrow> ''retry''"
    obtain x w2 where q: "q_Retry Q (read_retry t) ?reason w1 = (x, w2)" by fastforce
    have "process_task Q h t w = w2"
      using True h p q by (simp add: process_task_def settle_cases sent_back_def)
    then show ?thesis using retry [OF w1(1) q] w1 True h by (auto split: if_splits)
  next
    case False
    obtain x w2 where q: "q_Ack Q (ID t) w1 = (x, w2)" by fastforce
    have "process_task Q h t w = w2"
      using False h p q by (auto simp: process_task_def settle_cases sent_back_def Let_def)
    then show ?thesis using ack [OF w1(1) q] w1 False h by simp
  qed
qed

lemma process_all_settles:
  assumes "invar w"
  shows "invar (process_all Q h ts w) \<and>
    infl (process_all Q h ts w) = (\<lambda>i. if i \<in> ID ` set ts then None else infl w i) \<and>
    stock (process_all Q h ts w) + finished Q h ts w = stock w + mset (map Payload ts)"
  using assms
proof (induction ts arbitrary: w)
  case (Cons t ts)
  note step = process_task_settles [OF Cons.prems, of t]
  note IH = Cons.IH [OF step [THEN conjunct1]]
  have all: "process_all Q h (t # ts) w = process_all Q h ts (process_task Q h t w)" by (simp add: process_all_def)
  have "stock (process_all Q h (t # ts) w) + finished Q h (t # ts) w = stock w + mset (map Payload (t # ts))"
  proof -
    let ?f = "if sent_back (fst (h (read_retry t) w)) then {#} else {#Payload t#}"
    have "stock (process_all Q h (t # ts) w) + finished Q h (t # ts) w =
        (stock (process_all Q h ts (process_task Q h t w)) + finished Q h ts (process_task Q h t w)) + ?f"
      unfolding all finished.simps by (simp only: ac_simps)
    also have "\<dots> = (stock (process_task Q h t w) + mset (map Payload ts)) + ?f" using IH by simp
    also have "\<dots> = (stock (process_task Q h t w) + ?f) + mset (map Payload ts)" by (simp only: ac_simps)
    also have "\<dots> = stock w + {#Payload t#} + mset (map Payload ts)" using step by simp
    finally show ?thesis by simp
  qed
  moreover have "infl (process_all Q h (t # ts) w) = (\<lambda>i. if i \<in> ID ` set (t # ts) then None else infl w i)"
    unfolding all using IH step by (auto simp: fun_eq_iff)
  ultimately show ?case using IH all by simp
qed (simp add: process_all_def)

lemma pass_settles:
  assumes "invar w" and "0 \<le> n" and "q_Pop Q n b w = (Inr ts, w1)"
  shows "invar (process_all Q h ts w1)"
    and "\<forall>t \<in> set ts. infl (process_all Q h ts w1) (ID t) = None"
    and "\<forall>i. i \<notin> ID ` set ts \<longrightarrow> infl (process_all Q h ts w1) i = infl w i"
    and "stock (process_all Q h ts w1) + finished Q h ts w1 = stock w"
proof -
  note p = pop [OF assms]
  note a = process_all_settles [of w1 ts]
  have infl1: "infl w1 i = infl w i" if "i \<notin> ID ` set ts" for i
  proof -
    have "map_of (map (\<lambda>t. (ID t, t)) ts) i = None" using that by (force simp: map_of_eq_None_iff)
    then show ?thesis using p by (simp add: map_add_def)
  qed
  show "invar (process_all Q h ts w1)" "\<forall>t \<in> set ts. infl (process_all Q h ts w1) (ID t) = None"
    using a p by auto
  show "\<forall>i. i \<notin> ID ` set ts \<longrightarrow> infl (process_all Q h ts w1) i = infl w i" using a p infl1 by auto
  show "stock (process_all Q h ts w1) + finished Q h ts w1 = stock w"
    using a p by (simp add: ac_simps)
qed

end

text \<open>The in-memory queue next to the rest of the world, and a handler on the rest.\<close>

definition queue_beside :: "'q queue_if \<Rightarrow> ('q \<times> 'x) queue_if" where
  "queue_beside Q =
     \<lparr>q_Push = (\<lambda>p (q, x). let (r, q') = q_Push Q p q in (r, (q', x))),
      q_Pop = (\<lambda>n b (q, x). let (r, q') = q_Pop Q n b q in (r, (q', x))),
      q_Ack = (\<lambda>i (q, x). let (r, q') = q_Ack Q i q in (r, (q', x))),
      q_Retry = (\<lambda>t s (q, x). let (r, q') = q_Retry Q t s q in (r, (q', x))),
      q_RecoverStale = (\<lambda>d n (q, x). let (r, q') = q_RecoverStale Q d n q in (r, (q', x))),
      q_PendingLen = (\<lambda>(q, x). let (r, q') = q_PendingLen Q q in (r, (q', x))),
      q_InFlightLen = (\<lambda>(q, x). let (r, q') = q_InFlightLen Q q in (r, (q', x)))\<rparr>"

definition handler_beside :: "(task \<Rightarrow> 'x \<Rightarrow> outcome \<times> 'x) \<Rightarrow> ('q \<times> 'x) handler" where
  "handler_beside h t w = (case w of (q, x) \<Rightarrow> let (out, x') = h t x in (out, (q, x')))"

lemma queue_beside_contract:
  assumes "task_queue Q pol ivr pnd ifl ded"
  shows "task_queue (queue_beside Q) pol (\<lambda>w. ivr (fst w)) (\<lambda>w. pnd (fst w)) (\<lambda>w. ifl (fst w)) (\<lambda>w. ded (fst w))"
proof (rule task_queue.intro)
  fix p e i t r n b ts and w w' :: "'a \<times> 'b"
  obtain q x where w: "w = (q, x)" by fastforce
  obtain q' x' where w': "w' = (q', x')" by fastforce
  assume "ivr (fst w)"
  then have q: "ivr q" using w by simp
  show "q_Push (queue_beside Q) p w = (e, w') \<Longrightarrow> ivr (fst w') \<and> e = None \<and> ifl (fst w') = ifl (fst w) \<and> ded (fst w') = ded (fst w) \<and>
      (\<exists>i. pnd (fst w') = pnd (fst w) @ [\<lparr>ID = i, Payload = p, RetryCount = 0, Ctx = None\<rparr>])"
    using task_queue.push [OF assms q, of p e q'] w w' by (simp add: queue_beside_def split: prod.splits)
  show "q_Ack (queue_beside Q) i w = (e, w') \<Longrightarrow> ivr (fst w') \<and> e = None \<and> pnd (fst w') = pnd (fst w) \<and>
      ifl (fst w') = (ifl (fst w))(i := None) \<and> ded (fst w') = ded (fst w)"
    using task_queue.ack [OF assms q, of i e q'] w w' by (simp add: queue_beside_def split: prod.splits)
  show "q_Retry (queue_beside Q) t r w = (e, w') \<Longrightarrow> ivr (fst w') \<and> e = None \<and> ifl (fst w') = (ifl (fst w))(ID t := None) \<and>
      (if ShouldDLQ pol (RetryCount t + 1)
       then pnd (fst w') = pnd (fst w) \<and> ded (fst w') = ded (fst w) @ [t\<lparr>RetryCount := RetryCount t + 1\<rparr>]
       else ded (fst w') = ded (fst w) \<and> (\<exists>i. pnd (fst w') = pnd (fst w) @ [t\<lparr>RetryCount := RetryCount t + 1, ID := i\<rparr>]))"
    using task_queue.retry [OF assms q, of t r e q'] w w' by (simp add: queue_beside_def split: prod.splits)
  show "0 \<le> n \<Longrightarrow> q_Pop (queue_beside Q) n b w = (Inr ts, w') \<Longrightarrow> ivr (fst w') \<and> pnd (fst w) = ts @ pnd (fst w') \<and>
      int (length ts) \<le> n \<and> ded (fst w') = ded (fst w) \<and> ifl (fst w') = ifl (fst w) ++ map_of (map (\<lambda>t. (ID t, t)) ts)"
    using task_queue.pop [OF assms q, of n b ts q'] w w' by (simp add: queue_beside_def split: prod.splits)
  show "q_Pop (queue_beside Q) n b w = (Inr ts, w') \<Longrightarrow> distinct (map ID ts)"
    using task_queue.pop_ids [OF assms q, of n b ts q'] w w' by (simp add: queue_beside_def split: prod.splits)
qed

interpretation mem_worker: worker_client "queue_beside inmem_if" "policy q0" "\<lambda>w. inmem_inv (fst w) \<and> policy (fst w) = policy q0"
    "\<lambda>w. pending (fst w)" "\<lambda>w. map_of (inFlight (fst w))" "\<lambda>w. dlq (fst w)" "handler_beside h" for q0 h
proof (rule worker_client.intro)
  show "task_queue (queue_beside inmem_if) (policy q0) (\<lambda>w. inmem_inv (fst w) \<and> policy (fst w) = policy q0)
      (\<lambda>w. pending (fst w)) (\<lambda>w. map_of (inFlight (fst w))) (\<lambda>w. dlq (fst w))"
    using queue_beside_contract [OF inmem.task_queue_axioms] .
  show "worker_client_axioms (\<lambda>w. inmem_inv (fst w) \<and> policy (fst w) = policy q0) (\<lambda>w. pending (fst w))
      (\<lambda>w. map_of (inFlight (fst w))) (\<lambda>w. dlq (fst w)) (handler_beside h)"
    by (rule worker_client_axioms.intro) (auto simp: handler_beside_def split: prod.splits)
qed

text \<open>(C5) A worker settles every task it takes. For every queue that keeps the queue contract and every
  handler, whatever it returns and even if it panics: after a batch has been processed none of its
  tasks is in flight any more and the in-flight tasks of other workers are untouched; and every
  payload that was waiting or dead-lettered before still is, or was finished by the handler, exactly
  once: a task sent back waits again or is dead-lettered.\<close>

theorem worker_settles_every_task:
  assumes "worker_client Q pol invar pend infl dead h" and "invar w" and "0 \<le> n" and "q_Pop Q n b w = (Inr ts, w1)"
  shows "(\<forall>t \<in> set ts. infl (process_all Q h ts w1) (ID t) = None) \<and>
    (\<forall>i. i \<notin> ID ` set ts \<longrightarrow> infl (process_all Q h ts w1) i = infl w i) \<and>
    mset (map Payload (pend (process_all Q h ts w1))) + mset (map Payload (dead (process_all Q h ts w1))) + finished Q h ts w1 =
      mset (map Payload (pend w)) + mset (map Payload (dead w))"
  using worker_client.pass_settles(2-4) [OF assms] by (intro conjI)

definition sample_handler :: "task \<Rightarrow> nat \<Rightarrow> outcome \<times> nat" where
  "sample_handler t n =
     (if Payload t = ''boom'' then Panicked ''nil pointer'' else Returned ResultSuccess None, Suc n)"

theorem worker_settles_every_task_witness:
  "let q = snd (inmem_Push ''boom'' (snd (inmem_Push ''ok'' (inmem_New \<lparr>MaxRetries = 3, MaxBackoff = 0\<rparr>)))) in
   \<exists>ts w1. q_Pop (queue_beside inmem_if) 10 0 (q, 0) = (Inr ts, w1) \<and> length ts = 2 \<and>
     mset (map Payload (pending (fst (process_all (queue_beside inmem_if) (handler_beside sample_handler) ts w1)))) +
     mset (map Payload (dlq (fst (process_all (queue_beside inmem_if) (handler_beside sample_handler) ts w1)))) +
     finished (queue_beside inmem_if) (handler_beside sample_handler) ts w1 = {#''ok'', ''boom''#}"
proof -
  let ?q0 = "inmem_New \<lparr>MaxRetries = 3, MaxBackoff = 0\<rparr>"
  let ?q = "snd (inmem_Push ''boom'' (snd (inmem_Push ''ok'' ?q0)))"
  let ?pop = "q_Pop (queue_beside inmem_if) 10 0 (?q, 0 :: nat)"
  have "case fst ?pop of Inr ts \<Rightarrow> length ts = 2 | Inl e \<Rightarrow> False" by code_simp
  then obtain ts where ts: "fst ?pop = Inr ts" "length ts = 2" by (auto split: sum.splits)
  then have pop: "?pop = (Inr ts, snd ?pop)" by (metis prod.collapse)
  have inv: "inmem_inv ?q \<and> policy ?q = policy ?q0"
  proof
    show "inmem_inv ?q" by (intro inmem_inv_Push inmem_inv_New)
    show "policy ?q = policy ?q0" by (simp add: inmem_defs inmem_New_def)
  qed
  have stock: "map Payload (pending ?q) = [''ok'', ''boom'']" "dlq ?q = []" by (simp_all add: inmem_defs inmem_New_def)
  note w = worker_settles_every_task [OF mem_worker.worker_client_axioms [of ?q0 sample_handler] _ _ pop]
  show ?thesis unfolding Let_def
    using w inv stock pop ts(2) by (intro exI [of _ ts] exI [of _ "snd ?pop"]) simp
qed

section \<open>Stale deliveries keep their retry count\<close>

text \<open>A delivery that was abandoned by its worker and is published again keeps its retry count,
  although a push starts at zero: the count written into the payload is what the loop reads back
  before it calls the handler. The payload is the same JSON object with the member \<^verbatim>\<open>_retry\<close>
  set (if no other key equals it up to letter case); a payload that is not a JSON object, and one with
  no retries yet, is published unchanged.\<close>

theorem stale_retry_roundtrip:
  assumes "renum_exact renum" and "is_int64 n" and "withRetryCount renum p n = Inr p'" and "RetryCount t = 0" and "Payload t = p'"
  shows "(n \<le> 0 \<or> unmarshal_map renum p = None \<longrightarrow> p' = p) \<and>
    (\<forall>m. 0 < n \<and> unmarshal_map renum p = Some (Some m) \<and>
        (\<forall>k \<in> fst ` set m. key_eq k ''_retry'' \<longrightarrow> k = ''_retry'') \<longrightarrow>
      RetryCount (read_retry t) = n \<and> json_parse p' = Some (JObj (obj_put ''_retry'' (JNum (itoa n)) m)))"
proof (intro conjI allI impI)
  assume "n \<le> 0 \<or> unmarshal_map renum p = None"
  then show "p' = p" using assms(3) by (auto simp: withRetryCount_def split: if_splits)
next
  fix m
  assume m: "0 < n \<and> unmarshal_map renum p = Some (Some m) \<and> (\<forall>k \<in> fst ` set m. key_eq k ''_retry'' \<longrightarrow> k = ''_retry'')"
  let ?m = "obj_put ''_retry'' (JNum (itoa n)) m"
  have p': "p' = json_print (JObj ?m)" using assms(3) m by (simp add: withRetryCount_def del: json_print.simps)
  note wf = unmarshal_map_wf [OF assms(1), of p m]
  have "wf_json (JObj ?m)" using wf(1) m by (intro obj_put_wf) (simp_all add: is_number_itoa)
  then have parse: "json_parse p' = Some (JObj ?m)" unfolding p' by (rule json_parse_print)
  have d: "distinct (map fst ?m)" using wf(2) m by (intro sorted_distinct obj_put_sorted) simp
  have l: "map_of ?m ''_retry'' = Some (JNum (itoa n))" by (simp add: map_of_obj_put)
  have k: "\<forall>k \<in> fst ` set ?m. key_eq k ''_retry'' \<longrightarrow> k = ''_retry''" using m by (intro obj_put_keys) blast
  note ptr_field_of_map [OF d l k assms(2)]
  then have "RetryCount (read_retry t) = n" using m assms(4,5) parse by (simp add: read_retry_def del: conforms.simps)
  with parse show "RetryCount (read_retry t) = n" and "json_parse p' = Some (JObj ?m)" by simp_all
qed

theorem stale_retry_roundtrip_witness:
  "withRetryCount Some (json_print (JObj [(''id'', JNum ''7'')])) 2 = Inr (json_print (JObj [(''_retry'', JNum ''2''), (''id'', JNum ''7'')])) \<and>
   RetryCount (read_retry \<lparr>ID = ''1-0'', Payload = json_print (JObj [(''_retry'', JNum ''2''), (''id'', JNum ''7'')]), RetryCount = 0, Ctx = None\<rparr>) = 2"
proof -
  let ?p = "json_print (JObj [(''id'', JNum ''7'')])"
  let ?p' = "json_print (JObj [(''_retry'', JNum ''2''), (''id'', JNum ''7'')])"
  have w: "withRetryCount Some ?p 2 = Inr ?p'" by code_simp
  have u: "unmarshal_map Some ?p = Some (Some [(''id'', JNum ''7'')])" by code_simp
  have "renum_exact Some" by (simp add: renum_exact_def)
  moreover have "is_int64 2" by (simp add: is_int64_def)
  moreover have "\<not> key_eq ''id'' ''_retry''" by code_simp
  ultimately have "RetryCount (read_retry \<lparr>ID = ''1-0'', Payload = ?p', RetryCount = 0, Ctx = None\<rparr>) = 2"
    using stale_retry_roundtrip [of Some 2 ?p ?p' "\<lparr>ID = ''1-0'', Payload = ?p', RetryCount = 0, Ctx = None\<rparr>"] w u
    by (simp del: json_print.simps)
  with w show ?thesis by blast
qed

lemma stale_null_panics:
  "0 < n \<Longrightarrow> withRetryCount renum ''null'' n = Inl (Panic ''assignment to entry in nil map'')"
proof -
  have "json_parse ''null'' = Some JNull" by code_simp
  then show "0 < n \<Longrightarrow> ?thesis" by (simp add: withRetryCount_def unmarshal_map_def)
qed

end
