(* ===== verification/Fetcher.thy ===== *)
theory Fetcher
  imports Metrics Stores HttpDo Runner
begin

text \<open>
  The fetch stage (\<^verbatim>\<open>internal/worker/fetcher/fetcher.go\<close>, \<^verbatim>\<open>errors.go\<close>): one task names a match;
  its text is requested from the upstream, stored under the match identifier, and a parse task is
  pushed. The HTTP client, the payload store, the output queue and the metrics are values of their
  ports over one world.
\<close>

section \<open>Tasks\<close>

text \<open>The task of the fetch and of the parse stage: \<^verbatim>\<open>json.Unmarshal\<close> into a struct with the one member
  \<^verbatim>\<open>match_id\<close>, and \<^verbatim>\<open>json.Marshal\<close> of it.\<close>

definition match_task_fields :: "(string \<times> go_type) list" where
  "match_task_fields = [(''match_id'', GInt64)]"

definition unmarshal_task :: "bytes \<Rightarrow> int option" where
  "unmarshal_task p =
     (case json_parse p of
        None \<Rightarrow> None
      | Some j \<Rightarrow> if conforms (GStruct match_task_fields) j then Some (get_int j ''match_id'') else None)"

definition marshal_task :: "int \<Rightarrow> bytes" where
  "marshal_task i = json_print (JObj [(''match_id'', JNum (itoa i))])"

lemma task_roundtrip: "is_int64 i \<Longrightarrow> unmarshal_task (marshal_task i) = Some i"
proof -
  assume i: "is_int64 i"
  have "json_parse (marshal_task i) = Some (JObj [(''match_id'', JNum (itoa i))])"
    unfolding marshal_task_def by (rule json_parse_print) (simp add: is_number_itoa)
  then show ?thesis
    using int_field_of_map [of "[(''match_id'', JNum (itoa i))]" "''match_id''" i] i
    by (simp add: unmarshal_task_def match_task_fields_def del: conforms.simps)
qed

lemma unmarshal_task_range: "unmarshal_task p = Some i \<Longrightarrow> is_int64 i"
  using get_int_range [of match_task_fields _ "''match_id''" GInt64 is_int64]
  by (auto simp: unmarshal_task_def match_task_fields_def simp del: conforms.simps split: option.splits if_splits)

section \<open>Configuration\<close>

record fetch_cfg =
  fc_UpstreamURL :: string
  fc_PayloadTTL :: duration
  fc_HTTPTimeout :: duration
  fc_Batch :: int
  fc_Block :: duration

text \<open>The nil checks of the dependencies come first, in the order of the code.\<close>

definition fetcher_New :: "bool \<Rightarrow> bool \<Rightarrow> bool \<Rightarrow> bool \<Rightarrow> fetch_cfg \<Rightarrow> go_error + fetch_cfg" where
  "fetcher_New queues_nil doer_nil store_nil sink_nil c =
     (if queues_nil then Inl (ErrText ''fetcher: in/out queues are required'')
      else if doer_nil then Inl (ErrText ''fetcher: HTTPDoer is required'')
      else if store_nil then Inl (ErrText ''fetcher: payload store is required'')
      else if sink_nil then Inl (ErrText ''fetcher: metrics sink is required'')
      else if fc_UpstreamURL c = [] then Inl (ErrText ''fetcher: UpstreamURL is required'')
      else Inr (c\<lparr>fc_Batch := (if fc_Batch c \<le> 0 then 10 else fc_Batch c),
                  fc_Block := (if fc_Block c \<le> 0 then 2 * second else fc_Block c),
                  fc_HTTPTimeout := (if fc_HTTPTimeout c \<le> 0 then 15 * second else fc_HTTPTimeout c),
                  fc_PayloadTTL := (if fc_PayloadTTL c \<le> 0 then hour else fc_PayloadTTL c)\<rparr>))"

section \<open>The request\<close>

text \<open>\<^verbatim>\<open>fmt.Sprintf(template, n)\<close> for the one integer argument. Of the verbs only \<^verbatim>\<open>%d\<close> (without
  flags) and \<^verbatim>\<open>%%\<close> are covered, which are all that a URL template of the configuration uses.\<close>

fun fmt_d :: "string \<Rightarrow> int option \<Rightarrow> string" where
  "fmt_d [] arg = (case arg of None \<Rightarrow> [] | Some i \<Rightarrow> ''%!(EXTRA int64='' @ itoa i @ '')'')"
| "fmt_d [c] arg = (if c = CHR ''%'' then ''%!(NOVERB)'' else [c]) @ fmt_d [] arg"
| "fmt_d (c # d # ds) arg =
     (if c \<noteq> CHR ''%'' then c # fmt_d (d # ds) arg
      else if d = CHR ''%'' then d # fmt_d ds arg
      else
        case arg of
          Some i \<Rightarrow> (if d = CHR ''d'' then itoa i else ''%!'' @ [d] @ ''(int64='' @ itoa i @ '')'') @ fmt_d ds None
        | None \<Rightarrow> ''%!'' @ [d] @ ''(MISSING)'' @ fmt_d ds None)"

definition sprintf_d :: "string \<Rightarrow> int \<Rightarrow> string" where
  "sprintf_d tmpl n = fmt_d tmpl (Some n)"

text \<open>\<open>ft_request\<close> is the error of \<^verbatim>\<open>http.NewRequestWithContext\<close> for a URL, \<open>ft_do\<close> the port
  \<^verbatim>\<open>worker.HTTPDoer\<close>, \<open>ft_read\<close> the \<^verbatim>\<open>io.ReadAll\<close> of a body.\<close>

record 'w fetcher =
  ft_out :: "'w queue_if"
  ft_do :: "string \<Rightarrow> 'w \<Rightarrow> (go_error + response) \<times> 'w"
  ft_read :: "response \<Rightarrow> 'w \<Rightarrow> (go_error + bytes) \<times> 'w"
  ft_request :: "string \<Rightarrow> go_error option"
  ft_store :: "'w payload_if"
  ft_sink :: "'w sink_if"

definition fetchOne :: "'w fetcher \<Rightarrow> fetch_cfg \<Rightarrow> int \<Rightarrow> 'w \<Rightarrow> (go_error + bytes) \<times> 'w" where
  "fetchOne F c matchID w =
     (let targetURL = sprintf_d (fc_UpstreamURL c) matchID in
      case ft_request F targetURL of
        Some e \<Rightarrow> (Inl e, w)
      | None \<Rightarrow>
          (case ft_do F targetURL w of
             (Inl e, w1) \<Rightarrow> (Inl e, w1)
           | (Inr resp, w1) \<Rightarrow> ft_read F resp w1))"

definition fetch_classify :: "go_error \<Rightarrow> failure_kind" where
  "fetch_classify err =
     (case as_permanent err of
        Some code \<Rightarrow>
          if code = 429 then KindRateLimit else if code = 404 then KindNotFound else KindHTTP
      | None \<Rightarrow> if errors_is err DeadlineExceeded then KindTimeout else KindUnknown)"

section \<open>The handler\<close>

text \<open>What follows a fetched text: storing it, and pushing the parse task.\<close>

definition store_and_push :: "'w fetcher \<Rightarrow> fetch_cfg \<Rightarrow> int \<Rightarrow> bytes \<Rightarrow> 'w \<Rightarrow> outcome \<times> 'w" where
  "store_and_push F c mid blob w =
     (let key = itoa mid in
      case ps_Put (ft_store F) key blob (fc_PayloadTTL c) w of
        (Some e, w1) \<Rightarrow>
          (Returned ResultRetry (Some (Wrapped ''payload: '' e)), mt_FetchFailure (ft_sink F) KindPayload w1)
      | (None, w1) \<Rightarrow>
          (case q_Push (ft_out F) (marshal_task mid) w1 of
             (Some e, w2) \<Rightarrow>
               (Returned ResultRetry (Some (Wrapped ''out-queue: '' e)),
                snd (ps_ExtendTTL (ft_store F) key (2 * hour) (mt_FetchFailure (ft_sink F) KindUnknown w2)))
           | (None, w2) \<Rightarrow> (Returned ResultSuccess None, mt_FetchSuccess (ft_sink F) w2)))"

definition fetcher_Process :: "'w fetcher \<Rightarrow> fetch_cfg \<Rightarrow> 'w handler" where
  "fetcher_Process F c t w =
     (case unmarshal_task (Payload t) of
        None \<Rightarrow>
          (Returned ResultDrop (Some (Wrapped ''decode: '' (ErrText ''json''))), mt_FetchFailure (ft_sink F) KindDecode w)
      | Some mid \<Rightarrow>
          (case fetchOne F c mid w of
             (Inl e, w1) \<Rightarrow>
               (let w2 = mt_FetchFailure (ft_sink F) (fetch_classify e) w1 in
                if as_permanent e \<noteq> None then (Returned ResultDrop (Some e), w2)
                else (Returned ResultRetry (Some e), w2))
           | (Inr blob, w1) \<Rightarrow> store_and_push F c mid blob w1))"

text \<open>\<^verbatim>\<open>Run\<close>: the worker loop with this handler on the input queue.\<close>

definition fetch_run_cfg :: "fetch_cfg \<Rightarrow> run_cfg" where
  "fetch_run_cfg c =
     \<lparr>rc_Batch = fc_Batch c, rc_Block = fc_Block c, rc_RecoverStale = True, rc_Backpressure = False\<rparr>"

definition fetcher_Run :: "nat \<Rightarrow> ('w \<Rightarrow> go_error option) \<Rightarrow> 'w queue_if \<Rightarrow> 'w fetcher \<Rightarrow> fetch_cfg \<Rightarrow> 'w \<Rightarrow> go_error option \<times> 'w" where
  "fetcher_Run n ctx Q F c w = Run n ctx Q (fetch_run_cfg c) (fetcher_Process F c) w"

section \<open>The error types of the package\<close>

datatype fetch_http_error = FetchPermanent int | FetchRetryable int

fun fetch_error_text :: "fetch_http_error \<Rightarrow> string" where
  "fetch_error_text (FetchPermanent c) = ''permanent HTTP '' @ itoa c"
| "fetch_error_text (FetchRetryable c) = ''retryable HTTP '' @ itoa c"

fun fetch_error_code :: "fetch_http_error \<Rightarrow> int" where
  "fetch_error_code (FetchPermanent c) = c"
| "fetch_error_code (FetchRetryable c) = c"

fun fetch_error_permanent :: "fetch_http_error \<Rightarrow> bool" where
  "fetch_error_permanent (FetchPermanent c) \<longleftrightarrow> c \<in> {400, 401, 403, 404, 410}"
| "fetch_error_permanent (FetchRetryable c) \<longleftrightarrow> False"

section \<open>The contract of the stage\<close>

text \<open>\<open>content\<close> is what the payload store holds, \<open>queued\<close> the payloads waiting in the output queue. The
  network and the metrics touch neither; the store and the queue do not touch each other.\<close>

locale fetch_stage =
  fixes F :: "'w fetcher"
    and content :: "'w \<Rightarrow> string \<Rightarrow> bytes option"
    and queued :: "'w \<Rightarrow> bytes list"
  assumes store: "payload_store (ft_store F) content"
    and put_frame: "queued (snd (ps_Put (ft_store F) k v ttl w)) = queued w"
    and extend_frame: "queued (snd (ps_ExtendTTL (ft_store F) k ttl w)) = queued w"
    and push: "q_Push (ft_out F) p w = (None, w') \<Longrightarrow> queued w' = queued w @ [p] \<and> content w' = content w"
    and push_err: "q_Push (ft_out F) p w = (Some e, w') \<Longrightarrow>
        (queued w' = queued w \<or> queued w' = queued w @ [p]) \<and> content w' = content w"
    and do_frame: "content (snd (ft_do F u w)) = content w \<and> queued (snd (ft_do F u w)) = queued w"
    and read_frame: "content (snd (ft_read F x w)) = content w \<and> queued (snd (ft_read F x w)) = queued w"
    and sink_frame:
      "content (mt_FetchFailure (ft_sink F) kd w) = content w \<and> queued (mt_FetchFailure (ft_sink F) kd w) = queued w"
      "content (mt_FetchSuccess (ft_sink F) w) = content w \<and> queued (mt_FetchSuccess (ft_sink F) w) = queued w"
begin

lemma fetchOne_frame:
  assumes "fetchOne F c mid w = (r, w1)"
  shows "content w1 = content w \<and> queued w1 = queued w"
proof (cases "ft_request F (sprintf_d (fc_UpstreamURL c) mid)")
  case None
  obtain x w0 where d: "ft_do F (sprintf_d (fc_UpstreamURL c) mid) w = (x, w0)" by fastforce
  then have f: "content w0 = content w \<and> queued w0 = queued w" by (metis do_frame snd_conv)
  show ?thesis
  proof (cases x)
    case (Inl e)
    then show ?thesis using assms None d f by (simp add: fetchOne_def)
  next
    case (Inr resp)
    then have "ft_read F resp w0 = (r, w1)" using assms None d by (simp add: fetchOne_def)
    then show ?thesis using f by (metis read_frame snd_conv)
  qed
qed (use assms in \<open>simp add: fetchOne_def\<close>)

lemma store_and_push_cases:
  assumes "store_and_push F c mid blob w = (out, w')"
  shows "out = Returned ResultSuccess None \<and> content w' = (content w)(itoa mid := Some blob) \<and> queued w' = queued w @ [marshal_task mid] \<or>
    (\<exists>e. out = Returned ResultRetry (Some e)) \<and> (content w' = content w \<or> content w' = (content w)(itoa mid := Some blob)) \<and>
      (queued w' = queued w \<or> queued w' = queued w @ [marshal_task mid] \<and> content w' (itoa mid) = Some blob)"
proof -
  obtain r w1 where p: "ps_Put (ft_store F) (itoa mid) blob (fc_PayloadTTL c) w = (r, w1)" by fastforce
  then have q1: "queued w1 = queued w" by (metis put_frame snd_conv)
  show ?thesis
  proof (cases r)
    case (Some e)
    then show ?thesis
      using assms p q1 payload_store.put_err [OF store, of "itoa mid" blob "fc_PayloadTTL c" w e w1]
      by (auto simp: store_and_push_def sink_frame)
  next
    case None
    have c1: "content w1 = (content w)(itoa mid := Some blob)"
      using payload_store.put [OF store] p None by blast
    obtain s w2 where u: "q_Push (ft_out F) (marshal_task mid) w1 = (s, w2)" by fastforce
    show ?thesis
    proof (cases s)
      case None
      then show ?thesis
        using assms p \<open>r = None\<close> u push [of "marshal_task mid" w1 w2] c1 q1
        by (auto simp: store_and_push_def sink_frame)
    next
      case (Some e)
      let ?w3 = "mt_FetchFailure (ft_sink F) KindUnknown w2"
      have w2: "(queued w2 = queued w1 \<or> queued w2 = queued w1 @ [marshal_task mid]) \<and> content w2 = content w1"
        using push_err u Some by blast
      obtain x w4 where e4: "ps_ExtendTTL (ft_store F) (itoa mid) (2 * hour) ?w3 = (x, w4)" by fastforce
      have c3: "content ?w3 = content w1" and q3: "queued ?w3 = queued w2" using sink_frame(1) w2 by simp_all
      have "content w4 = content ?w3"
        using payload_store.extend [OF store e4] c3 c1 by simp
      moreover have "queued w4 = queued ?w3" using extend_frame e4 by (metis snd_conv)
      moreover have "out = Returned ResultRetry (Some (Wrapped ''out-queue: '' e))" "w' = w4"
        using assms p \<open>r = None\<close> u Some e4 by (simp_all add: store_and_push_def)
      ultimately show ?thesis using c3 q3 w2 c1 q1 by auto
    qed
  qed
qed

lemma process_cases:
  assumes "fetcher_Process F c t w = (out, w')"
  shows "(\<exists>mid blob w1. out = Returned ResultSuccess None \<and> unmarshal_task (Payload t) = Some mid \<and>
        fetchOne F c mid w = (Inr blob, w1) \<and> content w' = (content w)(itoa mid := Some blob) \<and>
        queued w' = queued w @ [marshal_task mid]) \<or>
    (\<exists>e. out = Returned ResultDrop (Some e) \<and> content w' = content w \<and> queued w' = queued w \<and>
        (unmarshal_task (Payload t) = None \<or>
         (\<exists>mid w1. unmarshal_task (Payload t) = Some mid \<and> fetchOne F c mid w = (Inl e, w1) \<and> as_permanent e \<noteq> None))) \<or>
    (\<exists>e mid. out = Returned ResultRetry (Some e) \<and> unmarshal_task (Payload t) = Some mid \<and>
        (\<forall>k. k \<noteq> itoa mid \<longrightarrow> content w' k = content w k) \<and>
        (queued w' = queued w \<or> queued w' = queued w @ [marshal_task mid] \<and> content w' (itoa mid) \<noteq> None) \<and>
        (\<forall>b. content w (itoa mid) = Some b \<longrightarrow> content w' (itoa mid) \<noteq> None))"
proof (cases "unmarshal_task (Payload t)")
  case None
  then show ?thesis using assms by (auto simp: fetcher_Process_def sink_frame)
next
  case (Some mid)
  obtain r w1 where f: "fetchOne F c mid w = (r, w1)" by fastforce
  note fr = fetchOne_frame [OF f]
  show ?thesis
  proof (cases r)
    case (Inl e)
    have "out = Returned (if as_permanent e \<noteq> None then ResultDrop else ResultRetry) (Some e)"
      "w' = mt_FetchFailure (ft_sink F) (fetch_classify e) w1"
      using assms Some f Inl by (auto simp: fetcher_Process_def Let_def split: if_splits)
    then show ?thesis using Some f Inl fr by (cases "as_permanent e = None") (auto simp: sink_frame)
  next
    case (Inr blob)
    then have "store_and_push F c mid blob w1 = (out, w')" using assms Some f by (simp add: fetcher_Process_def)
    from store_and_push_cases [OF this] show ?thesis
      using Some f Inr fr by (elim disjE) auto
  qed
qed

end

section \<open>The stage on the in-memory adapters\<close>

text \<open>One world for all adapters of the pipeline; \<open>sw_net\<close> is the rest, with the network.\<close>

record 'n stage_world =
  sw_out :: inmem_queue
  sw_store :: inmem_store
  sw_sink :: mem_sink
  sw_net :: 'n

definition on_out :: "(inmem_queue \<Rightarrow> 'r \<times> inmem_queue) \<Rightarrow> 'n stage_world \<Rightarrow> 'r \<times> 'n stage_world" where
  "on_out f w = (let (r, q) = f (sw_out w) in (r, w\<lparr>sw_out := q\<rparr>))"

definition on_store :: "(inmem_store \<Rightarrow> 'r \<times> inmem_store) \<Rightarrow> 'n stage_world \<Rightarrow> 'r \<times> 'n stage_world" where
  "on_store f w = (let (r, s) = f (sw_store w) in (r, w\<lparr>sw_store := s\<rparr>))"

definition on_sink :: "(mem_sink \<Rightarrow> mem_sink) \<Rightarrow> 'n stage_world \<Rightarrow> 'n stage_world" where
  "on_sink f w = w\<lparr>sw_sink := f (sw_sink w)\<rparr>"

definition out_if :: "'n stage_world queue_if" where
  "out_if =
     \<lparr>q_Push = (\<lambda>p. on_out (q_Push inmem_if p)), q_Pop = (\<lambda>n b. on_out (q_Pop inmem_if n b)),
      q_Ack = (\<lambda>i. on_out (q_Ack inmem_if i)), q_Retry = (\<lambda>t s. on_out (q_Retry inmem_if t s)),
      q_RecoverStale = (\<lambda>d n. on_out (q_RecoverStale inmem_if d n)), q_PendingLen = on_out (q_PendingLen inmem_if),
      q_InFlightLen = on_out (q_InFlightLen inmem_if)\<rparr>"

definition stage_store_if :: "'n stage_world payload_if" where
  "stage_store_if =
     \<lparr>ps_Put = (\<lambda>k v t. on_store (store_Put k v t)), ps_Get = (\<lambda>k. on_store (store_Get k)),
      ps_Delete = (\<lambda>k. on_store (store_Delete k)), ps_ExtendTTL = (\<lambda>k t. on_store (store_ExtendTTL k t))\<rparr>"

definition stage_sink_if :: "'n stage_world sink_if" where
  "stage_sink_if =
     \<lparr>mt_IngestSuccess = on_sink sink_IngestSuccess, mt_IngestFailure = (\<lambda>k i e. on_sink (sink_IngestFailure k i e)),
      mt_ParseSuccess = on_sink sink_ParseSuccess, mt_ParseFailure = (\<lambda>k. on_sink (sink_ParseFailure k)),
      mt_ParseDuplicate = on_sink sink_ParseDuplicate, mt_FetchSuccess = on_sink sink_FetchSuccess,
      mt_FetchFailure = (\<lambda>k. on_sink (sink_FetchFailure k)), mt_RecordQueueDepth = (\<lambda>_ _ _ w. w),
      mt_RecordLatency = (\<lambda>_ _ w. w)\<rparr>"

definition mem_fetcher :: "(string \<Rightarrow> 'n \<Rightarrow> (go_error + response) \<times> 'n) \<Rightarrow> 'n stage_world fetcher" where
  "mem_fetcher net =
     \<lparr>ft_out = out_if, ft_do = (\<lambda>u w. let (r, n) = net u (sw_net w) in (r, w\<lparr>sw_net := n\<rparr>)),
      ft_read = (\<lambda>resp w. (Inr (Body resp), w)), ft_request = (\<lambda>_. None), ft_store = stage_store_if,
      ft_sink = stage_sink_if\<rparr>"

abbreviation sw_content :: "'n stage_world \<Rightarrow> string \<Rightarrow> bytes option" where
  "sw_content w \<equiv> store_content (sw_store w)"

abbreviation sw_queued :: "'n stage_world \<Rightarrow> bytes list" where
  "sw_queued w \<equiv> map Payload (pending (sw_out w))"

lemma on_store_cases:
  assumes "on_store f w = (r, w')"
  obtains s where "f (sw_store w) = (r, s)" and "w' = w\<lparr>sw_store := s\<rparr>"
  using assms by (auto simp: on_store_def split: prod.splits)

lemma stage_store_contract: "payload_store stage_store_if sw_content"
proof
  fix k v t e r and w w' :: "'a stage_world"
  note d = stage_store_if_def payload_if.select_convs store_if_def
  show "ps_Put stage_store_if k v t w = (None, w') \<Longrightarrow> sw_content w' = (sw_content w)(k := Some v)"
    unfolding d by (erule on_store_cases) (use store.put in \<open>simp add: store_if_def\<close>)
  show "ps_Put stage_store_if k v t w = (Some e, w') \<Longrightarrow> sw_content w' = sw_content w \<or> sw_content w' = (sw_content w)(k := Some v)"
    unfolding d by (erule on_store_cases) (use store.put_err in \<open>simp add: store_if_def\<close>)
  show "ps_Get stage_store_if k w = (Inr v, w') \<Longrightarrow> sw_content w k = Some v \<and> sw_content w' = sw_content w"
    unfolding d by (erule on_store_cases) (use store.get_ok in \<open>simp add: store_if_def\<close>)
  show "ps_Get stage_store_if k w = (Inl e, w') \<Longrightarrow> (errors_is e ErrNotFound \<longrightarrow> sw_content w k = None) \<and> sw_content w' = sw_content w"
    unfolding d by (erule on_store_cases) (use store.get_err in \<open>simp add: store_if_def\<close>)
  show "ps_Delete stage_store_if k w = (None, w') \<Longrightarrow> sw_content w' = (sw_content w)(k := None)"
    unfolding d by (erule on_store_cases) (use store.del in \<open>simp add: store_if_def\<close>)
  show "ps_Delete stage_store_if k w = (Some e, w') \<Longrightarrow> sw_content w' = sw_content w \<or> sw_content w' = (sw_content w)(k := None)"
    unfolding d by (erule on_store_cases) (use store.del_err in \<open>simp add: store_if_def\<close>)
  show "ps_ExtendTTL stage_store_if k t w = (r, w') \<Longrightarrow> sw_content w k \<noteq> None \<Longrightarrow> sw_content w' = sw_content w"
    unfolding d by (erule on_store_cases) (use store.extend in \<open>simp add: store_if_def\<close>)
qed

lemma out_push: "q_Push out_if p w = (e, w') \<Longrightarrow> e = None \<and> sw_queued w' = sw_queued w @ [p] \<and> sw_content w' = sw_content w"
  by (auto simp: out_if_def on_out_def inmem_if_def inmem_Push_def nextID_def Let_def split: prod.splits)

lemma mem_fetch_stage: "fetch_stage (mem_fetcher net) sw_content sw_queued"
proof (rule fetch_stage.intro)
  show "payload_store (ft_store (mem_fetcher net)) sw_content"
    by (simp add: mem_fetcher_def stage_store_contract)
qed (auto simp: mem_fetcher_def stage_store_if_def on_store_def stage_sink_if_def on_sink_def dest!: out_push split: prod.splits)

interpretation mem_stage: fetch_stage "mem_fetcher net" sw_content sw_queued for net
  by (rule mem_fetch_stage)

section \<open>Outcomes\<close>

text \<open>(C2) What a fetch does, for every upstream, store and queue that keep their contracts. If it
  succeeds, the text that the request returned is stored under the match identifier and exactly one
  parse task for that match is pushed behind the waiting ones. If the task is dropped, nothing was
  stored or pushed, and the task was malformed or the request failed with an HTTP status. If it is sent
  back, no other stored text changed, and a parse task is waiting only for a text that is stored. A
  parse task without its text is never pushed, and no task is dropped for another reason.\<close>

theorem fetch_outcomes:
  assumes "fetch_stage F content queued" and "fetcher_Process F c t w = (out, w')"
  shows "(\<exists>mid blob w1. out = Returned ResultSuccess None \<and> unmarshal_task (Payload t) = Some mid \<and>
        fetchOne F c mid w = (Inr blob, w1) \<and> content w' = (content w)(itoa mid := Some blob) \<and>
        queued w' = queued w @ [marshal_task mid]) \<or>
    (\<exists>e. out = Returned ResultDrop (Some e) \<and> content w' = content w \<and> queued w' = queued w \<and>
        (unmarshal_task (Payload t) = None \<or>
         (\<exists>mid w1. unmarshal_task (Payload t) = Some mid \<and> fetchOne F c mid w = (Inl e, w1) \<and> as_permanent e \<noteq> None))) \<or>
    (\<exists>e mid. out = Returned ResultRetry (Some e) \<and> unmarshal_task (Payload t) = Some mid \<and>
        (\<forall>k. k \<noteq> itoa mid \<longrightarrow> content w' k = content w k) \<and>
        (queued w' = queued w \<or> queued w' = queued w @ [marshal_task mid] \<and> content w' (itoa mid) \<noteq> None) \<and>
        (\<forall>b. content w (itoa mid) = Some b \<longrightarrow> content w' (itoa mid) \<noteq> None))"
  using assms by (rule fetch_stage.process_cases)

definition sample_cfg :: fetch_cfg where
  "sample_cfg = \<lparr>fc_UpstreamURL = ''http://api/%d'', fc_PayloadTTL = hour, fc_HTTPTimeout = second, fc_Batch = 1, fc_Block = second\<rparr>"

definition sample_world :: "unit stage_world" where
  "sample_world =
     \<lparr>sw_out = inmem_New \<lparr>MaxRetries = 3, MaxBackoff = second\<rparr>, sw_store = store_New 0, sw_sink = sink_New 0, sw_net = ()\<rparr>"

definition answer :: "go_error + response \<Rightarrow> string \<Rightarrow> unit \<Rightarrow> (go_error + response) \<times> unit" where
  "answer r u n = (if u = ''http://api/7'' then r else Inl (ErrText ''no such host''), n)"

definition fetch_task :: task where
  "fetch_task = \<lparr>ID = ''1'', Payload = marshal_task 7, RetryCount = 0, Ctx = None\<rparr>"

lemma sample_task: "unmarshal_task (Payload fetch_task) = Some 7"
  by (simp add: fetch_task_def task_roundtrip is_int64_def)

lemma sample_url: "sprintf_d (fc_UpstreamURL sample_cfg) 7 = ''http://api/7''"
  by code_simp

lemma sample_ttl: "fc_PayloadTTL sample_cfg = hour"
  by (simp add: sample_cfg_def)

theorem fetch_outcomes_witness:
  "let (out, w') = fetcher_Process (mem_fetcher (answer (Inr \<lparr>StatusCode = 200, Body = ''text''\<rparr>))) sample_cfg fetch_task sample_world in
   out = Returned ResultSuccess None \<and> sw_content w' (itoa 7) = Some ''text'' \<and> sw_queued w' = [marshal_task 7]"
proof -
  let ?F = "mem_fetcher (answer (Inr \<lparr>StatusCode = 200, Body = ''text''\<rparr>))"
  obtain out w' where p: "fetcher_Process ?F sample_cfg fetch_task sample_world = (out, w')" by fastforce
  have f: "fetchOne ?F sample_cfg 7 sample_world = (Inr ''text'', sample_world)"
    by (simp add: fetchOne_def mem_fetcher_def sample_url answer_def)
  have "fst (store_and_push ?F sample_cfg 7 ''text'' sample_world) = Returned ResultSuccess None"
    by (simp add: store_and_push_def mem_fetcher_def stage_store_if_def on_store_def store_Put_def out_if_def on_out_def
        inmem_if_def inmem_Push_def Let_def nextID_def split: prod.splits)
  then have "out = Returned ResultSuccess None" using p f sample_task by (simp add: fetcher_Process_def)
  moreover have "sw_queued sample_world = []" by (simp add: sample_world_def inmem_New_def)
  ultimately show ?thesis
    using fetch_outcomes [OF mem_stage.fetch_stage_axioms p] p f sample_task by (auto simp: result_defs)
qed

text \<open>The kind under which a failed request is counted.\<close>

lemma fetch_classify_cases:
  "fetch_classify (PermanentHTTP 404) = KindNotFound" "fetch_classify (PermanentHTTP 429) = KindRateLimit"
  "fetch_classify (PermanentHTTP 403) = KindHTTP" "fetch_classify (PermanentHTTP 500) = KindHTTP"
  "fetch_classify (Wrapped ''get: '' DeadlineExceeded) = KindTimeout" "fetch_classify (ErrText ''EOF'') = KindUnknown"
  by (simp_all add: fetch_classify_def)

section \<open>Two corners\<close>

text \<open>A server error that outlasted the retries drops the task: the test is for the type of the error,
  not for \<^verbatim>\<open>IsPermanent\<close>.\<close>

lemma server_error_drops:
  assumes "unmarshal_task (Payload t) = Some mid" and "fetchOne F c mid w = (Inl (PermanentHTTP 503), w1)"
  shows "fst (fetcher_Process F c t w) = Returned ResultDrop (Some (PermanentHTTP 503))" and "\<not> IsPermanent 503"
  using assms by (simp_all add: fetcher_Process_def IsPermanent_def)

text \<open>A response that the client delivers without an error is stored whatever its status: the body of an
  error page that came over a direct connection becomes the text of the match.\<close>

lemma error_page_stored:
  "let (out, w') = fetcher_Process (mem_fetcher (answer (Inr \<lparr>StatusCode = 404, Body = ''not found''\<rparr>))) sample_cfg fetch_task sample_world in
   out = Returned ResultSuccess None \<and> sw_content w' (itoa 7) = Some ''not found''"
  by (simp add: fetcher_Process_def sample_task fetchOne_def mem_fetcher_def sample_url answer_def store_and_push_def
      stage_store_if_def on_store_def store_Put_def out_if_def on_out_def inmem_if_def inmem_Push_def Let_def nextID_def
      stage_sink_if_def on_sink_def store_content_Some expired_def update_conv' sample_world_def store_New_def
      sample_ttl split: prod.splits)

end
