(* ===== verification/Clients.thy ===== *)
theory Clients
  imports Fetcher
begin

text \<open>
  The clients over the request loop and over leases: the clients of the enricher
  (\<^verbatim>\<open>internal/enrich/httpclient\<close>) and the client of match data that takes a proxy for each exchange
  (\<^verbatim>\<open>internal/client/proxyclient\<close>). The network is the environment of \<open>HttpDo\<close>.
\<close>

section \<open>Requests\<close>

record get_request =
  rq_URL :: string
  rq_Agent :: "string option"

text \<open>\<^verbatim>\<open>http.NewRequestWithContext\<close> for GET; \<open>bad_url\<close> is the error of parsing the URL.\<close>

definition new_request :: "(string \<Rightarrow> go_error option) \<Rightarrow> string \<Rightarrow> go_error + get_request" where
  "new_request bad_url u = (case bad_url u of Some e \<Rightarrow> Inl e | None \<Rightarrow> Inr \<lparr>rq_URL = u, rq_Agent = None\<rparr>)"

section \<open>The clients of the enricher\<close>

text \<open>\<open>client_do t\<close> is the \<^verbatim>\<open>Do\<close> of an \<^verbatim>\<open>http.Client\<close> with time limit \<open>t\<close>.\<close>

definition NewDirect :: "duration list \<Rightarrow> duration" where
  "NewDirect timeout = (case timeout of [] \<Rightarrow> 30 * second | t # _ \<Rightarrow> if 0 < t then t else 30 * second)"

definition DirectClient_Get ::
  "(duration \<Rightarrow> get_request \<Rightarrow> 'w \<Rightarrow> (go_error + response) \<times> 'w) \<Rightarrow> (string \<Rightarrow> go_error option) \<Rightarrow> duration \<Rightarrow> string \<Rightarrow> 'w \<Rightarrow> (go_error + response) \<times> 'w" where
  "DirectClient_Get client_do bad_url t u w =
     (case new_request bad_url u of
        Inl e \<Rightarrow> (Inl e, w)
      | Inr r \<Rightarrow> client_do t (r\<lparr>rq_Agent := Some ''go-dota2/enricher''\<rparr>) w)"

definition Direct_Get ::
  "(get_request \<Rightarrow> 'w \<Rightarrow> (go_error + response) \<times> 'w) \<Rightarrow> (string \<Rightarrow> go_error option) \<Rightarrow> string \<Rightarrow> 'w \<Rightarrow> (go_error + response) \<times> 'w" where
  "Direct_Get client_do bad_url u w =
     (case new_request bad_url u of Inl e \<Rightarrow> (Inl e, w) | Inr r \<Rightarrow> client_do r w)"

definition NewProxied :: "bool \<Rightarrow> doer_cfg \<Rightarrow> go_error + doer_cfg \<times> doer" where
  "NewProxied nil_pool c =
     (case doer_New nil_pool c of Inl e \<Rightarrow> Inl (Wrapped ''httpclient proxied: '' e) | Inr d \<Rightarrow> Inr d)"

definition Proxied_Get ::
  "('w, get_request) http_env \<Rightarrow> (string \<Rightarrow> go_error option) \<Rightarrow> doer_cfg \<Rightarrow> string \<Rightarrow> doer \<Rightarrow> 'w \<Rightarrow> (go_error + response) \<times> doer \<times> 'w" where
  "Proxied_Get E bad_url c u d w =
     (case new_request bad_url u of
        Inl e \<Rightarrow> (Inl e, d, w)
      | Inr r \<Rightarrow> Do E c (r\<lparr>rq_Agent := Some ''go-dota2/enricher''\<rparr>) d w)"

section \<open>One exchange per lease\<close>

record round_tripper =
  rt_hold :: duration
  rt_direct :: bool
  rt_timeout :: duration

definition NewRoundTripper :: "duration \<Rightarrow> bool \<Rightarrow> duration \<Rightarrow> round_tripper" where
  "NewRoundTripper hold allowDirect timeout =
     \<lparr>rt_hold = hold, rt_direct = allowDirect, rt_timeout = (if timeout \<le> 0 then 30 * second else timeout)\<rparr>"

text \<open>The exchange over a transport, with the report to the pool when there is a lease.\<close>

definition exchange :: "('w, 'q) http_env \<Rightarrow> transport \<Rightarrow> lease option \<Rightarrow> 'q \<Rightarrow> 'w \<Rightarrow> (go_error + response) \<times> 'w" where
  "exchange E tr l req w =
     (let fail = (\<lambda>e w. case l of None \<Rightarrow> w | Some l \<Rightarrow> MarkFailure (he_pool E) l (Some e) w) in
      case he_send E tr req w of
        (Inl e, w1) \<Rightarrow> (Inl e, fail e w1)
      | (Inr resp, w1) \<Rightarrow>
          if 500 \<le> StatusCode resp \<or> StatusCode resp = 429 then
            (let e = ErrText (''http '' @ itoa (StatusCode resp)) in (Inl e, fail e w1))
          else
            (Inr resp,
             (case l of
                Some l \<Rightarrow> if StatusCode resp < 400 then MarkSuccess (he_pool E) l w1 else w1
              | None \<Rightarrow> w1)))"

text \<open>The body of \<^verbatim>\<open>RoundTrip\<close> between the acquisition and the deferred release.\<close>

definition over_lease :: "('w, 'q) http_env \<Rightarrow> round_tripper \<Rightarrow> lease option \<Rightarrow> 'q \<Rightarrow> 'w \<Rightarrow> (go_error + response) \<times> 'w" where
  "over_lease E rt l req w =
     (case l of
        Some le \<Rightarrow>
          if URL le \<noteq> [] then
            (case he_parse E (URL le) of
               Inl e \<Rightarrow> (Inl (Wrapped ''parse proxy url: '' e), MarkFailure (he_pool E) le (Some e) w)
             | Inr pu \<Rightarrow>
                 case transport_For (he_dialer E) (Some pu) of
                   Inl e \<Rightarrow> (Inl (Wrapped ''proxy transport: '' e), MarkFailure (he_pool E) le (Some e) w)
                 | Inr tr \<Rightarrow> exchange E tr l req w)
          else if \<not> rt_direct rt then (Inl ErrNoProxy, w)
          else exchange E DirectDial l req w
      | None \<Rightarrow> if \<not> rt_direct rt then (Inl ErrNoProxy, w) else exchange E DirectDial l req w)"

definition RoundTrip :: "('w, 'q) http_env \<Rightarrow> round_tripper \<Rightarrow> 'q \<Rightarrow> 'w \<Rightarrow> (go_error + response) \<times> 'w" where
  "RoundTrip E rt req w =
     (case pl_Acquire (he_pool E) (rt_hold rt) w of
        (Inl e, w1) \<Rightarrow> if e \<noteq> ErrNoProxy then (Inl e, w1) else over_lease E rt None req w1
      | (Inr l, w1) \<Rightarrow>
          let (r, w2) = over_lease E rt (Some l) req w1; (_, _, w3) = Release (he_pool E) l w2
          in (r, w3))"

section \<open>The match client\<close>

record match_client =
  mcl_UpstreamURL :: string
  mcl_Timeout :: duration
  mcl_MaxRetries :: int
  mcl_Backoff :: duration
  mcl_AllowDirect :: bool

definition NewMatchClient :: "bool \<Rightarrow> match_client \<Rightarrow> go_error + match_client \<times> round_tripper" where
  "NewMatchClient nil_pool c =
     (if nil_pool then Inl (ErrText ''proxyclient: pool is required'')
      else if mcl_UpstreamURL c = [] then Inl (ErrText ''proxyclient: upstream URL is required'')
      else
        let c1 = c\<lparr>mcl_MaxRetries := (if mcl_MaxRetries c \<le> 0 then 5 else mcl_MaxRetries c),
                   mcl_Backoff := (if mcl_Backoff c \<le> 0 then 250 * millisecond else mcl_Backoff c),
                   mcl_Timeout := (if mcl_Timeout c \<le> 0 then 15 * second else mcl_Timeout c)\<rparr>
        in Inr (c1, NewRoundTripper (30 * second) (mcl_AllowDirect c1) (mcl_Timeout c1)))"

text \<open>An error of \<^verbatim>\<open>doRequest\<close>: its own type for a status, or any other error.\<close>

datatype match_error = HttpStatus int | Plain go_error

definition status_permanent :: "int \<Rightarrow> bool" where
  "status_permanent code \<longleftrightarrow> code \<in> {404, 400, 401, 403, 410}"

definition isPermanentHTTP :: "match_error \<Rightarrow> bool" where
  "isPermanentHTTP e = (case e of HttpStatus c \<Rightarrow> status_permanent c | Plain _ \<Rightarrow> False)"

text \<open>\<open>url_error\<close> is the \<^verbatim>\<open>url.Error\<close> that \<^verbatim>\<open>http.Client.Do\<close> makes of an error of its round tripper.\<close>

definition match_doRequest ::
  "('w, get_request) http_env \<Rightarrow> (string \<Rightarrow> go_error option) \<Rightarrow> (string \<Rightarrow> go_error \<Rightarrow> go_error) \<Rightarrow> round_tripper \<Rightarrow> string \<Rightarrow> 'w \<Rightarrow> (match_error + bytes) \<times> 'w" where
  "match_doRequest E bad_url url_error rt u w =
     (case new_request bad_url u of
        Inl e \<Rightarrow> (Inl (Plain e), w)
      | Inr r \<Rightarrow>
          case RoundTrip E rt (r\<lparr>rq_Agent := Some ''go-dota2/match-client''\<rparr>) w of
            (Inl e, w1) \<Rightarrow> (Inl (Plain (Wrapped ''http: '' (url_error u e))), w1)
          | (Inr resp, w1) \<Rightarrow>
              if 400 \<le> StatusCode resp then (Inl (HttpStatus (StatusCode resp)), w1)
              else (case he_read E resp w1 of (Inl e, w2) \<Rightarrow> (Inl (Plain e), w2) | (Inr b, w2) \<Rightarrow> (Inr b, w2)))"

text \<open>\<open>Exhausted n e\<close> is the error after all attempts; without any attempt \<open>e\<close> is nil.\<close>

datatype get_error = Failed match_error | Exhausted int "match_error option"

fun match_attempts ::
  "('w, get_request) http_env \<Rightarrow> (string \<Rightarrow> go_error option) \<Rightarrow> (string \<Rightarrow> go_error \<Rightarrow> go_error) \<Rightarrow> match_client \<Rightarrow> round_tripper \<Rightarrow> string \<Rightarrow>
   nat \<Rightarrow> match_error option \<Rightarrow> 'w \<Rightarrow> (get_error + bytes) \<times> 'w" where
  "match_attempts E bad_url url_error c rt u 0 lastErr w = (Inl (Exhausted (mcl_MaxRetries c) lastErr), w)"
| "match_attempts E bad_url url_error c rt u (Suc n) lastErr w =
     (case he_ctx E w of
        Some e \<Rightarrow> (Inl (Failed (Plain e)), w)
      | None \<Rightarrow>
          case match_doRequest E bad_url url_error rt u w of
            (Inr b, w1) \<Rightarrow> (Inr b, w1)
          | (Inl err, w1) \<Rightarrow>
              if isPermanentHTTP err then (Inl (Failed err), w1)
              else
                case he_wait E (mcl_Backoff c) w1 of
                  (Some e, w2) \<Rightarrow> (Inl (Failed (Plain e)), w2)
                | (None, w2) \<Rightarrow> match_attempts E bad_url url_error c rt u n (Some err) w2)"

declare match_attempts.simps(2) [simp del]

definition GetMatch ::
  "('w, get_request) http_env \<Rightarrow> (string \<Rightarrow> go_error option) \<Rightarrow> (string \<Rightarrow> go_error \<Rightarrow> go_error) \<Rightarrow> match_client \<Rightarrow> round_tripper \<Rightarrow> int \<Rightarrow> 'w \<Rightarrow> (get_error + bytes) \<times> 'w" where
  "GetMatch E bad_url url_error c rt matchID w =
     match_attempts E bad_url url_error c rt (sprintf_d (mcl_UpstreamURL c) matchID) (nat (mcl_MaxRetries c)) None w"

section \<open>The leases come back\<close>

context lease_client
begin

lemma exchange_held:
  assumes "invar w" and "exchange E tr l req w = (r, w')"
  shows "invar w' \<and> held w' = held w"
proof -
  obtain s w1 where s: "he_send E tr req w = (s, w1)" by fastforce
  have w1: "invar w1" "held w1 = held w" using send [OF assms(1) s] by auto
  show ?thesis using assms(2) s w1 pool.MarkFailure_held pool.MarkSuccess_held
    by (auto simp: exchange_def Let_def split: sum.splits if_splits option.splits)
qed

lemma over_lease_held:
  assumes "invar w" and "over_lease E rt l req w = (r, w')"
  shows "invar w' \<and> held w' = held w"
  using assms exchange_held [OF assms(1)] pool.MarkFailure_held [OF assms(1)]
  by (auto simp: over_lease_def split: option.splits sum.splits if_splits)

lemma RoundTrip_held:
  assumes "invar w" and "RoundTrip E rt req w = (r, w')"
  shows "invar w' \<and> held w' = held w"
proof -
  obtain a w1 where a: "pl_Acquire (he_pool E) (rt_hold rt) w = (a, w1)" by fastforce
  show ?thesis
  proof (cases a)
    case (Inl e)
    then have "invar w1 \<and> held w1 = held w" using pool.acquire_err [OF assms(1)] a by simp
    then show ?thesis using assms(2) a Inl over_lease_held [of w1]
      by (auto simp: RoundTrip_def split: if_splits)
  next
    case (Inr l)
    then have w1: "invar w1" "\<not> released l" "token l \<notin> held w" "held w1 = insert (token l) (held w)"
      using pool.acquire [OF assms(1)] a by auto
    obtain u w2 where u: "over_lease E rt (Some l) req w1 = (u, w2)" by fastforce
    have w2: "invar w2" "held w2 = held w1" using over_lease_held [OF w1(1) u] by auto
    obtain e l' w3 where rel: "Release (he_pool E) l w2 = (e, l', w3)" by (metis prod.exhaust)
    from pool.Release_held [OF w2(1) rel] have w3: "invar w3" "held w3 = held w2 - {token l}" using w1(2) by auto
    have "w' = w3" using assms(2) a Inr u rel by (simp add: RoundTrip_def)
    then show ?thesis using w1 w2 w3 by auto
  qed
qed

end

lemma match_doRequest_held:
  assumes client: "lease_client E invar taken" and "invar w" and "match_doRequest E bad url_err rt u w = (r, w')"
  shows "invar w' \<and> taken w' = taken w"
proof (cases "new_request bad u")
  case (Inl e)
  then show ?thesis using assms by (simp add: match_doRequest_def)
next
  case (Inr q)
  obtain s w1 where s: "RoundTrip E rt (q\<lparr>rq_Agent := Some ''go-dota2/match-client''\<rparr>) w = (s, w1)" by fastforce
  have w1: "invar w1" "taken w1 = taken w" using lease_client.RoundTrip_held [OF assms(1,2) s] by auto
  show ?thesis using assms(3) Inr s w1 lease_client.read [OF client w1(1)]
    by (auto simp: match_doRequest_def split: sum.splits if_splits prod.splits)
qed

lemma match_attempts_held:
  assumes client: "lease_client E invar taken"
  shows "invar w \<Longrightarrow> match_attempts E bad url_err c rt u n le w = (r, w') \<Longrightarrow> invar w' \<and> taken w' = taken w"
proof (induction n arbitrary: le w)
  case 0
  then show ?case by simp
next
  case (Suc n)
  obtain x w1 where x: "match_doRequest E bad url_err rt u w = (x, w1)" by fastforce
  have w1: "invar w1" "taken w1 = taken w" using match_doRequest_held [OF client Suc.prems(1) x] by auto
  obtain y w2 where y: "he_wait E (mcl_Backoff c) w1 = (y, w2)" by fastforce
  have w2: "invar w2" "taken w2 = taken w" using lease_client.wait [OF client w1(1) y] w1 by auto
  show ?case using Suc.prems Suc.IH [OF w2(1)] x y w1 w2
    by (simp add: match_attempts.simps(2) split: option.splits sum.splits if_splits)
qed

lemma match_attempts_status:
  "match_attempts E bad url_err c rt u n le w = (Inl (Failed (HttpStatus s)), w') \<Longrightarrow> status_permanent s"
proof (induction n arbitrary: le w)
  case 0
  then show ?case by simp
next
  case (Suc n)
  then show ?case
    by (fastforce simp: match_attempts.simps(2) isPermanentHTTP_def split: option.splits sum.splits if_splits prod.splits)
qed

text \<open>The match client returns every proxy it took, whatever the network and the pool do, and gives up
  before its attempts are used up because of a status only when that status is permanent. It holds for
  every pool that keeps the pool contract.\<close>

theorem get_match_returns_leases:
  assumes "lease_client E invar taken" and "invar w" and "GetMatch E bad url_err c rt i w = (r, w')"
  shows "invar w' \<and> taken w' = taken w \<and> (\<forall>s. r = Inl (Failed (HttpStatus s)) \<longrightarrow> status_permanent s)"
  using match_attempts_held [OF assms(1,2)] match_attempts_status assms(3) unfolding GetMatch_def by metis

definition sample_get :: "int list \<Rightarrow> (get_error + bytes) \<times> inmem_pool \<times> int list" where
  "sample_get codes =
     (let net = (\<lambda>tr req cs. case cs of [] \<Rightarrow> (Inl (ErrText ''EOF''), []) | s # ss \<Rightarrow> (Inr \<lparr>StatusCode = s, Body = ''x''\<rparr>, ss));
          E = mem_env None (\<lambda>u. Inr \<lparr>u_Scheme = ''http'', u_Rest = u\<rparr>) net;
          c = \<lparr>mcl_UpstreamURL = ''/m/%d'', mcl_Timeout = second, mcl_MaxRetries = 3, mcl_Backoff = millisecond, mcl_AllowDirect = False\<rparr>
      in GetMatch E (\<lambda>u. None) (\<lambda>u e. e) c (NewRoundTripper second False second) 7 (pool_New [''a'', ''b''], codes))"

theorem get_match_returns_leases_witness:
  "case sample_get [503, 404, 200] of (r, w') \<Rightarrow> r = Inl (Failed (HttpStatus 404)) \<and> status_permanent 404 \<and> set (leased (fst w')) = {}"
proof -
  obtain r w' where g: "sample_get [503, 404, 200] = (r, w')" by (rule prod.exhaust)
  have "fst (sample_get [503, 404, 200]) = Inl (Failed (HttpStatus 404))" by code_simp
  with g have r: "r = Inl (Failed (HttpStatus 404))" by simp
  from get_match_returns_leases [OF mem_client.lease_client_axioms _ g [unfolded sample_get_def Let_def]] g r
  show ?thesis by (simp add: pool_New_def)
qed

text \<open>The proxy is given back when the headers arrive: the body is read through it afterwards, without a
  lease.\<close>

lemma body_read_without_lease:
  assumes "lease_client E invar taken" and "invar w"
    and "RoundTrip E rt \<lparr>rq_URL = u, rq_Agent = Some ''go-dota2/match-client''\<rparr> w = (Inr resp, w1)" and "StatusCode resp < 400" and "bad u = None"
  shows "match_doRequest E bad url_err rt u w =
      (case he_read E resp w1 of (Inl e, w2) \<Rightarrow> (Inl (Plain e), w2) | (Inr b, w2) \<Rightarrow> (Inr b, w2)) \<and> taken w1 = taken w"
  using assms(3-5) lease_client.RoundTrip_held [OF assms(1,2,3)] by (simp add: match_doRequest_def new_request_def)

end
