(* ===== verification/RedisStreams.thy ===== *)
theory RedisStreams
  imports Queue Redis Json
begin

text \<open>
  The Redis Streams adapter of the queue port (\<^verbatim>\<open>internal/queue/redisstreams/queue.go\<close>):
  publishing and decoding of stream entries, acknowledgement, the synchronous and the asynchronous
  retry path, the dead-letter stream, recovery of stale deliveries. The server is the argument
  \<open>R\<close>, the trace propagator the argument \<open>P\<close>; the clock, the random jitter and a cancellation
  during a wait are arguments of the operations that depend on them.
\<close>

section \<open>Configuration and state\<close>

record async_retry_config =
  ZSetKey :: string
  PollEvery :: duration
  BatchSize :: int
  AsyncMaxRetries :: int

record rs_config =
  Stream :: string
  DLQStream :: string
  Group :: string
  Consumer :: string
  MaxLen :: int
  Policy :: retry_policy
  DeleteOnAck :: bool

record 'd rs_queue =
  rdb :: 'd
  cfg :: rs_config
  recoverCursor :: string
  asyncCfg :: async_retry_config
  asyncStarted :: bool

definition fieldPayload :: string where "fieldPayload = ''p''"
definition fieldRetry :: string where "fieldRetry = ''r''"
definition fieldReason :: string where "fieldReason = ''reason''"

lemmas field_defs = fieldPayload_def fieldRetry_def fieldReason_def

text \<open>The OpenTelemetry propagator: the header fields of a context and the context of header
  fields.\<close>

record propagator =
  p_inject :: "(string \<times> string) list option \<Rightarrow> (string \<times> string) list"
  p_extract :: "(string \<times> string) list \<Rightarrow> (string \<times> string) list option"

definition rs_do :: "'d redis \<Rightarrow> redis_cmd \<Rightarrow> 'd rs_queue \<Rightarrow> redis_reply \<times> 'd rs_queue" where
  "rs_do R c q = (let (r, d) = rd_do R c (rdb q) in (r, q\<lparr>rdb := d\<rparr>))"

definition rs_pipe :: "'d redis \<Rightarrow> redis_cmd list \<Rightarrow> 'd rs_queue \<Rightarrow> redis_reply list \<times> 'd rs_queue" where
  "rs_pipe R cs q = (let (rs, d) = rd_pipe R cs (rdb q) in (rs, q\<lparr>rdb := d\<rparr>))"

section \<open>Construction\<close>

definition isBusyGroup :: "go_error \<Rightarrow> bool" where
  "isBusyGroup e = has_prefix (err_string e) ''BUSYGROUP''"

definition ensureGroup :: "'d redis \<Rightarrow> 'd rs_queue \<Rightarrow> go_error option \<times> 'd rs_queue" where
  "ensureGroup R q =
     (let (r, q1) = rs_do R (XGROUP_CREATE (Stream (cfg q)) (Group (cfg q)) ''$'') q
      in case reply_err r of
           None \<Rightarrow> (None, q1)
         | Some e \<Rightarrow> if isBusyGroup e then (None, q1) else (Some (Wrapped ''xgroup create: '' e), q1))"

definition no_async :: async_retry_config where
  "no_async = \<lparr>ZSetKey = [], PollEvery = 0, BatchSize = 0, AsyncMaxRetries = 0\<rparr>"

text \<open>A nil client is \<open>None\<close>.\<close>

definition rs_New :: "'d redis \<Rightarrow> 'd option \<Rightarrow> rs_config \<Rightarrow> go_error + 'd rs_queue" where
  "rs_New R client c =
     (case client of
        None \<Rightarrow> Inl (ErrText ''redisstreams: nil redis client'')
      | Some d \<Rightarrow>
          if Stream c = [] then Inl (ErrText ''redisstreams: Stream is required'')
          else
            let q = \<lparr>rdb = d, cfg = c, recoverCursor = ''0-0'', asyncCfg = no_async, asyncStarted = False\<rparr>
            in if Consumer c \<noteq> [] \<and> Group c \<noteq> [] then
                 (case ensureGroup R q of (Some e, _) \<Rightarrow> Inl e | (None, q1) \<Rightarrow> Inr (q1\<lparr>recoverCursor := ''0-0''\<rparr>))
               else Inr q)"

section \<open>Publishing and decoding\<close>

definition push_fields :: "propagator \<Rightarrow> (string \<times> string) list option \<Rightarrow> bytes \<Rightarrow> (string \<times> string) list" where
  "push_fields P ctx payload =
     [(fieldPayload, payload), (fieldRetry, ''0'')] @ map (\<lambda>(k, v). (''_otel_'' @ k, v)) (p_inject P ctx)"

definition max_len :: "rs_config \<Rightarrow> int" where
  "max_len c = (if 0 < MaxLen c then MaxLen c else 0)"

definition rs_Push :: "'d redis \<Rightarrow> propagator \<Rightarrow> (string \<times> string) list option \<Rightarrow> bytes \<Rightarrow> 'd rs_queue \<Rightarrow> go_error option \<times> 'd rs_queue" where
  "rs_Push R P ctx payload q =
     (let (r, q1) = rs_do R (XADD (Stream (cfg q)) (max_len (cfg q)) (push_fields P ctx payload)) q
      in (map_option (Wrapped ''xadd: '') (reply_err r), q1))"

text \<open>The client delivers the fields as a map: of a repeated field the last value counts.\<close>

definition msg_values :: "xmessage \<Rightarrow> (string \<times> string) list" where
  "msg_values m = rev (AList.clearjunk (rev (xValues m)))"

definition decodeMessage :: "propagator \<Rightarrow> xmessage \<Rightarrow> go_error + task" where
  "decodeMessage P m =
     (let vs = msg_values m
      in case map_of vs fieldPayload of
           None \<Rightarrow> Inl (ErrText (''missing payload field '' @ quote fieldPayload))
         | Some p \<Rightarrow>
             Inr \<lparr>ID = xID m, Payload = p,
                  RetryCount = (case map_of vs fieldRetry of
                                  None \<Rightarrow> 0
                                | Some s \<Rightarrow> (case atoi s of None \<Rightarrow> 0 | Some n \<Rightarrow> n)),
                  Ctx = p_extract P (map (\<lambda>(k, v). (trim_prefix k ''_otel_'', v))
                                     (filter (\<lambda>(k, v). has_prefix k ''_otel_'') vs))\<rparr>)"

section \<open>Settling a task\<close>

definition rs_Ack :: "'d redis \<Rightarrow> string \<Rightarrow> 'd rs_queue \<Rightarrow> go_error option \<times> 'd rs_queue" where
  "rs_Ack R taskID q =
     (let (r, q1) = rs_do R (XACK (Stream (cfg q)) (Group (cfg q)) taskID) q
      in case reply_err r of
           Some e \<Rightarrow> (Some (Wrapped ''xack: '' e), q1)
         | None \<Rightarrow>
             if DeleteOnAck (cfg q) then (None, snd (rs_do R (XDEL (Stream (cfg q)) [taskID]) q1))
             else (None, q1))"

definition routeDLQ :: "'d redis \<Rightarrow> task \<Rightarrow> string \<Rightarrow> 'd rs_queue \<Rightarrow> go_error option \<times> 'd rs_queue" where
  "routeDLQ R t reason q =
     (if DLQStream (cfg q) = [] then
        (if ID t = [] then (None, q) else rs_Ack R (ID t) q)
      else
        let (r, q1) = rs_do R (XADD (DLQStream (cfg q)) 0
                         [(fieldPayload, Payload t), (fieldRetry, itoa (RetryCount t)), (fieldReason, reason)]) q
        in case reply_err r of
             Some e \<Rightarrow> (Some (Wrapped ''xadd dlq: '' e), q1)
           | None \<Rightarrow> if ID t = [] then (None, q1) else rs_Ack R (ID t) q1)"

definition requeue :: "'d redis \<Rightarrow> task \<Rightarrow> 'd rs_queue \<Rightarrow> go_error option \<times> 'd rs_queue" where
  "requeue R t q =
     (let (r, q1) = rs_do R (XADD (Stream (cfg q)) (max_len (cfg q))
                       [(fieldPayload, Payload t), (fieldRetry, itoa (RetryCount t))]) q
      in case reply_err r of
           Some e \<Rightarrow> (Some (Wrapped ''xadd requeue: '' e), q1)
         | None \<Rightarrow> rs_Ack R (ID t) q1)"

text \<open>The member the asynchronous path stores: the payload's own object, or the payload as the
  string \<^verbatim>\<open>p\<close> of a new object, with the retry count. The payload \<^verbatim>\<open>null\<close> leaves a nil map, and
  the assignment panics.\<close>

definition retry_member :: "(string \<Rightarrow> string option) \<Rightarrow> task \<Rightarrow> go_error + string" where
  "retry_member renum t =
     (case unmarshal_map renum (Payload t) of
        Some None \<Rightarrow> Inl (Panic ''assignment to entry in nil map'')
      | Some (Some m) \<Rightarrow> Inr (json_print (JObj (obj_put ''retry_count'' (JNum (itoa (RetryCount t))) m)))
      | None \<Rightarrow> Inr (json_print (JObj (obj_put ''retry_count'' (JNum (itoa (RetryCount t)))
                                        [(''p'', JStr (Payload t))]))))"

text \<open>\<open>now\<close> is the clock in nanoseconds; the score is in whole seconds.\<close>

definition scheduleAsyncRetry :: "'d redis \<Rightarrow> (string \<Rightarrow> string option) \<Rightarrow> rat \<Rightarrow> int \<Rightarrow> task \<Rightarrow> 'd rs_queue \<Rightarrow> go_error option \<times> 'd rs_queue" where
  "scheduleAsyncRetry R renum rnd now t q =
     (if 0 < AsyncMaxRetries (asyncCfg q) \<and> AsyncMaxRetries (asyncCfg q) < RetryCount t then
        routeDLQ R t ''max retries exceeded'' q
      else
        case retry_member renum t of
          Inl e \<Rightarrow> (Some e, q)
        | Inr payload \<Rightarrow>
            let d0 = Backoff rnd (Policy (cfg q)) (RetryCount t);
                d = (if d0 \<le> 0 then second else d0);
                score = of_int ((now + d) div second);
                (rs, q1) = rs_pipe R
                  (ZADD (ZSetKey (asyncCfg q)) False [(payload, score)] #
                   (if ID t \<noteq> [] then [XACK (Stream (cfg q)) (Group (cfg q)) (ID t)] else [])) q
            in (map_option (Wrapped ''schedule async retry: '') (pipe_err rs), q1))"

text \<open>\<open>cancel\<close> is the error of the context when it ends before the delay has passed.\<close>

definition rs_Retry :: "'d redis \<Rightarrow> (string \<Rightarrow> string option) \<Rightarrow> rat \<Rightarrow> int \<Rightarrow> go_error option \<Rightarrow> task \<Rightarrow> string \<Rightarrow> 'd rs_queue \<Rightarrow> go_error option \<times> 'd rs_queue" where
  "rs_Retry R renum rnd now cancel t0 reason q =
     (let t = t0\<lparr>RetryCount := wrap64 (RetryCount t0 + 1)\<rparr>
      in if ShouldDLQ (Policy (cfg q)) (RetryCount t) then routeDLQ R t reason q
         else if ZSetKey (asyncCfg q) \<noteq> [] then scheduleAsyncRetry R renum rnd now t q
         else
           let d = Backoff rnd (Policy (cfg q)) (RetryCount t)
           in case (if 0 < d then cancel else None) of
                Some e \<Rightarrow> (Some e, q)
              | None \<Rightarrow> requeue R t q)"

section \<open>Taking tasks\<close>

text \<open>Entries that cannot be decoded go to the dead-letter stream; the others are handed out.\<close>

fun decode_all :: "'d redis \<Rightarrow> propagator \<Rightarrow> xmessage list \<Rightarrow> 'd rs_queue \<Rightarrow> task list \<times> 'd rs_queue" where
  "decode_all R P [] q = ([], q)"
| "decode_all R P (m # ms) q =
     (case decodeMessage P m of
        Inl e \<Rightarrow>
          (let (_, q1) = routeDLQ R \<lparr>ID = xID m, Payload = [], RetryCount = 0, Ctx = None\<rparr>
                           (''decode_error: '' @ err_string e) q
           in decode_all R P ms q1)
      | Inr t \<Rightarrow> (let (ts, q1) = decode_all R P ms q in (t # ts, q1)))"

definition rs_Pop :: "'d redis \<Rightarrow> propagator \<Rightarrow> int \<Rightarrow> duration \<Rightarrow> 'd rs_queue \<Rightarrow> (go_error + task list) \<times> 'd rs_queue" where
  "rs_Pop R P batch block q =
     (if Consumer (cfg q) = [] \<or> Group (cfg q) = [] then
        (Inl (ErrText ''redisstreams: Consumer and Group required for Pop''), q)
      else
        let n = (if batch \<le> 0 then 1 else batch);
            (r, q1) = rs_do R (XREADGROUP (Group (cfg q)) (Consumer (cfg q)) (Stream (cfg q)) n block) q
        in case msgs_reply r of
             Inl e \<Rightarrow> if errors_is e RedisNil then (Inl ErrEmpty, q1) else (Inl (Wrapped ''xreadgroup: '' e), q1)
           | Inr (_, ms) \<Rightarrow>
               if ms = [] then (Inl ErrEmpty, q1)
               else
                 let (out, q2) = decode_all R P ms q1
                 in if out = [] then (Inl ErrEmpty, q2) else (Inr out, q2))"

definition rs_RecoverStale :: "'d redis \<Rightarrow> propagator \<Rightarrow> duration \<Rightarrow> int \<Rightarrow> 'd rs_queue \<Rightarrow> (go_error + task list) \<times> 'd rs_queue" where
  "rs_RecoverStale R P idleFor maxN q =
     (if Consumer (cfg q) = [] \<or> Group (cfg q) = [] then
        (Inl (ErrText ''redisstreams: Consumer and Group required for RecoverStale''), q)
      else
        let n = (if maxN \<le> 0 then 100 else maxN);
            (r, q1) = rs_do R (XAUTOCLAIM (Stream (cfg q)) (Group (cfg q)) (Consumer (cfg q)) idleFor (recoverCursor q) n) q
        in case msgs_reply r of
             Inl e \<Rightarrow> (Inl (Wrapped ''xautoclaim: '' e), q1)
           | Inr (cursor, ms) \<Rightarrow>
               let q2 = q1\<lparr>recoverCursor := (if cursor = [] then ''0-0'' else cursor)\<rparr>;
                   (out, q3) = decode_all R P ms q2
               in (Inr out, q3))"

section \<open>Observation\<close>

definition rs_PendingLen :: "'d redis \<Rightarrow> 'd rs_queue \<Rightarrow> int \<times> 'd rs_queue" where
  "rs_PendingLen R q =
     (if Stream (cfg q) = [] then (0, q)
      else let (r, q1) = rs_do R (XLEN (Stream (cfg q))) q
           in (case int_reply r of Inl _ \<Rightarrow> 0 | Inr n \<Rightarrow> n, q1))"

definition rs_InFlightLen :: "'d redis \<Rightarrow> 'd rs_queue \<Rightarrow> int \<times> 'd rs_queue" where
  "rs_InFlightLen R q =
     (if Stream (cfg q) = [] \<or> Group (cfg q) = [] then (0, q)
      else let (r, q1) = rs_do R (XPENDING (Stream (cfg q)) (Group (cfg q))) q
           in (case int_reply r of Inl _ \<Rightarrow> 0 | Inr n \<Rightarrow> n, q1))"

definition rs_Stats :: "'d redis \<Rightarrow> 'd rs_queue \<Rightarrow> (int \<times> int) \<times> 'd rs_queue" where
  "rs_Stats R q = (let (p, q1) = rs_PendingLen R q; (i, q2) = rs_InFlightLen R q1 in ((p, i), q2))"

section \<open>The asynchronous retry loop\<close>

definition EnableAsyncRetry :: "async_retry_config \<Rightarrow> 'd rs_queue \<Rightarrow> 'd rs_queue" where
  "EnableAsyncRetry c q =
     (if asyncStarted q then q
      else q\<lparr>asyncCfg := c\<lparr>PollEvery := (if PollEvery c \<le> 0 then second else PollEvery c),
                          BatchSize := (if BatchSize c \<le> 0 then 100 else BatchSize c)\<rparr>,
             asyncStarted := True\<rparr>)"

definition StopAsyncRetry :: "'d rs_queue \<Rightarrow> 'd rs_queue" where
  "StopAsyncRetry q = (if asyncStarted q then q\<lparr>asyncStarted := False\<rparr> else q)"

definition extractRetryCount :: "string \<Rightarrow> string" where
  "extractRetryCount s =
     (case json_parse s of
        None \<Rightarrow> ''0''
      | Some j \<Rightarrow>
          if conforms (GStruct [(''retry_count'', GInt64)]) j then itoa (get_int j ''retry_count'') else ''0'')"

definition extractOriginalPayload :: "(string \<Rightarrow> string option) \<Rightarrow> string \<Rightarrow> string" where
  "extractOriginalPayload renum wrapped =
     (case unmarshal_map renum wrapped of
        Some (Some m) \<Rightarrow> (case map_of m ''p'' of Some (JStr s) \<Rightarrow> s | _ \<Rightarrow> wrapped)
      | _ \<Rightarrow> wrapped)"

definition mature_fields :: "(string \<Rightarrow> string option) \<Rightarrow> string \<Rightarrow> (string \<times> string) list" where
  "mature_fields renum mem =
     [(fieldPayload, extractOriginalPayload renum mem), (fieldRetry, extractRetryCount mem)]"

text \<open>\<open>now\<close> in whole seconds.\<close>

definition matureAsyncRetries :: "'d redis \<Rightarrow> (string \<Rightarrow> string option) \<Rightarrow> int \<Rightarrow> 'd rs_queue \<Rightarrow> 'd rs_queue" where
  "matureAsyncRetries R renum now q =
     (if ZSetKey (asyncCfg q) = [] then q
      else
        let (r, q1) = rs_do R (ZRANGEBYSCORE (ZSetKey (asyncCfg q)) (of_int now) (BatchSize (asyncCfg q))) q
        in case scored_reply r of
             Inl _ \<Rightarrow> q1
           | Inr res \<Rightarrow>
               if res = [] then q1
               else snd (rs_pipe R
                      (concat (map (\<lambda>(mem, score).
                         [XADD (Stream (cfg q)) 0 (mature_fields renum mem),
                          ZREM (ZSetKey (asyncCfg q)) mem]) res)) q1))"

datatype async_event = AsyncTick int | AsyncStop

fun asyncRetryLoop :: "'d redis \<Rightarrow> (string \<Rightarrow> string option) \<Rightarrow> async_event list \<Rightarrow> 'd rs_queue \<Rightarrow> 'd rs_queue" where
  "asyncRetryLoop R renum [] q = q"
| "asyncRetryLoop R renum (AsyncStop # es) q = q"
| "asyncRetryLoop R renum (AsyncTick now # es) q = asyncRetryLoop R renum es (matureAsyncRetries R renum now q)"

section \<open>No task is acknowledged before its copy is stored\<close>

text \<open>\<open>stores_copy p n\<close>: the command appends an entry with payload \<open>p\<close> and retry count \<open>n\<close> to a
  stream; \<open>settles i\<close>: the command takes entry \<open>i\<close> out of the stream.\<close>

definition stores_copy :: "bytes \<Rightarrow> int \<Rightarrow> redis_cmd \<Rightarrow> bool" where
  "stores_copy p n c =
     (case c of XADD s m fs \<Rightarrow> map_of fs fieldPayload = Some p \<and> map_of fs fieldRetry = Some (itoa n) | _ \<Rightarrow> False)"

definition settles :: "string \<Rightarrow> redis_cmd \<Rightarrow> bool" where
  "settles i c = (case c of XACK s g j \<Rightarrow> j = i | XDEL s js \<Rightarrow> i \<in> set js | _ \<Rightarrow> False)"

definition succeeded :: "(redis_cmd \<Rightarrow> bool) \<Rightarrow> redis_log \<Rightarrow> bool" where
  "succeeded P l = list_ex (\<lambda>(c, r). P c \<and> reply_err r = None) l"

abbreviation the_log :: "('d \<times> redis_log) rs_queue \<Rightarrow> redis_log" where
  "the_log q \<equiv> snd (rdb q)"

lemma Ack_log:
  "\<exists>r l. the_log (snd (rs_Ack (logged R) i q)) = the_log q @ (XACK (Stream (cfg q)) (Group (cfg q)) i, r) # l \<and>
     (fst (rs_Ack (logged R) i q) = None \<longleftrightarrow> reply_err r = None)"
  by (cases "rdb q") (auto simp: rs_Ack_def rs_do_def logged_def Let_def split: prod.splits option.splits)

lemma store_then_ack:
  assumes "stores_copy p n c" and "reply_err r = None" and "the_log q1 = [(c, r)]" and "\<not> settles i c"
  shows "guarded (stores_copy p n) (settles i) (the_log (snd (rs_Ack (logged R) i q1)))"
    and "fst (rs_Ack (logged R) i q1) = None \<Longrightarrow>
      succeeded (stores_copy p n) (the_log (snd (rs_Ack (logged R) i q1))) \<and>
      succeeded (settles i) (the_log (snd (rs_Ack (logged R) i q1)))"
proof -
  obtain r' l where l: "the_log (snd (rs_Ack (logged R) i q1)) =
      [(c, r)] @ (XACK (Stream (cfg q1)) (Group (cfg q1)) i, r') # l"
    and e: "fst (rs_Ack (logged R) i q1) = None \<longleftrightarrow> reply_err r' = None"
    using Ack_log [of R i q1] assms(3) by auto
  show "guarded (stores_copy p n) (settles i) (the_log (snd (rs_Ack (logged R) i q1)))"
    unfolding l using assms(1,2,4) by simp
  show "succeeded (stores_copy p n) (the_log (snd (rs_Ack (logged R) i q1))) \<and>
      succeeded (settles i) (the_log (snd (rs_Ack (logged R) i q1)))"
    if "fst (rs_Ack (logged R) i q1) = None"
    using that e assms(1,2) unfolding l by (simp add: succeeded_def settles_def)
qed

lemma rs_do_logged:
  assumes "rs_do (logged R) c q = (r, q1)"
  shows "the_log q1 = the_log q @ [(c, r)]" and "cfg q1 = cfg q"
  using assms by (auto simp: rs_do_def logged_def split: prod.splits)

lemma requeue_safe:
  assumes "the_log q = []" and "requeue (logged R) t q = (res, q')"
  shows "guarded (stores_copy (Payload t) (RetryCount t)) (settles (ID t)) (the_log q')"
    and "res = None \<Longrightarrow> succeeded (stores_copy (Payload t) (RetryCount t)) (the_log q') \<and>
      succeeded (settles (ID t)) (the_log q')"
proof -
  let ?c = "XADD (Stream (cfg q)) (max_len (cfg q)) [(fieldPayload, Payload t), (fieldRetry, itoa (RetryCount t))]"
  obtain r q1 where do: "rs_do (logged R) ?c q = (r, q1)" by fastforce
  have c: "stores_copy (Payload t) (RetryCount t) ?c" "\<not> settles (ID t) ?c"
    by (simp_all add: stores_copy_def settles_def field_defs)
  have l: "the_log q1 = [(?c, r)]" using rs_do_logged(1) [OF do] assms(1) by simp
  note ack = store_then_ack [OF c(1) _ l c(2), of R]
  show "guarded (stores_copy (Payload t) (RetryCount t)) (settles (ID t)) (the_log q')"
    using assms(2) do l ack(1) c by (auto simp: requeue_def split: option.splits)
  show "succeeded (stores_copy (Payload t) (RetryCount t)) (the_log q') \<and> succeeded (settles (ID t)) (the_log q')"
    if "res = None"
    using that assms(2) do ack(2) by (auto simp: requeue_def split: option.splits)
qed

lemma routeDLQ_safe:
  assumes "the_log q = []" and "DLQStream (cfg q) \<noteq> []" and "ID t \<noteq> []"
    and "routeDLQ (logged R) t reason q = (res, q')"
  shows "guarded (stores_copy (Payload t) (RetryCount t)) (settles (ID t)) (the_log q')"
    and "res = None \<Longrightarrow> succeeded (stores_copy (Payload t) (RetryCount t)) (the_log q') \<and>
      succeeded (settles (ID t)) (the_log q')"
proof -
  let ?c = "XADD (DLQStream (cfg q)) 0
    [(fieldPayload, Payload t), (fieldRetry, itoa (RetryCount t)), (fieldReason, reason)]"
  obtain r q1 where do: "rs_do (logged R) ?c q = (r, q1)" by fastforce
  have c: "stores_copy (Payload t) (RetryCount t) ?c" "\<not> settles (ID t) ?c"
    by (simp_all add: stores_copy_def settles_def field_defs)
  have l: "the_log q1 = [(?c, r)]" using rs_do_logged(1) [OF do] assms(1) by simp
  note ack = store_then_ack [OF c(1) _ l c(2), of R]
  show "guarded (stores_copy (Payload t) (RetryCount t)) (settles (ID t)) (the_log q')"
    using assms(2-4) do l ack(1) c by (auto simp: routeDLQ_def split: option.splits)
  show "succeeded (stores_copy (Payload t) (RetryCount t)) (the_log q') \<and> succeeded (settles (ID t)) (the_log q')"
    if "res = None"
    using that assms(2-4) do ack(2) by (auto simp: routeDLQ_def split: option.splits)
qed


text \<open>A server that accepts every command, and one that has reached its memory limit: commands that
  need memory are refused, the others are executed.\<close>

definition ok_reply :: "redis_cmd \<Rightarrow> redis_reply" where
  "ok_reply c = (case c of XADD _ _ _ \<Rightarrow> RBulk ''1-0'' | _ \<Rightarrow> RInt 1)"

definition oom_reply :: "redis_cmd \<Rightarrow> redis_reply" where
  "oom_reply c =
     (case c of
        XADD _ _ _ \<Rightarrow> RErr (ErrText ''OOM command not allowed when used memory > 'maxmemory'.'')
      | ZADD _ _ _ \<Rightarrow> RErr (ErrText ''OOM command not allowed when used memory > 'maxmemory'.'')
      | _ \<Rightarrow> RInt 1)"

definition const_server :: "(redis_cmd \<Rightarrow> redis_reply) \<Rightarrow> unit redis" where
  "const_server f =
     \<lparr>rd_do = (\<lambda>c d. (f c, d)), rd_pipe = (\<lambda>cs d. (map f cs, d)), rd_tx = (\<lambda>cs d. (map f cs, d)),
      rd_call = (\<lambda>c d. (f c, d)), rd_fault = (\<lambda>d. (None, d))\<rparr>"

definition sample_cfg :: rs_config where
  "sample_cfg = \<lparr>Stream = ''fetch'', DLQStream = ''dlq'', Group = ''g'', Consumer = ''c'', MaxLen = 1000,
     Policy = \<lparr>MaxRetries = 3, MaxBackoff = 30 * second\<rparr>, DeleteOnAck = True\<rparr>"

definition sample_queue :: "async_retry_config \<Rightarrow> (unit \<times> redis_log) rs_queue" where
  "sample_queue a = \<lparr>rdb = ((), []), cfg = sample_cfg, recoverCursor = ''0-0'', asyncCfg = a, asyncStarted = False\<rparr>"

definition sample_task :: task where
  "sample_task = \<lparr>ID = ''7-0'', Payload = ''42'', RetryCount = 1, Ctx = None\<rparr>"


text \<open>The asynchronous path sends the copy and the acknowledgement in one pipeline, which is not a
  transaction: where the server refuses the copy for lack of memory, it still executes the
  acknowledgement, and the task is gone although the error is reported.\<close>

definition sample_async :: async_retry_config where
  "sample_async = \<lparr>ZSetKey = ''retry'', PollEvery = second, BatchSize = 100, AsyncMaxRetries = 3\<rparr>"

lemma async_retry_can_lose:
  "case rs_Retry (logged (const_server oom_reply)) Some 0 0 None sample_task ''x'' (sample_queue sample_async) of
     (res, q') \<Rightarrow>
       res \<noteq> None \<and> succeeded (settles ''7-0'') (the_log q') \<and>
       \<not> list_ex (\<lambda>(c, r). (case c of ZADD _ _ _ \<Rightarrow> True | XADD _ _ _ \<Rightarrow> True | _ \<Rightarrow> False) \<and> reply_err r = None) (the_log q')"
  by code_simp

lemma retry_null_panics:
  "fst (rs_Retry R Some 0 0 None (sample_task\<lparr>Payload := ''null''\<rparr>) ''x'' (q\<lparr>cfg := sample_cfg, asyncCfg := sample_async\<rparr>)) =
     Some (Panic ''assignment to entry in nil map'')"
proof -
  have "retry_member Some (sample_task\<lparr>Payload := ''null'', RetryCount := 2\<rparr>) = Inl (Panic ''assignment to entry in nil map'')"
    by code_simp
  then show ?thesis
    by (simp add: rs_Retry_def scheduleAsyncRetry_def ShouldDLQ_def sample_cfg_def sample_async_def
        sample_task_def wrap64_def)
qed

section \<open>Round trips\<close>

lemma msg_values_distinct: "distinct (map fst (xValues m)) \<Longrightarrow> msg_values m = xValues m"
  by (simp add: msg_values_def rev_map [symmetric])

lemma otel_fields:
  "distinct (map fst c) \<Longrightarrow> distinct (map fst (map (\<lambda>(k, v). (''_otel_'' @ k, v)) c))"
proof -
  assume "distinct (map fst c)"
  moreover have "map fst (map (\<lambda>(k, v). (''_otel_'' @ k, v)) c) = map ((@) ''_otel_'') (map fst c)" by auto
  ultimately show ?thesis by (simp add: distinct_map comp_inj_on inj_on_def)
qed

lemma push_decode:
  assumes "distinct (map fst (p_inject P ctx))"
  shows "decodeMessage P \<lparr>xID = i, xValues = push_fields P ctx p\<rparr> =
    Inr \<lparr>ID = i, Payload = p, RetryCount = 0, Ctx = p_extract P (p_inject P ctx)\<rparr>"
proof -
  let ?c = "p_inject P ctx"
  have "distinct (map fst (push_fields P ctx p))"
    using otel_fields [OF assms] by (auto simp: push_fields_def field_defs)
  moreover have "map_of (push_fields P ctx p) fieldPayload = Some p" "map_of (push_fields P ctx p) fieldRetry = Some ''0''"
    by (simp_all add: push_fields_def field_defs)
  moreover have "map (\<lambda>(k, v). (trim_prefix k ''_otel_'', v))
      (filter (\<lambda>(k, v). has_prefix k ''_otel_'') (push_fields P ctx p)) = ?c"
  proof -
    have "map (\<lambda>(k, v). (trim_prefix k ''_otel_'', v))
        (filter (\<lambda>(k, v). has_prefix k ''_otel_'') (map (\<lambda>(k, v). (''_otel_'' @ k, v)) c)) = c" for c :: "(string \<times> string) list"
      by (induction c) (auto simp: has_prefix_def trim_prefix_def)
    then show ?thesis by (simp add: push_fields_def field_defs has_prefix_def)
  qed
  moreover have "atoi ''0'' = Some 0" by code_simp
  ultimately show ?thesis by (simp add: decodeMessage_def msg_values_distinct)
qed

lemma two_fields_decode:
  "\<exists>t. decodeMessage P \<lparr>xID = i, xValues = [(fieldPayload, p), (fieldRetry, s)]\<rparr> = Inr t \<and>
     ID t = i \<and> Payload t = p \<and> RetryCount t = (case atoi s of None \<Rightarrow> 0 | Some n \<Rightarrow> n)"
  by (simp add: decodeMessage_def msg_values_def field_defs)

lemma retry_member_unwraps:
  assumes "renum_exact renum" and "is_int64 n" and "\<bar>n\<bar> \<le> 2 ^ 53"
  shows "extractOriginalPayload renum (json_print (JObj (obj_put ''retry_count'' (JNum (itoa n)) [(''p'', JStr p)]))) = p"
    and "extractRetryCount (json_print (JObj (obj_put ''retry_count'' (JNum (itoa n)) [(''p'', JStr p)]))) = itoa n"
proof -
  let ?m = "[(''p'', JStr p), (''retry_count'', JNum (itoa n))]"
  have m: "obj_put ''retry_count'' (JNum (itoa n)) [(''p'', JStr p)] = ?m" by simp
  have "renum (itoa n) = Some (itoa n)" using assms(1,3) by (simp add: renum_exact_def)
  moreover have "wf_json (JObj ?m)" by (simp add: is_number_itoa)
  ultimately show "extractOriginalPayload renum (json_print (JObj (obj_put ''retry_count'' (JNum (itoa n)) [(''p'', JStr p)]))) = p"
    unfolding m by (simp add: extractOriginalPayload_def unmarshal_map_def json_parse_print to_map_def del: json_print.simps)
  note int_field_of_map [of ?m "''retry_count''" n]
  moreover have "\<not> key_eq ''p'' ''retry_count''" by code_simp
  ultimately have "conforms (GStruct [(''retry_count'', GInt64)]) (JObj ?m)" and "get_int (JObj ?m) ''retry_count'' = n"
    using assms(2) by simp_all
  moreover have "json_parse (json_print (JObj ?m)) = Some (JObj ?m)"
    using \<open>wf_json (JObj ?m)\<close> by (rule json_parse_print)
  ultimately show "extractRetryCount (json_print (JObj (obj_put ''retry_count'' (JNum (itoa n)) [(''p'', JStr p)]))) = itoa n"
    unfolding m by (simp add: extractRetryCount_def del: conforms.simps json_print.simps)
qed

lemma retry_object_unwraps:
  assumes "wf_json (JObj m)" and "sorted_wrt str_less (map fst m)" and "is_int64 n"
    and "\<forall>k \<in> fst ` set m. key_eq k ''retry_count'' \<longrightarrow> k = ''retry_count''"
    and "\<nexists>s. map_of m ''p'' = Some (JStr s)"
  shows "extractOriginalPayload renum (json_print (JObj (obj_put ''retry_count'' (JNum (itoa n)) m))) =
      json_print (JObj (obj_put ''retry_count'' (JNum (itoa n)) m))"
    and "extractRetryCount (json_print (JObj (obj_put ''retry_count'' (JNum (itoa n)) m))) = itoa n"
    and "json_parse (json_print (JObj (obj_put ''retry_count'' (JNum (itoa n)) m))) =
      Some (JObj (obj_put ''retry_count'' (JNum (itoa n)) m))"
proof -
  let ?m = "obj_put ''retry_count'' (JNum (itoa n)) m"
  have sub: "set ?m \<subseteq> insert (''retry_count'', JNum (itoa n)) (set m)" by (rule set_obj_put)
  have "wf_json (JObj ?m)" using assms(1) by (rule obj_put_wf) (simp add: is_number_itoa)
  then show p: "json_parse (json_print (JObj ?m)) = Some (JObj ?m)" by (rule json_parse_print)
  have d: "distinct (map fst ?m)" using obj_put_sorted [OF assms(2)] by (rule sorted_distinct)
  have keys: "\<forall>k \<in> fst ` set ?m. key_eq k ''retry_count'' \<longrightarrow> k = ''retry_count''"
    using assms(4) image_mono [OF sub, of fst] unfolding image_insert fst_conv by blast
  have l: "map_of ?m ''retry_count'' = Some (JNum (itoa n))" by (simp add: map_of_obj_put)
  note int_field_of_map [OF d l keys assms(3)]
  then show "extractRetryCount (json_print (JObj ?m)) = itoa n"
    by (simp add: extractRetryCount_def p del: conforms.simps json_print.simps)
  have "map_of (rev ?m) ''p'' = map_of m ''p''"
    using map_of_rev_distinct [OF d] by (simp add: map_of_obj_put)
  then have "map_of m' ''p'' \<noteq> Some (JStr s)" if "unmarshal_map renum (json_print (JObj ?m)) = Some (Some m')" for m' s
    using unmarshal_map_str [OF p that, of "''p''" s] assms(5) by auto
  then show "extractOriginalPayload renum (json_print (JObj ?m)) = json_print (JObj ?m)"
    by (auto simp: extractOriginalPayload_def simp del: json_print.simps split: option.splits json.splits)
qed

text \<open>What the publisher writes is what the consumer gets: the entry a push appends decodes to a
  task with the same payload, no retries and the publisher's trace context; the entry a requeue
  appends decodes to the same payload with the retry count it was given.\<close>

theorem stream_entry_roundtrip:
  assumes "distinct (map fst (p_inject P ctx))" and "is_int64 n"
  shows "decodeMessage P \<lparr>xID = i, xValues = push_fields P ctx p\<rparr> =
      Inr \<lparr>ID = i, Payload = p, RetryCount = 0, Ctx = p_extract P (p_inject P ctx)\<rparr> \<and>
    (\<exists>t. decodeMessage P \<lparr>xID = i, xValues = [(fieldPayload, p), (fieldRetry, itoa n)]\<rparr> = Inr t \<and>
      ID t = i \<and> Payload t = p \<and> RetryCount t = n)"
  using push_decode [OF assms(1)] two_fields_decode [of P i p "itoa n"] atoi_itoa [OF assms(2)] by simp

theorem stream_entry_roundtrip_witness:
  "decodeMessage \<lparr>p_inject = \<lambda>c. case c of Some h \<Rightarrow> h | None \<Rightarrow> [], p_extract = Some\<rparr>
     \<lparr>xID = ''1-0'', xValues = push_fields \<lparr>p_inject = \<lambda>c. case c of Some h \<Rightarrow> h | None \<Rightarrow> [], p_extract = Some\<rparr>
        (Some [(''traceparent'', ''00'')]) ''42''\<rparr> =
   Inr \<lparr>ID = ''1-0'', Payload = ''42'', RetryCount = 0, Ctx = Some [(''traceparent'', ''00'')]\<rparr>"
  using stream_entry_roundtrip [of "\<lparr>p_inject = \<lambda>c. case c of Some h \<Rightarrow> h | None \<Rightarrow> [], p_extract = Some\<rparr>"
      "Some [(''traceparent'', ''00'')]" 5 "''1-0''" "''42''"]
  by (simp add: is_int64_def)



end
