(* ===== verification/RedisPool.thy ===== *)
theory RedisPool
  imports ProxyPool Redis Json
begin

text \<open>
  The proxy pool in Redis (\<^verbatim>\<open>internal/proxy/redisproxy\<close>): the five Lua scripts, as functions
  that issue the same \<^verbatim>\<open>redis.call\<close> commands in the same order, and the Go methods around
  them. A script runs on the server as one atomic step. The lease exclusion, the rate limit and the
  eviction are proved for every server whose commands behave as documented.
\<close>

section \<open>Keys and configuration\<close>

record rpool_cfg =
  rp_KeyPrefix :: string
  rp_RateLimit :: rate_limit
  rp_Ranking :: ranking
  rp_MaxFailures :: int

definition key_set :: "string \<Rightarrow> string" where "key_set p = p @ '':set''"
definition key_leased :: "string \<Rightarrow> string" where "key_leased p = p @ '':leased''"
definition key_lease :: "string \<Rightarrow> string \<Rightarrow> string" where "key_lease p t = p @ '':lease:'' @ t"
definition key_stats :: "string \<Rightarrow> string \<Rightarrow> string" where "key_stats p u = p @ '':stats:'' @ u"
definition key_limiter :: "string \<Rightarrow> string" where "key_limiter p = p @ '':limiter''"
definition key_cooldown :: "string \<Rightarrow> string" where "key_cooldown p = p @ '':cooldown''"
definition key_cooldownEntry :: "string \<Rightarrow> string \<Rightarrow> string" where "key_cooldownEntry p u = p @ '':cooldown:'' @ u"

lemmas key_defs = key_set_def key_leased_def key_lease_def key_stats_def key_limiter_def key_cooldown_def key_cooldownEntry_def

section \<open>The scripts\<close>

text \<open>\<^verbatim>\<open>tonumber\<close> of a decimal integer.\<close>

definition lua_int :: "string \<Rightarrow> int" where
  "lua_int s = (if s \<noteq> [] \<and> hd s = CHR ''-'' then - digits_num (tl s) else digits_num s)"

definition time_secs :: "redis_reply \<Rightarrow> int" where
  "time_secs r = (case r of RStrs (s # _) \<Rightarrow> lua_int s | _ \<Rightarrow> 0)"

lemma lua_int_itoa: "lua_int (itoa i) = i"
proof (cases "i < 0")
  case True
  then show ?thesis by (simp add: lua_int_def itoa_def digits_num_def digits_val_nat_str)
next
  case False
  obtain c cs where "nat_str (nat i) = c # cs"
    using nat_str_nonempty by (cases "nat_str (nat i)") auto
  moreover from this have "c \<noteq> CHR ''-''" using nat_str_hd by blast
  ultimately show ?thesis using False digits_val_nat_str [of "nat i"] by (simp add: lua_int_def itoa_def digits_num_def)
qed

definition reply_strs :: "redis_reply \<Rightarrow> string list" where
  "reply_strs r = (case r of RStrs xs \<Rightarrow> xs | _ \<Rightarrow> [])"

definition reply_num :: "redis_reply \<Rightarrow> int" where
  "reply_num r = (case r of RInt n \<Rightarrow> n | _ \<Rightarrow> 0)"

text \<open>\<^verbatim>\<open>acquire.lua\<close>. \<open>rnd n\<close> is the value of \<^verbatim>\<open>math.random(1, n)\<close>.\<close>

fun unleased :: "'d redis \<Rightarrow> string \<Rightarrow> string list \<Rightarrow> string list \<Rightarrow> (string list \<Rightarrow> 'd \<Rightarrow> redis_reply \<times> 'd) \<Rightarrow> 'd \<Rightarrow> redis_reply \<times> 'd" where
  "unleased R leasedKey [] acc k d = k acc d"
| "unleased R leasedKey (c # cs) acc k d =
     call R (ZSCORE leasedKey c)
       (\<lambda>r. unleased R leasedKey cs (if r = RNil then acc @ [c] else acc) k) d"

definition luaAcquire :: "'d redis \<Rightarrow> (nat \<Rightarrow> nat) \<Rightarrow> string \<Rightarrow> string \<Rightarrow> string \<Rightarrow> int \<Rightarrow> string \<Rightarrow> int \<Rightarrow> 'd \<Rightarrow> redis_reply \<times> 'd" where
  "luaAcquire R rnd availableKey leasedKey leaseKey ttl tok topN =
     call R TIME (\<lambda>t. let now = time_secs t in
     call R (ZREMRANGEBYSCORE leasedKey 0 (of_int (now - 1))) (\<lambda>_.
     call R (ZREVRANGE availableKey 0 (topN - 1)) (\<lambda>cs.
       if reply_strs cs = [] then Pair RNil
       else unleased R leasedKey (reply_strs cs) [] (\<lambda>available.
         if available = [] then Pair RNil
         else
           let pick = available ! (rnd (length available) - 1);
               expiresAt = now + ttl
           in call R (ZADD leasedKey False [(pick, of_int expiresAt)]) (\<lambda>_.
              call R (SET leaseKey pick (ttl * second) False) (\<lambda>_. Pair (RBulk pick)))))))"

text \<open>\<^verbatim>\<open>release.lua\<close>\<close>

definition luaRelease :: "'d redis \<Rightarrow> string \<Rightarrow> string \<Rightarrow> 'd \<Rightarrow> redis_reply \<times> 'd" where
  "luaRelease R leasedKey leaseKey =
     call R (GET leaseKey) (\<lambda>r.
       case r of
         RBulk url \<Rightarrow> call R (ZREM leasedKey url) (\<lambda>_. call R (DEL [leaseKey]) (\<lambda>_. Pair (RInt 1)))
       | _ \<Rightarrow> Pair (RInt 0))"

text \<open>\<^verbatim>\<open>rate_limit.lua\<close>\<close>

definition luaRateLimit :: "'d redis \<Rightarrow> string \<Rightarrow> int \<Rightarrow> int \<Rightarrow> 'd \<Rightarrow> redis_reply \<times> 'd" where
  "luaRateLimit R key burst window0 =
     (let windowMs = (if window0 < 1 then 1000 else window0)
      in call R (INCR key) (\<lambda>r.
           let n = reply_num r; verdict = Pair (RInt (if burst < n then 0 else 1))
           in if n = 1 then call R (PEXPIRE key windowMs) (\<lambda>_. verdict) else verdict))"

text \<open>\<^verbatim>\<open>record_success.lua\<close> and \<^verbatim>\<open>record_failure.lua\<close>\<close>

definition luaRecordSuccess :: "'d redis \<Rightarrow> string \<Rightarrow> string \<Rightarrow> string \<Rightarrow> rat \<Rightarrow> 'd \<Rightarrow> redis_reply \<times> 'd" where
  "luaRecordSuccess R setKey statsKey url boost =
     call R (HINCRBY statsKey ''success'' 1) (\<lambda>_.
     call R (HSET statsKey ''consecutive_fail'' ''0'') (\<lambda>_.
     call R (ZINCRBY setKey boost url) (\<lambda>_. Pair (RInt 1))))"

definition luaRecordFailure :: "'d redis \<Rightarrow> string \<Rightarrow> string \<Rightarrow> string \<Rightarrow> string \<Rightarrow> rat \<Rightarrow> int \<Rightarrow> string \<Rightarrow> int \<Rightarrow> 'd \<Rightarrow> redis_reply \<times> 'd" where
  "luaRecordFailure R setKey statsKey cooldownKey url penalty maxFails lastErr coolSecs =
     call R (HINCRBY statsKey ''fail'' 1) (\<lambda>_.
     call R (HINCRBY statsKey ''consecutive_fail'' 1) (\<lambda>s.
     call R (HSET statsKey ''last_error'' lastErr) (\<lambda>_.
       if 0 < maxFails \<and> maxFails \<le> reply_num s then
         call R (ZREM setKey url) (\<lambda>_.
         call R TIME (\<lambda>t.
         call R (ZADD cooldownKey False [(url, of_int (time_secs t + coolSecs))]) (\<lambda>_. Pair (RInt 1))))
       else call R (ZINCRBY setKey (- penalty) url) (\<lambda>_. Pair (RInt 0)))))"

section \<open>The pool\<close>

text \<open>\<open>env\<close> is \<^verbatim>\<open>os.Getenv\<close>; the constructor also fixes the interval of the cooldown recovery.\<close>

definition rpool_New :: "(string \<Rightarrow> string) \<Rightarrow> bool \<Rightarrow> rpool_cfg \<Rightarrow> go_error + rpool_cfg \<times> duration" where
  "rpool_New env nil_client c =
     (if nil_client then Inl (ErrText ''redisproxy: nil redis client'')
      else if rp_KeyPrefix c = [] then Inl (ErrText ''redisproxy: KeyPrefix is required'')
      else
        let v = env ''PROXY_COOLDOWN_CHECK_INTERVAL'';
            interval = (case parse_duration v of
                          Some d \<Rightarrow> if v \<noteq> [] \<and> 0 < d then d else 5 * minute
                        | None \<Rightarrow> 5 * minute)
        in Inr (c\<lparr>rp_Ranking := WithDefaults (rp_Ranking c)\<rparr>, interval))"

text \<open>\<open>rand\<close> is the result of \<^verbatim>\<open>rand.Read\<close> for 16 bytes.\<close>

definition hex_encode :: "bytes \<Rightarrow> string" where
  "hex_encode b = concat (map (\<lambda>c. [hex_digit (of_char c div 16), hex_digit (of_char c mod 16)]) b)"

definition newToken :: "go_error + bytes \<Rightarrow> go_error + string" where
  "newToken rand = (case rand of Inl e \<Rightarrow> Inl (Wrapped ''token rand: '' e) | Inr b \<Rightarrow> Inr (hex_encode b))"

definition window_ms :: "rate_limit \<Rightarrow> int" where
  "window_ms rl =
     (let window = (if Window rl \<le> 0 then second else Window rl);
          w = window div millisecond
      in if w < 1 then 1000 else w)"

definition check_rate :: "'d redis \<Rightarrow> rpool_cfg \<Rightarrow> 'd \<Rightarrow> go_error option \<times> 'd" where
  "check_rate R c d =
     (if Disabled (rp_RateLimit c) then (None, d)
      else
        let (r, d1) = run_script R (luaRateLimit R (key_limiter (rp_KeyPrefix c)) (Burst (rp_RateLimit c)) (window_ms (rp_RateLimit c))) d
        in case int_reply r of
             Inl e \<Rightarrow> (Some (Wrapped ''rate-limit script: '' e), d1)
           | Inr ok \<Rightarrow> (if ok = 0 then Some ErrRateLimited else None, d1))"

definition ttl_secs :: "duration \<Rightarrow> int" where
  "ttl_secs hold = (let h = (if hold \<le> 0 then 30 * second else hold); t = h div second in if t < 1 then 1 else t)"

definition rpool_Acquire :: "'d redis \<Rightarrow> (nat \<Rightarrow> nat) \<Rightarrow> go_error + bytes \<Rightarrow> rpool_cfg \<Rightarrow> duration \<Rightarrow> 'd \<Rightarrow> (go_error + lease) \<times> 'd" where
  "rpool_Acquire R rnd rand c hold d =
     (case check_rate R c d of
        (Some e, d1) \<Rightarrow> (Inl e, d1)
      | (None, d1) \<Rightarrow>
          case newToken rand of
            Inl e \<Rightarrow> (Inl e, d1)
          | Inr tok \<Rightarrow>
              let p = rp_KeyPrefix c;
                  (r, d2) = run_script R (luaAcquire R rnd (key_set p) (key_leased p) (key_lease p tok) (ttl_secs hold) tok 20) d1
              in case reply_err r of
                   Some e \<Rightarrow> if errors_is e RedisNil then (Inl ErrNoProxy, d2) else (Inl (Wrapped ''acquire script: '' e), d2)
                 | None \<Rightarrow>
                     (case r of
                        RBulk url \<Rightarrow> if url = [] then (Inl ErrNoProxy, d2) else (Inr (NewLease url tok), d2)
                      | _ \<Rightarrow> (Inl ErrNoProxy, d2)))"

definition rpool_Size :: "'d redis \<Rightarrow> rpool_cfg \<Rightarrow> 'd \<Rightarrow> (go_error + int) \<times> 'd" where
  "rpool_Size R c d =
     (let (r, d1) = rd_do R (ZCARD (key_set (rp_KeyPrefix c))) d
      in (case int_reply r of Inl e \<Rightarrow> Inl (Wrapped ''zcard: '' e) | Inr n \<Rightarrow> Inr n, d1))"

definition rpool_Replace :: "'d redis \<Rightarrow> rpool_cfg \<Rightarrow> string list \<Rightarrow> 'd \<Rightarrow> go_error option \<times> 'd" where
  "rpool_Replace R c healthy d =
     (let p = rp_KeyPrefix c; (r, d1) = rd_do R (ZRANGE (key_set p) 0 (- 1)) d
      in case strs_reply r of
           Inl e \<Rightarrow> (Some (Wrapped ''get current proxies: '' e), d1)
         | Inr current \<Rightarrow>
             let toDelete = map (key_stats p) (filter (\<lambda>u. u \<notin> set healthy) current);
                 (rs, d2) = rd_tx R
                   (DEL [key_set p] #
                    (if healthy \<noteq> [] then [ZADD (key_set p) False (map (\<lambda>u. (u, InitialWeight (rp_Ranking c))) healthy)] else []) @
                    (if toDelete \<noteq> [] then [DEL toDelete] else [])) d1
             in (map_option (Wrapped ''replace pipeline: '') (pipe_err rs), d2))"

definition rpool_Add :: "'d redis \<Rightarrow> rpool_cfg \<Rightarrow> string list \<Rightarrow> 'd \<Rightarrow> go_error option \<times> 'd" where
  "rpool_Add R c healthy d =
     (if healthy = [] then (None, d)
      else
        let (r, d1) = rd_do R (ZADD (key_set (rp_KeyPrefix c)) True (map (\<lambda>u. (u, InitialWeight (rp_Ranking c))) healthy)) d
        in (map_option (Wrapped ''zadd nx: '') (reply_err r), d1))"

text \<open>One entry of the cooldown set whose time has come.\<close>

definition recover_one :: "'d redis \<Rightarrow> rpool_cfg \<Rightarrow> string \<Rightarrow> 'd \<Rightarrow> 'd" where
  "recover_one R c url d =
     (let p = rp_KeyPrefix c; (r, d1) = rd_do R (EXISTS (key_stats p url)) d
      in case int_reply r of
           Inl _ \<Rightarrow> d1
         | Inr n \<Rightarrow>
             if 0 < n then
               snd (rd_pipe R [ZADD (key_set p) False [(url, InitialWeight (rp_Ranking c))],
                               HSET (key_stats p url) ''consecutive_fail'' ''0'',
                               ZREM (key_cooldown p) url] d1)
             else snd (rd_do R (ZREM (key_cooldown p) url) d1))"

definition recoverFromCooldown :: "'d redis \<Rightarrow> rpool_cfg \<Rightarrow> int \<Rightarrow> 'd \<Rightarrow> 'd" where
  "recoverFromCooldown R c now d =
     (let (r, d1) = rd_do R (ZRANGEBYSCORE (key_cooldown (rp_KeyPrefix c)) (of_int now) 50) d
      in case scored_reply r of
           Inl _ \<Rightarrow> d1
         | Inr res \<Rightarrow> fold (\<lambda>(url, _). recover_one R c url) res d1)"

datatype cooldown_event = CooldownTick int | CooldownDone

fun runCooldownRecovery :: "'d redis \<Rightarrow> rpool_cfg \<Rightarrow> cooldown_event list \<Rightarrow> 'd \<Rightarrow> 'd" where
  "runCooldownRecovery R c [] d = d"
| "runCooldownRecovery R c (CooldownDone # es) d = d"
| "runCooldownRecovery R c (CooldownTick now # es) d = runCooldownRecovery R c es (recoverFromCooldown R c now d)"

text \<open>The closures of a lease. The nil reply is not an error of theirs.\<close>

definition script_err :: "redis_reply \<Rightarrow> go_error option" where
  "script_err r = (case int_reply r of Inl e \<Rightarrow> if errors_is e RedisNil then None else Some e | Inr _ \<Rightarrow> None)"

definition releaseLease :: "'d redis \<Rightarrow> rpool_cfg \<Rightarrow> string \<Rightarrow> 'd \<Rightarrow> go_error option \<times> 'd" where
  "releaseLease R c tok d =
     (let p = rp_KeyPrefix c; (r, d1) = run_script R (luaRelease R (key_leased p) (key_lease p tok)) d
      in (map_option (Wrapped ''release script: '') (script_err r), d1))"

definition recordSuccess :: "'d redis \<Rightarrow> rpool_cfg \<Rightarrow> string \<Rightarrow> 'd \<Rightarrow> go_error option \<times> 'd" where
  "recordSuccess R c url d =
     (let p = rp_KeyPrefix c; (r, d1) = run_script R (luaRecordSuccess R (key_set p) (key_stats p url) url (SuccessBoost (rp_Ranking c))) d
      in (script_err r, d1))"

definition cool_secs :: "(string \<Rightarrow> string) \<Rightarrow> int" where
  "cool_secs env =
     (let v = env ''PROXY_COOLDOWN_SECONDS''
      in if v \<noteq> [] then (case atoi v of Some n \<Rightarrow> if 0 < n then n else 300 | None \<Rightarrow> 300) else 300)"

definition recordFailure :: "'d redis \<Rightarrow> (string \<Rightarrow> string) \<Rightarrow> rpool_cfg \<Rightarrow> string \<Rightarrow> go_error option \<Rightarrow> 'd \<Rightarrow> go_error option \<times> 'd" where
  "recordFailure R env c url cause d =
     (let p = rp_KeyPrefix c;
          msg = (case cause of None \<Rightarrow> ''unspecified'' | Some e \<Rightarrow> err_string e);
          (r, d1) = run_script R (luaRecordFailure R (key_set p) (key_stats p url) (key_cooldown p) url
                      (FailurePenalty (rp_Ranking c)) (rp_MaxFailures c) msg (cool_secs env)) d
      in (script_err r, d1))"

text \<open>The pool as a value of the port; \<open>rands\<close> and \<open>rnd\<close> are read from the world.\<close>

definition rpool_if :: "'d redis \<Rightarrow> (string \<Rightarrow> string) \<Rightarrow> ('d \<Rightarrow> nat \<Rightarrow> nat) \<Rightarrow> ('d \<Rightarrow> go_error + bytes) \<Rightarrow> rpool_cfg \<Rightarrow> 'd pool_if" where
  "rpool_if R env rnd rands c =
     \<lparr>pl_Acquire = (\<lambda>h d. rpool_Acquire R (rnd d) (rands d) c h d), pl_Size = rpool_Size R c,
      pl_Replace = rpool_Replace R c, pl_Add = rpool_Add R c,
      pl_release = releaseLease R c, pl_success = recordSuccess R c, pl_failure = recordFailure R env c\<rparr>"

section \<open>The documented behaviour of the commands\<close>

text \<open>What the scripts can observe of a database: the clock in milliseconds, the sorted sets, the
  strings with their expiry times, and the integer fields of hashes.\<close>

record rview =
  rv_clock :: int
  rv_zs :: "string \<Rightarrow> string \<Rightarrow> rat option"
  rv_str :: "string \<Rightarrow> (string \<times> int option) option"
  rv_hash :: "string \<Rightarrow> string \<Rightarrow> int"

fun unexpired :: "int \<Rightarrow> (string \<times> int option) option \<Rightarrow> string option" where
  "unexpired now None = None"
| "unexpired now (Some (s, None)) = Some s"
| "unexpired now (Some (s, Some t)) = (if now \<le> t then Some s else None)"

definition live_str :: "rview \<Rightarrow> string \<Rightarrow> string option" where
  "live_str v k = unexpired (rv_clock v) (rv_str v k)"

lemma unexpired_Some:
  "unexpired now c = Some u \<longleftrightarrow> c = Some (u, None) \<or> (\<exists>t. c = Some (u, Some t) \<and> now \<le> t)"
  by (cases "(now, c)" rule: unexpired.cases) auto

definition drop_range :: "rat \<Rightarrow> rat \<Rightarrow> (string \<Rightarrow> rat option) \<Rightarrow> string \<Rightarrow> rat option" where
  "drop_range a b z m = (case z m of Some s \<Rightarrow> if a \<le> s \<and> s \<le> b then None else Some s | None \<Rightarrow> None)"

definition int_of :: "string \<Rightarrow> int" where
  "int_of s = (case atoi s of Some n \<Rightarrow> n | None \<Rightarrow> 0)"

text \<open>\<open>cmd_law v c r v'\<close>: the reply and the effect of a command, as the command reference of Redis
  has them. The clock stands still while a script runs.\<close>

fun cmd_law :: "rview \<Rightarrow> redis_cmd \<Rightarrow> redis_reply \<Rightarrow> rview \<Rightarrow> bool" where
  "cmd_law v TIME r v' =
     (v' = v \<and> (\<exists>u. r = RStrs [itoa (rv_clock v div 1000), u]))"
| "cmd_law v (ZREMRANGEBYSCORE k a b) r v' =
     ((\<exists>n. r = RInt n) \<and> v' = v\<lparr>rv_zs := (rv_zs v)(k := drop_range a b (rv_zs v k))\<rparr>)"
| "cmd_law v (ZREVRANGE k a b) r v' = (v' = v \<and> (\<exists>xs. r = RStrs xs \<and> set xs \<subseteq> dom (rv_zs v k)))"
| "cmd_law v (ZSCORE k m) r v' =
     (v' = v \<and> (case rv_zs v k m of None \<Rightarrow> r = RNil | Some s \<Rightarrow> (\<exists>t. r = RBulk t)))"
| "cmd_law v (ZADD k nx ms) r v' =
     ((\<exists>n. r = RInt n) \<and> (\<forall>m s. \<not> nx \<and> ms = [(m, s)] \<longrightarrow> v' = v\<lparr>rv_zs := (rv_zs v)(k := (rv_zs v k)(m \<mapsto> s))\<rparr>))"
| "cmd_law v (ZINCRBY k x m) r v' =
     ((\<exists>t. r = RBulk t) \<and>
      v' = v\<lparr>rv_zs := (rv_zs v)(k := (rv_zs v k)(m \<mapsto> (case rv_zs v k m of None \<Rightarrow> x | Some s \<Rightarrow> s + x)))\<rparr>)"
| "cmd_law v (ZREM k m) r v' = ((\<exists>n. r = RInt n) \<and> v' = v\<lparr>rv_zs := (rv_zs v)(k := (rv_zs v k)(m := None))\<rparr>)"
| "cmd_law v (GET k) r v' = (v' = v \<and> r = (case live_str v k of Some s \<Rightarrow> RBulk s | None \<Rightarrow> RNil))"
| "cmd_law v (SET k s t nx) r v' =
     (r = ROk \<and> (0 < t \<and> \<not> nx \<longrightarrow> v' = v\<lparr>rv_str := (rv_str v)(k \<mapsto> (s, Some (rv_clock v + t div millisecond)))\<rparr>))"
| "cmd_law v (DEL ks) r v' =
     ((\<exists>n. r = RInt n) \<and>
      v' = v\<lparr>rv_str := (\<lambda>k. if k \<in> set ks then None else rv_str v k),
             rv_zs := (\<lambda>k. if k \<in> set ks then Map.empty else rv_zs v k),
             rv_hash := (\<lambda>k. if k \<in> set ks then (\<lambda>f. 0) else rv_hash v k)\<rparr>)"
| "cmd_law v (INCR k) r v' =
     (case live_str v k of
        None \<Rightarrow> r = RInt 1 \<and> v' = v\<lparr>rv_str := (rv_str v)(k \<mapsto> (itoa 1, None))\<rparr>
      | Some s \<Rightarrow>
          is_int64 (int_of s + 1) \<and> r = RInt (int_of s + 1) \<and>
          v' = v\<lparr>rv_str := (rv_str v)(k \<mapsto> (itoa (int_of s + 1), snd (the (rv_str v k))))\<rparr>)"
| "cmd_law v (PEXPIRE k t) r v' =
     ((\<exists>n. r = RInt n) \<and>
      v' = (case live_str v k of None \<Rightarrow> v | Some s \<Rightarrow> v\<lparr>rv_str := (rv_str v)(k \<mapsto> (s, Some (rv_clock v + t)))\<rparr>))"
| "cmd_law v (HINCRBY k f n) r v' =
     (is_int64 (rv_hash v k f + n) \<and> r = RInt (rv_hash v k f + n) \<and>
      v' = v\<lparr>rv_hash := (rv_hash v)(k := (rv_hash v k)(f := rv_hash v k f + n))\<rparr>)"
| "cmd_law v (HSET k f s) r v' =
     ((\<exists>n. r = RInt n) \<and> v' = v\<lparr>rv_hash := (rv_hash v)(k := (rv_hash v k)(f := int_of s))\<rparr>)"
| "cmd_law v c r v' = True"

text \<open>Commands that need memory may be refused, and an increment that would overflow is; then nothing
  changes.\<close>

definition denyoom :: "redis_cmd \<Rightarrow> bool" where
  "denyoom c =
     (case c of ZADD _ _ _ \<Rightarrow> True | ZINCRBY _ _ _ \<Rightarrow> True | SET _ _ _ _ \<Rightarrow> True | INCR _ \<Rightarrow> True
      | HINCRBY _ _ _ \<Rightarrow> True | HSET _ _ _ \<Rightarrow> True | _ \<Rightarrow> False)"

definition script_laws :: "'d redis \<Rightarrow> ('d \<Rightarrow> rview) \<Rightarrow> bool" where
  "script_laws R V \<longleftrightarrow>
     (\<forall>c d r d'. rd_call R c d = (r, d') \<longrightarrow>
        cmd_law (V d) c r (V d') \<or> denyoom c \<and> V d' = V d \<and> (\<exists>e. r = RErr e))"

definition scripted :: "redis_cmd \<Rightarrow> bool" where
  "scripted c =
     (case c of TIME \<Rightarrow> True | ZREMRANGEBYSCORE _ _ _ \<Rightarrow> True | ZREVRANGE _ _ _ \<Rightarrow> True | ZSCORE _ _ \<Rightarrow> True
      | ZADD _ _ _ \<Rightarrow> True | ZINCRBY _ _ _ \<Rightarrow> True | ZREM _ _ \<Rightarrow> True | GET _ \<Rightarrow> True | SET _ _ _ _ \<Rightarrow> True
      | DEL _ \<Rightarrow> True | INCR _ \<Rightarrow> True | PEXPIRE _ _ \<Rightarrow> True | HINCRBY _ _ _ \<Rightarrow> True | HSET _ _ _ \<Rightarrow> True | _ \<Rightarrow> False)"

lemma scripted_reply: "scripted c \<Longrightarrow> cmd_law v c (RErr e) v' \<Longrightarrow> False"
  by (cases c) (auto simp: scripted_def split: option.splits)

text \<open>What a call in a script does: the documented effect and the rest of the script, or a refusal
  that ends it.\<close>

lemma call_cases:
  assumes "script_laws R V" and "scripted c" and "call R c k d = (r, d')"
  obtains (ok) x d1 where "cmd_law (V d) c x (V d1)" and "k x d1 = (r, d')"
  | (refused) e where "denyoom c" and "r = RErr e" and "V d' = V d"
proof -
  obtain x d1 where c: "rd_call R c d = (x, d1)" by fastforce
  then consider "cmd_law (V d) c x (V d1)" | "denyoom c" "V d1 = V d" "\<exists>e. x = RErr e"
    using assms(1) [unfolded script_laws_def, rule_format, OF c] by blast
  then show thesis
  proof cases
    case 1
    then have "\<not> (\<exists>e. x = RErr e)" using scripted_reply [OF assms(2)] by blast
    then have "k x d1 = (r, d')" using assms(3) c by (auto simp: call_def split: redis_reply.splits)
    with 1 show thesis by (rule ok)
  next
    case 2
    then show thesis using assms(3) c refused by (auto simp: call_def)
  qed
qed

section \<open>Exclusive leases\<close>

text \<open>A lease is alive while its key is: \<open>live_str v (key_lease p t) = Some u\<close> says that token \<open>t\<close>
  holds proxy \<open>u\<close>. The entry of the leased set outlives the key of the lease.\<close>

definition covered :: "string \<Rightarrow> rview \<Rightarrow> bool" where
  "covered p v \<longleftrightarrow>
     (\<forall>t u. live_str v (key_lease p t) = Some u \<longrightarrow>
        (\<exists>s x. rv_zs v (key_leased p) u = Some s \<and> rv_str v (key_lease p t) = Some (u, Some x) \<and>
           of_int x < (s + 1) * 1000))"

definition one_holder :: "string \<Rightarrow> rview \<Rightarrow> bool" where
  "one_holder p v \<longleftrightarrow>
     (\<forall>t t' u. live_str v (key_lease p t) = Some u \<and> live_str v (key_lease p t') = Some u \<longrightarrow> t = t')"

definition lease_inv :: "string \<Rightarrow> rview \<Rightarrow> bool" where
  "lease_inv p v \<longleftrightarrow> covered p v \<and> one_holder p v"

text \<open>Everything else that happens on the server: time passes, keys expire, other commands touch
  other keys.\<close>

definition unrelated :: "string \<Rightarrow> rview \<Rightarrow> rview \<Rightarrow> bool" where
  "unrelated p v v' \<longleftrightarrow>
     rv_clock v \<le> rv_clock v' \<and> rv_zs v' (key_leased p) = rv_zs v (key_leased p) \<and>
     (\<forall>t. rv_str v' (key_lease p t) = rv_str v (key_lease p t))"

lemma key_lease_inject [simp]: "key_lease p t = key_lease p t' \<longleftrightarrow> t = t'"
  by (simp add: key_lease_def)

lemma key_distinct [simp]:
  "key_leased p \<noteq> key_lease p t" "key_lease p t \<noteq> key_leased p" "key_set p \<noteq> key_leased p" "key_leased p \<noteq> key_set p"
  "key_cooldown p \<noteq> key_leased p" "key_leased p \<noteq> key_cooldown p" "key_limiter p \<noteq> key_lease p t" "key_lease p t \<noteq> key_limiter p"
  "key_set p \<noteq> key_cooldown p" "key_cooldown p \<noteq> key_set p"
  by (simp_all add: key_defs)

lemma live_str_mono:
  assumes "live_str v' k = Some u" and "rv_clock v \<le> rv_clock v'" and "rv_str v' k = rv_str v k"
  shows "live_str v k = Some u"
  using assms by (auto simp: live_str_def unexpired_Some)

lemma lease_inv_unrelated:
  assumes "unrelated p v v'" and "lease_inv p v"
  shows "lease_inv p v'"
proof -
  have live: "live_str v' (key_lease p t) = Some u \<Longrightarrow> live_str v (key_lease p t) = Some u" for t u
    using assms(1) live_str_mono [of v' "key_lease p t" u v] by (simp add: unrelated_def)
  have "covered p v" and one: "one_holder p v" using assms(2) by (simp_all add: lease_inv_def)
  then have "covered p v'" using live assms(1) by (fastforce simp: covered_def unrelated_def)
  moreover have "one_holder p v'" using live one unfolding one_holder_def by blast
  ultimately show ?thesis by (simp add: lease_inv_def)
qed

lemma live_str_frame [simp]:
  "live_str (v\<lparr>rv_zs := z\<rparr>) k = live_str v k" "live_str (v\<lparr>rv_hash := h\<rparr>) k = live_str v k"
  by (simp_all add: live_str_def)

text \<open>Cleaning up expired entries of the leased set never removes one whose lease is alive.\<close>

lemma lease_inv_cleanup:
  assumes "lease_inv p v" and "now = rv_clock v div 1000"
  shows "lease_inv p (v\<lparr>rv_zs := (rv_zs v)(key_leased p := drop_range 0 (of_int (now - 1)) (rv_zs v (key_leased p)))\<rparr>)"
    (is "lease_inv p ?v")
proof -
  have cov: "covered p v" and one: "one_holder p v" using assms(1) by (simp_all add: lease_inv_def)
  have "\<exists>s x. rv_zs ?v (key_leased p) u = Some s \<and> rv_str ?v (key_lease p t) = Some (u, Some x) \<and> of_int x < (s + 1) * 1000"
    if live: "live_str ?v (key_lease p t) = Some u" for t u
  proof -
    from live have "live_str v (key_lease p t) = Some u" by simp
    moreover from this obtain s x where sx: "rv_zs v (key_leased p) u = Some s"
      "rv_str v (key_lease p t) = Some (u, Some x)" "of_int x < (s + 1) * 1000"
      using cov unfolding covered_def by blast
    ultimately have "rv_clock v \<le> x" by (simp add: live_str_def split: if_splits)
    then have "now * 1000 \<le> x" using assms(2) by linarith
    then have "of_int now * 1000 \<le> (of_int x :: rat)" by (metis of_int_le_iff of_int_mult of_int_numeral)
    then have "of_int now * 1000 < (s + 1) * 1000" using sx(3) by (rule le_less_trans)
    then have "of_int now < s + 1" by simp
    then have "\<not> s \<le> of_int (now - 1)" by simp
    with sx show ?thesis by (auto simp: drop_range_def)
  qed
  then have "covered p ?v" unfolding covered_def by blast
  moreover have "one_holder p ?v" using one by (simp add: one_holder_def)
  ultimately show ?thesis by (simp add: lease_inv_def)
qed

lemma lease_inv_zadd:
  assumes "lease_inv p v" and "rv_zs v (key_leased p) u = None"
  shows "lease_inv p (v\<lparr>rv_zs := (rv_zs v)(key_leased p := (rv_zs v (key_leased p))(u \<mapsto> s))\<rparr>)"
    and "\<And>t. live_str v (key_lease p t) \<noteq> Some u"
proof -
  have cov: "covered p v" and one: "one_holder p v" using assms(1) by (simp_all add: lease_inv_def)
  show no: "live_str v (key_lease p t) \<noteq> Some u" for t
    using cov assms(2) unfolding covered_def by fastforce
  show "lease_inv p (v\<lparr>rv_zs := (rv_zs v)(key_leased p := (rv_zs v (key_leased p))(u \<mapsto> s))\<rparr>)"
    using cov one no unfolding lease_inv_def covered_def one_holder_def by auto
qed

text \<open>The key of the new lease.\<close>

lemma lease_inv_set:
  assumes "lease_inv p v" and "rv_zs v (key_leased p) u = Some s" and "\<And>t. live_str v (key_lease p t) \<noteq> Some u"
    and "of_int x < (s + 1) * 1000"
  shows "lease_inv p (v\<lparr>rv_str := (rv_str v)(key_lease p tok \<mapsto> (u, Some x))\<rparr>)" (is "lease_inv p ?v")
proof -
  have cov: "covered p v" and one: "one_holder p v" using assms(1) by (simp_all add: lease_inv_def)
  have live: "live_str ?v (key_lease p t) = (if t = tok then (if rv_clock v \<le> x then Some u else None) else live_str v (key_lease p t))" for t
    by (simp add: live_str_def)
  have "\<exists>s x. rv_zs ?v (key_leased p) u' = Some s \<and> rv_str ?v (key_lease p t) = Some (u', Some x) \<and> of_int x < (s + 1) * 1000"
    if l: "live_str ?v (key_lease p t) = Some u'" for t u'
  proof (cases "t = tok")
    case True
    then show ?thesis using l assms(2,4) live [of t] by (auto split: if_splits)
  next
    case False
    then have "live_str v (key_lease p t) = Some u'" using l live [of t] by simp
    then show ?thesis using cov False unfolding covered_def by auto
  qed
  then have "covered p ?v" unfolding covered_def by blast
  moreover have "one_holder p ?v"
    unfolding one_holder_def live using assms(3) one unfolding one_holder_def by (metis option.distinct(1) option.inject)
  ultimately show ?thesis by (simp add: lease_inv_def)
qed

lemma unleased_cases:
  assumes "script_laws R V" and "unleased R lk cs acc k d = (r, d')"
  shows "\<exists>acc' d1. k acc' d1 = (r, d') \<and> V d1 = V d \<and> (\<forall>u \<in> set acc'. u \<in> set acc \<or> u \<in> set cs \<and> rv_zs (V d) lk u = None)"
  using assms(2)
proof (induction cs arbitrary: acc d)
  case Nil
  then show ?case by auto
next
  case (Cons c cs)
  have c: "call R (ZSCORE lk c) (\<lambda>r. unleased R lk cs (if r = RNil then acc @ [c] else acc) k) d = (r, d')"
    using Cons.prems by simp
  have "scripted (ZSCORE lk c)" by (simp add: scripted_def)
  from assms(1) this c show ?case
  proof (rule call_cases)
    fix x d1
    assume law: "cmd_law (V d) (ZSCORE lk c) x (V d1)" and
      rest: "unleased R lk cs (if x = RNil then acc @ [c] else acc) k d1 = (r, d')"
    have v: "V d1 = V d" and nil: "x = RNil \<longrightarrow> rv_zs (V d) lk c = None"
      using law by (auto split: option.splits)
    from Cons.IH [OF rest] v nil show ?thesis by (fastforce split: if_splits)
  next
    fix e
    assume "denyoom (ZSCORE lk c)"
    then show ?thesis by (simp add: denyoom_def)
  qed
qed

lemma time_secs_law: "cmd_law v TIME t v' \<Longrightarrow> v' = v \<and> time_secs t = rv_clock v div 1000"
  by (auto simp: time_secs_def lua_int_itoa)

lemma acquire_stores:
  assumes "script_laws R V" and "lease_inv p v" and "rv_zs v (key_leased p) u = None" and "V d = v" and "0 < ttl"
    and "now = rv_clock v div 1000"
    and "call R (ZADD (key_leased p) False [(u, of_int (now + ttl))]) (\<lambda>_.
           call R (SET (key_lease p tok) u (ttl * second) False) (\<lambda>_. Pair (RBulk u))) d = (r, d')"
  shows "lease_inv p (V d') \<and> (\<forall>w. r = RBulk w \<longrightarrow> live_str (V d') (key_lease p tok) = Some w)"
  using assms(1) _ assms(7)
proof (rule call_cases)
  let ?v1 = "v\<lparr>rv_zs := (rv_zs v)(key_leased p := (rv_zs v (key_leased p))(u \<mapsto> of_int (now + ttl)))\<rparr>"
  note z = lease_inv_zadd [OF assms(2,3)]
  fix x d1
  assume "cmd_law (V d) (ZADD (key_leased p) False [(u, of_int (now + ttl))]) x (V d1)"
    and set: "call R (SET (key_lease p tok) u (ttl * second) False) (\<lambda>_. Pair (RBulk u)) d1 = (r, d')"
  then have v1: "V d1 = ?v1" using assms(4) by simp
  from assms(1) _ set show ?thesis
  proof (rule call_cases)
    fix y d2
    assume "cmd_law (V d1) (SET (key_lease p tok) u (ttl * second) False) y (V d2)" and "Pair (RBulk u) d2 = (r, d')"
    then have v2: "V d' = ?v1\<lparr>rv_str := (rv_str ?v1)(key_lease p tok \<mapsto> (u, Some (rv_clock v + ttl * 1000)))\<rparr>"
      using v1 assms(5) by (simp add: mult.commute)
    have "rv_clock v < (now + 1) * 1000" unfolding assms(6) by presburger
    then have "rv_clock v + ttl * 1000 < ((now + ttl) + 1) * 1000" by (simp add: algebra_simps)
    then have "(of_int (rv_clock v + ttl * 1000) :: rat) < of_int (((now + ttl) + 1) * 1000)"
      by (simp only: of_int_less_iff)
    then have x: "of_int (rv_clock v + ttl * 1000) < ((of_int (now + ttl) :: rat) + 1) * 1000" by simp
    have "lease_inv p (V d')" unfolding v2
      by (rule lease_inv_set [OF z(1) _ _ x]) (simp_all add: z(2))
    moreover have "live_str (V d') (key_lease p tok) = Some u" unfolding v2 using assms(5) by (simp add: live_str_def)
    moreover have "r = RBulk u" using \<open>Pair (RBulk u) d2 = (r, d')\<close> by simp
    ultimately show ?thesis by simp
  qed (use v1 z(1) in \<open>simp_all add: scripted_def\<close>)
qed (use assms(2,4) in \<open>simp_all add: scripted_def\<close>)

lemma lease_inv_acquire:
  assumes "script_laws R V" and "lease_inv p (V d)" and "0 < ttl" and "\<And>n. 0 < n \<Longrightarrow> 1 \<le> rnd n \<and> rnd n \<le> n"
    and "luaAcquire R rnd (key_set p) (key_leased p) (key_lease p tok) ttl tok topN d = (r, d')"
  shows "lease_inv p (V d') \<and> (\<forall>w. r = RBulk w \<longrightarrow> live_str (V d') (key_lease p tok) = Some w)"
  using assms(1) _ assms(5) [unfolded luaAcquire_def Let_def]
proof (rule call_cases)
  fix t d1
  assume "cmd_law (V d) TIME t (V d1)"
  then have v1: "V d1 = V d" and now: "time_secs t = rv_clock (V d) div 1000" using time_secs_law by blast+
  let ?now = "rv_clock (V d) div 1000" and ?lk = "key_leased p"
  let ?v = "(V d)\<lparr>rv_zs := (rv_zs (V d))(?lk := drop_range 0 (of_int (?now - 1)) (rv_zs (V d) ?lk))\<rparr>"
  have inv: "lease_inv p ?v" using assms(2) by (rule lease_inv_cleanup) simp
  assume rest: "call R (ZREMRANGEBYSCORE ?lk 0 (of_int (time_secs t - 1))) (\<lambda>_.
     call R (ZREVRANGE (key_set p) 0 (topN - 1)) (\<lambda>cs.
       if reply_strs cs = [] then Pair RNil
       else unleased R ?lk (reply_strs cs) [] (\<lambda>available.
         if available = [] then Pair RNil
         else call R (ZADD ?lk False [(available ! (rnd (length available) - 1), of_int (time_secs t + ttl))]) (\<lambda>_.
              call R (SET (key_lease p tok) (available ! (rnd (length available) - 1)) (ttl * second) False)
                (\<lambda>_. Pair (RBulk (available ! (rnd (length available) - 1)))))))) d1 = (r, d')"
  from assms(1) _ rest show ?thesis
  proof (rule call_cases)
    fix x d2
    assume "cmd_law (V d1) (ZREMRANGEBYSCORE ?lk 0 (of_int (time_secs t - 1))) x (V d2)"
    then have v2: "V d2 = ?v" using v1 now by simp
    assume rest: "call R (ZREVRANGE (key_set p) 0 (topN - 1)) (\<lambda>cs.
       if reply_strs cs = [] then Pair RNil
       else unleased R ?lk (reply_strs cs) [] (\<lambda>available.
         if available = [] then Pair RNil
         else call R (ZADD ?lk False [(available ! (rnd (length available) - 1), of_int (time_secs t + ttl))]) (\<lambda>_.
              call R (SET (key_lease p tok) (available ! (rnd (length available) - 1)) (ttl * second) False)
                (\<lambda>_. Pair (RBulk (available ! (rnd (length available) - 1))))))) d2 = (r, d')"
    from assms(1) _ rest show ?thesis
    proof (rule call_cases)
      fix cs d3
      assume "cmd_law (V d2) (ZREVRANGE (key_set p) 0 (topN - 1)) cs (V d3)"
      then have v3: "V d3 = ?v" using v2 by simp
      let ?k = "\<lambda>available. if available = [] then Pair RNil
         else call R (ZADD ?lk False [(available ! (rnd (length available) - 1), of_int (time_secs t + ttl))]) (\<lambda>_.
              call R (SET (key_lease p tok) (available ! (rnd (length available) - 1)) (ttl * second) False)
                (\<lambda>_. Pair (RBulk (available ! (rnd (length available) - 1)))))"
      assume "(if reply_strs cs = [] then Pair RNil else unleased R ?lk (reply_strs cs) [] ?k) d3 = (r, d')"
      then consider "V d' = V d3" "r = RNil" | "unleased R ?lk (reply_strs cs) [] ?k d3 = (r, d')"
        by (auto split: if_splits)
      then show ?thesis
      proof cases
        case 1
        then show ?thesis using v3 inv by simp
      next
        case 2
        obtain av d4 where k: "?k av d4 = (r, d')" and v4: "V d4 = ?v" and av: "\<forall>u \<in> set av. rv_zs ?v ?lk u = None"
          using unleased_cases [OF assms(1) 2] v3 by auto
        show ?thesis
        proof (cases "av = []")
          case True
          then show ?thesis using k v4 inv by auto
        next
          case False
          have "rnd (length av) - 1 < length av" using assms(4) [of "length av"] False by (cases av) auto
          then have none: "rv_zs ?v ?lk (av ! (rnd (length av) - 1)) = None" using av by simp
          show ?thesis
            by (rule acquire_stores [OF assms(1) inv none v4 assms(3), of ?now tok r])
               (use k False now in \<open>simp_all add: Let_def\<close>)
        qed
      qed
    qed (use v2 inv in \<open>simp_all add: scripted_def\<close>)
  qed (use v1 assms(2) in \<open>simp_all add: scripted_def\<close>)
qed (use assms(2) in \<open>simp_all add: scripted_def\<close>)

lemma lease_inv_release:
  assumes "script_laws R V" and "lease_inv p (V d)"
    and "luaRelease R (key_leased p) (key_lease p tok) d = (r, d')"
  shows "lease_inv p (V d') \<and> live_str (V d') (key_lease p tok) = None"
  using assms(1) _ assms(3) [unfolded luaRelease_def]
proof (rule call_cases)
  fix x d1
  assume "cmd_law (V d) (GET (key_lease p tok)) x (V d1)"
  then have v1: "V d1 = V d" and x: "x = (case live_str (V d) (key_lease p tok) of Some s \<Rightarrow> RBulk s | None \<Rightarrow> RNil)" by auto
  assume rest: "(case x of RBulk url \<Rightarrow> call R (ZREM (key_leased p) url) (\<lambda>_. call R (DEL [key_lease p tok]) (\<lambda>_. Pair (RInt 1)))
       | _ \<Rightarrow> Pair (RInt 0)) d1 = (r, d')"
  show ?thesis
  proof (cases "live_str (V d) (key_lease p tok)")
    case None
    then show ?thesis using rest x v1 assms(2) by auto
  next
    case (Some u)
    then have "call R (ZREM (key_leased p) u) (\<lambda>_. call R (DEL [key_lease p tok]) (\<lambda>_. Pair (RInt 1))) d1 = (r, d')"
      using rest x by simp
    from assms(1) _ this show ?thesis
    proof (rule call_cases)
      fix y d2
      assume "cmd_law (V d1) (ZREM (key_leased p) u) y (V d2)"
      then have v2: "V d2 = (V d)\<lparr>rv_zs := (rv_zs (V d))(key_leased p := (rv_zs (V d) (key_leased p))(u := None))\<rparr>"
        using v1 by simp
      assume "call R (DEL [key_lease p tok]) (\<lambda>_. Pair (RInt 1)) d2 = (r, d')"
      from assms(1) _ this show ?thesis
      proof (rule call_cases)
        fix z d3
        assume law: "cmd_law (V d2) (DEL [key_lease p tok]) z (V d3)" and "Pair (RInt 1) d3 = (r, d')"
        then have d3: "d' = d3" by simp
        have clock: "rv_clock (V d') = rv_clock (V d)" and
          str: "rv_str (V d') k = (if k = key_lease p tok then None else rv_str (V d) k)" and
          zs: "rv_zs (V d') (key_leased p) = (rv_zs (V d) (key_leased p))(u := None)" for k
          using law unfolding d3 v2 by simp_all
        have live: "live_str (V d') (key_lease p t) = (if t = tok then None else live_str (V d) (key_lease p t))" for t
          by (simp add: live_str_def clock str)
        have other: "u' \<noteq> u" if "t \<noteq> tok" "live_str (V d) (key_lease p t) = Some u'" for t u'
          using that Some assms(2) unfolding lease_inv_def one_holder_def by metis
        have "covered p (V d')" unfolding covered_def
        proof (intro allI impI)
          fix t u'
          assume "live_str (V d') (key_lease p t) = Some u'"
          then have t: "t \<noteq> tok" and l: "live_str (V d) (key_lease p t) = Some u'" using live [of t] by (auto split: if_splits)
          with other assms(2) show "\<exists>s x. rv_zs (V d') (key_leased p) u' = Some s \<and>
              rv_str (V d') (key_lease p t) = Some (u', Some x) \<and> of_int x < (s + 1) * 1000"
            unfolding lease_inv_def covered_def by (simp add: zs str)
        qed
        moreover have "one_holder p (V d')"
          unfolding one_holder_def live using assms(2) unfolding lease_inv_def one_holder_def by (metis option.distinct(1))
        ultimately show ?thesis using live [of tok] by (simp add: lease_inv_def)
      qed (simp_all add: scripted_def denyoom_def)
    qed (simp_all add: scripted_def denyoom_def)
  qed
qed (simp_all add: scripted_def denyoom_def)

text \<open>The other scripts leave leases alone.\<close>

lemma unrelated_refl [simp]: "unrelated p v v"
  by (simp add: unrelated_def)

lemma unrelated_trans: "unrelated p u v \<Longrightarrow> unrelated p v w \<Longrightarrow> unrelated p u w"
  by (auto simp: unrelated_def)

lemma call_unrelated:
  assumes "script_laws R V" and "scripted c" and "\<And>x v v'. cmd_law v c x v' \<Longrightarrow> unrelated p v v'"
    and "\<And>x d1. k x d1 = (r, d') \<Longrightarrow> unrelated p (V d1) (V d')" and "call R c k d = (r, d')"
  shows "unrelated p (V d) (V d')"
  using assms(1,2,5)
proof (rule call_cases)
  fix x d1
  assume "cmd_law (V d) c x (V d1)" and "k x d1 = (r, d')"
  then show ?thesis using assms(3,4) unrelated_trans by blast
qed simp

lemma unrelated_cmds:
  "cmd_law v (HINCRBY k f n) x v' \<Longrightarrow> unrelated p v v'" "cmd_law v (HSET k f s) x v' \<Longrightarrow> unrelated p v v'"
  "cmd_law v TIME x v' \<Longrightarrow> unrelated p v v'"
  "cmd_law v (ZINCRBY (key_set p) q m) x v' \<Longrightarrow> unrelated p v v'" "cmd_law v (ZREM (key_set p) m) x v' \<Longrightarrow> unrelated p v v'"
  "cmd_law v (ZADD (key_cooldown p) False [(m, q)]) x v' \<Longrightarrow> unrelated p v v'"
  "cmd_law v (INCR (key_limiter p)) x v' \<Longrightarrow> unrelated p v v'" "cmd_law v (PEXPIRE (key_limiter p) n) x v' \<Longrightarrow> unrelated p v v'"
  by (auto simp: unrelated_def split: option.splits)

lemma if_appE:
  assumes "(if b then f else g) d = x"
  obtains "b" "f d = x" | "\<not> b" "g d = x"
  using assms by (auto split: if_splits)

lemma reports_unrelated:
  assumes "script_laws R V"
  shows "luaRecordSuccess R (key_set p) sk u b d = (r, d') \<Longrightarrow> unrelated p (V d) (V d')"
    and "luaRecordFailure R (key_set p) sk (key_cooldown p) u pen mf le cs d = (r, d') \<Longrightarrow> unrelated p (V d) (V d')"
    and "luaRateLimit R (key_limiter p) burst w d = (r, d') \<Longrightarrow> unrelated p (V d) (V d')"
  unfolding luaRecordSuccess_def luaRecordFailure_def luaRateLimit_def Let_def
  by (erule call_unrelated [OF assms, rotated -1] if_appE
      | assumption | (simp add: scripted_def; fail) | (erule unrelated_cmds; fail) | (simp; fail))+

subsection \<open>The shared server as a transition system\<close>

text \<open>Before a script runs, the round trip may take time and may fail.\<close>

definition fault_law :: "'d redis \<Rightarrow> ('d \<Rightarrow> rview) \<Rightarrow> string \<Rightarrow> bool" where
  "fault_law R V p \<longleftrightarrow> (\<forall>d e d'. rd_fault R d = (e, d') \<longrightarrow> unrelated p (V d) (V d'))"

definition good_rnd :: "(nat \<Rightarrow> nat) \<Rightarrow> bool" where
  "good_rnd rnd \<longleftrightarrow> (\<forall>n. 0 < n \<longrightarrow> 1 \<le> rnd n \<and> rnd n \<le> n)"

inductive lease_step :: "'d redis \<Rightarrow> ('d \<Rightarrow> rview) \<Rightarrow> rpool_cfg \<Rightarrow> 'd \<Rightarrow> 'd \<Rightarrow> bool" for R V c where
  acquire: "good_rnd rnd \<Longrightarrow> rpool_Acquire R rnd rand c hold d = (r, d') \<Longrightarrow> lease_step R V c d d'"
| release: "releaseLease R c tok d = (e, d') \<Longrightarrow> lease_step R V c d d'"
| success: "recordSuccess R c url d = (e, d') \<Longrightarrow> lease_step R V c d d'"
| failure: "recordFailure R env c url cause d = (e, d') \<Longrightarrow> lease_step R V c d d'"
| other: "unrelated (rp_KeyPrefix c) (V d) (V d') \<Longrightarrow> lease_step R V c d d'"

lemma run_script_cases:
  assumes "fault_law R V p" and "run_script R script d = (r, d')"
  obtains (fault) e where "r = RErr e" and "unrelated p (V d) (V d')"
  | (run) d1 where "unrelated p (V d) (V d1)" and "script d1 = (r, d')"
proof -
  obtain e d1 where f: "rd_fault R d = (e, d1)" by fastforce
  then have u: "unrelated p (V d) (V d1)" using assms(1) by (simp add: fault_law_def)
  show thesis
  proof (cases e)
    case None
    then show thesis using assms(2) f run [OF u] by (simp add: run_script_def)
  next
    case (Some x)
    then show thesis using assms(2) f u fault [of x] by (simp add: run_script_def)
  qed
qed

lemma ttl_secs_pos: "0 < ttl_secs hold"
  by (simp add: ttl_secs_def Let_def)

lemma check_rate_unrelated:
  assumes "script_laws R V" and "fault_law R V (rp_KeyPrefix c)" and "check_rate R c d = (e, d')"
  shows "unrelated (rp_KeyPrefix c) (V d) (V d')"
proof (cases "Disabled (rp_RateLimit c)")
  case True
  then show ?thesis using assms(3) by (simp add: check_rate_def)
next
  case False
  let ?s = "luaRateLimit R (key_limiter (rp_KeyPrefix c)) (Burst (rp_RateLimit c)) (window_ms (rp_RateLimit c))"
  obtain r where "run_script R ?s d = (r, d')"
    using assms(3) False by (auto simp: check_rate_def split: prod.splits sum.splits)
  with assms(2) show ?thesis
    by (rule run_script_cases) (use reports_unrelated(3) [OF assms(1)] unrelated_trans in blast)+
qed

lemma acquire_lease:
  assumes "script_laws R V" and "fault_law R V (rp_KeyPrefix c)" and "good_rnd rnd"
    and "lease_inv (rp_KeyPrefix c) (V d)" and "rpool_Acquire R rnd rand c hold d = (r, d')"
  shows "lease_inv (rp_KeyPrefix c) (V d') \<and>
    (\<forall>l. r = Inr l \<longrightarrow> live_str (V d') (key_lease (rp_KeyPrefix c) (token l)) = Some (URL l))"
proof -
  let ?p = "rp_KeyPrefix c"
  obtain e d1 where cr: "check_rate R c d = (e, d1)" by fastforce
  have inv1: "lease_inv ?p (V d1)"
    using check_rate_unrelated [OF assms(1,2) cr] assms(4) by (rule lease_inv_unrelated)
  show ?thesis
  proof (cases "\<exists>tok. e = None \<and> newToken rand = Inr tok")
    case False
    then have "d' = d1" "\<exists>x. r = Inl x" using assms(5) cr
      by (auto simp: rpool_Acquire_def split: option.splits sum.splits)
    then show ?thesis using inv1 by auto
  next
    case True
    then obtain tok where tok: "e = None" "newToken rand = Inr tok" by blast
    obtain x d2 where s: "run_script R (luaAcquire R rnd (key_set ?p) (key_leased ?p) (key_lease ?p tok) (ttl_secs hold) tok 20) d1 = (x, d2)"
      by fastforce
    have d2: "d' = d2" "\<forall>l. r = Inr l \<longrightarrow> x = RBulk (URL l) \<and> token l = tok"
      using assms(5) cr tok s
      by (auto simp: rpool_Acquire_def Let_def NewLease_def split: option.splits redis_reply.splits if_splits)
    have "lease_inv ?p (V d2) \<and> (\<forall>w. x = RBulk w \<longrightarrow> live_str (V d2) (key_lease ?p tok) = Some w)"
      using assms(2) s
    proof (rule run_script_cases)
      fix e
      assume "x = RErr e" and "unrelated ?p (V d1) (V d2)"
      then show ?thesis using lease_inv_unrelated inv1 by blast
    next
      fix d1'
      assume u: "unrelated ?p (V d1) (V d1')"
        and l: "luaAcquire R rnd (key_set ?p) (key_leased ?p) (key_lease ?p tok) (ttl_secs hold) tok 20 d1' = (x, d2)"
      have "lease_inv ?p (V d1')" using u inv1 by (rule lease_inv_unrelated)
      from lease_inv_acquire [OF assms(1) this ttl_secs_pos _ l] assms(3) show ?thesis by (simp add: good_rnd_def)
    qed
    then show ?thesis using d2 by auto
  qed
qed

lemma release_lease:
  assumes "script_laws R V" and "fault_law R V (rp_KeyPrefix c)" and "lease_inv (rp_KeyPrefix c) (V d)"
    and "releaseLease R c tok d = (e, d')"
  shows "lease_inv (rp_KeyPrefix c) (V d')"
proof -
  let ?p = "rp_KeyPrefix c"
  obtain r where "run_script R (luaRelease R (key_leased ?p) (key_lease ?p tok)) d = (r, d')"
    using assms(4) by (auto simp: releaseLease_def Let_def split: prod.splits)
  with assms(2) show ?thesis
  proof (rule run_script_cases)
    fix e
    assume "unrelated ?p (V d) (V d')"
    then show ?thesis using assms(3) by (rule lease_inv_unrelated)
  next
    fix d1
    assume u: "unrelated ?p (V d) (V d1)" and l: "luaRelease R (key_leased ?p) (key_lease ?p tok) d1 = (r, d')"
    have "lease_inv ?p (V d1)" using u assms(3) by (rule lease_inv_unrelated)
    from lease_inv_release [OF assms(1) this l] show ?thesis by simp
  qed
qed

lemma lease_step_inv:
  assumes "script_laws R V" and "fault_law R V (rp_KeyPrefix c)" and "lease_step R V c d d'"
    and "lease_inv (rp_KeyPrefix c) (V d)"
  shows "lease_inv (rp_KeyPrefix c) (V d')"
  using assms(3)
proof cases
  case (acquire rnd rand hold r)
  then show ?thesis using acquire_lease [OF assms(1,2) _ assms(4)] by blast
next
  case (release tok e)
  then show ?thesis using release_lease [OF assms(1,2,4)] by blast
next
  case (success url e)
  let ?p = "rp_KeyPrefix c"
  obtain r where "run_script R (luaRecordSuccess R (key_set ?p) (key_stats ?p url) url (SuccessBoost (rp_Ranking c))) d = (r, d')"
    using success by (auto simp: recordSuccess_def Let_def split: prod.splits)
  with assms(2) have "unrelated ?p (V d) (V d')"
    by (rule run_script_cases) (use reports_unrelated(1) [OF assms(1)] unrelated_trans in blast)+
  then show ?thesis using assms(4) by (rule lease_inv_unrelated)
next
  case (failure env url cause e)
  let ?p = "rp_KeyPrefix c"
  obtain m r where "run_script R (luaRecordFailure R (key_set ?p) (key_stats ?p url) (key_cooldown ?p) url
      (FailurePenalty (rp_Ranking c)) (rp_MaxFailures c) m (cool_secs env)) d = (r, d')"
    using failure by (auto simp: recordFailure_def Let_def split: prod.splits)
  with assms(2) have "unrelated ?p (V d) (V d')"
    by (rule run_script_cases) (use reports_unrelated(2) [OF assms(1)] unrelated_trans in blast)+
  then show ?thesis using assms(4) by (rule lease_inv_unrelated)
next
  case other
  then show ?thesis using assms(4) by (rule lease_inv_unrelated)
qed

section \<open>A server with the documented behaviour\<close>

text \<open>The views themselves as databases, with a list of the strings that may be members of a sorted
  set, for the witnesses.\<close>

fun demo_call :: "redis_cmd \<Rightarrow> string list \<times> rview \<Rightarrow> redis_reply \<times> string list \<times> rview" where
  "demo_call TIME (ms, v) = (RStrs [itoa (rv_clock v div 1000), ''0''], ms, v)"
| "demo_call (ZREMRANGEBYSCORE k a b) (ms, v) = (RInt 0, ms, v\<lparr>rv_zs := (rv_zs v)(k := drop_range a b (rv_zs v k))\<rparr>)"
| "demo_call (ZREVRANGE k a b) (ms, v) = (RStrs (filter (\<lambda>m. rv_zs v k m \<noteq> None) ms), ms, v)"
| "demo_call (ZSCORE k m) (ms, v) = (case rv_zs v k m of None \<Rightarrow> RNil | Some s \<Rightarrow> RBulk ''1'', ms, v)"
| "demo_call (ZADD k nx xs) (ms, v) =
     (RInt 1, map fst xs @ ms, v\<lparr>rv_zs := (rv_zs v)(k := foldl (\<lambda>z (m, s). z(m \<mapsto> s)) (rv_zs v k) xs)\<rparr>)"
| "demo_call (ZINCRBY k x m) (ms, v) =
     (RBulk ''1'', m # ms, v\<lparr>rv_zs := (rv_zs v)(k := (rv_zs v k)(m \<mapsto> (case rv_zs v k m of None \<Rightarrow> x | Some s \<Rightarrow> s + x)))\<rparr>)"
| "demo_call (ZREM k m) (ms, v) = (RInt 1, ms, v\<lparr>rv_zs := (rv_zs v)(k := (rv_zs v k)(m := None))\<rparr>)"
| "demo_call (GET k) (ms, v) = (case live_str v k of Some s \<Rightarrow> RBulk s | None \<Rightarrow> RNil, ms, v)"
| "demo_call (SET k s t nx) (ms, v) = (ROk, ms, v\<lparr>rv_str := (rv_str v)(k \<mapsto> (s, Some (rv_clock v + t div millisecond)))\<rparr>)"
| "demo_call (DEL ks) (ms, v) =
     (RInt 1, ms, v\<lparr>rv_str := (\<lambda>k. if k \<in> set ks then None else rv_str v k),
             rv_zs := (\<lambda>k. if k \<in> set ks then Map.empty else rv_zs v k),
             rv_hash := (\<lambda>k. if k \<in> set ks then (\<lambda>f. 0) else rv_hash v k)\<rparr>)"
| "demo_call (INCR k) (ms, v) =
     (case live_str v k of
        None \<Rightarrow> (RInt 1, ms, v\<lparr>rv_str := (rv_str v)(k \<mapsto> (itoa 1, None))\<rparr>)
      | Some s \<Rightarrow>
          if is_int64 (int_of s + 1) then
            (RInt (int_of s + 1), ms, v\<lparr>rv_str := (rv_str v)(k \<mapsto> (itoa (int_of s + 1), snd (the (rv_str v k))))\<rparr>)
          else (RErr (ErrText ''ERR increment or decrement would overflow''), ms, v))"
| "demo_call (PEXPIRE k t) (ms, v) =
     (RInt 1, ms, case live_str v k of None \<Rightarrow> v | Some s \<Rightarrow> v\<lparr>rv_str := (rv_str v)(k \<mapsto> (s, Some (rv_clock v + t)))\<rparr>)"
| "demo_call (HINCRBY k f n) (ms, v) =
     (if is_int64 (rv_hash v k f + n) then
        (RInt (rv_hash v k f + n), ms, v\<lparr>rv_hash := (rv_hash v)(k := (rv_hash v k)(f := rv_hash v k f + n))\<rparr>)
      else (RErr (ErrText ''ERR increment or decrement would overflow''), ms, v))"
| "demo_call (HSET k f s) (ms, v) = (RInt 1, ms, v\<lparr>rv_hash := (rv_hash v)(k := (rv_hash v k)(f := int_of s))\<rparr>)"
| "demo_call _ (ms, v) = (ROk, ms, v)"

definition demo_redis :: "(string list \<times> rview) redis" where
  "demo_redis = \<lparr>rd_do = demo_call, rd_pipe = (\<lambda>cs d. ([], d)), rd_tx = (\<lambda>cs d. ([], d)), rd_call = demo_call, rd_fault = (\<lambda>d. (None, d))\<rparr>"

lemma demo_laws: "script_laws demo_redis snd"
  unfolding script_laws_def
proof (intro allI impI)
  fix c and d d' :: "string list \<times> rview" and r
  assume "rd_call demo_redis c d = (r, d')"
  then show "cmd_law (snd d) c r (snd d') \<or> denyoom c \<and> snd d' = snd d \<and> (\<exists>e. r = RErr e)"
    by (cases d; cases c) (auto simp: demo_redis_def denyoom_def split: option.splits if_splits)
qed

lemma demo_fault: "fault_law demo_redis snd p"
  by (simp add: fault_law_def demo_redis_def)

definition demo_cfg :: rpool_cfg where
  "demo_cfg = \<lparr>rp_KeyPrefix = ''px'', rp_RateLimit = \<lparr>RatePerSec = 0, Burst = 0, Window = 0\<rparr>,
     rp_Ranking = \<lparr>FailurePenalty = 5, SuccessBoost = 1, InitialWeight = 100\<rparr>, rp_MaxFailures = 3\<rparr>"

definition demo_view :: rview where
  "demo_view = \<lparr>rv_clock = 5000, rv_zs = (\<lambda>k. if k = key_set ''px'' then [''a'' \<mapsto> 100] else Map.empty),
     rv_str = Map.empty, rv_hash = (\<lambda>k f. 0)\<rparr>"

section \<open>Properties\<close>

text \<open>(C6) A proxy in Redis has one holder. Whatever clients acquire, release and report leases over a
  shared server, with whatever tokens, random choices, script failures, refusals for lack of memory
  and delays, and whatever else happens to other keys, two leases that are alive at the same moment
  are leases of different proxies; in particular a late release of an expired lease never frees the
  proxy of its next holder. A lease that is handed out is alive.\<close>

theorem redis_lease_exclusive:
  assumes "script_laws R V" and "fault_law R V (rp_KeyPrefix c)"
    and "\<forall>t. rv_str (V d0) (key_lease (rp_KeyPrefix c) t) = None" and "(lease_step R V c)\<^sup>*\<^sup>* d0 d"
  shows "(\<forall>t t' u. live_str (V d) (key_lease (rp_KeyPrefix c) t) = Some u \<and>
        live_str (V d) (key_lease (rp_KeyPrefix c) t') = Some u \<longrightarrow> t = t') \<and>
    (\<forall>rnd rand hold l d'. good_rnd rnd \<and> rpool_Acquire R rnd rand c hold d = (Inr l, d') \<longrightarrow>
      live_str (V d') (key_lease (rp_KeyPrefix c) (token l)) = Some (URL l))"
proof -
  have "lease_inv (rp_KeyPrefix c) (V d0)"
    using assms(3) by (simp add: lease_inv_def covered_def one_holder_def live_str_def)
  with assms(4) have "lease_inv (rp_KeyPrefix c) (V d)"
    by (induction rule: rtranclp_induct) (auto intro: lease_step_inv [OF assms(1,2)])
  then show ?thesis
    using acquire_lease [OF assms(1,2)] unfolding lease_inv_def one_holder_def by blast
qed

theorem redis_lease_exclusive_witness:
  "\<exists>l d'. rpool_Acquire demo_redis (\<lambda>n. n) (Inr ''0123456789abcdef'') demo_cfg second ([''a''], demo_view) = (Inr l, d') \<and>
     live_str (snd d') (key_lease ''px'' (token l)) = Some (URL l)"
proof -
  let ?a = "rpool_Acquire demo_redis (\<lambda>n. n) (Inr ''0123456789abcdef'') demo_cfg second ([''a''], demo_view)"
  have "case fst ?a of Inr l \<Rightarrow> URL l = ''a'' | Inl e \<Rightarrow> False" by code_simp
  then obtain l where "fst ?a = Inr l" by (auto split: sum.splits)
  then have a: "?a = (Inr l, snd ?a)" by (metis prod.collapse)
  moreover have "good_rnd (\<lambda>n. n)" by (simp add: good_rnd_def)
  moreover have "\<forall>t. rv_str (snd ([''a''], demo_view)) (key_lease (rp_KeyPrefix demo_cfg) t) = None" by (simp add: demo_view_def)
  ultimately have "live_str (snd (snd ?a)) (key_lease (rp_KeyPrefix demo_cfg) (token l)) = Some (URL l)"
    using redis_lease_exclusive [OF demo_laws demo_fault _ rtranclp.rtrancl_refl] by blast
  moreover have "rp_KeyPrefix demo_cfg = ''px''" by (simp add: demo_cfg_def)
  ultimately show ?thesis using a by metis
qed

text \<open>One window of the limiter: runs of the script and the passing of time up to the moment \<open>T\<close>,
  with the number of admissions.\<close>

inductive limited_run :: "'d redis \<Rightarrow> ('d \<Rightarrow> rview) \<Rightarrow> string \<Rightarrow> int \<Rightarrow> int \<Rightarrow> int \<Rightarrow> 'd \<Rightarrow> nat \<Rightarrow> 'd \<Rightarrow> bool"
  for R V k burst w T d where
  start: "limited_run R V k burst w T d 0 d"
| ask: "limited_run R V k burst w T d n d1 \<Longrightarrow> luaRateLimit R k burst w d1 = (r, d2) \<Longrightarrow>
    limited_run R V k burst w T d (n + of_bool (r = RInt 1)) d2"
| wait: "limited_run R V k burst w T d n d1 \<Longrightarrow> rv_str (V d2) k = rv_str (V d1) k \<Longrightarrow>
    rv_clock (V d1) \<le> rv_clock (V d2) \<Longrightarrow> rv_clock (V d2) \<le> T \<Longrightarrow> limited_run R V k burst w T d n d2"

text \<open>The state of the limiter: no window, or a counter that lives at least until \<open>T\<close>.\<close>

definition window_state :: "rview \<Rightarrow> string \<Rightarrow> int \<Rightarrow> int \<Rightarrow> int \<Rightarrow> nat \<Rightarrow> bool" where
  "window_state v k burst T0 T n \<longleftrightarrow>
     T0 \<le> rv_clock v \<and> rv_clock v \<le> T \<and>
     (live_str v k = None \<and> n = 0 \<or>
      (\<exists>c x. rv_str v k = Some (itoa c, Some x) \<and> T \<le> x \<and> is_int64 c \<and> 1 \<le> c \<and> int n \<le> min c (max 0 burst)))"

lemma window_state_live:
  assumes "rv_str v k = Some (itoa c, Some x)" and "rv_clock v \<le> x"
  shows "live_str v k = Some (itoa c)"
  using assms by (simp add: live_str_def)

lemma limiter_first:
  assumes "script_laws R V" and "live_str (V d) k = None" and "1 \<le> w" and "luaRateLimit R k burst w d = (r, d')"
  shows "rv_clock (V d') = rv_clock (V d) \<and>
    (V d' = V d \<and> r \<noteq> RInt 1 \<or>
     rv_str (V d') k = Some (itoa 1, Some (rv_clock (V d) + w)) \<and> (r = RInt 1 \<longleftrightarrow> 1 \<le> burst))"
proof -
  have w: "(if w < 1 then 1000 else w) = w" using assms(3) by simp
  show ?thesis
    using assms(1) _ assms(4) [unfolded luaRateLimit_def Let_def w]
  proof (rule call_cases)
    fix x d1
    assume "cmd_law (V d) (INCR k) x (V d1)"
    then have x: "x = RInt 1" and v1: "V d1 = (V d)\<lparr>rv_str := (rv_str (V d))(k \<mapsto> (itoa 1, None))\<rparr>"
      using assms(2) by auto
    have live: "live_str (V d1) k = Some (itoa 1)" unfolding v1 by (simp add: live_str_def)
    assume "(if reply_num x = 1 then call R (PEXPIRE k w) (\<lambda>_. Pair (RInt (if burst < reply_num x then 0 else 1)))
        else Pair (RInt (if burst < reply_num x then 0 else 1))) d1 = (r, d')"
    then have "call R (PEXPIRE k w) (\<lambda>_. Pair (RInt (if burst < 1 then 0 else 1))) d1 = (r, d')"
      using x by (simp add: reply_num_def)
    from assms(1) _ this show ?thesis
    proof (rule call_cases)
      fix y d2
      assume "cmd_law (V d1) (PEXPIRE k w) y (V d2)" and "Pair (RInt (if burst < 1 then 0 else 1)) d2 = (r, d')"
      then show ?thesis using live v1 by (auto split: if_splits)
    qed (simp_all add: scripted_def denyoom_def)
  qed (simp_all add: scripted_def)
qed

lemma limiter_next:
  assumes "script_laws R V" and "rv_str (V d) k = Some (itoa c, Some x)" and "rv_clock (V d) \<le> x" and "is_int64 c" and "1 \<le> c"
    and "luaRateLimit R k burst w d = (r, d')"
  shows "rv_clock (V d') = rv_clock (V d) \<and>
    (V d' = V d \<and> r \<noteq> RInt 1 \<or>
     rv_str (V d') k = Some (itoa (c + 1), Some x) \<and> is_int64 (c + 1) \<and> (r = RInt 1 \<longleftrightarrow> c + 1 \<le> burst))"
  using assms(1) _ assms(6) [unfolded luaRateLimit_def Let_def]
proof (rule call_cases)
  have live: "live_str (V d) k = Some (itoa c)" using assms(2,3) by (rule window_state_live)
  have c: "int_of (itoa c) = c" using assms(4) by (simp add: int_of_def atoi_itoa)
  fix y d1
  assume "cmd_law (V d) (INCR k) y (V d1)"
  then have y: "y = RInt (c + 1)" "is_int64 (c + 1)" and v1: "V d1 = (V d)\<lparr>rv_str := (rv_str (V d))(k \<mapsto> (itoa (c + 1), Some x))\<rparr>"
    using live c assms(2) by auto
  assume "(if reply_num y = 1 then call R (PEXPIRE k (if w < 1 then 1000 else w)) (\<lambda>_. Pair (RInt (if burst < reply_num y then 0 else 1)))
        else Pair (RInt (if burst < reply_num y then 0 else 1))) d1 = (r, d')"
  then have "Pair (RInt (if burst < c + 1 then 0 else 1)) d1 = (r, d')"
    using y assms(5) by (simp add: reply_num_def)
  then show ?thesis using y v1 by (auto split: if_splits)
qed (simp_all add: scripted_def)

lemma limited_run_state:
  assumes "script_laws R V" and "live_str (V d) k = None" and "1 \<le> w" and "T = rv_clock (V d) + w"
    and "limited_run R V k burst w T d n d'"
  shows "window_state (V d') k burst (rv_clock (V d)) T n"
  using assms(5)
proof (induction rule: limited_run.induct)
  case start
  then show ?case using assms(2,3,4) by (simp add: window_state_def)
next
  case (ask n d1 r d2)
  note st = ask.IH [unfolded window_state_def]
  consider (none) "live_str (V d1) k = None" "n = 0"
    | (count) c x where "rv_str (V d1) k = Some (itoa c, Some x)" "T \<le> x" "is_int64 c" "1 \<le> c" "int n \<le> min c (max 0 burst)"
    using st by metis
  then show ?case
  proof cases
    case none
    then show ?thesis
      using limiter_first [OF assms(1) none(1) assms(3) ask.hyps(2)] st assms(4)
      by (auto simp: window_state_def is_int64_def itoa_inject)
  next
    case count
    have "rv_clock (V d1) \<le> x" using st count(2) by simp
    from limiter_next [OF assms(1) count(1) this count(3,4) ask.hyps(2)] st count show ?thesis
      by (auto simp: window_state_def itoa_inject)
  qed
next
  case (wait n d1 d2)
  note st = wait.IH [unfolded window_state_def]
  have "live_str (V d1) k = None \<Longrightarrow> live_str (V d2) k = None"
    using live_str_mono [of "V d2" k _ "V d1"] wait.hyps(2,3) by (metis not_Some_eq)
  then show ?case using st wait.hyps by (auto simp: window_state_def)
qed

text \<open>(C33) The rate limit holds within a window: from the moment no window is open, until the window
  that is then opened has passed, the limiter admits at most \<^verbatim>\<open>Burst\<close> requests, however many
  clients ask and whatever fails in between.\<close>

theorem rate_limit_window:
  assumes "script_laws R V" and "live_str (V d) k = None" and "1 \<le> w"
    and "limited_run R V k burst w (rv_clock (V d) + w) d n d'"
  shows "int n \<le> max 0 burst"
  using limited_run_state [OF assms(1-3) refl assms(4)] by (auto simp: window_state_def)

theorem rate_limit_window_witness:
  "\<exists>d'. limited_run demo_redis snd ''px:limiter'' 1 1000 6000 ([], demo_view) 1 d' \<and> int 1 \<le> max 0 (1 :: int)"
proof -
  let ?d = "([] :: string list, demo_view)"
  have "fst (luaRateLimit demo_redis ''px:limiter'' 1 1000 ?d) = RInt 1" by code_simp
  then have "luaRateLimit demo_redis ''px:limiter'' 1 1000 ?d = (RInt 1, snd (luaRateLimit demo_redis ''px:limiter'' 1 1000 ?d))"
    by (metis prod.collapse)
  from limited_run.ask [OF limited_run.start this, of snd 6000]
  have r: "limited_run demo_redis snd ''px:limiter'' 1 1000 6000 ?d 1 (snd (luaRateLimit demo_redis ''px:limiter'' 1 1000 ?d))" by simp
  have "live_str (snd ?d) ''px:limiter'' = None" "rv_clock (snd ?d) = 5000" by (simp_all add: demo_view_def live_str_def)
  then have "int 1 \<le> max 0 (1 :: int)"
    using rate_limit_window [OF demo_laws _ _, of ?d "''px:limiter''" 1000 1 1] r by simp
  with r show ?thesis by blast
qed

text \<open>Reports. A script that is refused half-way reports an error.\<close>

abbreviation streak :: "rview \<Rightarrow> string \<Rightarrow> int" where
  "streak v statsKey \<equiv> rv_hash v statsKey ''consecutive_fail''"

lemma record_success_effect:
  assumes "script_laws R V" and "luaRecordSuccess R setKey sk url boost d = (RInt n, d')"
  shows "streak (V d') sk = 0" and "rv_zs (V d') setKey url = Some (case rv_zs (V d) setKey url of None \<Rightarrow> boost | Some s \<Rightarrow> s + boost)"
proof -
  have zero: "int_of ''0'' = 0" by code_simp
  have "streak (V d') sk = 0 \<and> rv_zs (V d') setKey url = Some (case rv_zs (V d) setKey url of None \<Rightarrow> boost | Some s \<Rightarrow> s + boost)"
    using assms(1) _ assms(2) [unfolded luaRecordSuccess_def]
  proof (rule call_cases)
    fix x d1
    assume 1: "cmd_law (V d) (HINCRBY sk ''success'' 1) x (V d1)"
    assume "call R (HSET sk ''consecutive_fail'' ''0'') (\<lambda>_. call R (ZINCRBY setKey boost url) (\<lambda>_. Pair (RInt 1))) d1 = (RInt n, d')"
    from assms(1) _ this show ?thesis
    proof (rule call_cases)
      fix y d2
      assume 2: "cmd_law (V d1) (HSET sk ''consecutive_fail'' ''0'') y (V d2)"
      assume "call R (ZINCRBY setKey boost url) (\<lambda>_. Pair (RInt 1)) d2 = (RInt n, d')"
      from assms(1) _ this show ?thesis
        by (rule call_cases) (use 1 2 zero in \<open>auto simp: scripted_def\<close>)
    qed (simp_all add: scripted_def)
  qed (simp_all add: scripted_def)
  then show "streak (V d') sk = 0" and "rv_zs (V d') setKey url = Some (case rv_zs (V d) setKey url of None \<Rightarrow> boost | Some s \<Rightarrow> s + boost)"
    by simp_all
qed

lemma record_failure_effect:
  assumes "script_laws R V" and "setKey \<noteq> coolKey"
    and "luaRecordFailure R setKey sk coolKey url pen maxF err secs d = (RInt n, d')"
  shows "streak (V d') sk = streak (V d) sk + 1 \<and>
    (if 0 < maxF \<and> maxF \<le> streak (V d) sk + 1
     then n = 1 \<and> rv_zs (V d') setKey url = None \<and> rv_zs (V d') coolKey url = Some (of_int (rv_clock (V d) div 1000 + secs))
     else n = 0 \<and> rv_zs (V d') coolKey = rv_zs (V d) coolKey \<and>
       rv_zs (V d') setKey url = Some (case rv_zs (V d) setKey url of None \<Rightarrow> - pen | Some s \<Rightarrow> s - pen))"
  using assms(1) _ assms(3) [unfolded luaRecordFailure_def]
proof (rule call_cases)
  let ?st = "streak (V d) sk + 1" and ?cf = "''consecutive_fail''"
  let ?evict = "call R (ZREM setKey url) (\<lambda>_. call R TIME (\<lambda>t. call R (ZADD coolKey False [(url, of_int (time_secs t + secs))]) (\<lambda>_. Pair (RInt 1))))"
  let ?lower = "call R (ZINCRBY setKey (- pen) url) (\<lambda>_. Pair (RInt 0))"
  fix x d1
  assume 1: "cmd_law (V d) (HINCRBY sk ''fail'' 1) x (V d1)"
  assume "call R (HINCRBY sk ?cf 1) (\<lambda>s. call R (HSET sk ''last_error'' err) (\<lambda>_.
      if 0 < maxF \<and> maxF \<le> reply_num s then ?evict else ?lower)) d1 = (RInt n, d')"
  from assms(1) _ this show ?thesis
  proof (rule call_cases)
    fix y d2
    assume 2: "cmd_law (V d1) (HINCRBY sk ?cf 1) y (V d2)"
    assume "call R (HSET sk ''last_error'' err) (\<lambda>_. if 0 < maxF \<and> maxF \<le> reply_num y then ?evict else ?lower) d2 = (RInt n, d')"
    from assms(1) _ this show ?thesis
    proof (rule call_cases)
      fix z d3
      assume 3: "cmd_law (V d2) (HSET sk ''last_error'' err) z (V d3)"
      have v3: "streak (V d3) sk = ?st" "rv_zs (V d3) = rv_zs (V d)" "rv_clock (V d3) = rv_clock (V d)" and y: "reply_num y = ?st"
        using 1 2 3 by (auto simp: reply_num_def)
      assume "(if 0 < maxF \<and> maxF \<le> reply_num y then ?evict else ?lower) d3 = (RInt n, d')"
      then consider (evict) "0 < maxF" "maxF \<le> ?st" "?evict d3 = (RInt n, d')"
        | (lower) "\<not> (0 < maxF \<and> maxF \<le> ?st)" "?lower d3 = (RInt n, d')"
        using y by (auto split: if_splits)
      then show ?thesis
      proof cases
        case lower
        from assms(1) _ lower(2) show ?thesis
          by (rule call_cases) (use lower(1) v3 assms(2) in \<open>auto simp: scripted_def split: option.splits\<close>)
      next
        case evict
        from assms(1) _ evict(3) show ?thesis
        proof (rule call_cases)
          fix a d4
          assume 4: "cmd_law (V d3) (ZREM setKey url) a (V d4)"
          assume "call R TIME (\<lambda>t. call R (ZADD coolKey False [(url, of_int (time_secs t + secs))]) (\<lambda>_. Pair (RInt 1))) d4 = (RInt n, d')"
          from assms(1) _ this show ?thesis
          proof (rule call_cases)
            fix t d5
            assume 5: "cmd_law (V d4) TIME t (V d5)"
            assume "call R (ZADD coolKey False [(url, of_int (time_secs t + secs))]) (\<lambda>_. Pair (RInt 1)) d5 = (RInt n, d')"
            from assms(1) _ this show ?thesis
              by (rule call_cases) (use evict 4 time_secs_law [OF 5] v3 assms(2) in \<open>auto simp: scripted_def\<close>)
          qed (simp_all add: scripted_def denyoom_def)
        qed (simp_all add: scripted_def denyoom_def)
      qed
    qed (simp_all add: scripted_def)
  qed (simp_all add: scripted_def)
qed (simp_all add: scripted_def)

text \<open>The ranking of a proxy follows its record. A reported failure lengthens the proxy's streak by
  one; while the streak is below the limit its weight falls by the penalty and it stays a candidate,
  and the failure that reaches the limit takes it out of the candidates and into the cooldown until
  the cooldown time from now; a reported success ends the streak and raises the weight by the
  boost.\<close>

theorem ranking_follows_record:
  assumes "script_laws R V" and "setKey \<noteq> coolKey"
  shows "(luaRecordFailure R setKey sk coolKey url pen maxF err secs d = (RInt n, d') \<longrightarrow>
      streak (V d') sk = streak (V d) sk + 1 \<and>
      (if 0 < maxF \<and> maxF \<le> streak (V d) sk + 1
       then n = 1 \<and> rv_zs (V d') setKey url = None \<and> rv_zs (V d') coolKey url = Some (of_int (rv_clock (V d) div 1000 + secs))
       else n = 0 \<and> rv_zs (V d') coolKey = rv_zs (V d) coolKey \<and>
         rv_zs (V d') setKey url = Some (case rv_zs (V d) setKey url of None \<Rightarrow> - pen | Some s \<Rightarrow> s - pen))) \<and>
    (luaRecordSuccess R setKey sk url boost d = (RInt n, d') \<longrightarrow>
      streak (V d') sk = 0 \<and>
      rv_zs (V d') setKey url = Some (case rv_zs (V d) setKey url of None \<Rightarrow> boost | Some s \<Rightarrow> s + boost))"
  by (intro conjI [of "_ \<longrightarrow> _"] impI record_failure_effect [OF assms] conjI [OF record_success_effect [OF assms(1)]])

theorem ranking_follows_record_witness:
  "\<exists>d'. luaRecordFailure demo_redis ''px:set'' ''px:stats:a'' ''px:cooldown'' ''a'' 5 1 ''boom'' 300 ([''a''], demo_view) = (RInt 1, d') \<and>
     rv_zs (snd d') ''px:set'' ''a'' = None \<and> rv_zs (snd d') ''px:cooldown'' ''a'' = Some 305"
proof -
  let ?f = "luaRecordFailure demo_redis ''px:set'' ''px:stats:a'' ''px:cooldown'' ''a'' 5 1 ''boom'' 300 ([''a''], demo_view)"
  have "fst ?f = RInt 1" by code_simp
  then have f: "?f = (RInt 1, snd ?f)" by (metis prod.collapse)
  have v: "streak (snd ([''a''], demo_view)) ''px:stats:a'' = 0" "rv_clock (snd ([''a''], demo_view)) = 5000"
    by (simp_all add: demo_view_def)
  have "rv_zs (snd (snd ?f)) ''px:set'' ''a'' = None \<and> rv_zs (snd (snd ?f)) ''px:cooldown'' ''a'' = Some 305"
    using ranking_follows_record [OF demo_laws, THEN conjunct1, rule_format, OF _ f] v by simp
  with f show ?thesis by metis
qed

text \<open>Because \<^verbatim>\<open>ZINCRBY\<close> creates a member that is missing, a success that is reported after the
  proxy was evicted (or replaced) makes it a candidate again, whatever the cooldown says.\<close>

lemma late_success_readmits:
  assumes "script_laws R V" and "rv_zs (V d) setKey url = None"
    and "luaRecordSuccess R setKey sk url boost d = (RInt n, d')"
  shows "rv_zs (V d') setKey url = Some boost"
  using record_success_effect(2) [OF assms(1,3)] assms(2) by simp

end
