(* ===== verification/MatchRecords.thy ===== *)
theory MatchRecords
  imports Json
begin

text \<open>
  The data of a match: the rows that are stored (\<^verbatim>\<open>internal/storage/matchstore/match.go\<close>) and the
  raw structs the upstream text is read into (\<^verbatim>\<open>internal/worker/parser/decode.go\<close>). The
  \<open>_fields\<close> list of a raw struct gives its JSON tags with the Go types, which decide whether
  \<^verbatim>\<open>json.Unmarshal\<close> reports an error (\<open>conforms\<close>); its \<open>read_\<close> function gives what the call
  leaves in the struct. Integers are \<open>int\<close>, with their ranges proved from the Go types; a pointer is
  an option; \<^verbatim>\<open>float32\<close> values are the number literal they are read from, \<open>''0''\<close> for zero; a
  \<^verbatim>\<open>json.RawMessage\<close> is the value its text denotes, \<open>None\<close> for nil. Of a member that occurs twice
  the last occurrence counts.
\<close>

section \<open>Rows\<close>

record PlayerRow =
  pr_PlayerSlot :: int
  pr_AccountID :: int
  pr_HeroID :: int
  pr_HeroVariant :: int
  pr_IsRadiant :: bool
  pr_Win :: bool
  pr_PatchID :: int
  pr_LobbyType :: int
  pr_GameMode :: int
  pr_RankTier :: int
  pr_Kills :: int
  pr_Deaths :: int
  pr_Assists :: int
  pr_Level :: int
  pr_NetWorth :: int
  pr_Gold :: int
  pr_GoldSpent :: int
  pr_GoldPerMin :: int
  pr_XPPerMin :: int
  pr_LastHits :: int
  pr_Denies :: int
  pr_HeroDamage :: int
  pr_TowerDamage :: int
  pr_HeroHealing :: int
  pr_Item0 :: int
  pr_Item1 :: int
  pr_Item2 :: int
  pr_Item3 :: int
  pr_Item4 :: int
  pr_Item5 :: int
  pr_ItemNeutral :: int
  pr_Backpack0 :: int
  pr_Backpack1 :: int
  pr_Backpack2 :: int
  pr_Backpack3 :: int
  pr_Lane :: int
  pr_LaneRole :: int
  pr_IsRoaming :: bool
  pr_PartyID :: int
  pr_PartySize :: int
  pr_Stuns :: string
  pr_ObsPlaced :: int
  pr_SenPlaced :: int
  pr_CreepsStacked :: int
  pr_CampsStacked :: int
  pr_RunePickups :: int
  pr_FirstbloodClaimed :: bool
  pr_TeamfightParticipation :: string
  pr_TowersKilled :: int
  pr_RoshansKilled :: int
  pr_ObserversPlaced :: int
  pr_LeaverStatus :: int
  pr_GoldT :: "int list"
  pr_XPT :: "int list"
  pr_LHT :: "int list"
  pr_DNT :: "int list"
  pr_Times :: "int list"
  pr_ThrowGold :: int
  pr_ComebackGold :: int
  pr_LossGold :: int
  pr_WinGold :: int

record PlayerDetailRow =
  pd_PlayerSlot :: int
  pd_Damage :: "json option"
  pd_DamageTaken :: "json option"
  pd_DamageInflictor :: "json option"
  pd_DamageInflictorReceived :: "json option"
  pd_DamageTargets :: "json option"
  pd_HeroHits :: "json option"
  pd_MaxHeroHit :: "json option"
  pd_AbilityUses :: "json option"
  pd_AbilityTargets :: "json option"
  pd_AbilityUpgradesArr :: "json option"
  pd_ItemUses :: "json option"
  pd_GoldReasons :: "json option"
  pd_XPReasons :: "json option"
  pd_Killed :: "json option"
  pd_KilledBy :: "json option"
  pd_KillStreaks :: "json option"
  pd_MultiKills :: "json option"
  pd_LifeState :: "json option"
  pd_LanePos :: "json option"
  pd_Obs :: "json option"
  pd_Sen :: "json option"
  pd_Actions :: "json option"
  pd_Pings :: "json option"
  pd_Runes :: "json option"
  pd_Purchase :: "json option"
  pd_ObsLog :: "json option"
  pd_SenLog :: "json option"
  pd_ObsLeftLog :: "json option"
  pd_SenLeftLog :: "json option"
  pd_PurchaseLog :: "json option"
  pd_KillsLog :: "json option"
  pd_BuybackLog :: "json option"
  pd_RunesLog :: "json option"
  pd_ConnectionLog :: "json option"
  pd_PermanentBuffs :: "json option"
  pd_NeutralTokensLog :: "json option"
  pd_NeutralItemHistory :: "json option"
  pd_AdditionalUnits :: "json option"
  pd_Cosmetics :: "json option"
  pd_Benchmarks :: "json option"
  pd_AllWordCounts :: "json option"
  pd_MyWordCounts :: "json option"

record PickBanRow =
  pb_Order :: int
  pb_IsPick :: bool
  pb_HeroID :: int
  pb_Team :: int

record DraftTimingRow =
  dt_Order :: int
  dt_Pick :: bool
  dt_ActiveTeam :: int
  dt_HeroID :: int
  dt_PlayerSlot :: int
  dt_ExtraTime :: int
  dt_TotalTimeTaken :: int

record ObjectiveRow =
  ob_Time :: int
  ob_Type :: string
  ob_Slot :: int
  ob_PlayerSlot :: int
  ob_Team :: int
  ob_Key :: string
  ob_Value :: int
  ob_Unit :: string
  ob_Raw :: json

record ChatRow =
  ch_Time :: int
  ch_Type :: string
  ch_PlayerSlot :: int
  ch_Unit :: string
  ch_Key :: string

record TeamfightRow =
  tf_EndTime :: int
  tf_LastDeath :: int
  tf_Deaths :: int
  tf_Players :: "json option"

record AdvantagesRow =
  av_RadiantGoldAdv :: "int list"
  av_RadiantXPAdv :: "int list"

record TimeseriesRow =
  ts_PlayerSlot :: int
  ts_Minute :: int
  ts_HeroID :: int
  ts_AccountID :: int
  ts_PatchID :: int
  ts_Gold :: int
  ts_XP :: int
  ts_LH :: int
  ts_DN :: int

record Match =
  m_MatchID :: int
  m_MatchSeqNum :: int
  m_StartTime :: int
  m_Duration :: int
  m_RadiantWin :: bool
  m_TowerStatusRadiant :: int
  m_TowerStatusDire :: int
  m_BarracksStatusRadiant :: int
  m_BarracksStatusDire :: int
  m_RadiantScore :: int
  m_DireScore :: int
  m_FirstBloodTime :: int
  m_LobbyType :: int
  m_GameMode :: int
  m_Cluster :: int
  m_Region :: int
  m_Skill :: int
  m_Engine :: int
  m_HumanPlayers :: int
  m_Version :: int
  m_PatchID :: int
  m_PositiveVotes :: int
  m_NegativeVotes :: int
  m_LeagueID :: int
  m_SeriesID :: int
  m_SeriesType :: int
  m_RadiantTeamID :: int
  m_DireTeamID :: int
  m_RadiantCaptain :: int
  m_DireCaptain :: int
  m_ReplaySalt :: int
  m_ReplayURL :: string
  m_Pauses :: "json option"
  m_IsParsed :: bool
  m_Players :: "PlayerRow list"
  m_Details :: "PlayerDetailRow list"
  m_PicksBans :: "PickBanRow list"
  m_DraftTimings :: "DraftTimingRow list"
  m_Objectives :: "ObjectiveRow list"
  m_Chat :: "ChatRow list"
  m_Teamfights :: "TeamfightRow list"
  m_Advantages :: "AdvantagesRow option"
  m_Cosmetics :: "json option"
  m_Timeseries :: "TimeseriesRow list"
  m_Raw :: bytes

record Counts =
  ct_Matches :: int
  ct_Players :: int

section \<open>Raw structs\<close>

record rawPickBan =
  rb_Order :: int
  rb_IsPick :: bool
  rb_HeroID :: int
  rb_Team :: int

record rawDraftTiming =
  rd_Order :: int
  rd_Pick :: bool
  rd_ActiveTeam :: "int option"
  rd_HeroID :: "int option"
  rd_PlayerSlot :: "int option"
  rd_ExtraTime :: "int option"
  rd_TotalTimeTaken :: "int option"

record rawObjective =
  ro_Time :: int
  ro_Type :: string
  ro_Slot :: "int option"
  ro_PlayerSlot :: "int option"
  ro_Team :: "int option"
  ro_Key :: "json option"
  ro_Value :: "int option"
  ro_Unit :: "string option"

record rawChat =
  rc_Time :: int
  rc_Type :: "string option"
  rc_PlayerSlot :: "int option"
  rc_Unit :: "string option"
  rc_Key :: "string option"

record rawTeamfight =
  rt_End :: int
  rt_LastDeath :: "int option"
  rt_Deaths :: "int option"
  rt_Players :: "json option"

record rawPlayer =
  rp_PlayerSlot :: int
  rp_AccountID :: "int option"
  rp_HeroID :: int
  rp_HeroVariant :: "int option"
  rp_IsRadiant :: "bool option"
  rp_Win :: "int option"
  rp_PatchID :: "int option"
  rp_LobbyType :: "int option"
  rp_GameMode :: "int option"
  rp_RankTier :: "int option"
  rp_Kills :: int
  rp_Deaths :: int
  rp_Assists :: int
  rp_Level :: "int option"
  rp_NetWorth :: "int option"
  rp_Gold :: "int option"
  rp_GoldSpent :: "int option"
  rp_GoldPerMin :: "int option"
  rp_XPPerMin :: "int option"
  rp_LastHits :: "int option"
  rp_Denies :: "int option"
  rp_HeroDamage :: "int option"
  rp_TowerDamage :: "int option"
  rp_HeroHealing :: "int option"
  rp_Item0 :: "int option"
  rp_Item1 :: "int option"
  rp_Item2 :: "int option"
  rp_Item3 :: "int option"
  rp_Item4 :: "int option"
  rp_Item5 :: "int option"
  rp_ItemNeutral :: "int option"
  rp_Backpack0 :: "int option"
  rp_Backpack1 :: "int option"
  rp_Backpack2 :: "int option"
  rp_Backpack3 :: "int option"
  rp_Lane :: "int option"
  rp_LaneRole :: "int option"
  rp_IsRoaming :: "bool option"
  rp_PartyID :: "int option"
  rp_PartySize :: "int option"
  rp_Stuns :: "string option"
  rp_ObsPlaced :: "int option"
  rp_SenPlaced :: "int option"
  rp_CreepsStacked :: "int option"
  rp_CampsStacked :: "int option"
  rp_RunePickups :: "int option"
  rp_FirstbloodClaimed :: "int option"
  rp_TeamfightParticipation :: "string option"
  rp_TowersKilled :: "int option"
  rp_RoshansKilled :: "int option"
  rp_ObserversPlaced :: "int option"
  rp_LeaverStatus :: "int option"
  rp_GoldT :: "int list"
  rp_XPT :: "int list"
  rp_LHT :: "int list"
  rp_DNT :: "int list"
  rp_Times :: "int list"
  rp_ThrowGold :: "int option"
  rp_ComebackGold :: "int option"
  rp_LossGold :: "int option"
  rp_WinGold :: "int option"
  rp_Damage :: "json option"
  rp_DamageTaken :: "json option"
  rp_DamageInflictor :: "json option"
  rp_DamageInflictorReceived :: "json option"
  rp_DamageTargets :: "json option"
  rp_HeroHits :: "json option"
  rp_MaxHeroHit :: "json option"
  rp_AbilityUses :: "json option"
  rp_AbilityTargets :: "json option"
  rp_AbilityUpgradesArr :: "json option"
  rp_ItemUses :: "json option"
  rp_GoldReasons :: "json option"
  rp_XPReasons :: "json option"
  rp_Killed :: "json option"
  rp_KilledBy :: "json option"
  rp_KillStreaks :: "json option"
  rp_MultiKills :: "json option"
  rp_LifeState :: "json option"
  rp_LanePos :: "json option"
  rp_Obs :: "json option"
  rp_Sen :: "json option"
  rp_Actions :: "json option"
  rp_Pings :: "json option"
  rp_Runes :: "json option"
  rp_Purchase :: "json option"
  rp_ObsLog :: "json option"
  rp_SenLog :: "json option"
  rp_ObsLeftLog :: "json option"
  rp_SenLeftLog :: "json option"
  rp_PurchaseLog :: "json option"
  rp_KillsLog :: "json option"
  rp_BuybackLog :: "json option"
  rp_RunesLog :: "json option"
  rp_ConnectionLog :: "json option"
  rp_PermanentBuffs :: "json option"
  rp_NeutralTokensLog :: "json option"
  rp_NeutralItemHistory :: "json option"
  rp_AdditionalUnits :: "json option"
  rp_Cosmetics :: "json option"
  rp_Benchmarks :: "json option"
  rp_AllWordCounts :: "json option"
  rp_MyWordCounts :: "json option"

record rawMatch =
  rm_MatchID :: int
  rm_MatchSeqNum :: "int option"
  rm_StartTime :: int
  rm_Duration :: int
  rm_RadiantWin :: "bool option"
  rm_TowerStatusRadiant :: "int option"
  rm_TowerStatusDire :: "int option"
  rm_BarracksStatusRadiant :: "int option"
  rm_BarracksStatusDire :: "int option"
  rm_RadiantScore :: "int option"
  rm_DireScore :: "int option"
  rm_FirstBloodTime :: "int option"
  rm_LobbyType :: "int option"
  rm_GameMode :: "int option"
  rm_Cluster :: "int option"
  rm_Region :: "int option"
  rm_Skill :: "int option"
  rm_Engine :: "int option"
  rm_HumanPlayers :: "int option"
  rm_Version :: "int option"
  rm_Patch :: "int option"
  rm_PositiveVotes :: "int option"
  rm_NegativeVotes :: "int option"
  rm_LeagueID :: "int option"
  rm_SeriesID :: "int option"
  rm_SeriesType :: "int option"
  rm_RadiantTeamID :: "int option"
  rm_DireTeamID :: "int option"
  rm_RadiantCaptain :: "int option"
  rm_DireCaptain :: "int option"
  rm_ReplaySalt :: "int option"
  rm_ReplayURL :: "string option"
  rm_Pauses :: "json option"
  rm_Cosmetics :: "json option"
  rm_Players :: "rawPlayer list"
  rm_PicksBans :: "rawPickBan list"
  rm_DraftTimings :: "rawDraftTiming list"
  rm_Objectives :: "rawObjective list"
  rm_Chat :: "rawChat list"
  rm_Teamfights :: "rawTeamfight list"
  rm_RadiantGoldAdv :: "int list"
  rm_RadiantXPAdv :: "int list"

section \<open>JSON tags and Go types\<close>

definition rawPickBan_fields :: "(string \<times> go_type) list" where
  "rawPickBan_fields =
    [(''order'', GInt16), (''is_pick'', GBool), (''hero_id'', GInt16), (''team'', GInt16)]"

definition rawDraftTiming_fields :: "(string \<times> go_type) list" where
  "rawDraftTiming_fields =
    [(''order'', GInt16), (''pick'', GBool), (''active_team'', GPtr GInt16),
     (''hero_id'', GPtr GInt16), (''player_slot'', GPtr GInt16), (''extra_time'', GPtr GInt32),
     (''total_time_taken'', GPtr GInt32)]"

definition rawObjective_fields :: "(string \<times> go_type) list" where
  "rawObjective_fields =
    [(''time'', GInt32), (''type'', GString), (''slot'', GPtr GInt16),
     (''player_slot'', GPtr GInt16), (''team'', GPtr GInt16), (''key'', GRaw),
     (''value'', GPtr GInt32), (''unit'', GPtr GString)]"

definition rawChat_fields :: "(string \<times> go_type) list" where
  "rawChat_fields =
    [(''time'', GInt32), (''type'', GPtr GString), (''player_slot'', GPtr GInt16),
     (''unit'', GPtr GString), (''key'', GPtr GString)]"

definition rawTeamfight_fields :: "(string \<times> go_type) list" where
  "rawTeamfight_fields =
    [(''end'', GInt32), (''last_death'', GPtr GInt32), (''deaths'', GPtr GInt16),
     (''players'', GRaw)]"

definition rawPlayer_fields :: "(string \<times> go_type) list" where
  "rawPlayer_fields =
    [(''player_slot'', GInt16), (''account_id'', GPtr GInt64), (''hero_id'', GInt16),
     (''hero_variant'', GPtr GInt16), (''isRadiant'', GPtr GBool), (''win'', GPtr GInt16),
     (''patch'', GPtr GInt32), (''lobby_type'', GPtr GInt16), (''game_mode'', GPtr GInt16),
     (''rank_tier'', GPtr GInt16), (''kills'', GInt16), (''deaths'', GInt16), (''assists'', GInt16),
     (''level'', GPtr GInt16), (''net_worth'', GPtr GInt32), (''gold'', GPtr GInt32),
     (''gold_spent'', GPtr GInt32), (''gold_per_min'', GPtr GInt16), (''xp_per_min'', GPtr GInt16),
     (''last_hits'', GPtr GInt16), (''denies'', GPtr GInt16), (''hero_damage'', GPtr GInt32),
     (''tower_damage'', GPtr GInt32), (''hero_healing'', GPtr GInt32), (''item_0'', GPtr GInt32),
     (''item_1'', GPtr GInt32), (''item_2'', GPtr GInt32), (''item_3'', GPtr GInt32),
     (''item_4'', GPtr GInt32), (''item_5'', GPtr GInt32), (''item_neutral'', GPtr GInt32),
     (''backpack_0'', GPtr GInt32), (''backpack_1'', GPtr GInt32), (''backpack_2'', GPtr GInt32),
     (''backpack_3'', GPtr GInt32), (''lane'', GPtr GInt16), (''lane_role'', GPtr GInt16),
     (''is_roaming'', GPtr GBool), (''party_id'', GPtr GInt32), (''party_size'', GPtr GInt16),
     (''stuns'', GPtr GFloat), (''obs_placed'', GPtr GInt16), (''sen_placed'', GPtr GInt16),
     (''creeps_stacked'', GPtr GInt16), (''camps_stacked'', GPtr GInt16),
     (''rune_pickups'', GPtr GInt16), (''firstblood_claimed'', GPtr GInt16),
     (''teamfight_participation'', GPtr GFloat), (''towers_killed'', GPtr GInt16),
     (''roshans_killed'', GPtr GInt16), (''observers_placed'', GPtr GInt16),
     (''leaver_status'', GPtr GInt16), (''gold_t'', GSlice GInt32), (''xp_t'', GSlice GInt32),
     (''lh_t'', GSlice GInt32), (''dn_t'', GSlice GInt32), (''times'', GSlice GInt32),
     (''throw'', GPtr GInt32), (''comeback'', GPtr GInt32), (''loss'', GPtr GInt32),
     (''win_gold'', GPtr GInt32), (''damage'', GRaw), (''damage_taken'', GRaw),
     (''damage_inflictor'', GRaw), (''damage_inflictor_received'', GRaw),
     (''damage_targets'', GRaw), (''hero_hits'', GRaw), (''max_hero_hit'', GRaw),
     (''ability_uses'', GRaw), (''ability_targets'', GRaw), (''ability_upgrades_arr'', GRaw),
     (''item_uses'', GRaw), (''gold_reasons'', GRaw), (''xp_reasons'', GRaw), (''killed'', GRaw),
     (''killed_by'', GRaw), (''kill_streaks'', GRaw), (''multi_kills'', GRaw),
     (''life_state'', GRaw), (''lane_pos'', GRaw), (''obs'', GRaw), (''sen'', GRaw),
     (''actions'', GRaw), (''pings'', GRaw), (''runes'', GRaw), (''purchase'', GRaw),
     (''obs_log'', GRaw), (''sen_log'', GRaw), (''obs_left_log'', GRaw), (''sen_left_log'', GRaw),
     (''purchase_log'', GRaw), (''kills_log'', GRaw), (''buyback_log'', GRaw),
     (''runes_log'', GRaw), (''connection_log'', GRaw), (''permanent_buffs'', GRaw),
     (''neutral_tokens_log'', GRaw), (''neutral_item_history'', GRaw), (''additional_units'', GRaw),
     (''cosmetics'', GRaw), (''benchmarks'', GRaw), (''all_word_counts'', GRaw),
     (''my_word_counts'', GRaw)]"

definition rawMatch_fields :: "(string \<times> go_type) list" where
  "rawMatch_fields =
    [(''match_id'', GInt64), (''match_seq_num'', GPtr GInt64), (''start_time'', GInt64),
     (''duration'', GInt32), (''radiant_win'', GPtr GBool), (''tower_status_radiant'', GPtr GInt16),
     (''tower_status_dire'', GPtr GInt16), (''barracks_status_radiant'', GPtr GInt16),
     (''barracks_status_dire'', GPtr GInt16), (''radiant_score'', GPtr GInt16),
     (''dire_score'', GPtr GInt16), (''first_blood_time'', GPtr GInt32),
     (''lobby_type'', GPtr GInt16), (''game_mode'', GPtr GInt16), (''cluster'', GPtr GInt16),
     (''region'', GPtr GInt16), (''skill'', GPtr GInt16), (''engine'', GPtr GInt16),
     (''human_players'', GPtr GInt16), (''version'', GPtr GInt16), (''patch'', GPtr GInt32),
     (''positive_votes'', GPtr GInt32), (''negative_votes'', GPtr GInt32),
     (''leagueid'', GPtr GInt32), (''series_id'', GPtr GInt32), (''series_type'', GPtr GInt16),
     (''radiant_team_id'', GPtr GInt64), (''dire_team_id'', GPtr GInt64),
     (''radiant_captain'', GPtr GInt64), (''dire_captain'', GPtr GInt64),
     (''replay_salt'', GPtr GInt64), (''replay_url'', GPtr GString), (''pauses'', GRaw),
     (''cosmetics'', GRaw), (''players'', GSlice (GStruct rawPlayer_fields)),
     (''picks_bans'', GSlice (GStruct rawPickBan_fields)),
     (''draft_timings'', GSlice (GStruct rawDraftTiming_fields)),
     (''objectives'', GSlice (GStruct rawObjective_fields)),
     (''chat'', GSlice (GStruct rawChat_fields)),
     (''teamfights'', GSlice (GStruct rawTeamfight_fields)), (''radiant_gold_adv'', GSlice GInt32),
     (''radiant_xp_adv'', GSlice GInt32)]"

section \<open>Reading\<close>

definition read_rawPickBan :: "json \<Rightarrow> rawPickBan" where
  "read_rawPickBan j =
    \<lparr> rb_Order = get_int j ''order'', rb_IsPick = get_bool j ''is_pick'',
      rb_HeroID = get_int j ''hero_id'', rb_Team = get_int j ''team'' \<rparr>"

definition read_rawDraftTiming :: "json \<Rightarrow> rawDraftTiming" where
  "read_rawDraftTiming j =
    \<lparr> rd_Order = get_int j ''order'', rd_Pick = get_bool j ''pick'',
      rd_ActiveTeam = get_ptr int_val j ''active_team'', rd_HeroID = get_ptr int_val j ''hero_id'',
      rd_PlayerSlot = get_ptr int_val j ''player_slot'',
      rd_ExtraTime = get_ptr int_val j ''extra_time'',
      rd_TotalTimeTaken = get_ptr int_val j ''total_time_taken'' \<rparr>"

definition read_rawObjective :: "json \<Rightarrow> rawObjective" where
  "read_rawObjective j =
    \<lparr> ro_Time = get_int j ''time'', ro_Type = get_str j ''type'', ro_Slot = get_ptr int_val j ''slot'',
      ro_PlayerSlot = get_ptr int_val j ''player_slot'', ro_Team = get_ptr int_val j ''team'',
      ro_Key = get_raw j ''key'', ro_Value = get_ptr int_val j ''value'',
      ro_Unit = get_ptr str_val j ''unit'' \<rparr>"

definition read_rawChat :: "json \<Rightarrow> rawChat" where
  "read_rawChat j =
    \<lparr> rc_Time = get_int j ''time'', rc_Type = get_ptr str_val j ''type'',
      rc_PlayerSlot = get_ptr int_val j ''player_slot'', rc_Unit = get_ptr str_val j ''unit'',
      rc_Key = get_ptr str_val j ''key'' \<rparr>"

definition read_rawTeamfight :: "json \<Rightarrow> rawTeamfight" where
  "read_rawTeamfight j =
    \<lparr> rt_End = get_int j ''end'', rt_LastDeath = get_ptr int_val j ''last_death'',
      rt_Deaths = get_ptr int_val j ''deaths'', rt_Players = get_raw j ''players'' \<rparr>"

definition read_rawPlayer :: "json \<Rightarrow> rawPlayer" where
  "read_rawPlayer j =
    \<lparr> rp_PlayerSlot = get_int j ''player_slot'', rp_AccountID = get_ptr int_val j ''account_id'',
      rp_HeroID = get_int j ''hero_id'', rp_HeroVariant = get_ptr int_val j ''hero_variant'',
      rp_IsRadiant = get_ptr bool_val j ''isRadiant'', rp_Win = get_ptr int_val j ''win'',
      rp_PatchID = get_ptr int_val j ''patch'', rp_LobbyType = get_ptr int_val j ''lobby_type'',
      rp_GameMode = get_ptr int_val j ''game_mode'', rp_RankTier = get_ptr int_val j ''rank_tier'',
      rp_Kills = get_int j ''kills'', rp_Deaths = get_int j ''deaths'',
      rp_Assists = get_int j ''assists'', rp_Level = get_ptr int_val j ''level'',
      rp_NetWorth = get_ptr int_val j ''net_worth'', rp_Gold = get_ptr int_val j ''gold'',
      rp_GoldSpent = get_ptr int_val j ''gold_spent'',
      rp_GoldPerMin = get_ptr int_val j ''gold_per_min'',
      rp_XPPerMin = get_ptr int_val j ''xp_per_min'', rp_LastHits = get_ptr int_val j ''last_hits'',
      rp_Denies = get_ptr int_val j ''denies'', rp_HeroDamage = get_ptr int_val j ''hero_damage'',
      rp_TowerDamage = get_ptr int_val j ''tower_damage'',
      rp_HeroHealing = get_ptr int_val j ''hero_healing'', rp_Item0 = get_ptr int_val j ''item_0'',
      rp_Item1 = get_ptr int_val j ''item_1'', rp_Item2 = get_ptr int_val j ''item_2'',
      rp_Item3 = get_ptr int_val j ''item_3'', rp_Item4 = get_ptr int_val j ''item_4'',
      rp_Item5 = get_ptr int_val j ''item_5'', rp_ItemNeutral = get_ptr int_val j ''item_neutral'',
      rp_Backpack0 = get_ptr int_val j ''backpack_0'', rp_Backpack1 = get_ptr int_val j ''backpack_1'',
      rp_Backpack2 = get_ptr int_val j ''backpack_2'', rp_Backpack3 = get_ptr int_val j ''backpack_3'',
      rp_Lane = get_ptr int_val j ''lane'', rp_LaneRole = get_ptr int_val j ''lane_role'',
      rp_IsRoaming = get_ptr bool_val j ''is_roaming'', rp_PartyID = get_ptr int_val j ''party_id'',
      rp_PartySize = get_ptr int_val j ''party_size'', rp_Stuns = get_ptr num_val j ''stuns'',
      rp_ObsPlaced = get_ptr int_val j ''obs_placed'', rp_SenPlaced = get_ptr int_val j ''sen_placed'',
      rp_CreepsStacked = get_ptr int_val j ''creeps_stacked'',
      rp_CampsStacked = get_ptr int_val j ''camps_stacked'',
      rp_RunePickups = get_ptr int_val j ''rune_pickups'',
      rp_FirstbloodClaimed = get_ptr int_val j ''firstblood_claimed'',
      rp_TeamfightParticipation = get_ptr num_val j ''teamfight_participation'',
      rp_TowersKilled = get_ptr int_val j ''towers_killed'',
      rp_RoshansKilled = get_ptr int_val j ''roshans_killed'',
      rp_ObserversPlaced = get_ptr int_val j ''observers_placed'',
      rp_LeaverStatus = get_ptr int_val j ''leaver_status'', rp_GoldT = get_slice int_val j ''gold_t'',
      rp_XPT = get_slice int_val j ''xp_t'', rp_LHT = get_slice int_val j ''lh_t'',
      rp_DNT = get_slice int_val j ''dn_t'', rp_Times = get_slice int_val j ''times'',
      rp_ThrowGold = get_ptr int_val j ''throw'', rp_ComebackGold = get_ptr int_val j ''comeback'',
      rp_LossGold = get_ptr int_val j ''loss'', rp_WinGold = get_ptr int_val j ''win_gold'',
      rp_Damage = get_raw j ''damage'', rp_DamageTaken = get_raw j ''damage_taken'',
      rp_DamageInflictor = get_raw j ''damage_inflictor'',
      rp_DamageInflictorReceived = get_raw j ''damage_inflictor_received'',
      rp_DamageTargets = get_raw j ''damage_targets'', rp_HeroHits = get_raw j ''hero_hits'',
      rp_MaxHeroHit = get_raw j ''max_hero_hit'', rp_AbilityUses = get_raw j ''ability_uses'',
      rp_AbilityTargets = get_raw j ''ability_targets'',
      rp_AbilityUpgradesArr = get_raw j ''ability_upgrades_arr'', rp_ItemUses = get_raw j ''item_uses'',
      rp_GoldReasons = get_raw j ''gold_reasons'', rp_XPReasons = get_raw j ''xp_reasons'',
      rp_Killed = get_raw j ''killed'', rp_KilledBy = get_raw j ''killed_by'',
      rp_KillStreaks = get_raw j ''kill_streaks'', rp_MultiKills = get_raw j ''multi_kills'',
      rp_LifeState = get_raw j ''life_state'', rp_LanePos = get_raw j ''lane_pos'',
      rp_Obs = get_raw j ''obs'', rp_Sen = get_raw j ''sen'', rp_Actions = get_raw j ''actions'',
      rp_Pings = get_raw j ''pings'', rp_Runes = get_raw j ''runes'',
      rp_Purchase = get_raw j ''purchase'', rp_ObsLog = get_raw j ''obs_log'',
      rp_SenLog = get_raw j ''sen_log'', rp_ObsLeftLog = get_raw j ''obs_left_log'',
      rp_SenLeftLog = get_raw j ''sen_left_log'', rp_PurchaseLog = get_raw j ''purchase_log'',
      rp_KillsLog = get_raw j ''kills_log'', rp_BuybackLog = get_raw j ''buyback_log'',
      rp_RunesLog = get_raw j ''runes_log'', rp_ConnectionLog = get_raw j ''connection_log'',
      rp_PermanentBuffs = get_raw j ''permanent_buffs'',
      rp_NeutralTokensLog = get_raw j ''neutral_tokens_log'',
      rp_NeutralItemHistory = get_raw j ''neutral_item_history'',
      rp_AdditionalUnits = get_raw j ''additional_units'', rp_Cosmetics = get_raw j ''cosmetics'',
      rp_Benchmarks = get_raw j ''benchmarks'', rp_AllWordCounts = get_raw j ''all_word_counts'',
      rp_MyWordCounts = get_raw j ''my_word_counts'' \<rparr>"

definition read_rawMatch :: "json \<Rightarrow> rawMatch" where
  "read_rawMatch j =
    \<lparr> rm_MatchID = get_int j ''match_id'', rm_MatchSeqNum = get_ptr int_val j ''match_seq_num'',
      rm_StartTime = get_int j ''start_time'', rm_Duration = get_int j ''duration'',
      rm_RadiantWin = get_ptr bool_val j ''radiant_win'',
      rm_TowerStatusRadiant = get_ptr int_val j ''tower_status_radiant'',
      rm_TowerStatusDire = get_ptr int_val j ''tower_status_dire'',
      rm_BarracksStatusRadiant = get_ptr int_val j ''barracks_status_radiant'',
      rm_BarracksStatusDire = get_ptr int_val j ''barracks_status_dire'',
      rm_RadiantScore = get_ptr int_val j ''radiant_score'',
      rm_DireScore = get_ptr int_val j ''dire_score'',
      rm_FirstBloodTime = get_ptr int_val j ''first_blood_time'',
      rm_LobbyType = get_ptr int_val j ''lobby_type'', rm_GameMode = get_ptr int_val j ''game_mode'',
      rm_Cluster = get_ptr int_val j ''cluster'', rm_Region = get_ptr int_val j ''region'',
      rm_Skill = get_ptr int_val j ''skill'', rm_Engine = get_ptr int_val j ''engine'',
      rm_HumanPlayers = get_ptr int_val j ''human_players'', rm_Version = get_ptr int_val j ''version'',
      rm_Patch = get_ptr int_val j ''patch'', rm_PositiveVotes = get_ptr int_val j ''positive_votes'',
      rm_NegativeVotes = get_ptr int_val j ''negative_votes'',
      rm_LeagueID = get_ptr int_val j ''leagueid'', rm_SeriesID = get_ptr int_val j ''series_id'',
      rm_SeriesType = get_ptr int_val j ''series_type'',
      rm_RadiantTeamID = get_ptr int_val j ''radiant_team_id'',
      rm_DireTeamID = get_ptr int_val j ''dire_team_id'',
      rm_RadiantCaptain = get_ptr int_val j ''radiant_captain'',
      rm_DireCaptain = get_ptr int_val j ''dire_captain'',
      rm_ReplaySalt = get_ptr int_val j ''replay_salt'',
      rm_ReplayURL = get_ptr str_val j ''replay_url'', rm_Pauses = get_raw j ''pauses'',
      rm_Cosmetics = get_raw j ''cosmetics'', rm_Players = get_slice read_rawPlayer j ''players'',
      rm_PicksBans = get_slice read_rawPickBan j ''picks_bans'',
      rm_DraftTimings = get_slice read_rawDraftTiming j ''draft_timings'',
      rm_Objectives = get_slice read_rawObjective j ''objectives'',
      rm_Chat = get_slice read_rawChat j ''chat'',
      rm_Teamfights = get_slice read_rawTeamfight j ''teamfights'',
      rm_RadiantGoldAdv = get_slice int_val j ''radiant_gold_adv'',
      rm_RadiantXPAdv = get_slice int_val j ''radiant_xp_adv'' \<rparr>"

section \<open>Fields of the structs that are read\<close>

lemma read_rawPickBan_sel:
  "rb_Order (read_rawPickBan j) = get_int j ''order''"
  "rb_IsPick (read_rawPickBan j) = get_bool j ''is_pick''"
  "rb_HeroID (read_rawPickBan j) = get_int j ''hero_id''"
  "rb_Team (read_rawPickBan j) = get_int j ''team''"
  unfolding read_rawPickBan_def by (rule rawPickBan.select_convs)+

lemma read_rawDraftTiming_sel:
  "rd_Order (read_rawDraftTiming j) = get_int j ''order''"
  "rd_Pick (read_rawDraftTiming j) = get_bool j ''pick''"
  "rd_ActiveTeam (read_rawDraftTiming j) = get_ptr int_val j ''active_team''"
  "rd_HeroID (read_rawDraftTiming j) = get_ptr int_val j ''hero_id''"
  "rd_PlayerSlot (read_rawDraftTiming j) = get_ptr int_val j ''player_slot''"
  "rd_ExtraTime (read_rawDraftTiming j) = get_ptr int_val j ''extra_time''"
  "rd_TotalTimeTaken (read_rawDraftTiming j) = get_ptr int_val j ''total_time_taken''"
  unfolding read_rawDraftTiming_def by (rule rawDraftTiming.select_convs)+

lemma read_rawObjective_sel:
  "ro_Time (read_rawObjective j) = get_int j ''time''"
  "ro_Type (read_rawObjective j) = get_str j ''type''"
  "ro_Slot (read_rawObjective j) = get_ptr int_val j ''slot''"
  "ro_PlayerSlot (read_rawObjective j) = get_ptr int_val j ''player_slot''"
  "ro_Team (read_rawObjective j) = get_ptr int_val j ''team''"
  "ro_Value (read_rawObjective j) = get_ptr int_val j ''value''"
  "ro_Unit (read_rawObjective j) = get_ptr str_val j ''unit''"
  unfolding read_rawObjective_def by (rule rawObjective.select_convs)+

lemma read_rawChat_sel:
  "rc_Time (read_rawChat j) = get_int j ''time''"
  "rc_Type (read_rawChat j) = get_ptr str_val j ''type''"
  "rc_PlayerSlot (read_rawChat j) = get_ptr int_val j ''player_slot''"
  "rc_Unit (read_rawChat j) = get_ptr str_val j ''unit''"
  "rc_Key (read_rawChat j) = get_ptr str_val j ''key''"
  unfolding read_rawChat_def by (rule rawChat.select_convs)+

lemma read_rawTeamfight_sel:
  "rt_End (read_rawTeamfight j) = get_int j ''end''"
  "rt_LastDeath (read_rawTeamfight j) = get_ptr int_val j ''last_death''"
  "rt_Deaths (read_rawTeamfight j) = get_ptr int_val j ''deaths''"
  unfolding read_rawTeamfight_def by (rule rawTeamfight.select_convs)+

lemma read_rawPlayer_sel:
  "rp_PlayerSlot (read_rawPlayer j) = get_int j ''player_slot''"
  "rp_AccountID (read_rawPlayer j) = get_ptr int_val j ''account_id''"
  "rp_HeroID (read_rawPlayer j) = get_int j ''hero_id''"
  "rp_HeroVariant (read_rawPlayer j) = get_ptr int_val j ''hero_variant''"
  "rp_IsRadiant (read_rawPlayer j) = get_ptr bool_val j ''isRadiant''"
  "rp_Win (read_rawPlayer j) = get_ptr int_val j ''win''"
  "rp_PatchID (read_rawPlayer j) = get_ptr int_val j ''patch''"
  "rp_LobbyType (read_rawPlayer j) = get_ptr int_val j ''lobby_type''"
  "rp_GameMode (read_rawPlayer j) = get_ptr int_val j ''game_mode''"
  "rp_RankTier (read_rawPlayer j) = get_ptr int_val j ''rank_tier''"
  "rp_Kills (read_rawPlayer j) = get_int j ''kills''"
  "rp_Deaths (read_rawPlayer j) = get_int j ''deaths''"
  "rp_Assists (read_rawPlayer j) = get_int j ''assists''"
  "rp_Level (read_rawPlayer j) = get_ptr int_val j ''level''"
  "rp_NetWorth (read_rawPlayer j) = get_ptr int_val j ''net_worth''"
  "rp_Gold (read_rawPlayer j) = get_ptr int_val j ''gold''"
  "rp_GoldSpent (read_rawPlayer j) = get_ptr int_val j ''gold_spent''"
  "rp_GoldPerMin (read_rawPlayer j) = get_ptr int_val j ''gold_per_min''"
  "rp_XPPerMin (read_rawPlayer j) = get_ptr int_val j ''xp_per_min''"
  "rp_LastHits (read_rawPlayer j) = get_ptr int_val j ''last_hits''"
  "rp_Denies (read_rawPlayer j) = get_ptr int_val j ''denies''"
  "rp_HeroDamage (read_rawPlayer j) = get_ptr int_val j ''hero_damage''"
  "rp_TowerDamage (read_rawPlayer j) = get_ptr int_val j ''tower_damage''"
  "rp_HeroHealing (read_rawPlayer j) = get_ptr int_val j ''hero_healing''"
  "rp_Item0 (read_rawPlayer j) = get_ptr int_val j ''item_0''"
  "rp_Item1 (read_rawPlayer j) = get_ptr int_val j ''item_1''"
  "rp_Item2 (read_rawPlayer j) = get_ptr int_val j ''item_2''"
  "rp_Item3 (read_rawPlayer j) = get_ptr int_val j ''item_3''"
  "rp_Item4 (read_rawPlayer j) = get_ptr int_val j ''item_4''"
  "rp_Item5 (read_rawPlayer j) = get_ptr int_val j ''item_5''"
  "rp_ItemNeutral (read_rawPlayer j) = get_ptr int_val j ''item_neutral''"
  "rp_Backpack0 (read_rawPlayer j) = get_ptr int_val j ''backpack_0''"
  "rp_Backpack1 (read_rawPlayer j) = get_ptr int_val j ''backpack_1''"
  "rp_Backpack2 (read_rawPlayer j) = get_ptr int_val j ''backpack_2''"
  "rp_Backpack3 (read_rawPlayer j) = get_ptr int_val j ''backpack_3''"
  "rp_Lane (read_rawPlayer j) = get_ptr int_val j ''lane''"
  "rp_LaneRole (read_rawPlayer j) = get_ptr int_val j ''lane_role''"
  "rp_IsRoaming (read_rawPlayer j) = get_ptr bool_val j ''is_roaming''"
  "rp_PartyID (read_rawPlayer j) = get_ptr int_val j ''party_id''"
  "rp_PartySize (read_rawPlayer j) = get_ptr int_val j ''party_size''"
  "rp_Stuns (read_rawPlayer j) = get_ptr num_val j ''stuns''"
  "rp_ObsPlaced (read_rawPlayer j) = get_ptr int_val j ''obs_placed''"
  "rp_SenPlaced (read_rawPlayer j) = get_ptr int_val j ''sen_placed''"
  "rp_CreepsStacked (read_rawPlayer j) = get_ptr int_val j ''creeps_stacked''"
  "rp_CampsStacked (read_rawPlayer j) = get_ptr int_val j ''camps_stacked''"
  "rp_RunePickups (read_rawPlayer j) = get_ptr int_val j ''rune_pickups''"
  "rp_FirstbloodClaimed (read_rawPlayer j) = get_ptr int_val j ''firstblood_claimed''"
  "rp_TeamfightParticipation (read_rawPlayer j) = get_ptr num_val j ''teamfight_participation''"
  "rp_TowersKilled (read_rawPlayer j) = get_ptr int_val j ''towers_killed''"
  "rp_RoshansKilled (read_rawPlayer j) = get_ptr int_val j ''roshans_killed''"
  "rp_ObserversPlaced (read_rawPlayer j) = get_ptr int_val j ''observers_placed''"
  "rp_LeaverStatus (read_rawPlayer j) = get_ptr int_val j ''leaver_status''"
  "rp_GoldT (read_rawPlayer j) = get_slice int_val j ''gold_t''"
  "rp_XPT (read_rawPlayer j) = get_slice int_val j ''xp_t''"
  "rp_LHT (read_rawPlayer j) = get_slice int_val j ''lh_t''"
  "rp_DNT (read_rawPlayer j) = get_slice int_val j ''dn_t''"
  "rp_Times (read_rawPlayer j) = get_slice int_val j ''times''"
  "rp_ThrowGold (read_rawPlayer j) = get_ptr int_val j ''throw''"
  "rp_ComebackGold (read_rawPlayer j) = get_ptr int_val j ''comeback''"
  "rp_LossGold (read_rawPlayer j) = get_ptr int_val j ''loss''"
  "rp_WinGold (read_rawPlayer j) = get_ptr int_val j ''win_gold''"
  "rp_PurchaseLog (read_rawPlayer j) = get_raw j ''purchase_log''"
  unfolding read_rawPlayer_def by (rule rawPlayer.select_convs)+

lemma read_rawMatch_sel:
  "rm_MatchID (read_rawMatch j) = get_int j ''match_id''"
  "rm_MatchSeqNum (read_rawMatch j) = get_ptr int_val j ''match_seq_num''"
  "rm_StartTime (read_rawMatch j) = get_int j ''start_time''"
  "rm_Duration (read_rawMatch j) = get_int j ''duration''"
  "rm_RadiantWin (read_rawMatch j) = get_ptr bool_val j ''radiant_win''"
  "rm_TowerStatusRadiant (read_rawMatch j) = get_ptr int_val j ''tower_status_radiant''"
  "rm_TowerStatusDire (read_rawMatch j) = get_ptr int_val j ''tower_status_dire''"
  "rm_BarracksStatusRadiant (read_rawMatch j) = get_ptr int_val j ''barracks_status_radiant''"
  "rm_BarracksStatusDire (read_rawMatch j) = get_ptr int_val j ''barracks_status_dire''"
  "rm_RadiantScore (read_rawMatch j) = get_ptr int_val j ''radiant_score''"
  "rm_DireScore (read_rawMatch j) = get_ptr int_val j ''dire_score''"
  "rm_FirstBloodTime (read_rawMatch j) = get_ptr int_val j ''first_blood_time''"
  "rm_LobbyType (read_rawMatch j) = get_ptr int_val j ''lobby_type''"
  "rm_GameMode (read_rawMatch j) = get_ptr int_val j ''game_mode''"
  "rm_Cluster (read_rawMatch j) = get_ptr int_val j ''cluster''"
  "rm_Region (read_rawMatch j) = get_ptr int_val j ''region''"
  "rm_Skill (read_rawMatch j) = get_ptr int_val j ''skill''"
  "rm_Engine (read_rawMatch j) = get_ptr int_val j ''engine''"
  "rm_HumanPlayers (read_rawMatch j) = get_ptr int_val j ''human_players''"
  "rm_Version (read_rawMatch j) = get_ptr int_val j ''version''"
  "rm_Patch (read_rawMatch j) = get_ptr int_val j ''patch''"
  "rm_PositiveVotes (read_rawMatch j) = get_ptr int_val j ''positive_votes''"
  "rm_NegativeVotes (read_rawMatch j) = get_ptr int_val j ''negative_votes''"
  "rm_LeagueID (read_rawMatch j) = get_ptr int_val j ''leagueid''"
  "rm_SeriesID (read_rawMatch j) = get_ptr int_val j ''series_id''"
  "rm_SeriesType (read_rawMatch j) = get_ptr int_val j ''series_type''"
  "rm_RadiantTeamID (read_rawMatch j) = get_ptr int_val j ''radiant_team_id''"
  "rm_DireTeamID (read_rawMatch j) = get_ptr int_val j ''dire_team_id''"
  "rm_RadiantCaptain (read_rawMatch j) = get_ptr int_val j ''radiant_captain''"
  "rm_DireCaptain (read_rawMatch j) = get_ptr int_val j ''dire_captain''"
  "rm_ReplaySalt (read_rawMatch j) = get_ptr int_val j ''replay_salt''"
  "rm_ReplayURL (read_rawMatch j) = get_ptr str_val j ''replay_url''"
  "rm_Players (read_rawMatch j) = get_slice read_rawPlayer j ''players''"
  "rm_PicksBans (read_rawMatch j) = get_slice read_rawPickBan j ''picks_bans''"
  "rm_DraftTimings (read_rawMatch j) = get_slice read_rawDraftTiming j ''draft_timings''"
  "rm_Objectives (read_rawMatch j) = get_slice read_rawObjective j ''objectives''"
  "rm_Chat (read_rawMatch j) = get_slice read_rawChat j ''chat''"
  "rm_Teamfights (read_rawMatch j) = get_slice read_rawTeamfight j ''teamfights''"
  "rm_RadiantGoldAdv (read_rawMatch j) = get_slice int_val j ''radiant_gold_adv''"
  "rm_RadiantXPAdv (read_rawMatch j) = get_slice int_val j ''radiant_xp_adv''"
  unfolding read_rawMatch_def by (rule rawMatch.select_convs)+

end
