(* ===== verification/Decode.thy ===== *)
theory Decode
  imports MatchRecords
begin

text \<open>
  Reading and checking the text of a match (\<^verbatim>\<open>internal/worker/parser/decode.go\<close>): the conversion of the
  raw structs into rows, the expansion of the per-minute series, and the validation.
\<close>

section \<open>Pointers and slices\<close>

definition deref64 :: "int option \<Rightarrow> int" where
  "deref64 p = (case p of None \<Rightarrow> 0 | Some x \<Rightarrow> x)"

definition deref32 :: "int option \<Rightarrow> int" where
  "deref32 p = (case p of None \<Rightarrow> 0 | Some x \<Rightarrow> x)"

definition deref16 :: "int option \<Rightarrow> int" where
  "deref16 p = (case p of None \<Rightarrow> 0 | Some x \<Rightarrow> x)"

definition derefBool :: "bool option \<Rightarrow> bool" where
  "derefBool p = (case p of None \<Rightarrow> False | Some b \<Rightarrow> b)"

definition derefF32 :: "string option \<Rightarrow> string" where
  "derefF32 p = (case p of None \<Rightarrow> ''0'' | Some x \<Rightarrow> x)"

definition derefStr :: "string option \<Rightarrow> string" where
  "derefStr p = (case p of None \<Rightarrow> [] | Some s \<Rightarrow> s)"

definition decToBool :: "int option \<Rightarrow> bool option" where
  "decToBool v = (case v of None \<Rightarrow> None | Some x \<Rightarrow> Some (x \<noteq> 0))"

definition safeSlice :: "int list \<Rightarrow> int list" where
  "safeSlice s = (if s = [] then [] else s)"

definition safeIdx :: "int list \<Rightarrow> nat \<Rightarrow> int option" where
  "safeIdx s i = (if i < length s then Some (s ! i) else None)"

definition safeIdxSmall :: "int list \<Rightarrow> nat \<Rightarrow> int option" where
  "safeIdxSmall s i =
     (if i < length s then Some (wrap16 (if 32767 < s ! i then 32767 else s ! i)) else None)"

section \<open>Rows of the match\<close>

definition isMatchParsed :: "rawMatch \<Rightarrow> bool" where
  "isMatchParsed rm =
     (rm_Players rm \<noteq> [] \<and>
      list_ex (\<lambda>p. rp_PurchaseLog p \<noteq> None \<or> rp_GoldT p \<noteq> [] \<or> rp_XPT p \<noteq> []) (rm_Players rm))"

text \<open>The member \<^verbatim>\<open>key\<close> of an objective: a string, or an integer as its decimal text.\<close>

definition objectiveKeyAsString :: "json option \<Rightarrow> string option" where
  "objectiveKeyAsString raw =
     (case raw of
        None \<Rightarrow> None
      | Some JNull \<Rightarrow> None
      | Some j \<Rightarrow>
          if conforms GString j then Some (str_val j)
          else if conforms GInt64 j then Some (itoa (int_val j))
          else None)"

definition convertPlayer :: "rawPlayer \<Rightarrow> PlayerRow" where
  "convertPlayer rp =
    (let win = (case rp_Win rp of None \<Rightarrow> False | Some w \<Rightarrow> w = 1);
         isRadiant = (case rp_IsRadiant rp of None \<Rightarrow> False | Some b \<Rightarrow> b);
         firstblood = (case decToBool (rp_FirstbloodClaimed rp) of None \<Rightarrow> False | Some b \<Rightarrow> b)
     in \<lparr> pr_PlayerSlot = rp_PlayerSlot rp, pr_AccountID = deref64 (rp_AccountID rp),
        pr_HeroID = rp_HeroID rp, pr_HeroVariant = deref16 (rp_HeroVariant rp), pr_IsRadiant = isRadiant,
        pr_Win = win, pr_PatchID = deref32 (rp_PatchID rp), pr_LobbyType = deref16 (rp_LobbyType rp),
        pr_GameMode = deref16 (rp_GameMode rp), pr_RankTier = deref16 (rp_RankTier rp),
        pr_Kills = rp_Kills rp, pr_Deaths = rp_Deaths rp, pr_Assists = rp_Assists rp,
        pr_Level = deref16 (rp_Level rp), pr_NetWorth = deref32 (rp_NetWorth rp),
        pr_Gold = deref32 (rp_Gold rp), pr_GoldSpent = deref32 (rp_GoldSpent rp),
        pr_GoldPerMin = deref16 (rp_GoldPerMin rp), pr_XPPerMin = deref16 (rp_XPPerMin rp),
        pr_LastHits = deref16 (rp_LastHits rp), pr_Denies = deref16 (rp_Denies rp),
        pr_HeroDamage = deref32 (rp_HeroDamage rp), pr_TowerDamage = deref32 (rp_TowerDamage rp),
        pr_HeroHealing = deref32 (rp_HeroHealing rp), pr_Item0 = deref32 (rp_Item0 rp),
        pr_Item1 = deref32 (rp_Item1 rp), pr_Item2 = deref32 (rp_Item2 rp),
        pr_Item3 = deref32 (rp_Item3 rp), pr_Item4 = deref32 (rp_Item4 rp),
        pr_Item5 = deref32 (rp_Item5 rp), pr_ItemNeutral = deref32 (rp_ItemNeutral rp),
        pr_Backpack0 = deref32 (rp_Backpack0 rp), pr_Backpack1 = deref32 (rp_Backpack1 rp),
        pr_Backpack2 = deref32 (rp_Backpack2 rp), pr_Backpack3 = deref32 (rp_Backpack3 rp),
        pr_Lane = deref16 (rp_Lane rp), pr_LaneRole = deref16 (rp_LaneRole rp),
        pr_IsRoaming = derefBool (rp_IsRoaming rp), pr_PartyID = deref32 (rp_PartyID rp),
        pr_PartySize = deref16 (rp_PartySize rp), pr_Stuns = derefF32 (rp_Stuns rp),
        pr_ObsPlaced = deref16 (rp_ObsPlaced rp), pr_SenPlaced = deref16 (rp_SenPlaced rp),
        pr_CreepsStacked = deref16 (rp_CreepsStacked rp), pr_CampsStacked = deref16 (rp_CampsStacked rp),
        pr_RunePickups = deref16 (rp_RunePickups rp), pr_FirstbloodClaimed = firstblood,
        pr_TeamfightParticipation = derefF32 (rp_TeamfightParticipation rp),
        pr_TowersKilled = deref16 (rp_TowersKilled rp), pr_RoshansKilled = deref16 (rp_RoshansKilled rp),
        pr_ObserversPlaced = deref16 (rp_ObserversPlaced rp),
        pr_LeaverStatus = deref16 (rp_LeaverStatus rp), pr_GoldT = safeSlice (rp_GoldT rp),
        pr_XPT = safeSlice (rp_XPT rp), pr_LHT = safeSlice (rp_LHT rp), pr_DNT = safeSlice (rp_DNT rp),
        pr_Times = safeSlice (rp_Times rp), pr_ThrowGold = deref32 (rp_ThrowGold rp),
        pr_ComebackGold = deref32 (rp_ComebackGold rp), pr_LossGold = deref32 (rp_LossGold rp),
        pr_WinGold = deref32 (rp_WinGold rp) \<rparr>)"

definition convertPlayerDetail :: "rawPlayer \<Rightarrow> PlayerDetailRow" where
  "convertPlayerDetail rp =
    \<lparr> pd_PlayerSlot = rp_PlayerSlot rp, pd_Damage = rp_Damage rp, pd_DamageTaken = rp_DamageTaken rp,
      pd_DamageInflictor = rp_DamageInflictor rp,
      pd_DamageInflictorReceived = rp_DamageInflictorReceived rp,
      pd_DamageTargets = rp_DamageTargets rp, pd_HeroHits = rp_HeroHits rp,
      pd_MaxHeroHit = rp_MaxHeroHit rp, pd_AbilityUses = rp_AbilityUses rp,
      pd_AbilityTargets = rp_AbilityTargets rp, pd_AbilityUpgradesArr = rp_AbilityUpgradesArr rp,
      pd_ItemUses = rp_ItemUses rp, pd_GoldReasons = rp_GoldReasons rp, pd_XPReasons = rp_XPReasons rp,
      pd_Killed = rp_Killed rp, pd_KilledBy = rp_KilledBy rp, pd_KillStreaks = rp_KillStreaks rp,
      pd_MultiKills = rp_MultiKills rp, pd_LifeState = rp_LifeState rp, pd_LanePos = rp_LanePos rp,
      pd_Obs = rp_Obs rp, pd_Sen = rp_Sen rp, pd_Actions = rp_Actions rp, pd_Pings = rp_Pings rp,
      pd_Runes = rp_Runes rp, pd_Purchase = rp_Purchase rp, pd_ObsLog = rp_ObsLog rp,
      pd_SenLog = rp_SenLog rp, pd_ObsLeftLog = rp_ObsLeftLog rp, pd_SenLeftLog = rp_SenLeftLog rp,
      pd_PurchaseLog = rp_PurchaseLog rp, pd_KillsLog = rp_KillsLog rp,
      pd_BuybackLog = rp_BuybackLog rp, pd_RunesLog = rp_RunesLog rp,
      pd_ConnectionLog = rp_ConnectionLog rp, pd_PermanentBuffs = rp_PermanentBuffs rp,
      pd_NeutralTokensLog = rp_NeutralTokensLog rp, pd_NeutralItemHistory = rp_NeutralItemHistory rp,
      pd_AdditionalUnits = rp_AdditionalUnits rp, pd_Cosmetics = rp_Cosmetics rp,
      pd_Benchmarks = rp_Benchmarks rp, pd_AllWordCounts = rp_AllWordCounts rp,
      pd_MyWordCounts = rp_MyWordCounts rp \<rparr>"

definition decodePlayers :: "rawPlayer list \<Rightarrow> PlayerRow list \<times> PlayerDetailRow list" where
  "decodePlayers raw = (map convertPlayer raw, map convertPlayerDetail raw)"

definition decodePicksBans :: "rawPickBan list \<Rightarrow> PickBanRow list" where
  "decodePicksBans raw =
     map (\<lambda>pb. \<lparr> pb_Order = rb_Order pb, pb_IsPick = rb_IsPick pb, pb_HeroID = rb_HeroID pb, pb_Team = rb_Team pb \<rparr>) raw"

definition decodeDraftTimings :: "rawDraftTiming list \<Rightarrow> DraftTimingRow list" where
  "decodeDraftTimings raw =
     map (\<lambda>d. \<lparr> dt_Order = rd_Order d, dt_Pick = rd_Pick d, dt_ActiveTeam = deref16 (rd_ActiveTeam d),
       dt_HeroID = deref16 (rd_HeroID d), dt_PlayerSlot = deref16 (rd_PlayerSlot d),
       dt_ExtraTime = deref32 (rd_ExtraTime d), dt_TotalTimeTaken = deref32 (rd_TotalTimeTaken d) \<rparr>) raw"

text \<open>\<^verbatim>\<open>json.Marshal\<close> of the raw objective: a nil pointer and a nil raw message are \<^verbatim>\<open>null\<close>.\<close>

definition ptr_json :: "('a \<Rightarrow> json) \<Rightarrow> 'a option \<Rightarrow> json" where
  "ptr_json f p = (case p of None \<Rightarrow> JNull | Some x \<Rightarrow> f x)"

definition marshal_objective :: "rawObjective \<Rightarrow> json" where
  "marshal_objective ob =
     JObj [(''time'', JNum (itoa (ro_Time ob))), (''type'', JStr (ro_Type ob)),
       (''slot'', ptr_json (\<lambda>n. JNum (itoa n)) (ro_Slot ob)),
       (''player_slot'', ptr_json (\<lambda>n. JNum (itoa n)) (ro_PlayerSlot ob)),
       (''team'', ptr_json (\<lambda>n. JNum (itoa n)) (ro_Team ob)), (''key'', ptr_json id (ro_Key ob)),
       (''value'', ptr_json (\<lambda>n. JNum (itoa n)) (ro_Value ob)), (''unit'', ptr_json JStr (ro_Unit ob))]"

definition decodeObjectives :: "rawObjective list \<Rightarrow> ObjectiveRow list" where
  "decodeObjectives raw =
     map (\<lambda>ob. \<lparr> ob_Time = ro_Time ob, ob_Type = ro_Type ob, ob_Slot = deref16 (ro_Slot ob),
       ob_PlayerSlot = deref16 (ro_PlayerSlot ob), ob_Team = deref16 (ro_Team ob),
       ob_Key = (case objectiveKeyAsString (ro_Key ob) of Some k \<Rightarrow> k | None \<Rightarrow> []),
       ob_Value = deref32 (ro_Value ob), ob_Unit = derefStr (ro_Unit ob), ob_Raw = marshal_objective ob \<rparr>) raw"

definition decodeChat :: "rawChat list \<Rightarrow> ChatRow list" where
  "decodeChat raw =
     map (\<lambda>c. \<lparr> ch_Time = rc_Time c, ch_Type = derefStr (rc_Type c), ch_PlayerSlot = deref16 (rc_PlayerSlot c),
       ch_Unit = derefStr (rc_Unit c), ch_Key = derefStr (rc_Key c) \<rparr>) raw"

definition decodeTeamfights :: "rawTeamfight list \<Rightarrow> TeamfightRow list" where
  "decodeTeamfights raw =
     map (\<lambda>t. \<lparr> tf_EndTime = rt_End t, tf_LastDeath = deref32 (rt_LastDeath t), tf_Deaths = deref16 (rt_Deaths t),
       tf_Players = rt_Players t \<rparr>) raw"

definition decodeAdvantages :: "int list \<Rightarrow> int list \<Rightarrow> AdvantagesRow option" where
  "decodeAdvantages gold xp =
     (if gold = [] \<and> xp = [] then None else Some \<lparr> av_RadiantGoldAdv = gold, av_RadiantXPAdv = xp \<rparr>)"

section \<open>The per-minute series\<close>

definition time_axis :: "rawPlayer \<Rightarrow> nat" where
  "time_axis p =
     (let m0 = length (rp_Times p)
      in if m0 = 0 then
           let m1 = (if m0 < length (rp_GoldT p) then length (rp_GoldT p) else m0);
               m2 = (if m1 < length (rp_XPT p) then length (rp_XPT p) else m1);
               m3 = (if m2 < length (rp_LHT p) then length (rp_LHT p) else m2)
           in if m3 < length (rp_DNT p) then length (rp_DNT p) else m3
         else m0)"

definition minute_row :: "rawPlayer \<Rightarrow> nat \<Rightarrow> TimeseriesRow list" where
  "minute_row p k =
     (let gold = safeIdx (rp_GoldT p) k;
          xp = safeIdx (rp_XPT p) k;
          lh = safeIdxSmall (rp_LHT p) k;
          dn = safeIdxSmall (rp_DNT p) k
      in if gold = None \<and> xp = None \<and> lh = None \<and> dn = None then []
         else [\<lparr> ts_PlayerSlot = rp_PlayerSlot p, ts_Minute = wrap16 (int k), ts_HeroID = rp_HeroID p,
           ts_AccountID = deref64 (rp_AccountID p), ts_PatchID = deref32 (rp_PatchID p),
           ts_Gold = deref32 gold, ts_XP = deref32 xp, ts_LH = deref16 lh, ts_DN = deref16 dn \<rparr>])"

fun minute_loop :: "rawPlayer \<Rightarrow> nat \<Rightarrow> nat \<Rightarrow> TimeseriesRow list \<Rightarrow> TimeseriesRow list" where
  "minute_loop p k 0 out = out"
| "minute_loop p k (Suc n) out = minute_loop p (Suc k) n (out @ minute_row p k)"

fun expand_loop :: "rawPlayer list \<Rightarrow> TimeseriesRow list \<Rightarrow> TimeseriesRow list" where
  "expand_loop [] out = out"
| "expand_loop (p # ps) out =
     (let maxMin = time_axis p
      in if maxMin = 0 then expand_loop ps out
         else expand_loop ps (minute_loop p 0 maxMin out))"

definition expandTimeseries :: "rawPlayer list \<Rightarrow> TimeseriesRow list" where
  "expandTimeseries players = expand_loop players []"

section \<open>The match\<close>

definition decodeMatchRoot :: "rawMatch \<Rightarrow> Match" where
  "decodeMatchRoot rm =
    \<lparr> m_MatchID = rm_MatchID rm, m_MatchSeqNum = deref64 (rm_MatchSeqNum rm),
      m_StartTime = rm_StartTime rm, m_Duration = rm_Duration rm,
      m_RadiantWin = derefBool (rm_RadiantWin rm),
      m_TowerStatusRadiant = deref16 (rm_TowerStatusRadiant rm),
      m_TowerStatusDire = deref16 (rm_TowerStatusDire rm),
      m_BarracksStatusRadiant = deref16 (rm_BarracksStatusRadiant rm),
      m_BarracksStatusDire = deref16 (rm_BarracksStatusDire rm),
      m_RadiantScore = deref16 (rm_RadiantScore rm), m_DireScore = deref16 (rm_DireScore rm),
      m_FirstBloodTime = deref32 (rm_FirstBloodTime rm), m_LobbyType = deref16 (rm_LobbyType rm),
      m_GameMode = deref16 (rm_GameMode rm), m_Cluster = deref16 (rm_Cluster rm),
      m_Region = deref16 (rm_Region rm), m_Skill = deref16 (rm_Skill rm),
      m_Engine = deref16 (rm_Engine rm), m_HumanPlayers = deref16 (rm_HumanPlayers rm),
      m_Version = deref16 (rm_Version rm), m_PatchID = deref32 (rm_Patch rm),
      m_PositiveVotes = deref32 (rm_PositiveVotes rm), m_NegativeVotes = deref32 (rm_NegativeVotes rm),
      m_LeagueID = deref32 (rm_LeagueID rm), m_SeriesID = deref32 (rm_SeriesID rm),
      m_SeriesType = deref16 (rm_SeriesType rm), m_RadiantTeamID = deref64 (rm_RadiantTeamID rm),
      m_DireTeamID = deref64 (rm_DireTeamID rm), m_RadiantCaptain = deref64 (rm_RadiantCaptain rm),
      m_DireCaptain = deref64 (rm_DireCaptain rm), m_ReplaySalt = deref64 (rm_ReplaySalt rm),
      m_ReplayURL = derefStr (rm_ReplayURL rm), m_Pauses = rm_Pauses rm, m_IsParsed = isMatchParsed rm,
      m_Players = [], m_Details = [], m_PicksBans = [], m_DraftTimings = [], m_Objectives = [], m_Chat = [],
      m_Teamfights = [], m_Advantages = None, m_Cosmetics = None, m_Timeseries = [], m_Raw = [] \<rparr>"

text \<open>\<^verbatim>\<open>json.Unmarshal(blob, &rm)\<close>. The text of its error is not modelled.\<close>

definition unmarshal_match :: "bytes \<Rightarrow> rawMatch option" where
  "unmarshal_match blob =
     (case json_parse blob of
        None \<Rightarrow> None
      | Some j \<Rightarrow> if conforms (GStruct rawMatch_fields) j then Some (read_rawMatch j) else None)"

definition decode_rows :: "rawMatch \<Rightarrow> bytes \<Rightarrow> Match" where
  "decode_rows rm blob =
     (decodeMatchRoot rm)\<lparr>
       m_Players := fst (decodePlayers (rm_Players rm)), m_Details := snd (decodePlayers (rm_Players rm)),
       m_PicksBans := decodePicksBans (rm_PicksBans rm),
       m_DraftTimings := decodeDraftTimings (rm_DraftTimings rm),
       m_Objectives := decodeObjectives (rm_Objectives rm),
       m_Chat := decodeChat (rm_Chat rm),
       m_Teamfights := decodeTeamfights (rm_Teamfights rm),
       m_Advantages := decodeAdvantages (rm_RadiantGoldAdv rm) (rm_RadiantXPAdv rm),
       m_Cosmetics := rm_Cosmetics rm,
       m_Timeseries := expandTimeseries (rm_Players rm),
       m_Raw := blob\<rparr>"

definition decodeMatch :: "int \<Rightarrow> bytes \<Rightarrow> go_error + Match" where
  "decodeMatch matchID blob =
     (case unmarshal_match blob of
        None \<Rightarrow> Inl (Wrapped ''unmarshal: '' (ErrText ''json''))
      | Some rm0 \<Rightarrow>
          let rm = (if rm_MatchID rm0 = 0 then rm0\<lparr>rm_MatchID := matchID\<rparr> else rm0)
          in if rm_MatchID rm \<le> 0 then Inl (ErrText (''invalid match_id: '' @ itoa (rm_MatchID rm)))
             else if rm_StartTime rm = 0 then
               Inl (ErrText (''match '' @ itoa (rm_MatchID rm) @ '': start_time missing''))
             else if rm_Duration rm < 0 then
               Inl (ErrText (''match '' @ itoa (rm_MatchID rm) @ '': negative duration''))
             else Inr (decode_rows rm blob))"

section \<open>Validation\<close>

definition validPlayerSlot :: "int \<Rightarrow> bool" where
  "validPlayerSlot s = (0 \<le> s \<and> s \<le> 4 \<or> 128 \<le> s \<and> s \<le> 132)"

fun validate_players :: "int \<Rightarrow> PlayerRow list \<Rightarrow> go_error option" where
  "validate_players mid [] = None"
| "validate_players mid (p # ps) =
     (if \<not> validPlayerSlot (pr_PlayerSlot p) then
        Some (ErrText (''match '' @ itoa mid @ '': invalid player_slot '' @ itoa (pr_PlayerSlot p)))
      else if pr_HeroID p < 0 then
        Some (ErrText (''match '' @ itoa mid @ '' slot '' @ itoa (pr_PlayerSlot p) @ '': invalid hero_id '' @ itoa (pr_HeroID p)))
      else validate_players mid ps)"

fun validate_picks :: "int \<Rightarrow> PickBanRow list \<Rightarrow> go_error option" where
  "validate_picks mid [] = None"
| "validate_picks mid (pb # pbs) =
     (if pb_Team pb \<noteq> 0 \<and> pb_Team pb \<noteq> 1 then
        Some (ErrText (''match '' @ itoa mid @ '': picks_bans team must be 0|1 (got '' @ itoa (pb_Team pb) @ '')''))
      else validate_picks mid pbs)"

definition validate :: "Match \<Rightarrow> go_error option" where
  "validate m =
     (if m_MatchID m \<le> 0 then Some (ErrText (''invalid match_id: '' @ itoa (m_MatchID m)))
      else if m_StartTime m \<le> 0 then Some (ErrText (''match '' @ itoa (m_MatchID m) @ '': start_time required''))
      else case validate_players (m_MatchID m) (m_Players m) of
        Some e \<Rightarrow> Some e
      | None \<Rightarrow> validate_picks (m_MatchID m) (m_PicksBans m))"

section \<open>Ranges of the Go types\<close>

definition PlayerRow_typed :: "PlayerRow \<Rightarrow> bool" where
  "PlayerRow_typed r \<longleftrightarrow>
     is_int16 (pr_PlayerSlot r) \<and> is_int64 (pr_AccountID r) \<and> is_int16 (pr_HeroID r) \<and>
     is_int16 (pr_HeroVariant r) \<and> is_int32 (pr_PatchID r) \<and>
     is_int16 (pr_LobbyType r) \<and> is_int16 (pr_GameMode r) \<and> is_int16 (pr_RankTier r) \<and>
     is_int16 (pr_Kills r) \<and> is_int16 (pr_Deaths r) \<and> is_int16 (pr_Assists r) \<and>
     is_int16 (pr_Level r) \<and> is_int32 (pr_NetWorth r) \<and> is_int32 (pr_Gold r) \<and>
     is_int32 (pr_GoldSpent r) \<and> is_int16 (pr_GoldPerMin r) \<and>
     is_int16 (pr_XPPerMin r) \<and> is_int16 (pr_LastHits r) \<and> is_int16 (pr_Denies r) \<and>
     is_int32 (pr_HeroDamage r) \<and> is_int32 (pr_TowerDamage r) \<and>
     is_int32 (pr_HeroHealing r) \<and> is_int32 (pr_Item0 r) \<and> is_int32 (pr_Item1 r) \<and>
     is_int32 (pr_Item2 r) \<and> is_int32 (pr_Item3 r) \<and> is_int32 (pr_Item4 r) \<and>
     is_int32 (pr_Item5 r) \<and> is_int32 (pr_ItemNeutral r) \<and> is_int32 (pr_Backpack0 r) \<and>
     is_int32 (pr_Backpack1 r) \<and> is_int32 (pr_Backpack2 r) \<and>
     is_int32 (pr_Backpack3 r) \<and> is_int16 (pr_Lane r) \<and> is_int16 (pr_LaneRole r) \<and>
     is_int32 (pr_PartyID r) \<and> is_int16 (pr_PartySize r) \<and> is_int16 (pr_ObsPlaced r) \<and>
     is_int16 (pr_SenPlaced r) \<and> is_int16 (pr_CreepsStacked r) \<and>
     is_int16 (pr_CampsStacked r) \<and> is_int16 (pr_RunePickups r) \<and>
     is_int16 (pr_TowersKilled r) \<and> is_int16 (pr_RoshansKilled r) \<and>
     is_int16 (pr_ObserversPlaced r) \<and> is_int16 (pr_LeaverStatus r) \<and>
     list_all is_int32 (pr_GoldT r) \<and> list_all is_int32 (pr_XPT r) \<and>
     list_all is_int32 (pr_LHT r) \<and> list_all is_int32 (pr_DNT r) \<and>
     list_all is_int32 (pr_Times r) \<and> is_int32 (pr_ThrowGold r) \<and>
     is_int32 (pr_ComebackGold r) \<and> is_int32 (pr_LossGold r) \<and> is_int32 (pr_WinGold r)"

definition PlayerDetailRow_typed :: "PlayerDetailRow \<Rightarrow> bool" where
  "PlayerDetailRow_typed r \<longleftrightarrow>
     is_int16 (pd_PlayerSlot r)"

definition PickBanRow_typed :: "PickBanRow \<Rightarrow> bool" where
  "PickBanRow_typed r \<longleftrightarrow>
     is_int16 (pb_Order r) \<and> is_int16 (pb_HeroID r) \<and> is_int16 (pb_Team r)"

definition DraftTimingRow_typed :: "DraftTimingRow \<Rightarrow> bool" where
  "DraftTimingRow_typed r \<longleftrightarrow>
     is_int16 (dt_Order r) \<and> is_int16 (dt_ActiveTeam r) \<and> is_int16 (dt_HeroID r) \<and>
     is_int16 (dt_PlayerSlot r) \<and> is_int32 (dt_ExtraTime r) \<and>
     is_int32 (dt_TotalTimeTaken r)"

definition ObjectiveRow_typed :: "ObjectiveRow \<Rightarrow> bool" where
  "ObjectiveRow_typed r \<longleftrightarrow>
     is_int32 (ob_Time r) \<and> is_int16 (ob_Slot r) \<and> is_int16 (ob_PlayerSlot r) \<and>
     is_int16 (ob_Team r) \<and> is_int32 (ob_Value r)"

definition ChatRow_typed :: "ChatRow \<Rightarrow> bool" where
  "ChatRow_typed r \<longleftrightarrow>
     is_int32 (ch_Time r) \<and> is_int16 (ch_PlayerSlot r)"

definition TeamfightRow_typed :: "TeamfightRow \<Rightarrow> bool" where
  "TeamfightRow_typed r \<longleftrightarrow>
     is_int32 (tf_EndTime r) \<and> is_int32 (tf_LastDeath r) \<and> is_int16 (tf_Deaths r)"

definition AdvantagesRow_typed :: "AdvantagesRow \<Rightarrow> bool" where
  "AdvantagesRow_typed r \<longleftrightarrow>
     list_all is_int32 (av_RadiantGoldAdv r) \<and> list_all is_int32 (av_RadiantXPAdv r)"

definition TimeseriesRow_typed :: "TimeseriesRow \<Rightarrow> bool" where
  "TimeseriesRow_typed r \<longleftrightarrow>
     is_int16 (ts_PlayerSlot r) \<and> is_int16 (ts_Minute r) \<and> is_int16 (ts_HeroID r) \<and>
     is_int64 (ts_AccountID r) \<and> is_int32 (ts_PatchID r) \<and> is_int32 (ts_Gold r) \<and>
     is_int32 (ts_XP r) \<and> is_int16 (ts_LH r) \<and> is_int16 (ts_DN r)"

definition Match_typed :: "Match \<Rightarrow> bool" where
  "Match_typed r \<longleftrightarrow>
     is_int64 (m_MatchID r) \<and> is_int64 (m_MatchSeqNum r) \<and> is_int64 (m_StartTime r) \<and>
     is_int32 (m_Duration r) \<and> is_int16 (m_TowerStatusRadiant r) \<and>
     is_int16 (m_TowerStatusDire r) \<and> is_int16 (m_BarracksStatusRadiant r) \<and>
     is_int16 (m_BarracksStatusDire r) \<and> is_int16 (m_RadiantScore r) \<and>
     is_int16 (m_DireScore r) \<and> is_int32 (m_FirstBloodTime r) \<and>
     is_int16 (m_LobbyType r) \<and> is_int16 (m_GameMode r) \<and> is_int16 (m_Cluster r) \<and>
     is_int16 (m_Region r) \<and> is_int16 (m_Skill r) \<and> is_int16 (m_Engine r) \<and>
     is_int16 (m_HumanPlayers r) \<and> is_int16 (m_Version r) \<and> is_int32 (m_PatchID r) \<and>
     is_int32 (m_PositiveVotes r) \<and> is_int32 (m_NegativeVotes r) \<and>
     is_int32 (m_LeagueID r) \<and> is_int32 (m_SeriesID r) \<and> is_int16 (m_SeriesType r) \<and>
     is_int64 (m_RadiantTeamID r) \<and> is_int64 (m_DireTeamID r) \<and>
     is_int64 (m_RadiantCaptain r) \<and> is_int64 (m_DireCaptain r) \<and>
     is_int64 (m_ReplaySalt r) \<and> list_all PlayerRow_typed (m_Players r) \<and>
     list_all PlayerDetailRow_typed (m_Details r) \<and>
     list_all PickBanRow_typed (m_PicksBans r) \<and>
     list_all DraftTimingRow_typed (m_DraftTimings r) \<and>
     list_all ObjectiveRow_typed (m_Objectives r) \<and> list_all ChatRow_typed (m_Chat r) \<and>
     list_all TeamfightRow_typed (m_Teamfights r) \<and>
     pred_option AdvantagesRow_typed (m_Advantages r) \<and>
     list_all TimeseriesRow_typed (m_Timeseries r)"

section \<open>Ranges\<close>

lemma ptr_range16:
  assumes "conforms (GStruct fs) j" and "(n, GPtr GInt16) \<in> set fs"
  shows "is_int16 (deref16 (get_ptr int_val j n))"
proof (cases "get_ptr int_val j n")
  case None
  then show ?thesis by (simp add: deref16_def is_int16_def)
next
  case (Some x)
  from get_ptr_conforms [OF assms Some] obtain v where "conforms GInt16 v" "x = int_val v" by blast
  with Some conforms_int [of GInt16 v is_int16] show ?thesis by (simp add: deref16_def)
qed

lemma ptr_range32:
  assumes "conforms (GStruct fs) j" and "(n, GPtr GInt32) \<in> set fs"
  shows "is_int32 (deref32 (get_ptr int_val j n))"
proof (cases "get_ptr int_val j n")
  case None
  then show ?thesis by (simp add: deref32_def is_int32_def)
next
  case (Some x)
  from get_ptr_conforms [OF assms Some] obtain v where "conforms GInt32 v" "x = int_val v" by blast
  with Some conforms_int [of GInt32 v is_int32] show ?thesis by (simp add: deref32_def)
qed

lemma ptr_range64:
  assumes "conforms (GStruct fs) j" and "(n, GPtr GInt64) \<in> set fs"
  shows "is_int64 (deref64 (get_ptr int_val j n))"
proof (cases "get_ptr int_val j n")
  case None
  then show ?thesis by (simp add: deref64_def is_int64_def)
next
  case (Some x)
  from get_ptr_conforms [OF assms Some] obtain v where "conforms GInt64 v" "x = int_val v" by blast
  with Some conforms_int [of GInt64 v is_int64] show ?thesis by (simp add: deref64_def)
qed

lemma int_range16: "conforms (GStruct fs) j \<Longrightarrow> (n, GInt16) \<in> set fs \<Longrightarrow> is_int16 (get_int j n)"
  using get_int_range [of fs j n GInt16 is_int16] by blast

lemma int_range32: "conforms (GStruct fs) j \<Longrightarrow> (n, GInt32) \<in> set fs \<Longrightarrow> is_int32 (get_int j n)"
  using get_int_range [of fs j n GInt32 is_int32] by blast

lemma int_range64: "conforms (GStruct fs) j \<Longrightarrow> (n, GInt64) \<in> set fs \<Longrightarrow> is_int64 (get_int j n)"
  using get_int_range [of fs j n GInt64 is_int64] by blast

lemma slice_range32:
  assumes "conforms (GStruct fs) j" and "(n, GSlice GInt32) \<in> set fs"
  shows "list_all is_int32 (get_slice int_val j n)"
  unfolding list_all_iff
proof
  fix x
  assume "x \<in> set (get_slice int_val j n)"
  from get_slice_conforms [OF assms this] obtain v where "conforms GInt32 v" "x = int_val v" by blast
  then show "is_int32 x" using conforms_int [of GInt32 v is_int32] by simp
qed

lemma safeSlice_id [simp]: "safeSlice s = s"
  by (simp add: safeSlice_def)

text \<open>What a struct that was read without an error holds in each field, by the type of the field.\<close>

fun field_in_range :: "json \<Rightarrow> string \<times> go_type \<Rightarrow> bool" where
  "field_in_range j (n, GInt16) = is_int16 (get_int j n)"
| "field_in_range j (n, GInt32) = is_int32 (get_int j n)"
| "field_in_range j (n, GInt64) = is_int64 (get_int j n)"
| "field_in_range j (n, GPtr t) =
     (case t of
        GInt16 \<Rightarrow> is_int16 (deref16 (get_ptr int_val j n))
      | GInt32 \<Rightarrow> is_int32 (deref32 (get_ptr int_val j n))
      | GInt64 \<Rightarrow> is_int64 (deref64 (get_ptr int_val j n))
      | _ \<Rightarrow> True)"
| "field_in_range j (n, GSlice t) = (t = GInt32 \<longrightarrow> list_all is_int32 (get_slice int_val j n))"
| "field_in_range j _ = True"

lemma fields_in_range:
  assumes "conforms (GStruct fs) j"
  shows "list_all (field_in_range j) fs"
  unfolding list_all_iff
proof
  fix x
  assume x: "x \<in> set fs"
  obtain n t where nt: "x = (n, t)" by fastforce
  note m = x [unfolded nt]
  have "field_in_range j (n, t)"
  proof (cases t)
    case (GPtr u)
    then show ?thesis
      using m ptr_range16 [OF assms] ptr_range32 [OF assms] ptr_range64 [OF assms] by (cases u) simp_all
  next
    case (GSlice u)
    then show ?thesis using m slice_range32 [OF assms] by auto
  qed (use m int_range16 [OF assms] int_range32 [OF assms] int_range64 [OF assms] in simp_all)
  then show "field_in_range j x" by (simp add: nt)
qed

lemmas field_range_simps = list.pred_inject field_in_range.simps go_type.case go_type.distinct simp_thms

lemma player_row_typed:
  assumes "conforms (GStruct rawPlayer_fields) j"
  shows "PlayerRow_typed (convertPlayer (read_rawPlayer j))"
  using fields_in_range [OF assms, unfolded rawPlayer_fields_def field_range_simps]
  unfolding PlayerRow_typed_def convertPlayer_def
  by (simp only: Let_def PlayerRow.select_convs read_rawPlayer_sel safeSlice_id simp_thms)

lemma player_detail_typed:
  assumes "conforms (GStruct rawPlayer_fields) j"
  shows "PlayerDetailRow_typed (convertPlayerDetail (read_rawPlayer j))"
  using fields_in_range [OF assms, unfolded rawPlayer_fields_def field_range_simps]
  unfolding PlayerDetailRow_typed_def convertPlayerDetail_def
  by (simp only: PlayerDetailRow.select_convs read_rawPlayer_sel simp_thms)

lemma pick_ban_typed:
  assumes "conforms (GStruct rawPickBan_fields) j"
  shows "list_all PickBanRow_typed (decodePicksBans [read_rawPickBan j])"
  using fields_in_range [OF assms, unfolded rawPickBan_fields_def field_range_simps]
  by (simp add: PickBanRow_typed_def decodePicksBans_def read_rawPickBan_sel)

lemma draft_timing_typed:
  assumes "conforms (GStruct rawDraftTiming_fields) j"
  shows "list_all DraftTimingRow_typed (decodeDraftTimings [read_rawDraftTiming j])"
  using fields_in_range [OF assms, unfolded rawDraftTiming_fields_def field_range_simps]
  by (simp add: DraftTimingRow_typed_def decodeDraftTimings_def read_rawDraftTiming_sel)

lemma objective_typed:
  assumes "conforms (GStruct rawObjective_fields) j"
  shows "list_all ObjectiveRow_typed (decodeObjectives [read_rawObjective j])"
  using fields_in_range [OF assms, unfolded rawObjective_fields_def field_range_simps]
  by (simp add: ObjectiveRow_typed_def decodeObjectives_def read_rawObjective_sel)

lemma chat_typed:
  assumes "conforms (GStruct rawChat_fields) j"
  shows "list_all ChatRow_typed (decodeChat [read_rawChat j])"
  using fields_in_range [OF assms, unfolded rawChat_fields_def field_range_simps]
  by (simp add: ChatRow_typed_def decodeChat_def read_rawChat_sel)

lemma teamfight_typed:
  assumes "conforms (GStruct rawTeamfight_fields) j"
  shows "list_all TeamfightRow_typed (decodeTeamfights [read_rawTeamfight j])"
  using fields_in_range [OF assms, unfolded rawTeamfight_fields_def field_range_simps]
  by (simp add: TeamfightRow_typed_def decodeTeamfights_def read_rawTeamfight_sel)

text \<open>The rows made from the elements of a slice of structs.\<close>

lemma slice_rows:
  assumes "conforms (GStruct fs) j" and "(n, GSlice (GStruct gs)) \<in> set fs"
    and "\<And>v. conforms (GStruct gs) v \<Longrightarrow> list_all P (f [rd v])"
    and f: "\<And>xs. f xs = map h xs"
  shows "list_all P (f (get_slice rd j n))"
proof -
  have "P (h x)" if x: "x \<in> set (get_slice rd j n)" for x
  proof -
    from get_slice_conforms [OF assms(1,2) x] obtain v where "conforms (GStruct gs) v" "x = rd v" by blast
    with assms(3) [of v] show ?thesis by (simp add: f)
  qed
  then show ?thesis by (simp add: f list_all_iff)
qed

section \<open>The per-minute series\<close>

lemma minute_loop_eq: "minute_loop p k n out = out @ concat (map (minute_row p) [k..<k + n])"
  by (induction n arbitrary: k out) (simp_all add: upt_conv_Cons del: upt_Suc)

lemma expand_loop_eq:
  "expand_loop ps out = out @ concat (map (\<lambda>p. concat (map (minute_row p) [0..<time_axis p])) ps)"
  by (induction ps arbitrary: out) (simp_all add: minute_loop_eq Let_def)

lemma expandTimeseries_eq:
  "expandTimeseries ps = concat (map (\<lambda>p. concat (map (minute_row p) [0..<time_axis p])) ps)"
  by (simp add: expandTimeseries_def expand_loop_eq)

lemma minute_row_typed:
  assumes j: "conforms (GStruct rawPlayer_fields) j" and r: "r \<in> set (minute_row (read_rawPlayer j) k)"
  shows "TimeseriesRow_typed r"
proof -
  have idx: "is_int32 (deref32 (safeIdx xs k))" if "list_all is_int32 xs" for xs
    using that by (auto simp: safeIdx_def deref32_def list_all_length is_int32_def)
  have small: "is_int16 (deref16 (safeIdxSmall xs k))" for xs
    by (auto simp: safeIdxSmall_def deref16_def wrap16_range) (simp add: is_int16_def)
  note f = fields_in_range [OF j, unfolded rawPlayer_fields_def field_range_simps]
  have g: "is_int32 (deref32 (safeIdx (rp_GoldT (read_rawPlayer j)) k))"
    "is_int32 (deref32 (safeIdx (rp_XPT (read_rawPlayer j)) k))"
    unfolding read_rawPlayer_sel by (rule idx, simp only: f)+
  have h: "is_int16 (rp_PlayerSlot (read_rawPlayer j))" "is_int16 (rp_HeroID (read_rawPlayer j))"
    "is_int64 (deref64 (rp_AccountID (read_rawPlayer j)))" "is_int32 (deref32 (rp_PatchID (read_rawPlayer j)))"
    unfolding read_rawPlayer_sel by (simp_all only: f)
  show ?thesis using r g h small
    by (simp add: minute_row_def Let_def TimeseriesRow_typed_def wrap16_range split: if_splits)
qed

text \<open>What the series means: minute by minute, the values of the four arrays, padded with zero where
  an array is shorter, the small counters saturated at the largest \<^verbatim>\<open>int16\<close>.\<close>

definition at0 :: "int list \<Rightarrow> nat \<Rightarrow> int" where
  "at0 xs k = (if k < length xs then xs ! k else 0)"

definition series_axis :: "rawPlayer \<Rightarrow> nat" where
  "series_axis p =
     (if rp_Times p \<noteq> [] then length (rp_Times p)
      else Max (length ` {rp_GoldT p, rp_XPT p, rp_LHT p, rp_DNT p}))"

definition series_covers :: "rawPlayer \<Rightarrow> nat \<Rightarrow> bool" where
  "series_covers p k \<longleftrightarrow>
     k < length (rp_GoldT p) \<or> k < length (rp_XPT p) \<or> k < length (rp_LHT p) \<or> k < length (rp_DNT p)"

definition series_point :: "rawPlayer \<Rightarrow> nat \<Rightarrow> TimeseriesRow" where
  "series_point p k =
     \<lparr> ts_PlayerSlot = rp_PlayerSlot p, ts_Minute = int k, ts_HeroID = rp_HeroID p,
       ts_AccountID = deref64 (rp_AccountID p), ts_PatchID = deref32 (rp_PatchID p),
       ts_Gold = at0 (rp_GoldT p) k, ts_XP = at0 (rp_XPT p) k,
       ts_LH = min 32767 (at0 (rp_LHT p) k), ts_DN = min 32767 (at0 (rp_DNT p) k) \<rparr>"

definition series_fits :: "rawPlayer \<Rightarrow> bool" where
  "series_fits p \<longleftrightarrow>
     series_axis p \<le> 2 ^ 15 \<and> list_all (\<lambda>x. - (2 ^ 15) \<le> x) (rp_LHT p) \<and> list_all (\<lambda>x. - (2 ^ 15) \<le> x) (rp_DNT p)"

lemma time_axis_eq: "time_axis p = series_axis p"
  by (auto simp: time_axis_def series_axis_def Let_def max_def)

lemma small_exact:
  assumes "list_all (\<lambda>x. - (2 ^ 15) \<le> x) xs"
  shows "deref16 (safeIdxSmall xs k) = min 32767 (at0 xs k)"
proof (cases "k < length xs")
  case True
  then have "- (2 ^ 15) \<le> xs ! k" using assms by (simp add: list_all_length)
  with True show ?thesis by (auto simp: safeIdxSmall_def deref16_def at0_def wrap16_id is_int16_def)
next
  case False
  then show ?thesis by (simp add: safeIdxSmall_def deref16_def at0_def)
qed

lemma minute_row_point:
  assumes "series_fits p" and "k < series_axis p"
  shows "minute_row p k = (if series_covers p k then [series_point p k] else [])"
proof -
  have k: "wrap16 (int k) = int k"
    using assms by (intro wrap16_id) (simp add: series_fits_def is_int16_def)
  have idx: "deref32 (safeIdx xs k) = at0 xs k" for xs by (simp add: safeIdx_def deref32_def at0_def)
  have small: "deref16 (safeIdxSmall (rp_LHT p) k) = min 32767 (at0 (rp_LHT p) k)"
    "deref16 (safeIdxSmall (rp_DNT p) k) = min 32767 (at0 (rp_DNT p) k)"
    using assms(1) by (auto intro!: small_exact simp: series_fits_def)
  have none: "(safeIdx xs k = None) = (\<not> k < length xs)" "(safeIdxSmall xs k = None) = (\<not> k < length xs)" for xs
    by (simp_all add: safeIdx_def safeIdxSmall_def)
  show ?thesis
    by (simp add: minute_row_def Let_def none idx small k series_covers_def series_point_def)
qed

lemma concat_map_if: "concat (map (\<lambda>k. if P k then [f k] else []) ks) = map f (filter P ks)"
  by (induction ks) auto

text \<open>(C38) The loops that expand the per-minute arrays of the players are the pointwise reading of
  them: player by player, for every minute of the time axis (the array \<^verbatim>\<open>times\<close>, or the longest
  array if there is none) that some array covers, one row with the values at that minute. It is exact
  for a match of at most 32768 minutes with no last-hit or deny count below the range of
  \<^verbatim>\<open>int16\<close>.\<close>

theorem timeseries_pointwise:
  assumes "\<And>p. p \<in> set ps \<Longrightarrow> series_fits p"
  shows "expandTimeseries ps =
    concat (map (\<lambda>p. map (series_point p) (filter (series_covers p) [0..<series_axis p])) ps)"
proof -
  have "concat (map (minute_row p) [0..<series_axis p]) = map (series_point p) (filter (series_covers p) [0..<series_axis p])"
    if "p \<in> set ps" for p
  proof -
    have "map (minute_row p) [0..<series_axis p] =
        map (\<lambda>k. if series_covers p k then [series_point p k] else []) [0..<series_axis p]"
      using minute_row_point [OF assms [OF that]] by (intro map_cong) simp_all
    then show ?thesis by (simp only: concat_map_if)
  qed
  then show ?thesis unfolding expandTimeseries_eq time_axis_eq by (metis (no_types, lifting) map_cong)
qed

definition sample_player :: rawPlayer where
  "sample_player =
     (read_rawPlayer (JObj []))\<lparr>rp_PlayerSlot := 128, rp_HeroID := 5, rp_GoldT := [0, 410], rp_LHT := [0, 40000, 7]\<rparr>"

theorem timeseries_pointwise_witness:
  "map (\<lambda>r. (ts_Minute r, ts_Gold r, ts_LH r)) (expandTimeseries [sample_player]) = [(0, 0, 0), (1, 410, 32767), (2, 0, 7)]"
proof -
  have f: "rp_Times sample_player = []" "rp_GoldT sample_player = [0, 410]" "rp_XPT sample_player = []"
    "rp_LHT sample_player = [0, 40000, 7]" "rp_DNT sample_player = []"
    by (simp_all add: sample_player_def read_rawPlayer_sel get_slice_def field_vals_def members_def last_val_def arr_val_def)
  then have "series_axis sample_player = 3" by (simp add: series_axis_def)
  moreover from this f have "series_fits sample_player" by (simp add: series_fits_def)
  moreover have "[0..<3] = [0, 1, 2 :: nat]" by code_simp
  ultimately show ?thesis
    using timeseries_pointwise [of "[sample_player]"] f
    by (simp add: series_covers_def series_point_def at0_def)
qed

section \<open>The decoded match\<close>

text \<open>The identifier that counts: the one in the text, or the one of the task if the text has none.\<close>

definition effective_id :: "int \<Rightarrow> rawMatch \<Rightarrow> int" where
  "effective_id matchID rm = (if rm_MatchID rm = 0 then matchID else rm_MatchID rm)"

lemma decodeMatch_alt:
  "decodeMatch matchID blob = Inr m \<longleftrightarrow>
     (\<exists>rm. unmarshal_match blob = Some rm \<and> 0 < effective_id matchID rm \<and> rm_StartTime rm \<noteq> 0 \<and> 0 \<le> rm_Duration rm \<and>
       m = decode_rows (rm\<lparr>rm_MatchID := effective_id matchID rm\<rparr>) blob)"
  by (auto simp: decodeMatch_def effective_id_def Let_def not_le not_less split: option.splits)

lemma decode_rows_sel:
  "m_MatchID (decode_rows rm blob) = rm_MatchID rm" "m_StartTime (decode_rows rm blob) = rm_StartTime rm"
  "m_Players (decode_rows rm blob) = map convertPlayer (rm_Players rm)"
  "m_Details (decode_rows rm blob) = map convertPlayerDetail (rm_Players rm)"
  "m_PicksBans (decode_rows rm blob) = decodePicksBans (rm_PicksBans rm)"
  "m_Timeseries (decode_rows rm blob) = expandTimeseries (rm_Players rm)"
  "m_IsParsed (decode_rows rm blob) = isMatchParsed rm" "m_Raw (decode_rows rm blob) = blob"
  by (simp_all add: decode_rows_def decodeMatchRoot_def decodePlayers_def)

lemma convert_sel:
  "pr_PlayerSlot (convertPlayer p) = rp_PlayerSlot p" "pr_HeroID (convertPlayer p) = rp_HeroID p"
  "pr_AccountID (convertPlayer p) = deref64 (rp_AccountID p)" "pr_PatchID (convertPlayer p) = deref32 (rp_PatchID p)"
  "pd_PlayerSlot (convertPlayerDetail p) = rp_PlayerSlot p"
  by (simp_all add: convertPlayer_def convertPlayerDetail_def Let_def)

lemma validate_players_None:
  "validate_players i ps = None \<longleftrightarrow> list_all (\<lambda>p. validPlayerSlot (pr_PlayerSlot p) \<and> 0 \<le> pr_HeroID p) ps"
  by (induction ps) auto

lemma validate_picks_None: "validate_picks i pbs = None \<longleftrightarrow> list_all (\<lambda>pb. pb_Team pb = 0 \<or> pb_Team pb = 1) pbs"
  by (induction pbs) auto

lemma validate_None:
  "validate m = None \<longleftrightarrow>
     0 < m_MatchID m \<and> 0 < m_StartTime m \<and>
     list_all (\<lambda>p. validPlayerSlot (pr_PlayerSlot p) \<and> 0 \<le> pr_HeroID p) (m_Players m) \<and>
     list_all (\<lambda>pb. pb_Team pb = 0 \<or> pb_Team pb = 1) (m_PicksBans m)"
  unfolding validate_players_None [symmetric, of _ "m_MatchID m"] validate_picks_None [symmetric, of _ "m_MatchID m"]
  by (simp add: validate_def not_le split: option.splits)


lemma decodeAdvantages_typed:
  "list_all is_int32 g \<Longrightarrow> list_all is_int32 x \<Longrightarrow> pred_option AdvantagesRow_typed (decodeAdvantages g x)"
  by (simp add: decodeAdvantages_def AdvantagesRow_typed_def)

lemma rows_typed:
  assumes j: "conforms (GStruct rawMatch_fields) j"
  shows "list_all PlayerRow_typed (map convertPlayer (get_slice read_rawPlayer j ''players''))"
    and "list_all PlayerDetailRow_typed (map convertPlayerDetail (get_slice read_rawPlayer j ''players''))"
    and "list_all PickBanRow_typed (decodePicksBans (get_slice read_rawPickBan j ''picks_bans''))"
    and "list_all DraftTimingRow_typed (decodeDraftTimings (get_slice read_rawDraftTiming j ''draft_timings''))"
    and "list_all ObjectiveRow_typed (decodeObjectives (get_slice read_rawObjective j ''objectives''))"
    and "list_all ChatRow_typed (decodeChat (get_slice read_rawChat j ''chat''))"
    and "list_all TeamfightRow_typed (decodeTeamfights (get_slice read_rawTeamfight j ''teamfights''))"
    and "list_all TimeseriesRow_typed (expandTimeseries (get_slice read_rawPlayer j ''players''))"
proof -
  have f: "(''players'', GSlice (GStruct rawPlayer_fields)) \<in> set rawMatch_fields"
    "(''picks_bans'', GSlice (GStruct rawPickBan_fields)) \<in> set rawMatch_fields"
    "(''draft_timings'', GSlice (GStruct rawDraftTiming_fields)) \<in> set rawMatch_fields"
    "(''objectives'', GSlice (GStruct rawObjective_fields)) \<in> set rawMatch_fields"
    "(''chat'', GSlice (GStruct rawChat_fields)) \<in> set rawMatch_fields"
    "(''teamfights'', GSlice (GStruct rawTeamfight_fields)) \<in> set rawMatch_fields"
    by (simp_all add: rawMatch_fields_def)
  show "list_all PlayerRow_typed (map convertPlayer (get_slice read_rawPlayer j ''players''))"
    using slice_rows [OF j f(1), of PlayerRow_typed "map convertPlayer" read_rawPlayer convertPlayer]
      player_row_typed by simp
  show "list_all PlayerDetailRow_typed (map convertPlayerDetail (get_slice read_rawPlayer j ''players''))"
    using slice_rows [OF j f(1), of PlayerDetailRow_typed "map convertPlayerDetail" read_rawPlayer convertPlayerDetail]
      player_detail_typed by simp
  show "list_all PickBanRow_typed (decodePicksBans (get_slice read_rawPickBan j ''picks_bans''))"
    by (rule slice_rows [OF j f(2) pick_ban_typed decodePicksBans_def])
  show "list_all DraftTimingRow_typed (decodeDraftTimings (get_slice read_rawDraftTiming j ''draft_timings''))"
    by (rule slice_rows [OF j f(3) draft_timing_typed decodeDraftTimings_def])
  show "list_all ObjectiveRow_typed (decodeObjectives (get_slice read_rawObjective j ''objectives''))"
    by (rule slice_rows [OF j f(4) objective_typed decodeObjectives_def])
  show "list_all ChatRow_typed (decodeChat (get_slice read_rawChat j ''chat''))"
    by (rule slice_rows [OF j f(5) chat_typed decodeChat_def])
  show "list_all TeamfightRow_typed (decodeTeamfights (get_slice read_rawTeamfight j ''teamfights''))"
    by (rule slice_rows [OF j f(6) teamfight_typed decodeTeamfights_def])
  show "list_all TimeseriesRow_typed (expandTimeseries (get_slice read_rawPlayer j ''players''))"
  proof -
    have "TimeseriesRow_typed r" if p: "p \<in> set (get_slice read_rawPlayer j ''players'')" and r: "r \<in> set (minute_row p k)" for p k r
    proof -
      from get_slice_conforms [OF j f(1) p] obtain v where "conforms (GStruct rawPlayer_fields) v" "p = read_rawPlayer v" by blast
      with r minute_row_typed show ?thesis by blast
    qed
    then show ?thesis by (auto simp: expandTimeseries_eq list_all_iff)
  qed
qed

lemma decode_rows_typed:
  assumes j: "conforms (GStruct rawMatch_fields) j" and i: "is_int64 i"
  shows "Match_typed (decode_rows ((read_rawMatch j)\<lparr>rm_MatchID := i\<rparr>) blob)"
proof -
  note f = fields_in_range [OF j, unfolded rawMatch_fields_def field_range_simps]
  have adv: "pred_option AdvantagesRow_typed
      (decodeAdvantages (get_slice int_val j ''radiant_gold_adv'') (get_slice int_val j ''radiant_xp_adv''))"
    using f by (intro decodeAdvantages_typed) simp_all
  show ?thesis
    unfolding Match_typed_def
    by (intro conjI)
       (simp_all add: decode_rows_def decodeMatchRoot_def decodePlayers_def read_rawMatch_sel f i adv rows_typed [OF j])
qed

lemma unmarshal_match_Some:
  assumes "unmarshal_match blob = Some rm"
  obtains j where "json_parse blob = Some j" and "conforms (GStruct rawMatch_fields) j" and "rm = read_rawMatch j"
  using assms by (auto simp: unmarshal_match_def simp del: conforms.simps split: option.splits if_splits)


definition sample_text :: bytes where
  "sample_text = json_print (JObj [(''start_time'', JNum ''1700'')])"

lemma conforms_struct_filter:
  "conforms (GStruct fs) (JObj kvs) \<longleftrightarrow>
     list_all (\<lambda>(k, v). list_all (\<lambda>(n, t). conforms t v) (filter (\<lambda>(n, t). key_eq k n) fs)) kvs"
  by (auto simp: list_all_iff)

lemma sample_text_raw:
  "\<exists>rm. unmarshal_match sample_text = Some rm \<and> rm_MatchID rm = 0 \<and> rm_StartTime rm = 1700 \<and> rm_Duration rm = 0 \<and>
     rm_Players rm = [] \<and> rm_PicksBans rm = []"
proof -
  let ?j = "JObj [(''start_time'', JNum ''1700'')]"
  have "json_parse sample_text = Some ?j" unfolding sample_text_def by (rule json_parse_print) code_simp
  moreover have "conforms (GStruct rawMatch_fields) ?j"
  proof -
    have "filter (\<lambda>(n, t). key_eq ''start_time'' n) rawMatch_fields = [(''start_time'', GInt64)]"
      unfolding rawMatch_fields_def by (simp add: key_eq_def lower_def)
    moreover have "conforms GInt64 (JNum ''1700'')" by code_simp
    ultimately show ?thesis unfolding conforms_struct_filter by simp
  qed
  moreover have "get_int ?j ''match_id'' = 0" "get_int ?j ''start_time'' = 1700" "get_int ?j ''duration'' = 0" by code_simp+
  moreover have "field_vals ?j ''players'' = []" "field_vals ?j ''picks_bans'' = []"
    by (simp_all add: field_vals_def members_def key_eq_def lower_def)
  ultimately show ?thesis
    by (simp add: unmarshal_match_def read_rawMatch_sel get_slice_def last_val_def arr_val_def del: conforms.simps)
qed

lemma sample_decoded: "\<exists>m. decodeMatch 7 sample_text = Inr m \<and> validate m = None \<and> m_MatchID m = 7"
proof -
  obtain rm where rm: "unmarshal_match sample_text = Some rm" "rm_MatchID rm = 0" "rm_StartTime rm = 1700" "rm_Duration rm = 0"
    "rm_Players rm = []" "rm_PicksBans rm = []"
    using sample_text_raw by blast
  let ?m = "decode_rows (rm\<lparr>rm_MatchID := effective_id 7 rm\<rparr>) sample_text"
  have "decodeMatch 7 sample_text = Inr ?m" unfolding decodeMatch_alt using rm by (simp add: effective_id_def)
  moreover have "validate ?m = None" unfolding validate_None decode_rows_sel using rm
    by (simp add: effective_id_def decodePicksBans_def)
  moreover have "m_MatchID ?m = 7" unfolding decode_rows_sel using rm by (simp add: effective_id_def)
  ultimately show ?thesis by blast
qed


text \<open>(C36) The rows of a decoded match fit together: every player has a row and a detail row with the
  same slot, in the order of the text; every minute row belongs to one of these players, with that
  player's slot, hero, account and patch; the match keeps the text it was decoded from; and it counts
  as parsed if any player has gold or experience by minute.\<close>

theorem decoded_rows_aligned:
  assumes "decodeMatch matchID blob = Inr m"
  shows "map pr_PlayerSlot (m_Players m) = map pd_PlayerSlot (m_Details m) \<and>
    (\<forall>r \<in> set (m_Timeseries m). \<exists>p \<in> set (m_Players m).
       ts_PlayerSlot r = pr_PlayerSlot p \<and> ts_HeroID r = pr_HeroID p \<and> ts_AccountID r = pr_AccountID p \<and> ts_PatchID r = pr_PatchID p) \<and>
    m_Raw m = blob \<and>
    (list_ex (\<lambda>p. pr_GoldT p \<noteq> [] \<or> pr_XPT p \<noteq> []) (m_Players m) \<longrightarrow> m_IsParsed m)"
proof -
  obtain rm where m: "m = decode_rows (rm\<lparr>rm_MatchID := effective_id matchID rm\<rparr>) blob"
    using assms unfolding decodeMatch_alt by blast
  have row: "ts_PlayerSlot r = pr_PlayerSlot (convertPlayer p) \<and> ts_HeroID r = pr_HeroID (convertPlayer p) \<and>
      ts_AccountID r = pr_AccountID (convertPlayer p) \<and> ts_PatchID r = pr_PatchID (convertPlayer p)"
    if "r \<in> set (minute_row p k)" for r p k
    using that by (auto simp: minute_row_def convert_sel Let_def split: if_splits)
  have gold: "pr_GoldT (convertPlayer p) = rp_GoldT p" "pr_XPT (convertPlayer p) = rp_XPT p" for p
    by (simp_all add: convertPlayer_def Let_def)
  have "\<exists>p \<in> set (m_Players m). ts_PlayerSlot r = pr_PlayerSlot p \<and> ts_HeroID r = pr_HeroID p \<and>
      ts_AccountID r = pr_AccountID p \<and> ts_PatchID r = pr_PatchID p" if r: "r \<in> set (m_Timeseries m)" for r
  proof -
    from r obtain p k where "p \<in> set (rm_Players rm)" "r \<in> set (minute_row p k)"
      unfolding m decode_rows_sel expandTimeseries_eq by auto
    with row show ?thesis unfolding m decode_rows_sel by auto
  qed
  then show ?thesis
    by (auto simp: m decode_rows_sel convert_sel isMatchParsed_def list_ex_iff gold)
qed

theorem decoded_rows_aligned_witness:
  "\<exists>m. decodeMatch 7 sample_text = Inr m \<and> m_Raw m = sample_text \<and> map pr_PlayerSlot (m_Players m) = map pd_PlayerSlot (m_Details m)"
proof -
  have "\<exists>m. decodeMatch 7 sample_text = Inr m" using sample_decoded by blast
  then show ?thesis using decoded_rows_aligned by blast
qed

section \<open>Two corners\<close>

text \<open>A player whose \<^verbatim>\<open>purchase_log\<close> is the JSON value \<^verbatim>\<open>null\<close> makes the match count as
  parsed: \<^verbatim>\<open>json.RawMessage\<close> keeps the text \<^verbatim>\<open>null\<close>, which is not nil.\<close>

lemma null_purchase_log_counts_as_parsed:
  assumes "p \<in> set (rm_Players rm)" and "rp_PurchaseLog p = Some JNull"
  shows "isMatchParsed rm"
  using assms by (auto simp: isMatchParsed_def list_ex_iff)

text \<open>A count below the range of \<^verbatim>\<open>int16\<close> is not clamped; the conversion wraps it around.\<close>

lemma safeIdxSmall_wraps: "safeIdxSmall [- 32769] 0 = Some 32767"
  by code_simp

end
