(* ===== verification/Ingester.thy ===== *)
theory Ingester
  imports Metrics Stores Runner Decode
begin

text \<open>
  Writing a match (\<^verbatim>\<open>internal/worker/ingester\<close>): the classification of database errors
  (\<^verbatim>\<open>errors.go\<close>), the ingester over the match store, the metrics and the seen set
  (\<^verbatim>\<open>ingester.go\<close>), and the layer with the circuit breaker (\<^verbatim>\<open>resilient.go\<close>). The match store
  is a function on the world, the port \<^verbatim>\<open>matchstore.MatchWriter\<close>.
\<close>

section \<open>Database errors\<close>

record db_constraint_error =
  ce_Code :: string
  ce_Detail :: string
  ce_Message :: string

definition ClassifyDBError :: "go_error option \<Rightarrow> db_constraint_error option" where
  "ClassifyDBError err =
     (case err of
        None \<Rightarrow> None
      | Some e \<Rightarrow>
          (case as_pg e of
             None \<Rightarrow> None
           | Some (c, d, m) \<Rightarrow> Some \<lparr>ce_Code = c, ce_Detail = d, ce_Message = m\<rparr>))"

definition constraint_text :: "db_constraint_error \<Rightarrow> string" where
  "constraint_text e = ''db constraint error '' @ ce_Code e @ '': '' @ ce_Message e"

definition IsRetryable :: "go_error option \<Rightarrow> bool" where
  "IsRetryable err =
     (case ClassifyDBError err of
        None \<Rightarrow> False
      | Some ce \<Rightarrow> ce_Code ce = ''40001'' \<or> ce_Code ce = ''40P01'' \<or> ce_Code ce = ''57014'')"

definition IsValidation :: "go_error option \<Rightarrow> bool" where
  "IsValidation err =
     (case ClassifyDBError err of None \<Rightarrow> False | Some ce \<Rightarrow> ce_Code ce = ''23505'' \<or> ce_Code ce = ''23503'')"

definition IsForeignKey :: "db_constraint_error \<Rightarrow> bool" where
  "IsForeignKey ce \<longleftrightarrow> ce_Code ce = ''23503''"

definition IsAlreadySeen :: "go_error option \<Rightarrow> bool" where
  "IsAlreadySeen err = (case err of None \<Rightarrow> False | Some e \<Rightarrow> errors_is e ErrAlreadySeen)"

definition isDuplicateConstraint :: "go_error option \<Rightarrow> bool" where
  "isDuplicateConstraint err = (case ClassifyDBError err of None \<Rightarrow> False | Some ce \<Rightarrow> ce_Code ce = ''23505'')"

definition ingest_classify :: "go_error option \<Rightarrow> failure_kind" where
  "ingest_classify err =
     (case err of
        None \<Rightarrow> KindUnknown
      | Some e \<Rightarrow>
          (case ClassifyDBError (Some e) of
             None \<Rightarrow> KindDB
           | Some ce \<Rightarrow>
               if ce_Code ce = ''23505'' \<or> ce_Code ce = ''23503'' then KindValidate
               else if ce_Code ce = ''40001'' \<or> ce_Code ce = ''40P01'' then KindDB
               else if ce_Code ce = ''57014'' then KindTimeout
               else KindDB))"

section \<open>The ingester\<close>

type_synonym 'w ingest = "Match \<Rightarrow> 'w \<Rightarrow> go_error option \<times> 'w"

record 'w ingester =
  ig_repo :: "'w ingest"
  ig_sink :: "'w sink_if"
  ig_dedup :: "'w seen_if option"

definition ingester_New :: "'w ingest option \<Rightarrow> 'w sink_if option \<Rightarrow> 'w seen_if option \<Rightarrow> go_error + 'w ingester" where
  "ingester_New repo m dedup =
     (case repo of
        None \<Rightarrow> Inl (ErrText ''ingester: repo required'')
      | Some r \<Rightarrow>
          (case m of
             None \<Rightarrow> Inl (ErrText ''ingester: metrics sink required'')
           | Some s \<Rightarrow> Inr \<lparr>ig_repo = r, ig_sink = s, ig_dedup = dedup\<rparr>))"

text \<open>Marking the match as seen; an error is only logged.\<close>

definition mark_ingested :: "'w ingester \<Rightarrow> Match \<Rightarrow> 'w \<Rightarrow> 'w" where
  "mark_ingested I m w =
     (case ig_dedup I of None \<Rightarrow> w | Some D \<Rightarrow> snd (sn_MarkSeen D (itoa (m_MatchID m)) w))"

definition Ingest :: "'w ingester \<Rightarrow> 'w ingest" where
  "Ingest I m w =
     (case ig_repo I m w of
        (Some e, w1) \<Rightarrow>
          if isDuplicateConstraint (Some e) then
            (Some ErrAlreadySeen, mt_IngestFailure (ig_sink I) KindValidate (m_MatchID m) (Some e) w1)
          else
            (Some (Wrapped ''repo.IngestMatch: '' e),
             mt_IngestFailure (ig_sink I) (ingest_classify (Some e)) (m_MatchID m) (Some e) w1)
      | (None, w1) \<Rightarrow> (None, mark_ingested I m (mt_IngestSuccess (ig_sink I) w1)))"

section \<open>The layer with the circuit breaker\<close>

text \<open>The world of the layer is the world of the ingester it wraps and the breaker, \<open>None\<close> without
  one.\<close>

definition cb_record :: "(circuit_breaker \<Rightarrow> circuit_breaker) \<Rightarrow> circuit_breaker option \<Rightarrow> circuit_breaker option" where
  "cb_record f cb = map_option f cb"

definition ResilientIngest :: "'w ingest \<Rightarrow> ('w \<times> circuit_breaker option) ingest" where
  "ResilientIngest nxt m wc =
     (let (w, cb) = wc in
      if (case cb of None \<Rightarrow> False | Some c \<Rightarrow> \<not> Allow c) then
        (Some (ErrText ''circuit breaker open''), (w, cb_record RecordFailure cb))
      else
        case nxt m w of
          (Some e, w1) \<Rightarrow>
            (Some e, (w1, if \<not> IsAlreadySeen (Some e) then cb_record RecordFailure cb else cb))
        | (None, w1) \<Rightarrow> (None, (w1, cb_record RecordSuccess cb)))"

section \<open>Results\<close>

lemma ClassifyDBError_None: "ClassifyDBError (Some e) = None \<longleftrightarrow> as_pg e = None"
  by (auto simp: ClassifyDBError_def split: option.splits)

text \<open>(C18) What the ingester makes of the answer of the match store: success stays success; a
  unique-constraint violation, however deeply wrapped, becomes ``already seen'', and no other database
  error does; every other error is passed on with the original as its cause, and is counted as a
  validation failure exactly when it is a foreign-key violation. After a success the match is in the
  seen set unless the set reported an error.\<close>

theorem ingest_classifies:
  assumes "\<And>D. ig_dedup I = Some D \<Longrightarrow> dedup_seen D seen"
    and "ig_repo I m w = (r, w1)" and "Ingest I m w = (r', w')"
  shows "(r' = None \<longleftrightarrow> r = None) \<and>
    (\<forall>e. r = Some e \<longrightarrow>
       (if \<exists>d msg. as_pg e = Some (''23505'', d, msg)
        then r' = Some ErrAlreadySeen \<and> w' = mt_IngestFailure (ig_sink I) KindValidate (m_MatchID m) r w1
        else (\<exists>p. r' = Some (Wrapped p e)) \<and>
          (\<exists>k. w' = mt_IngestFailure (ig_sink I) k (m_MatchID m) r w1 \<and>
             (k = KindValidate \<longleftrightarrow> (\<exists>d msg. as_pg e = Some (''23503'', d, msg)))))) \<and>
    (\<forall>D. r = None \<and> ig_dedup I = Some D \<longrightarrow>
       itoa (m_MatchID m) \<in> seen w' \<or> (\<exists>e. fst (sn_MarkSeen D (itoa (m_MatchID m)) (mt_IngestSuccess (ig_sink I) w1)) = Inl e))"
proof (intro conjI allI impI)
  show "r' = None \<longleftrightarrow> r = None"
    using assms(2,3) by (auto simp: Ingest_def split: option.splits if_splits)
next
  fix e assume r: "r = Some e"
  have dup: "isDuplicateConstraint (Some e) \<longleftrightarrow> (\<exists>d msg. as_pg e = Some (''23505'', d, msg))"
    by (auto simp: isDuplicateConstraint_def ClassifyDBError_def split: option.splits)
  have val: "ingest_classify (Some e) = KindValidate \<longleftrightarrow> (\<exists>d msg. as_pg e = Some (''23503'', d, msg))"
    if "\<not> isDuplicateConstraint (Some e)"
    using that
    by (auto simp: isDuplicateConstraint_def ingest_classify_def ClassifyDBError_def kind_defs split: option.splits)
  show "if \<exists>d msg. as_pg e = Some (''23505'', d, msg)
        then r' = Some ErrAlreadySeen \<and> w' = mt_IngestFailure (ig_sink I) KindValidate (m_MatchID m) r w1
        else (\<exists>p. r' = Some (Wrapped p e)) \<and>
          (\<exists>k. w' = mt_IngestFailure (ig_sink I) k (m_MatchID m) r w1 \<and>
             (k = KindValidate \<longleftrightarrow> (\<exists>d msg. as_pg e = Some (''23503'', d, msg))))"
    unfolding dup [symmetric] using assms(2,3) r val by (auto simp: Ingest_def)
next
  fix D assume D: "r = None \<and> ig_dedup I = Some D"
  let ?w = "mt_IngestSuccess (ig_sink I) w1" and ?k = "itoa (m_MatchID m)"
  obtain x w2 where mk: "sn_MarkSeen D ?k ?w = (x, w2)" by fastforce
  then have "w' = w2" using assms(2,3) D by (simp add: Ingest_def mark_ingested_def)
  moreover have "dedup_seen D seen" using assms(1) D by blast
  ultimately show "?k \<in> seen w' \<or> (\<exists>e. fst (sn_MarkSeen D ?k ?w) = Inl e)"
    using mk dedup_seen.mark [of D seen ?k ?w _ w2] by (cases x) auto
qed

text \<open>A match store that answers from a list of codes, for concrete runs.\<close>

definition sample_match :: Match where
  "sample_match = decode_rows (read_rawMatch (JObj [])) []"

definition sample_repo :: "go_error option \<Rightarrow> inmem_seen ingest" where
  "sample_repo r m w = (r, w)"

definition sample_ingester :: "go_error option \<Rightarrow> inmem_seen ingester" where
  "sample_ingester r = \<lparr>ig_repo = sample_repo r, ig_sink = noop_if, ig_dedup = Some mem_seen_if\<rparr>"

theorem ingest_classifies_witness:
  "fst (Ingest (sample_ingester (Some (Wrapped ''insert: '' (PgError ''23505'' ''k'' ''dup'')))) sample_match []) = Some ErrAlreadySeen \<and>
   fst (Ingest (sample_ingester None) sample_match []) = None \<and>
   itoa (m_MatchID sample_match) \<in> set (snd (Ingest (sample_ingester None) sample_match []))"
proof -
  have D: "\<And>r D. ig_dedup (sample_ingester r) = Some D \<Longrightarrow> dedup_seen D set"
    using inmem_seen.dedup_seen_axioms by (simp add: sample_ingester_def)
  have repo: "ig_repo (sample_ingester r) sample_match [] = (r, [])" for r by (simp add: sample_ingester_def sample_repo_def)
  let ?e = "Wrapped ''insert: '' (PgError ''23505'' ''k'' ''dup'')"
  obtain r1 w1 where i1: "Ingest (sample_ingester (Some ?e)) sample_match [] = (r1, w1)" by fastforce
  obtain r2 w2 where i2: "Ingest (sample_ingester None) sample_match [] = (r2, w2)" by fastforce
  have "sn_MarkSeen mem_seen_if k w \<noteq> (Inl e, w')" for k w e w'
    by (auto simp: mem_seen_if_def seen_MarkSeen_def Let_def split: if_splits)
  then have no_err: "fst (sn_MarkSeen mem_seen_if k w) \<noteq> Inl e" for k w e by (metis prod.collapse)
  have "r1 = Some ErrAlreadySeen"
    using ingest_classifies [OF D repo i1] by simp
  moreover have "r2 = None \<and> itoa (m_MatchID sample_match) \<in> set w2"
    using ingest_classifies [OF D repo i2] no_err by (auto simp: sample_ingester_def)
  ultimately show ?thesis using i1 i2 by simp
qed

text \<open>The breaker in front of the ingester: while it is open the ingester is not called, the call
  fails and the world stays as it is; otherwise the ingester is called exactly once and its answer is
  passed on unchanged. Duplicates leave the breaker as it is, other errors count as failures and
  successes as successes; without a breaker the layer adds nothing.\<close>

theorem resilient_ingest_guards:
  assumes "nxt m w = (r, w1)"
  shows "(\<not> Allow c \<longrightarrow> ResilientIngest nxt m (w, Some c) = (Some (ErrText ''circuit breaker open''), (w, Some (RecordFailure c)))) \<and>
    (Allow c \<longrightarrow> ResilientIngest nxt m (w, Some c) =
       (r, (w1, Some (case r of None \<Rightarrow> RecordSuccess c | Some e \<Rightarrow> if errors_is e ErrAlreadySeen then c else RecordFailure c)))) \<and>
    ResilientIngest nxt m (w, None) = (r, (w1, None))"
  using assms by (auto simp: ResilientIngest_def cb_record_def IsAlreadySeen_def split: option.splits)

theorem resilient_ingest_guards_witness:
  "ResilientIngest (sample_repo (Some ErrAlreadySeen)) sample_match ([], Some (NewCircuitBreaker 1 second)) =
     (Some ErrAlreadySeen, ([], Some (NewCircuitBreaker 1 second)))"
proof -
  have "sample_repo (Some ErrAlreadySeen) sample_match [] = (Some ErrAlreadySeen, [])" by (simp add: sample_repo_def)
  from resilient_ingest_guards [of "sample_repo (Some ErrAlreadySeen)" sample_match "[]", OF this, of "NewCircuitBreaker 1 second"]
  show ?thesis by (simp add: Allow_def NewCircuitBreaker_def)
qed

end
