(* ===== verification/Parser.thy ===== *)
theory Parser
  imports Fetcher Ingester
begin

text \<open>
  The parse stage (\<^verbatim>\<open>internal/worker/parser/parser.go\<close>): one task names a match whose text is in the
  payload store; the text is decoded, validated and handed to the ingester, and removed once the match
  is in the database.
\<close>

section \<open>Configuration\<close>

record parse_cfg =
  pcf_Batch :: int
  pcf_Block :: duration
  pcf_QueueProvider :: bool

definition parser_New :: "bool \<Rightarrow> bool \<Rightarrow> bool \<Rightarrow> bool \<Rightarrow> parse_cfg \<Rightarrow> go_error + parse_cfg" where
  "parser_New queue_nil store_nil ingester_nil sink_nil c =
     (if queue_nil then Inl (ErrText ''parser: input queue required'')
      else if store_nil then Inl (ErrText ''parser: payload store required'')
      else if ingester_nil then Inl (ErrText ''parser: ingester required'')
      else if sink_nil then Inl (ErrText ''parser: metrics sink required'')
      else Inr (c\<lparr>pcf_Batch := (if pcf_Batch c \<le> 0 then 10 else pcf_Batch c),
                  pcf_Block := (if pcf_Block c \<le> 0 then 2 * second else pcf_Block c)\<rparr>))"

section \<open>The handler\<close>

record 'w parser =
  pa_store :: "'w payload_if"
  pa_ingest :: "'w ingest"
  pa_sink :: "'w sink_if"

text \<open>The end of the handler: what the answer of the ingester means for the task and for the text.\<close>

definition finish_ingest :: "'w parser \<Rightarrow> string \<Rightarrow> go_error option \<Rightarrow> 'w \<Rightarrow> outcome \<times> 'w" where
  "finish_ingest P key r w =
     (case r of
        Some e \<Rightarrow>
          if errors_is e ErrAlreadySeen then
            (Returned ResultSuccess None, snd (ps_Delete (pa_store P) key (mt_ParseDuplicate (pa_sink P) w)))
          else
            (Returned ResultRetry (Some (Wrapped ''ingest: '' e)),
             snd (ps_ExtendTTL (pa_store P) key (2 * hour) (mt_ParseFailure (pa_sink P) KindIngest w)))
      | None \<Rightarrow> (Returned ResultSuccess None, snd (ps_Delete (pa_store P) key (mt_ParseSuccess (pa_sink P) w))))"

definition parse_blob :: "'w parser \<Rightarrow> int \<Rightarrow> string \<Rightarrow> bytes \<Rightarrow> 'w \<Rightarrow> outcome \<times> 'w" where
  "parse_blob P mid key blob w =
     (case decodeMatch mid blob of
        Inl e \<Rightarrow> (Returned ResultDrop (Some (Wrapped ''decode: '' e)), mt_ParseFailure (pa_sink P) KindDecode w)
      | Inr m \<Rightarrow>
          (case validate m of
             Some e \<Rightarrow> (Returned ResultDrop (Some (Wrapped ''validate: '' e)), mt_ParseFailure (pa_sink P) KindValidate w)
           | None \<Rightarrow> (let (r, w1) = pa_ingest P m w in finish_ingest P key r w1)))"

definition parser_Process :: "'w parser \<Rightarrow> 'w handler" where
  "parser_Process P t w =
     (case unmarshal_task (Payload t) of
        None \<Rightarrow>
          (Returned ResultDrop (Some (Wrapped ''decode task: '' (ErrText ''json''))), mt_ParseFailure (pa_sink P) KindDecode w)
      | Some mid \<Rightarrow>
          (let key = itoa mid in
           case ps_Get (pa_store P) key w of
             (Inl e, w1) \<Rightarrow>
               if errors_is e ErrNotFound then (Returned ResultDrop (Some e), mt_ParseFailure (pa_sink P) KindPayload w1)
               else (Returned ResultRetry (Some (Wrapped ''payload get: '' e)), mt_ParseFailure (pa_sink P) KindPayload w1)
           | (Inr blob, w1) \<Rightarrow> parse_blob P mid key blob w1))"

definition parse_run_cfg :: "parse_cfg \<Rightarrow> run_cfg" where
  "parse_run_cfg c =
     \<lparr>rc_Batch = pcf_Batch c, rc_Block = pcf_Block c, rc_RecoverStale = True, rc_Backpressure = pcf_QueueProvider c\<rparr>"

definition parser_Run :: "nat \<Rightarrow> ('w \<Rightarrow> go_error option) \<Rightarrow> 'w queue_if \<Rightarrow> 'w parser \<Rightarrow> parse_cfg \<Rightarrow> 'w \<Rightarrow> go_error option \<times> 'w" where
  "parser_Run n ctx Q P c w = Run n ctx Q (parse_run_cfg c) (parser_Process P) w"

section \<open>The contract of the stage\<close>

text \<open>The ingester and the metrics do not touch the payload store.\<close>

locale parse_stage =
  fixes P :: "'w parser"
    and content :: "'w \<Rightarrow> string \<Rightarrow> bytes option"
  assumes store: "payload_store (pa_store P) content"
    and ingest_frame: "content (snd (pa_ingest P m w)) = content w"
    and sink_frame:
      "content (mt_ParseFailure (pa_sink P) kd w) = content w" "content (mt_ParseSuccess (pa_sink P) w) = content w"
      "content (mt_ParseDuplicate (pa_sink P) w) = content w"
begin

lemma finish_cases:
  assumes "finish_ingest P key r w = (out, w')" and "content w key = Some b"
  shows "if (\<exists>e. r = Some e \<and> \<not> errors_is e ErrAlreadySeen)
    then (\<exists>e. out = Returned ResultRetry (Some e)) \<and> content w' = content w
    else out = Returned ResultSuccess None \<and> (content w' = content w \<or> content w' = (content w)(key := None))"
proof -
  have del: "content w2 = content w1 \<or> content w2 = (content w1)(key := None)" if "ps_Delete (pa_store P) key w1 = (x, w2)" for x w1 w2
    using that payload_store.del [OF store, of key w1 w2] payload_store.del_err [OF store, of key w1 _ w2] by (cases x) auto
  show ?thesis
  proof (cases "\<exists>e. r = Some e \<and> \<not> errors_is e ErrAlreadySeen")
    case True
    then obtain e where e: "r = Some e" "\<not> errors_is e ErrAlreadySeen" by blast
    let ?w = "mt_ParseFailure (pa_sink P) KindIngest w"
    obtain x w2 where x: "ps_ExtendTTL (pa_store P) key (2 * hour) ?w = (x, w2)" by fastforce
    have "content w2 = content ?w" using payload_store.extend [OF store x] assms(2) by (simp add: sink_frame)
    then show ?thesis using assms(1) e x True by (auto simp: finish_ingest_def sink_frame)
  next
    case False
    let ?w = "case r of Some e \<Rightarrow> mt_ParseDuplicate (pa_sink P) w | None \<Rightarrow> mt_ParseSuccess (pa_sink P) w"
    obtain x w2 where x: "ps_Delete (pa_store P) key ?w = (x, w2)" by fastforce
    have "out = Returned ResultSuccess None \<and> w' = w2"
      using assms(1) False x by (auto simp: finish_ingest_def split: option.splits)
    moreover have "content ?w = content w" by (simp add: sink_frame split: option.split)
    ultimately show ?thesis using del [OF x] False by auto
  qed
qed

lemma process_cases:
  assumes "parser_Process P t w = (out, w')"
  shows "(\<exists>mid blob m r. out = Returned ResultSuccess None \<and> unmarshal_task (Payload t) = Some mid \<and>
        content w (itoa mid) = Some blob \<and> decodeMatch mid blob = Inr m \<and> validate m = None \<and>
        r = fst (pa_ingest P m (snd (ps_Get (pa_store P) (itoa mid) w))) \<and> (r = None \<or> (\<exists>e. r = Some e \<and> errors_is e ErrAlreadySeen)) \<and>
        (content w' = content w \<or> content w' = (content w)(itoa mid := None))) \<or>
    (\<exists>e. out = Returned ResultRetry (Some e) \<and> content w' = content w) \<or>
    (\<exists>e. out = Returned ResultDrop (Some e) \<and> content w' = content w \<and>
        (\<forall>mid blob. unmarshal_task (Payload t) = Some mid \<and> content w (itoa mid) = Some blob \<longrightarrow>
           \<not> (\<exists>m. decodeMatch mid blob = Inr m \<and> validate m = None)))"
proof (cases "unmarshal_task (Payload t)")
  case None
  then show ?thesis using assms by (auto simp: parser_Process_def sink_frame)
next
  case (Some mid)
  obtain r w1 where g: "ps_Get (pa_store P) (itoa mid) w = (r, w1)" by fastforce
  show ?thesis
  proof (cases r)
    case (Inl e)
    note law = payload_store.get_err [OF store g [unfolded Inl]]
    show ?thesis
    proof (cases "errors_is e ErrNotFound")
      case True
      then show ?thesis using assms Some g Inl law by (auto simp: parser_Process_def sink_frame)
    next
      case False
      then show ?thesis using assms Some g Inl law by (auto simp: parser_Process_def sink_frame)
    qed
  next
    case (Inr blob)
    note law = payload_store.get_ok [OF store g [unfolded Inr]]
    have pb: "parse_blob P mid (itoa mid) blob w1 = (out, w')" using assms Some g Inr by (simp add: parser_Process_def)
    show ?thesis
    proof (cases "decodeMatch mid blob")
      case (Inl e)
      then show ?thesis using pb law Some by (auto simp: parse_blob_def sink_frame)
    next
      case m: (Inr m)
      show ?thesis
      proof (cases "validate m")
        case (Some e)
        then show ?thesis using pb law \<open>unmarshal_task (Payload t) = Some mid\<close> m by (auto simp: parse_blob_def sink_frame)
      next
        case None
        obtain x w2 where i: "pa_ingest P m w1 = (x, w2)" by fastforce
        then have f: "finish_ingest P (itoa mid) x w2 = (out, w')" using pb m None by (simp add: parse_blob_def)
        have c2: "content w2 = content w" using i law by (metis ingest_frame snd_conv)
        then have "content w2 (itoa mid) = Some blob" using law by simp
        note fin = finish_cases [OF f this]
        show ?thesis
        proof (cases "\<exists>e. x = Some e \<and> \<not> errors_is e ErrAlreadySeen")
          case True
          then show ?thesis using fin c2 by auto
        next
          case False
          then have "x = None \<or> (\<exists>e. x = Some e \<and> errors_is e ErrAlreadySeen)" by (cases x) auto
          moreover have "x = fst (pa_ingest P m (snd (ps_Get (pa_store P) (itoa mid) w)))" using g i by simp
          ultimately show ?thesis using False fin c2 law Some None m by auto
        qed
      qed
    qed
  qed
qed

end

section \<open>The stage on the in-memory adapters\<close>

text \<open>The match store of a run is a list of matches; \<open>broken\<close> is the error it reports, if any.\<close>

record match_db =
  db_matches :: "Match list"
  db_broken :: "go_error option"

definition db_IngestMatch :: "Match \<Rightarrow> match_db \<Rightarrow> go_error option \<times> match_db" where
  "db_IngestMatch m db =
     (case db_broken db of
        Some e \<Rightarrow> (Some e, db)
      | None \<Rightarrow>
          if m_MatchID m \<in> m_MatchID ` set (db_matches db) then (Some (PgError ''23505'' ''match_id'' ''duplicate key''), db)
          else (None, db\<lparr>db_matches := db_matches db @ [m]\<rparr>))"

definition mem_ingester :: "match_db stage_world ingester" where
  "mem_ingester =
     \<lparr>ig_repo = (\<lambda>m w. let (r, db) = db_IngestMatch m (sw_net w) in (r, w\<lparr>sw_net := db\<rparr>)),
      ig_sink = stage_sink_if, ig_dedup = None\<rparr>"

definition mem_parser :: "match_db stage_world parser" where
  "mem_parser = \<lparr>pa_store = stage_store_if, pa_ingest = Ingest mem_ingester, pa_sink = stage_sink_if\<rparr>"

lemma mem_ingest_frame: "sw_content (snd (Ingest mem_ingester m w)) = sw_content w"
  by (simp add: Ingest_def mem_ingester_def mark_ingested_def stage_sink_if_def on_sink_def split: prod.split option.split)

lemma mem_parse_stage: "parse_stage mem_parser sw_content"
  by (rule parse_stage.intro)
     (simp_all add: mem_parser_def stage_store_contract mem_ingest_frame, simp_all add: stage_sink_if_def on_sink_def)

interpretation mem_parse: parse_stage mem_parser sw_content
  by (rule mem_parse_stage)

section \<open>Outcomes\<close>

text \<open>(C3) The parse stage never loses a text it has not dealt with. It succeeds only if the stored text of
  the task's match was decoded and validated and the ingester took it or had it already, and only then
  may the text, and no other, be removed. A task that is sent back leaves every stored text in place; a
  task that is dropped does so too, and it was malformed, its text was missing, or its text was
  rejected.\<close>

theorem parse_outcomes:
  assumes "parse_stage P content" and "parser_Process P t w = (out, w')"
  shows "(\<exists>mid blob m r. out = Returned ResultSuccess None \<and> unmarshal_task (Payload t) = Some mid \<and>
        content w (itoa mid) = Some blob \<and> decodeMatch mid blob = Inr m \<and> validate m = None \<and>
        r = fst (pa_ingest P m (snd (ps_Get (pa_store P) (itoa mid) w))) \<and> (r = None \<or> (\<exists>e. r = Some e \<and> errors_is e ErrAlreadySeen)) \<and>
        (content w' = content w \<or> content w' = (content w)(itoa mid := None))) \<or>
    (\<exists>e. out = Returned ResultRetry (Some e) \<and> content w' = content w) \<or>
    (\<exists>e. out = Returned ResultDrop (Some e) \<and> content w' = content w \<and>
        (\<forall>mid blob. unmarshal_task (Payload t) = Some mid \<and> content w (itoa mid) = Some blob \<longrightarrow>
           \<not> (\<exists>m. decodeMatch mid blob = Inr m \<and> validate m = None)))"
  using assms by (rule parse_stage.process_cases)

definition parse_world :: "go_error option \<Rightarrow> bytes \<Rightarrow> match_db stage_world" where
  "parse_world e b =
     \<lparr>sw_out = inmem_New \<lparr>MaxRetries = 3, MaxBackoff = second\<rparr>, sw_store = snd (store_Put (itoa 7) b hour (store_New 0)),
      sw_sink = sink_New 0, sw_net = \<lparr>db_matches = [], db_broken = e\<rparr>\<rparr>"

lemma parse_world_content: "sw_content (parse_world e b) = [itoa 7 \<mapsto> b]"
  by (simp add: fun_eq_iff parse_world_def store_Put_def store_New_def store_content_def expired_def Let_def)

theorem parse_outcomes_witness:
  "let (out, w') = parser_Process mem_parser fetch_task (parse_world None sample_text) in
   out = Returned ResultSuccess None \<and> (\<forall>k. k \<noteq> itoa 7 \<longrightarrow> sw_content w' k = None)"
proof -
  let ?w = "parse_world None sample_text"
  obtain out w' where p: "parser_Process mem_parser fetch_task ?w = (out, w')" by fastforce
  obtain m where m: "decodeMatch 7 sample_text = Inr m" "validate m = None" using sample_decoded by blast
  obtain r w1 where g: "ps_Get stage_store_if (itoa 7) ?w = (r, w1)" by fastforce
  have r: "r = Inr sample_text"
    using g payload_store.get_err [OF stage_store_contract, of "itoa 7" ?w _ w1] payload_store.get_ok [OF stage_store_contract, of "itoa 7" ?w _ w1]
    by (auto simp: parse_world_def stage_store_if_def on_store_def store_Get_def store_Put_def store_New_def expired_def split: prod.splits)
  have "sw_net w1 = \<lparr>db_matches = [], db_broken = None\<rparr>"
    using g by (auto simp: stage_store_if_def on_store_def parse_world_def split: prod.splits)
  then have "fst (Ingest mem_ingester m w1) = None"
    by (simp add: Ingest_def mem_ingester_def db_IngestMatch_def)
  then have "out = Returned ResultSuccess None"
    using p g r m sample_task
    by (auto simp: parser_Process_def parse_blob_def mem_parser_def finish_ingest_def split: prod.splits)
  then show ?thesis
    using parse_outcomes [OF mem_parse.parse_stage_axioms p] p by (auto simp: parse_world_content result_defs)
qed

end
