(* ===== verification/EnrichSort.thy ===== *)
theory EnrichSort
  imports Prelude
begin

text \<open>
  The order in which the reference sources run (\<^verbatim>\<open>sortByDependencies\<close> in
  \<^verbatim>\<open>internal/enrich/runner.go\<close>): a depth-first search over the names a source depends on, which
  reports a cycle and skips names it does not know.
\<close>

section \<open>Sources\<close>

record source =
  src_Name :: string
  src_Critical :: bool
  src_DependsOn :: "string list"

text \<open>\<open>nameMap\<close>: of several sources with one name the last one counts.\<close>

definition find_source :: "source list \<Rightarrow> string \<Rightarrow> source option" where
  "find_source srcs n = map_of (rev (map (\<lambda>s. (src_Name s, s)) srcs)) n"

lemma find_source_Some: "find_source srcs n = Some s \<Longrightarrow> s \<in> set srcs \<and> src_Name s = n"
  by (auto simp: find_source_def dest!: map_of_SomeD)

lemma find_source_None: "find_source srcs n = None \<longleftrightarrow> n \<notin> src_Name ` set srcs"
  by (force simp: find_source_def map_of_eq_None_iff)

section \<open>The search\<close>

record sort_state =
  ss_sorted :: "source list"
  ss_skipped :: "string list"
  ss_done :: "string list"

text \<open>The set \<^verbatim>\<open>inStack\<close> is the argument \<open>stack\<close>: the code sets an entry when a visit begins and clears
  it when the visit ends, and a visit that fails ends the whole search.\<close>

function visit :: "source list \<Rightarrow> string list \<Rightarrow> string \<Rightarrow> sort_state \<Rightarrow> go_error + sort_state"
  and visit_deps :: "source list \<Rightarrow> string list \<Rightarrow> string list \<Rightarrow> sort_state \<Rightarrow> go_error + sort_state" where
  "visit srcs stack name st =
     (if name \<in> set (ss_done st) then Inr st
      else if name \<in> set stack then Inl (ErrText (''cycle detected involving '' @ name))
      else
        case find_source srcs name of
          None \<Rightarrow> Inr st
        | Some s \<Rightarrow>
            (case visit_deps srcs (name # stack) (src_DependsOn s) st of
               Inl e \<Rightarrow> Inl e
             | Inr st1 \<Rightarrow>
                 if name \<in> set (ss_done st1) then Inr st1
                 else Inr (st1\<lparr>ss_sorted := ss_sorted st1 @ [s], ss_done := name # ss_done st1\<rparr>)))"
| "visit_deps srcs stack [] st = Inr st"
| "visit_deps srcs stack (d # ds) st =
     (case find_source srcs d of
        None \<Rightarrow> visit_deps srcs stack ds (st\<lparr>ss_skipped := ss_skipped st @ [d]\<rparr>)
      | Some _ \<Rightarrow>
          (case visit srcs stack d st of
             Inl e \<Rightarrow> Inl e
           | Inr st1 \<Rightarrow> visit_deps srcs stack ds st1))"
  by pat_completeness auto

text \<open>Every nested visit has one more known name on the stack.\<close>

termination
proof (relation "measures
    [case_sum (\<lambda>(srcs, stack, _). card (src_Name ` set srcs - set stack)) (\<lambda>(srcs, stack, _). card (src_Name ` set srcs - set stack)),
     case_sum (\<lambda>_. 0) (\<lambda>(_, _, ds, _). Suc (length ds))]", goal_cases)
  case (2 srcs stack name st s)
  have "name \<in> src_Name ` set srcs - set stack"
    using 2 find_source_Some [of srcs name s] by auto
  then have "src_Name ` set srcs - set (name # stack) \<subset> src_Name ` set srcs - set stack" by auto
  then show ?case by (simp add: psubset_card_mono)
qed auto

declare visit.simps [simp del]

definition visit_all :: "source list \<Rightarrow> string list \<Rightarrow> sort_state \<Rightarrow> go_error + sort_state" where
  "visit_all srcs names st =
     fold (\<lambda>n r. case r of Inl e \<Rightarrow> Inl e | Inr st \<Rightarrow> visit srcs [] n st) names (Inr st)"

definition sortByDependencies :: "source list \<Rightarrow> go_error + source list \<times> string list" where
  "sortByDependencies srcs =
     (case visit_all srcs (map src_Name srcs) \<lparr>ss_sorted = [], ss_skipped = [], ss_done = []\<rparr> of
        Inl e \<Rightarrow> Inl e
      | Inr st \<Rightarrow> Inr (ss_sorted st, ss_skipped st))"

section \<open>The invariant of the search\<close>

text \<open>\<open>dep_rel\<close> is the dependency relation between known names.\<close>

definition dep_rel :: "source list \<Rightarrow> (string \<times> string) set" where
  "dep_rel srcs =
     {(n, d). \<exists>s. find_source srcs n = Some s \<and> d \<in> set (src_DependsOn s) \<and> find_source srcs d \<noteq> None}"

fun ordered :: "source list \<Rightarrow> string list \<Rightarrow> source list \<Rightarrow> bool" where
  "ordered srcs before [] = True"
| "ordered srcs before (s # ss) =
     ((\<forall>d. (src_Name s, d) \<in> dep_rel srcs \<longrightarrow> d \<in> set before) \<and> ordered srcs (src_Name s # before) ss)"

definition sort_inv :: "source list \<Rightarrow> sort_state \<Rightarrow> bool" where
  "sort_inv srcs st \<longleftrightarrow>
     set (ss_done st) = src_Name ` set (ss_sorted st) \<and> distinct (map src_Name (ss_sorted st)) \<and>
     (\<forall>s \<in> set (ss_sorted st). find_source srcs (src_Name s) = Some s) \<and>
     ordered srcs [] (ss_sorted st) \<and> (\<forall>n \<in> set (ss_skipped st). find_source srcs n = None)"

lemma ordered_snoc:
  "ordered srcs before (ss @ [s]) \<longleftrightarrow>
     ordered srcs before ss \<and> (\<forall>d. (src_Name s, d) \<in> dep_rel srcs \<longrightarrow> d \<in> set before \<union> src_Name ` set ss)"
  by (induction ss arbitrary: before) auto

lemma visit_inv:
  "visit srcs stack name st = Inr st' \<Longrightarrow> sort_inv srcs st \<Longrightarrow>
     sort_inv srcs st' \<and> set (ss_done st) \<subseteq> set (ss_done st') \<and> (find_source srcs name \<noteq> None \<longrightarrow> name \<in> set (ss_done st'))"
  "visit_deps srcs stack ds st = Inr st' \<Longrightarrow> sort_inv srcs st \<Longrightarrow>
     sort_inv srcs st' \<and> set (ss_done st) \<subseteq> set (ss_done st') \<and>
     (\<forall>d \<in> set ds. find_source srcs d \<noteq> None \<longrightarrow> d \<in> set (ss_done st'))"
proof (induction srcs stack name st and srcs stack ds st arbitrary: st' and st' rule: visit_visit_deps.induct)
  case (1 srcs stack name st)
  show ?case
  proof (cases "name \<in> set (ss_done st)")
    case True
    then show ?thesis using "1.prems" by (simp add: visit.simps)
  next
    case new: False
    then have stk: "name \<notin> set stack" using "1.prems"(1) by (auto simp: visit.simps)
    show ?thesis
    proof (cases "find_source srcs name")
      case None
      then show ?thesis using "1.prems" new stk by (simp add: visit.simps)
    next
      case (Some s)
      then obtain st1 where d: "visit_deps srcs (name # stack) (src_DependsOn s) st = Inr st1"
        using "1.prems"(1) new stk by (auto simp: visit.simps split: sum.splits)
      note IH = "1.IH" [OF new stk Some d "1.prems"(2)]
      show ?thesis
      proof (cases "name \<in> set (ss_done st1)")
        case True
        then show ?thesis using "1.prems"(1) new stk Some d IH by (simp add: visit.simps)
      next
        case False
        then have st': "st' = st1\<lparr>ss_sorted := ss_sorted st1 @ [s], ss_done := name # ss_done st1\<rparr>"
          using "1.prems"(1) new stk Some d by (simp add: visit.simps)
        have nm: "src_Name s = name" using find_source_Some [OF Some] by simp
        have deps: "d \<in> src_Name ` set (ss_sorted st1)" if "(name, d) \<in> dep_rel srcs" for d
          using that IH Some by (auto simp: dep_rel_def sort_inv_def)
        have "sort_inv srcs st'"
          unfolding sort_inv_def st' using IH False nm Some deps
          by (auto simp: sort_inv_def ordered_snoc)
        then show ?thesis using IH st' by auto
      qed
    qed
  qed
next
  case (2 srcs stack st)
  then show ?case by simp
next
  case (3 srcs stack d ds st)
  show ?case
  proof (cases "find_source srcs d")
    case None
    then have "visit_deps srcs stack ds (st\<lparr>ss_skipped := ss_skipped st @ [d]\<rparr>) = Inr st'" using "3.prems"(1) by simp
    moreover have "sort_inv srcs (st\<lparr>ss_skipped := ss_skipped st @ [d]\<rparr>)"
      using "3.prems"(2) None by (auto simp: sort_inv_def)
    ultimately show ?thesis using "3.IH"(1) [OF None] None by auto
  next
    case (Some s)
    then obtain st1 where v: "visit srcs stack d st = Inr st1" and r: "visit_deps srcs stack ds st1 = Inr st'"
      using "3.prems"(1) by (auto split: sum.splits)
    note i1 = "3.IH"(2) [OF Some v "3.prems"(2)]
    note i2 = "3.IH"(3) [OF Some v r i1 [THEN conjunct1]]
    show ?thesis using i1 i2 Some by auto
  qed
qed

lemma visit_all_Cons:
  "visit_all srcs (n # ns) st = (case visit srcs [] n st of Inl e \<Rightarrow> Inl e | Inr st1 \<Rightarrow> visit_all srcs ns st1)"
proof -
  have "fold (\<lambda>n r. case r of Inl e \<Rightarrow> Inl e | Inr st \<Rightarrow> visit srcs [] n st) ns (Inl e) = Inl e" for e
    by (induction ns) auto
  then show ?thesis by (simp add: visit_all_def split: sum.split)
qed

lemma visit_all_inv:
  "visit_all srcs ns st = Inr st' \<Longrightarrow> sort_inv srcs st \<Longrightarrow>
     sort_inv srcs st' \<and> set (ss_done st) \<subseteq> set (ss_done st') \<and> (\<forall>n \<in> set ns. find_source srcs n \<noteq> None \<longrightarrow> n \<in> set (ss_done st'))"
proof (induction ns arbitrary: st)
  case Nil
  then show ?case by (simp add: visit_all_def)
next
  case (Cons n ns)
  then obtain st1 where v: "visit srcs [] n st = Inr st1" and r: "visit_all srcs ns st1 = Inr st'"
    by (auto simp: visit_all_Cons split: sum.splits)
  note i1 = visit_inv(1) [OF v Cons.prems(2)]
  note i2 = Cons.IH [OF r i1 [THEN conjunct1]]
  show ?case using i1 i2 by auto
qed

section \<open>Cycles\<close>

text \<open>The stack is a chain of dependencies: a name that is found on it closes a cycle.\<close>

fun chain :: "source list \<Rightarrow> string \<Rightarrow> string list \<Rightarrow> bool" where
  "chain srcs n [] = True"
| "chain srcs n (m # ms) = ((m, n) \<in> dep_rel srcs \<and> chain srcs m ms)"

lemma chain_reaches: "chain srcs n ms \<Longrightarrow> m \<in> set ms \<Longrightarrow> (m, n) \<in> (dep_rel srcs)\<^sup>+"
  by (induction ms arbitrary: n) (auto intro: trancl_into_trancl)

lemma visit_cycle:
  "visit srcs stack name st = Inl e \<Longrightarrow> chain srcs name stack \<Longrightarrow> \<exists>n. (n, n) \<in> (dep_rel srcs)\<^sup>+"
  "visit_deps srcs stack ds st = Inl e \<Longrightarrow>
     (\<forall>d \<in> set ds. find_source srcs d \<noteq> None \<longrightarrow> chain srcs d stack) \<Longrightarrow> \<exists>n. (n, n) \<in> (dep_rel srcs)\<^sup>+"
proof (induction srcs stack name st and srcs stack ds st arbitrary: e and e rule: visit_visit_deps.induct)
  case (1 srcs stack name st)
  have new: "name \<notin> set (ss_done st)" using "1.prems"(1) by (auto simp: visit.simps)
  show ?case
  proof (cases "name \<in> set stack")
    case True
    then show ?thesis using chain_reaches [OF "1.prems"(2)] by blast
  next
    case stk: False
    then obtain s where s: "find_source srcs name = Some s"
      using "1.prems"(1) new by (auto simp: visit.simps split: option.splits)
    then have d: "visit_deps srcs (name # stack) (src_DependsOn s) st = Inl e"
      using "1.prems"(1) new stk by (auto simp: visit.simps split: sum.splits if_splits)
    have "\<forall>d \<in> set (src_DependsOn s). find_source srcs d \<noteq> None \<longrightarrow> chain srcs d (name # stack)"
      using "1.prems"(2) s by (auto simp: dep_rel_def)
    then show ?thesis using "1.IH" [OF new stk s d] by blast
  qed
next
  case (2 srcs stack st)
  then show ?case by simp
next
  case (3 srcs stack d ds st)
  show ?case
  proof (cases "find_source srcs d")
    case None
    then show ?thesis using "3.prems" "3.IH"(1) [OF None] by simp
  next
    case (Some s)
    show ?thesis
    proof (cases "visit srcs stack d st")
      case (Inl e')
      then show ?thesis using "3.IH"(2) [OF Some Inl] "3.prems"(2) Some by simp
    next
      case (Inr st1)
      then have "visit_deps srcs stack ds st1 = Inl e" using "3.prems"(1) Some by simp
      then show ?thesis using "3.IH"(3) [OF Some Inr] "3.prems"(2) by simp
    qed
  qed
qed

text \<open>An order in which every source comes after what it depends on leaves no room for a cycle.\<close>

lemma ordered_index:
  assumes "ordered srcs [] ss" and "distinct (map src_Name ss)" and "i < length ss" and "(src_Name (ss ! i), d) \<in> dep_rel srcs"
  shows "\<exists>j < i. src_Name (ss ! j) = d"
  using assms
proof (induction ss arbitrary: i rule: rev_induct)
  case (snoc s ss)
  show ?case
  proof (cases "i < length ss")
    case True
    then obtain j where "j < i" "src_Name (ss ! j) = d"
      using snoc by (auto simp: ordered_snoc nth_append)
    then show ?thesis using True by (intro exI [of _ j]) (simp add: nth_append)
  next
    case False
    then have "i = length ss" using snoc.prems(3) by simp
    then have "d \<in> src_Name ` set ss" using snoc.prems by (auto simp: ordered_snoc nth_append)
    then obtain x where "x \<in> set ss" "src_Name x = d" by blast
    then obtain j where "j < length ss" "src_Name (ss ! j) = d" by (auto simp: in_set_conv_nth)
    then show ?thesis using \<open>i = length ss\<close> by (intro exI [of _ j]) (simp add: nth_append)
  qed
qed simp

lemma ordered_no_cycle:
  assumes "ordered srcs [] ss" and "distinct (map src_Name ss)"
    and "\<And>n. find_source srcs n \<noteq> None \<Longrightarrow> n \<in> src_Name ` set ss"
  shows "(n, n) \<notin> (dep_rel srcs)\<^sup>+"
proof
  let ?pos = "\<lambda>n. LEAST i. i < length ss \<and> src_Name (ss ! i) = n"
  have pos: "?pos (src_Name (ss ! i)) = i" if "i < length ss" for i
  proof (rule Least_equality)
    fix j assume "j < length ss \<and> src_Name (ss ! j) = src_Name (ss ! i)"
    then have "map src_Name ss ! j = map src_Name ss ! i" "j < length (map src_Name ss)" using that by simp_all
    then show "i \<le> j" using nth_eq_iff_index_eq [OF assms(2), of j i] that by simp
  qed (use that in simp)
  have less: "?pos d < ?pos m" if md: "(m, d) \<in> dep_rel srcs" for m d
  proof -
    have "m \<in> src_Name ` set ss" using md assms(3) by (auto simp: dep_rel_def)
    then obtain i where i: "i < length ss" "src_Name (ss ! i) = m" by (auto simp: in_set_conv_nth)
    then obtain j where j: "j < i" "src_Name (ss ! j) = d" using ordered_index [OF assms(1,2)] md by blast
    then show ?thesis using pos [of i] pos [of j] i by auto
  qed
  have "(m, k) \<in> (dep_rel srcs)\<^sup>+ \<Longrightarrow> ?pos k < ?pos m" for m k
    by (induction rule: trancl_induct) (auto dest: less order.strict_trans)
  moreover assume "(n, n) \<in> (dep_rel srcs)\<^sup>+"
  ultimately show False by blast
qed

section \<open>Correctness\<close>

text \<open>The order that the search must deliver.\<close>

definition topological :: "source list \<Rightarrow> source list \<Rightarrow> bool" where
  "topological srcs ss \<longleftrightarrow>
     distinct (map src_Name ss) \<and> src_Name ` set ss = src_Name ` set srcs \<and> set ss \<subseteq> set srcs \<and>
     (\<forall>i < length ss. \<forall>d \<in> set (src_DependsOn (ss ! i)). d \<in> src_Name ` set srcs \<longrightarrow> (\<exists>j < i. src_Name (ss ! j) = d))"

lemma sort_result:
  assumes "sortByDependencies srcs = Inr (ss, skipped)"
  shows "ordered srcs [] ss" and "distinct (map src_Name ss)" and "src_Name ` set ss = src_Name ` set srcs"
    and "\<forall>s \<in> set ss. find_source srcs (src_Name s) = Some s" and "\<forall>n \<in> set skipped. n \<notin> src_Name ` set srcs"
proof -
  let ?st0 = "\<lparr>ss_sorted = [], ss_skipped = [], ss_done = []\<rparr>"
  obtain st where v: "visit_all srcs (map src_Name srcs) ?st0 = Inr st" and r: "ss = ss_sorted st" "skipped = ss_skipped st"
    using assms by (auto simp: sortByDependencies_def split: sum.splits)
  have "sort_inv srcs ?st0" by (simp add: sort_inv_def)
  from visit_all_inv [OF v this] have inv: "sort_inv srcs st"
    and all: "\<forall>n \<in> set (map src_Name srcs). find_source srcs n \<noteq> None \<longrightarrow> n \<in> set (ss_done st)" by blast+
  show "ordered srcs [] ss" "distinct (map src_Name ss)" "\<forall>s \<in> set ss. find_source srcs (src_Name s) = Some s"
    using inv r by (auto simp: sort_inv_def)
  show "\<forall>n \<in> set skipped. n \<notin> src_Name ` set srcs"
    using inv r by (simp add: sort_inv_def find_source_None)
  show "src_Name ` set ss = src_Name ` set srcs"
  proof
    have "src_Name s \<in> src_Name ` set srcs" if "s \<in> set ss" for s
    proof -
      have "find_source srcs (src_Name s) = Some s" using inv r(1) that by (simp add: sort_inv_def)
      then show ?thesis using find_source_Some by blast
    qed
    then show "src_Name ` set ss \<subseteq> src_Name ` set srcs" by blast
    have dn: "set (ss_done st) = src_Name ` set ss" using inv r(1) by (simp add: sort_inv_def)
    have "n \<in> set (ss_done st)" if "n \<in> src_Name ` set srcs" for n
    proof -
      from that have "n \<in> set (map src_Name srcs)" by simp
      then show ?thesis using all find_source_None [of srcs n] that by blast
    qed
    then show "src_Name ` set srcs \<subseteq> src_Name ` set ss" unfolding dn by blast
  qed
qed

text \<open>(C16) The sorting of the sources is a topological sort, and fails exactly on a cycle: if it
  succeeds, every known name occurs once, and every source comes after the known sources it depends
  on, while the skipped names are unknown; if it fails, some source depends on itself through known
  sources. The search ends on every list of sources.\<close>

theorem sort_by_dependencies_correct:
  "case sortByDependencies srcs of
     Inr (ss, skipped) \<Rightarrow> topological srcs ss \<and> set skipped \<inter> src_Name ` set srcs = {} \<and> (\<nexists>n. (n, n) \<in> (dep_rel srcs)\<^sup>+)
   | Inl e \<Rightarrow> (\<exists>n. (n, n) \<in> (dep_rel srcs)\<^sup>+)"
proof (cases "sortByDependencies srcs")
  case (Inl e)
  have "visit_all srcs ns st = Inl e \<Longrightarrow> \<exists>n. (n, n) \<in> (dep_rel srcs)\<^sup>+" for ns st
  proof (induction ns arbitrary: st)
    case (Cons n ns)
    show ?case
    proof (cases "visit srcs [] n st")
      case (Inl e')
      then show ?thesis by (rule visit_cycle(1)) simp
    next
      case (Inr st1)
      then show ?thesis using Cons by (simp add: visit_all_Cons)
    qed
  qed (simp add: visit_all_def)
  then have "\<exists>n. (n, n) \<in> (dep_rel srcs)\<^sup>+"
    using Inl by (auto simp: sortByDependencies_def split: sum.splits)
  then show ?thesis using Inl by simp
next
  case (Inr r)
  obtain ss skipped where r: "r = (ss, skipped)" by fastforce
  note res = sort_result [OF Inr [unfolded r]]
  have before: "\<exists>j < i. src_Name (ss ! j) = d"
    if "i < length ss" "d \<in> set (src_DependsOn (ss ! i))" "d \<in> src_Name ` set srcs" for i d
  proof (rule ordered_index [OF res(1,2) that(1)])
    have "find_source srcs (src_Name (ss ! i)) = Some (ss ! i)" using res(4) that(1) by simp
    then show "(src_Name (ss ! i), d) \<in> dep_rel srcs" using that(2,3) find_source_None [of srcs d] by (auto simp: dep_rel_def)
  qed
  have sub: "set ss \<subseteq> set srcs"
  proof
    fix x assume "x \<in> set ss"
    then have "find_source srcs (src_Name x) = Some x" using res(4) by blast
    then show "x \<in> set srcs" using find_source_Some by blast
  qed
  have known: "n \<in> src_Name ` set ss" if "find_source srcs n \<noteq> None" for n
    unfolding res(3) using that find_source_None [of srcs n] by (cases "find_source srcs n") simp_all
  have cyc: "\<nexists>n. (n, n) \<in> (dep_rel srcs)\<^sup>+" using ordered_no_cycle [OF res(1,2) known] by blast
  have "topological srcs ss"
    unfolding topological_def by (intro conjI allI impI ballI) (rule res(2) res(3) sub before; assumption)+
  moreover have "set skipped \<inter> src_Name ` set srcs = {}" using res(5) by blast
  ultimately show ?thesis using cyc unfolding Inr r sum.case prod.case by (intro conjI)
qed

end
