(* ===== verification/Enrich.thy ===== *)
theory Enrich
  imports EnrichSort Stores HttpDo
begin

text \<open>
  Running the reference sources (\<^verbatim>\<open>internal/enrich\<close>): the gate that decides whether a source is due
  (\<^verbatim>\<open>gate/gate.go\<close>), the runner over the sorted sources (\<^verbatim>\<open>runner.go\<close>), and the reading of
  responses and files (\<^verbatim>\<open>httpclient/file.go\<close>, \<^verbatim>\<open>jsonutil/jsonutil.go\<close>).
\<close>

section \<open>The gate\<close>

record run_outcome =
  ro_Success :: bool
  ro_Err :: string
  ro_At :: int

text \<open>The port; \<^verbatim>\<open>ShouldRun\<close> returns its answer together with an error.\<close>

record 'w run_gate =
  rg_ShouldRun :: "string \<Rightarrow> 'w \<Rightarrow> (bool \<times> go_error option) \<times> 'w"
  rg_RecordRun :: "string \<Rightarrow> run_outcome \<Rightarrow> 'w \<Rightarrow> go_error option \<times> 'w"

datatype gate_mode = Interval | Once

record gate_cfg =
  gt_Prefix :: string
  gt_MinAge :: duration
  gt_TTL :: duration
  gt_Mode :: gate_mode

text \<open>\<^verbatim>\<open>time.Time\<close> as text in \<^verbatim>\<open>RFC3339\<close>, and the clock.\<close>

record 'd gate_env =
  ge_redis :: "'d redis"
  ge_format :: "int \<Rightarrow> string"
  ge_parse :: "string \<Rightarrow> int option"
  ge_now :: "'d \<Rightarrow> int"

definition gate_key :: "gate_cfg \<Rightarrow> string \<Rightarrow> string" where
  "gate_key c name = gt_Prefix c @ '':'' @ (if gt_Mode c = Once then ''done'' else ''run'') @ '':'' @ name"

definition gate_ShouldRun :: "'d gate_env \<Rightarrow> gate_cfg \<Rightarrow> string \<Rightarrow> 'd \<Rightarrow> (bool \<times> go_error option) \<times> 'd" where
  "gate_ShouldRun E c name d =
     (let key = gate_key c name in
      if gt_Mode c = Once then
        (let (r, d1) = rd_do (ge_redis E) (EXISTS key) d in
         case int_reply r of
           Inl e \<Rightarrow> ((False, Some (Wrapped ''exists: '' e)), d1)
         | Inr n \<Rightarrow> ((n = 0, None), d1))
      else
        (let (r, d1) = rd_do (ge_redis E) (GET key) d in
         case str_reply r of
           Inl e \<Rightarrow>
             if e = RedisNil then ((True, None), d1) else ((False, Some (Wrapped ''get last run: '' e)), d1)
         | Inr s \<Rightarrow>
             (case ge_parse E s of
                None \<Rightarrow> ((True, None), d1)
              | Some lastAt \<Rightarrow> ((gt_MinAge c \<le> ge_now E d1 - lastAt, None), d1))))"

definition gate_RecordRun :: "'d gate_env \<Rightarrow> gate_cfg \<Rightarrow> string \<Rightarrow> run_outcome \<Rightarrow> 'd \<Rightarrow> go_error option \<times> 'd" where
  "gate_RecordRun E c name ro d =
     (if \<not> ro_Success ro then (None, d)
      else
        let ttl = (if gt_Mode c = Once then gt_TTL c else gt_MinAge c);
            (r, d1) = rd_do (ge_redis E) (SET (gate_key c name) (ge_format E (ro_At ro)) ttl False) d
        in (reply_err r, d1))"

definition gate_if :: "'d gate_env \<Rightarrow> gate_cfg \<Rightarrow> 'd run_gate" where
  "gate_if E c = \<lparr>rg_ShouldRun = gate_ShouldRun E c, rg_RecordRun = gate_RecordRun E c\<rparr>"

definition always_if :: "'w run_gate" where
  "always_if = \<lparr>rg_ShouldRun = (\<lambda>_ w. ((True, None), w)), rg_RecordRun = (\<lambda>_ _ w. (None, w))\<rparr>"

section \<open>The runner\<close>

record 'w enrich_env =
  en_wired :: bool
  en_ctx :: "'w \<Rightarrow> go_error option"
  en_gate :: "'w run_gate"
  en_now :: "'w \<Rightarrow> int"
  en_run :: "source \<Rightarrow> 'w \<Rightarrow> go_error option \<times> 'w"

definition NewRunner :: "source list \<Rightarrow> go_error + source list" where
  "NewRunner srcs =
     (case sortByDependencies srcs of
        Inl e \<Rightarrow> Inl (Wrapped ''runner: dependency cycle detected: '' e)
      | Inr (ss, skipped) \<Rightarrow> Inr ss)"

definition runOne :: "'w enrich_env \<Rightarrow> source \<Rightarrow> 'w \<Rightarrow> go_error option \<times> 'w" where
  "runOne E s w =
     (let name = src_Name s; ((shouldRun, err), w1) = rg_ShouldRun (en_gate E) name w in
      if \<not> shouldRun then (None, w1)
      else
        let start = en_now E w1; (r, w2) = en_run E s w1 in
        case r of
          Some e \<Rightarrow>
            (let w3 = snd (rg_RecordRun (en_gate E) name \<lparr>ro_Success = False, ro_Err = err_string e, ro_At = start\<rparr> w2) in
             (if src_Critical s then Some (Wrapped ''run: '' e) else None, w3))
        | None \<Rightarrow> (None, snd (rg_RecordRun (en_gate E) name \<lparr>ro_Success = True, ro_Err = [], ro_At = start\<rparr> w2)))"

fun run_sources :: "'w enrich_env \<Rightarrow> source list \<Rightarrow> 'w \<Rightarrow> go_error option \<times> 'w" where
  "run_sources E [] w = (None, w)"
| "run_sources E (s # ss) w =
     (case en_ctx E w of
        Some e \<Rightarrow> (Some e, w)
      | None \<Rightarrow> (case runOne E s w of (Some e, w1) \<Rightarrow> (Some e, w1) | (None, w1) \<Rightarrow> run_sources E ss w1))"

definition enrich_Run :: "'w enrich_env \<Rightarrow> source list \<Rightarrow> 'w \<Rightarrow> go_error option \<times> 'w" where
  "enrich_Run E ss w =
     (if \<not> en_wired E then (Some (ErrText ''enrich: runner not fully wired (http/writer/gate)''), w)
      else run_sources E ss w)"

section \<open>Responses and files\<close>

definition ReadBody :: "(response \<Rightarrow> 'w \<Rightarrow> (go_error + bytes) \<times> 'w) \<Rightarrow> response \<Rightarrow> 'w \<Rightarrow> (go_error + bytes) \<times> 'w" where
  "ReadBody rd resp w =
     (if 400 \<le> StatusCode resp then (Inl (ErrText (''http status '' @ itoa (StatusCode resp))), w)
      else
        case rd resp w of
          (Inl e, w1) \<Rightarrow> (Inl (Wrapped ''read body: '' e), w1)
        | (Inr b, w1) \<Rightarrow> (Inr b, w1))"

text \<open>The file client: \<open>clean\<close> is \<^verbatim>\<open>filepath.Clean\<close>, \<open>stat\<close> tells whether a path is a directory,
  \<open>readfile\<close> reads it.\<close>

definition FileClient_Get :: "(string \<Rightarrow> string) \<Rightarrow> (string \<Rightarrow> go_error + bool) \<Rightarrow> (string \<Rightarrow> go_error + bytes) \<Rightarrow> string \<Rightarrow> go_error + response" where
  "FileClient_Get clean stat readfile rawURL =
     (if \<not> has_prefix rawURL ''file://'' then Inl (ErrText (''file client only handles file://, got '' @ rawURL))
      else
        let path = clean (trim_prefix rawURL ''file://'') in
        case stat path of
          Inl e \<Rightarrow> Inl (Wrapped (''stat '' @ path @ '': '') e)
        | Inr dir \<Rightarrow>
            if dir then Inl (ErrText (''expected file, got directory: '' @ path))
            else
              case readfile path of
                Inl e \<Rightarrow> Inl (Wrapped (''read '' @ path @ '': '') e)
              | Inr b \<Rightarrow> Inr \<lparr>StatusCode = 200, Body = b\<rparr>)"

section \<open>The gate keeps the interval\<close>

text \<open>What the formatting of times keeps: whole seconds.\<close>

definition time_text_laws :: "(int \<Rightarrow> string) \<Rightarrow> (string \<Rightarrow> int option) \<Rightarrow> bool" where
  "time_text_laws fmt prs \<longleftrightarrow> (\<forall>t. 0 \<le> t \<and> is_int64 t \<longrightarrow> prs (fmt t) = Some (t - t mod second))"


definition sample_gate_env :: "int \<Rightarrow> mini_db gate_env" where
  "sample_gate_env now =
     \<lparr>ge_redis = mini_redis, ge_format = (\<lambda>t. itoa (t - t mod second)), ge_parse = atoi, ge_now = (\<lambda>_. now)\<rparr>"

definition sample_gate_cfg :: gate_cfg where
  "sample_gate_cfg = \<lparr>gt_Prefix = ''enrich'', gt_MinAge = hour, gt_TTL = 0, gt_Mode = Interval\<rparr>"

lemma sample_time_laws: "time_text_laws (\<lambda>t. itoa (t - t mod second)) atoi"
  unfolding time_text_laws_def
proof (intro allI impI)
  fix t :: int
  assume t: "0 \<le> t \<and> is_int64 t"
  have "0 \<le> t mod second" "t mod second \<le> t" using t by (simp_all add: zmod_le_nonneg_dividend)
  then have "is_int64 (t - t mod second)" using t unfolding is_int64_def by linarith
  then show "atoi (itoa (t - t mod second)) = Some (t - t mod second)" by (rule atoi_itoa)
qed


section \<open>The runner keeps the order\<close>

text \<open>The same environment with a log of the sources that ran, and whether each succeeded.\<close>

definition run_logged :: "'w enrich_env \<Rightarrow> ('w \<times> (source \<times> bool) list) enrich_env" where
  "run_logged E =
     \<lparr>en_wired = en_wired E, en_ctx = (\<lambda>(w, l). en_ctx E w),
      en_gate = \<lparr>rg_ShouldRun = (\<lambda>n (w, l). let (r, w1) = rg_ShouldRun (en_gate E) n w in (r, (w1, l))),
                 rg_RecordRun = (\<lambda>n ro (w, l). let (r, w1) = rg_RecordRun (en_gate E) n ro w in (r, (w1, l)))\<rparr>,
      en_now = (\<lambda>(w, l). en_now E w),
      en_run = (\<lambda>s (w, l). let (r, w1) = en_run E s w in (r, (w1, l @ [(s, r = None)])))\<rparr>"

text \<open>One source: it runs at most once, and an error is reported exactly for a critical failure.\<close>

lemma runOne_logged:
  assumes "runOne (run_logged E) s (w, l) = (r, (w', l'))"
  shows "l' = l \<and> r = None \<or> (\<exists>ok. l' = l @ [(s, ok)] \<and> (r \<noteq> None \<longleftrightarrow> \<not> ok \<and> src_Critical s))"
  using assms
  by (auto simp: runOne_def run_logged_def Let_def split: prod.splits option.splits if_splits)

definition critical_failure :: "source \<times> bool \<Rightarrow> bool" where
  "critical_failure x \<longleftrightarrow> \<not> snd x \<and> src_Critical (fst x)"

lemma run_sources_logged:
  assumes "run_sources (run_logged E) ss (w, l) = (r, (w', l'))"
  shows "\<exists>t. l' = l @ t \<and> subseq (map fst t) ss \<and> (\<forall>x \<in> set (butlast t). \<not> critical_failure x) \<and>
    (r = None \<longrightarrow> (\<forall>x \<in> set t. \<not> critical_failure x))"
  using assms
proof (induction ss arbitrary: w l)
  case Nil
  then show ?case by (intro exI [of _ "[]"]) simp
next
  case (Cons s ss)
  show ?case
  proof (cases "en_ctx (run_logged E) (w, l)")
    case (Some e)
    then show ?thesis using Cons.prems by (intro exI [of _ "[]"]) simp
  next
    case None
    obtain r1 w1 l1 where one: "runOne (run_logged E) s (w, l) = (r1, (w1, l1))" by (metis prod.collapse)
    show ?thesis
    proof (cases r1)
      case (Some e)
      then obtain ok where ok: "l1 = l @ [(s, ok)]" "r1 \<noteq> None \<longleftrightarrow> \<not> ok \<and> src_Critical s"
        using runOne_logged [OF one] by auto
      have "r = Some e" "l' = l1" using Cons.prems None one Some by auto
      then show ?thesis using ok by (intro exI [of _ "[(s, ok)]"]) simp
    next
      case r1: None
      then have rest: "run_sources (run_logged E) ss (w1, l1) = (r, (w', l'))" using Cons.prems None one by simp
      from Cons.IH [OF rest] obtain t where t: "l' = l1 @ t" "subseq (map fst t) ss"
        "\<forall>x \<in> set (butlast t). \<not> critical_failure x" "r = None \<longrightarrow> (\<forall>x \<in> set t. \<not> critical_failure x)" by blast
      from runOne_logged [OF one] show ?thesis
      proof
        assume "l1 = l \<and> r1 = None"
        then show ?thesis using t by (intro exI [of _ t]) (simp add: list_emb_Cons)
      next
        assume "\<exists>ok. l1 = l @ [(s, ok)] \<and> (r1 \<noteq> None \<longleftrightarrow> \<not> ok \<and> src_Critical s)"
        then obtain ok where "l1 = l @ [(s, ok)]" "\<not> critical_failure (s, ok)" using r1 by (auto simp: critical_failure_def)
        then show ?thesis using t by (intro exI [of _ "(s, ok) # t"]) (auto simp: critical_failure_def split: if_splits)
      qed
    qed
  qed
qed

lemma ordered_sorted_wrt:
  assumes "ordered srcs before ss" and "distinct (map src_Name ss)" and "set before \<inter> src_Name ` set ss = {}"
  shows "sorted_wrt (\<lambda>a b. (src_Name a, src_Name b) \<notin> dep_rel srcs) ss"
  using assms
proof (induction ss arbitrary: before)
  case (Cons s ss)
  have "(src_Name s, src_Name b) \<notin> dep_rel srcs" if "b \<in> set ss" for b
    using Cons.prems(1,3) that by auto
  moreover have "sorted_wrt (\<lambda>a b. (src_Name a, src_Name b) \<notin> dep_rel srcs) ss"
    using Cons.prems by (intro Cons.IH [of "src_Name s # before"]) auto
  ultimately show ?case by simp
qed simp

lemma sorted_wrt_subseq: "subseq xs ys \<Longrightarrow> sorted_wrt P ys \<Longrightarrow> sorted_wrt P xs"
  by (induction rule: list_emb.induct) (auto dest: list_emb_set)

lemma distinct_subseq: "subseq xs ys \<Longrightarrow> distinct ys \<Longrightarrow> distinct xs"
  by (induction rule: list_emb.induct) (auto dest: list_emb_set)

text \<open>(C25) The runner runs the sources in dependency order: whatever the gate says and whichever sources
  fail, the sources that run are a subsequence of the sorted sources, each at most once, and none runs
  before a source it depends on. A critical failure is the last thing that runs and is reported; if no
  error is reported, no critical source failed.\<close>

theorem enrich_runs_in_order:
  assumes "NewRunner srcs = Inr ss" and "enrich_Run (run_logged E) ss (w, []) = (r, (w', t))"
  shows "subseq (map fst t) ss \<and> distinct (map (src_Name \<circ> fst) t) \<and>
    sorted_wrt (\<lambda>a b. (src_Name a, src_Name b) \<notin> dep_rel srcs) (map fst t) \<and>
    (\<forall>x \<in> set (butlast t). \<not> critical_failure x) \<and> (r = None \<longrightarrow> (\<forall>x \<in> set t. \<not> critical_failure x))"
proof -
  obtain skipped where "sortByDependencies srcs = Inr (ss, skipped)"
    using assms(1) by (auto simp: NewRunner_def split: sum.splits)
  note res = sort_result [OF this]
  have run: "subseq (map fst t) ss \<and> (\<forall>x \<in> set (butlast t). \<not> critical_failure x) \<and> (r = None \<longrightarrow> (\<forall>x \<in> set t. \<not> critical_failure x))"
  proof (cases "en_wired (run_logged E)")
    case True
    then have "run_sources (run_logged E) ss (w, []) = (r, (w', t))" using assms(2) by (simp add: enrich_Run_def)
    from run_sources_logged [OF this] show ?thesis by simp
  next
    case False
    then show ?thesis using assms(2) by (simp add: enrich_Run_def)
  qed
  have "sorted_wrt (\<lambda>a b. (src_Name a, src_Name b) \<notin> dep_rel srcs) ss"
    using ordered_sorted_wrt [OF res(1,2)] by simp
  then have "sorted_wrt (\<lambda>a b. (src_Name a, src_Name b) \<notin> dep_rel srcs) (map fst t)"
    using run sorted_wrt_subseq by blast
  moreover have "distinct (map src_Name (map fst t))"
    using distinct_subseq [OF _ res(2)] run by (metis subseq_map)
  ultimately show ?thesis using run by simp
qed

definition sample_sources :: "source list" where
  "sample_sources =
     [\<lparr>src_Name = ''items'', src_Critical = False, src_DependsOn = [''heroes'', ''moon'']\<rparr>,
      \<lparr>src_Name = ''heroes'', src_Critical = True, src_DependsOn = []\<rparr>]"

definition sample_enrich :: "unit enrich_env" where
  "sample_enrich =
     \<lparr>en_wired = True, en_ctx = (\<lambda>_. None), en_gate = always_if, en_now = (\<lambda>_. 0),
      en_run = (\<lambda>s w. (if src_Name s = ''items'' then Some (ErrText ''EOF'') else None, w))\<rparr>"

theorem enrich_runs_in_order_witness:
  "\<exists>ss w' t. NewRunner sample_sources = Inr ss \<and> enrich_Run (run_logged sample_enrich) ss ((), []) = (None, (w', t)) \<and>
     map (src_Name \<circ> fst) t = [''heroes'', ''items''] \<and>
     sorted_wrt (\<lambda>a b. (src_Name a, src_Name b) \<notin> dep_rel sample_sources) (map fst t)"
proof -
  let ?i = "\<lparr>src_Name = ''items'', src_Critical = False, src_DependsOn = [''heroes'', ''moon'']\<rparr>"
  let ?h = "\<lparr>src_Name = ''heroes'', src_Critical = True, src_DependsOn = []\<rparr>"
  have n: "NewRunner sample_sources = Inr [?h, ?i]"
    by (simp add: NewRunner_def sortByDependencies_def sample_sources_def visit_all_Cons visit.simps find_source_def)
       (simp add: visit_all_def)
  have run: "enrich_Run (run_logged sample_enrich) [?h, ?i] ((), []) = (None, ((), [(?h, True), (?i, False)]))"
    by (simp add: enrich_Run_def run_logged_def sample_enrich_def runOne_def always_if_def Let_def)
  show ?thesis using enrich_runs_in_order [OF n run] n run
    by (intro exI [of _ "[?h, ?i]"] exI [of _ "()"] exI [of _ "[(?h, True), (?i, False)]"]) simp
qed

text \<open>If Redis does not answer, the gate of a source that is due says no, and the run ends without an
  error although the source did not run.\<close>

lemma gate_failure_skips:
  assumes "rg_ShouldRun (en_gate E) (src_Name s) w = ((False, Some e), w1)"
  shows "runOne E s w = (None, w1)"
  using assms by (simp add: runOne_def)

end
