(* ===== verification/MatchPg.thy ===== *)
theory MatchPg
  imports MatchRecords
begin

text \<open>
  The match store on Postgres (\<^verbatim>\<open>internal/storage/matchstore/matchpg\<close>, the port
  \<^verbatim>\<open>matchstore.MatchWriter\<close>, and \<^verbatim>\<open>partitionstore/partitionpg\<close>): the rows a match becomes, the
  statements of one ingest in the order in which they are sent, and the transaction around them. The
  driver (pgx) is an argument: it runs a statement in a transaction and a function in a transaction
  of its own. What the statements do to the tables is written down from their SQL text as a function
  on tables; the contract of the driver says that a successful statement has that effect, that a
  failed one leaves the transaction aborted, and that a transaction takes effect as a whole or not at
  all.
\<close>

section \<open>Values and statements\<close>

text \<open>\<^verbatim>\<open>float32\<close> values keep the text of the JSON number, and a list is the same whether the slice is nil
  or empty.\<close>

datatype sql_value =
    Null | VInt int | VBool bool | VText string | VNum string | VJson json | VInts "int list" | VTexts "string list"
  | VTime int

datatype sql_stmt =
    EnsureHeroStubs "int list"                                      \<comment> \<open>\<^verbatim>\<open>SELECT ensure_hero_stubs($1)\<close>\<close>
  | UpsertMatch "sql_value list"                                    \<comment> \<open>\<^verbatim>\<open>INSERT INTO matches ... ON CONFLICT ... DO UPDATE\<close>\<close>
  | CreateStage string string                                       \<comment> \<open>\<^verbatim>\<open>CREATE TEMP TABLE IF NOT EXISTS ... (LIKE ...)\<close>\<close>
  | CopyFrom string "string list" "sql_value list list"
  | InsertFromStage string "string list" string "string list"       \<comment> \<open>\<^verbatim>\<open>INSERT INTO ... SELECT ... ON CONFLICT (...) DO NOTHING\<close>\<close>
  | LockMatch int                                                   \<comment> \<open>\<^verbatim>\<open>SELECT 1 FROM matches ... FOR UPDATE\<close>\<close>
  | DeleteOf string int                                             \<comment> \<open>\<^verbatim>\<open>DELETE FROM ... WHERE match_id = $1\<close>\<close>
  | UpsertKeyed string "sql_value list"                             \<comment> \<open>\<^verbatim>\<open>INSERT ... ON CONFLICT (match_id) DO UPDATE\<close>\<close>

definition jsonbOrNull :: "json option \<Rightarrow> sql_value" where
  "jsonbOrNull raw = (case raw of None \<Rightarrow> Null | Some j \<Rightarrow> if j = JNull then Null else VJson j)"

definition nullIf0 :: "int \<Rightarrow> sql_value" where
  "nullIf0 v = (if v = 0 then Null else VInt v)"

text \<open>\<open>fz\<close> tells which number texts round to zero.\<close>

definition nullIf0_f32 :: "(string \<Rightarrow> bool) \<Rightarrow> string \<Rightarrow> sql_value" where
  "nullIf0_f32 fz v = (if fz v then Null else VNum v)"

definition nullIfStr :: "string \<Rightarrow> sql_value" where
  "nullIfStr v = (if v = [] then Null else VText v)"

section \<open>The rows of a match\<close>

definition player_cols :: "string list" where
  "player_cols =
     [''match_id'', ''player_slot'', ''start_time'', ''account_id'', ''hero_id'', ''hero_variant'', ''is_radiant'',
      ''win'', ''duration'', ''patch_id'', ''lobby_type'', ''game_mode'', ''rank_tier'', ''kills'', ''deaths'',
      ''assists'', ''level'', ''net_worth'', ''gold'', ''gold_spent'', ''gold_per_min'', ''xp_per_min'',
      ''last_hits'', ''denies'', ''hero_damage'', ''tower_damage'', ''hero_healing'', ''item_0'', ''item_1'',
      ''item_2'', ''item_3'', ''item_4'', ''item_5'', ''item_neutral'', ''backpack_0'', ''backpack_1'',
      ''backpack_2'', ''backpack_3'', ''lane'', ''lane_role'', ''is_roaming'', ''party_id'', ''party_size'',
      ''stuns'', ''obs_placed'', ''sen_placed'', ''creeps_stacked'', ''camps_stacked'', ''rune_pickups'',
      ''firstblood_claimed'', ''teamfight_participation'', ''towers_killed'', ''roshans_killed'',
      ''observers_placed'', ''leaver_status'', ''gold_t'', ''xp_t'', ''lh_t'', ''dn_t'', ''times'', ''throw_gold'',
      ''comeback_gold'', ''loss_gold'', ''win_gold'']"

definition player_vals :: "(string \<Rightarrow> bool) \<Rightarrow> Match \<Rightarrow> PlayerRow \<Rightarrow> sql_value list" where
  "player_vals fz m p =
     [VInt (m_MatchID m), VInt (pr_PlayerSlot p), VInt (m_StartTime m), nullIf0 (pr_AccountID p), VInt (pr_HeroID p),
      VInt (pr_HeroVariant p), VBool (pr_IsRadiant p), VBool (pr_Win p), VInt (m_Duration m), nullIf0 (pr_PatchID p),
      VInt (pr_LobbyType p), VInt (pr_GameMode p), VInt (pr_RankTier p), VInt (pr_Kills p), VInt (pr_Deaths p),
      VInt (pr_Assists p), VInt (pr_Level p), VInt (pr_NetWorth p), VInt (pr_Gold p), VInt (pr_GoldSpent p),
      VInt (pr_GoldPerMin p), VInt (pr_XPPerMin p), VInt (pr_LastHits p), VInt (pr_Denies p), VInt (pr_HeroDamage p),
      VInt (pr_TowerDamage p), VInt (pr_HeroHealing p), VInt (pr_Item0 p), VInt (pr_Item1 p), VInt (pr_Item2 p),
      VInt (pr_Item3 p), VInt (pr_Item4 p), VInt (pr_Item5 p), VInt (pr_ItemNeutral p), VInt (pr_Backpack0 p),
      VInt (pr_Backpack1 p), VInt (pr_Backpack2 p), VInt (pr_Backpack3 p), VInt (pr_Lane p), VInt (pr_LaneRole p),
      VBool (pr_IsRoaming p), nullIf0 (pr_PartyID p), VInt (pr_PartySize p), nullIf0_f32 fz (pr_Stuns p),
      VInt (pr_ObsPlaced p), VInt (pr_SenPlaced p), VInt (pr_CreepsStacked p), VInt (pr_CampsStacked p),
      VInt (pr_RunePickups p), VBool (pr_FirstbloodClaimed p), nullIf0_f32 fz (pr_TeamfightParticipation p),
      VInt (pr_TowersKilled p), VInt (pr_RoshansKilled p), VInt (pr_ObserversPlaced p), VInt (pr_LeaverStatus p),
      VInts (pr_GoldT p), VInts (pr_XPT p), VInts (pr_LHT p), VInts (pr_DNT p), VInts (pr_Times p),
      VInt (pr_ThrowGold p), VInt (pr_ComebackGold p), VInt (pr_LossGold p), VInt (pr_WinGold p)]"

definition detail_cols :: "string list" where
  "detail_cols =
     [''match_id'', ''player_slot'', ''damage'', ''damage_taken'', ''damage_inflictor'',
      ''damage_inflictor_received'', ''damage_targets'', ''hero_hits'', ''max_hero_hit'', ''ability_uses'',
      ''ability_targets'', ''ability_upgrades_arr'', ''item_uses'', ''gold_reasons'', ''xp_reasons'', ''killed'',
      ''killed_by'', ''kill_streaks'', ''multi_kills'', ''life_state'', ''lane_pos'', ''obs'', ''sen'', ''actions'',
      ''pings'', ''runes'', ''purchase'', ''obs_log'', ''sen_log'', ''obs_left_log'', ''sen_left_log'',
      ''purchase_log'', ''kills_log'', ''buyback_log'', ''runes_log'', ''connection_log'', ''permanent_buffs'',
      ''neutral_tokens_log'', ''neutral_item_history'', ''additional_units'', ''cosmetics'', ''benchmarks'',
      ''all_word_counts'', ''my_word_counts'']"

definition detail_vals :: "Match \<Rightarrow> PlayerDetailRow \<Rightarrow> sql_value list" where
  "detail_vals m pd =
     [VInt (m_MatchID m), VInt (pd_PlayerSlot pd), jsonbOrNull (pd_Damage pd), jsonbOrNull (pd_DamageTaken pd),
      jsonbOrNull (pd_DamageInflictor pd), jsonbOrNull (pd_DamageInflictorReceived pd),
      jsonbOrNull (pd_DamageTargets pd), jsonbOrNull (pd_HeroHits pd), jsonbOrNull (pd_MaxHeroHit pd),
      jsonbOrNull (pd_AbilityUses pd), jsonbOrNull (pd_AbilityTargets pd), jsonbOrNull (pd_AbilityUpgradesArr pd),
      jsonbOrNull (pd_ItemUses pd), jsonbOrNull (pd_GoldReasons pd), jsonbOrNull (pd_XPReasons pd),
      jsonbOrNull (pd_Killed pd), jsonbOrNull (pd_KilledBy pd), jsonbOrNull (pd_KillStreaks pd),
      jsonbOrNull (pd_MultiKills pd), jsonbOrNull (pd_LifeState pd), jsonbOrNull (pd_LanePos pd),
      jsonbOrNull (pd_Obs pd), jsonbOrNull (pd_Sen pd), jsonbOrNull (pd_Actions pd), jsonbOrNull (pd_Pings pd),
      jsonbOrNull (pd_Runes pd), jsonbOrNull (pd_Purchase pd), jsonbOrNull (pd_ObsLog pd),
      jsonbOrNull (pd_SenLog pd), jsonbOrNull (pd_ObsLeftLog pd), jsonbOrNull (pd_SenLeftLog pd),
      jsonbOrNull (pd_PurchaseLog pd), jsonbOrNull (pd_KillsLog pd), jsonbOrNull (pd_BuybackLog pd),
      jsonbOrNull (pd_RunesLog pd), jsonbOrNull (pd_ConnectionLog pd), jsonbOrNull (pd_PermanentBuffs pd),
      jsonbOrNull (pd_NeutralTokensLog pd), jsonbOrNull (pd_NeutralItemHistory pd),
      jsonbOrNull (pd_AdditionalUnits pd), jsonbOrNull (pd_Cosmetics pd), jsonbOrNull (pd_Benchmarks pd),
      jsonbOrNull (pd_AllWordCounts pd), jsonbOrNull (pd_MyWordCounts pd)]"

definition timeseries_cols :: "string list" where
  "timeseries_cols =
     [''match_id'', ''player_slot'', ''start_time'', ''minute'', ''hero_id'', ''account_id'', ''patch_id'', ''gold'',
      ''xp'', ''lh'', ''dn'']"

definition timeseries_vals :: "Match \<Rightarrow> TimeseriesRow \<Rightarrow> sql_value list" where
  "timeseries_vals m ts =
     [VInt (m_MatchID m), VInt (ts_PlayerSlot ts), VInt (m_StartTime m), VInt (ts_Minute ts), VInt (ts_HeroID ts),
      nullIf0 (ts_AccountID ts), nullIf0 (ts_PatchID ts), VInt (ts_Gold ts), VInt (ts_XP ts), VInt (ts_LH ts),
      VInt (ts_DN ts)]"

definition pick_cols :: "string list" where
  "pick_cols =
     [''match_id'', ''ord'', ''is_pick'', ''hero_id'', ''team'']"

definition pick_vals :: "Match \<Rightarrow> PickBanRow \<Rightarrow> sql_value list" where
  "pick_vals m pb =
     [VInt (m_MatchID m), VInt (pb_Order pb), VBool (pb_IsPick pb), VInt (pb_HeroID pb), VInt (pb_Team pb)]"

definition timing_cols :: "string list" where
  "timing_cols =
     [''match_id'', ''ord'', ''pick'', ''active_team'', ''hero_id'', ''player_slot'', ''extra_time'',
      ''total_time_taken'']"

definition timing_vals :: "Match \<Rightarrow> DraftTimingRow \<Rightarrow> sql_value list" where
  "timing_vals m dt =
     [VInt (m_MatchID m), VInt (dt_Order dt), VBool (dt_Pick dt), VInt (dt_ActiveTeam dt), nullIf0 (dt_HeroID dt),
      VInt (dt_PlayerSlot dt), VInt (dt_ExtraTime dt), VInt (dt_TotalTimeTaken dt)]"

definition objective_cols :: "string list" where
  "objective_cols =
     [''match_id'', ''start_time'', ''time'', ''type'', ''slot'', ''player_slot'', ''team'', ''key'', ''value'',
      ''unit'', ''raw'']"

definition objective_vals :: "Match \<Rightarrow> ObjectiveRow \<Rightarrow> sql_value list" where
  "objective_vals m obj =
     [VInt (m_MatchID m), VInt (m_StartTime m), VInt (ob_Time obj), VText (ob_Type obj), VInt (ob_Slot obj),
      VInt (ob_PlayerSlot obj), VInt (ob_Team obj), nullIfStr (ob_Key obj), VInt (ob_Value obj), nullIfStr (ob_Unit obj),
      jsonbOrNull (Some (ob_Raw obj))]"

definition chat_cols :: "string list" where
  "chat_cols =
     [''match_id'', ''start_time'', ''time'', ''type'', ''player_slot'', ''unit'', ''key'']"

definition chat_vals :: "Match \<Rightarrow> ChatRow \<Rightarrow> sql_value list" where
  "chat_vals m c =
     [VInt (m_MatchID m), VInt (m_StartTime m), VInt (ch_Time c), nullIfStr (ch_Type c), VInt (ch_PlayerSlot c),
      nullIfStr (ch_Unit c), nullIfStr (ch_Key c)]"

definition teamfight_cols :: "string list" where
  "teamfight_cols =
     [''match_id'', ''start_time'', ''end_time'', ''last_death'', ''deaths'', ''players'']"

definition teamfight_vals :: "Match \<Rightarrow> TeamfightRow \<Rightarrow> sql_value list" where
  "teamfight_vals m tf =
     [VInt (m_MatchID m), VInt (m_StartTime m), VInt (tf_EndTime tf), nullIf0 (tf_LastDeath tf),
      nullIf0 (tf_Deaths tf), jsonbOrNull (tf_Players tf)]"

definition match_cols :: "string list" where
  "match_cols =
     [''match_id'', ''match_seq_num'', ''start_time'', ''duration'', ''radiant_win'', ''tower_status_radiant'',
      ''tower_status_dire'', ''barracks_status_radiant'', ''barracks_status_dire'', ''radiant_score'',
      ''dire_score'', ''first_blood_time'', ''lobby_type'', ''game_mode'', ''cluster'', ''region'', ''skill'',
      ''engine'', ''human_players'', ''version'', ''patch_id'', ''positive_votes'', ''negative_votes'', ''leagueid'',
      ''series_id'', ''series_type'', ''radiant_team_id'', ''dire_team_id'', ''radiant_captain'', ''dire_captain'',
      ''replay_salt'', ''replay_url'', ''pauses'', ''is_parsed'', ''created_at'', ''updated_at'']"

definition match_vals :: "Match \<Rightarrow> sql_value list" where
  "match_vals m =
     [VInt (m_MatchID m), nullIf0 (m_MatchSeqNum m), VInt (m_StartTime m), VInt (m_Duration m),
      VBool (m_RadiantWin m), VInt (m_TowerStatusRadiant m), VInt (m_TowerStatusDire m),
      VInt (m_BarracksStatusRadiant m), VInt (m_BarracksStatusDire m), VInt (m_RadiantScore m), VInt (m_DireScore m),
      VInt (m_FirstBloodTime m), VInt (m_LobbyType m), VInt (m_GameMode m), VInt (m_Cluster m), VInt (m_Region m),
      VInt (m_Skill m), VInt (m_Engine m), VInt (m_HumanPlayers m), VInt (m_Version m), nullIf0 (m_PatchID m),
      VInt (m_PositiveVotes m), VInt (m_NegativeVotes m), nullIf0 (m_LeagueID m), nullIf0 (m_SeriesID m),
      VInt (m_SeriesType m), nullIf0 (m_RadiantTeamID m), nullIf0 (m_DireTeamID m), nullIf0 (m_RadiantCaptain m),
      nullIf0 (m_DireCaptain m), nullIf0 (m_ReplaySalt m), nullIfStr (m_ReplayURL m), jsonbOrNull (m_Pauses m),
      VBool (m_IsParsed m)]"

section \<open>The driver\<close>

text \<open>\<open>px_run\<close> sends a statement or a copy in the transaction and yields the number of rows affected;
  \<open>px_BeginFunc\<close> is \<^verbatim>\<open>pgx.BeginFunc\<close>.\<close>

record 'w pgx =
  px_run :: "sql_stmt \<Rightarrow> 'w \<Rightarrow> (go_error + int) \<times> 'w"
  px_BeginFunc :: "('w \<Rightarrow> go_error option \<times> 'w) \<Rightarrow> 'w \<Rightarrow> go_error option \<times> 'w"

definition exec :: "'w pgx \<Rightarrow> sql_stmt \<Rightarrow> (go_error \<Rightarrow> go_error) \<Rightarrow> 'w \<Rightarrow> go_error option \<times> 'w" where
  "exec P s wrap w = (case px_run P s w of (Inl e, w1) \<Rightarrow> (Some (wrap e), w1) | (Inr n, w1) \<Rightarrow> (None, w1))"

text \<open>Calls one after the other, up to the first that fails.\<close>

fun steps :: "('w \<Rightarrow> go_error option \<times> 'w) list \<Rightarrow> 'w \<Rightarrow> go_error option \<times> 'w" where
  "steps [] w = (None, w)"
| "steps (f # fs) w = (case f w of (Some e, w1) \<Rightarrow> (Some e, w1) | (None, w1) \<Rightarrow> steps fs w1)"

section \<open>The store\<close>

definition bulkUpsert :: "'w pgx \<Rightarrow> string \<Rightarrow> string \<Rightarrow> string list \<Rightarrow> string list \<Rightarrow> sql_value list list \<Rightarrow> 'w \<Rightarrow> go_error option \<times> 'w" where
  "bulkUpsert P tempTable targetTable columns conflict rows =
     (if rows = [] then steps []
      else steps
        [exec P (CreateStage tempTable targetTable) (Wrapped (''create temp table '' @ tempTable @ '': '')),
         exec P (CopyFrom tempTable columns rows) (Wrapped (''copy '' @ tempTable @ '': '')),
         exec P (InsertFromStage targetTable columns tempTable conflict) (Wrapped (''upsert '' @ targetTable @ '': ''))])"

fun collect_ids :: "int list \<Rightarrow> int list \<Rightarrow> int list" where
  "collect_ids [] ids = ids"
| "collect_ids (h # hs) ids = collect_ids hs (if h \<noteq> 0 \<and> h \<notin> set ids then ids @ [h] else ids)"

definition collectHeroIDs :: "Match \<Rightarrow> int list" where
  "collectHeroIDs m =
     collect_ids (map dt_HeroID (m_DraftTimings m))
       (collect_ids (map pb_HeroID (m_PicksBans m))
         (collect_ids (map pr_HeroID (m_Players m)) []))"

definition ensureHeroStubs :: "'w pgx \<Rightarrow> int list \<Rightarrow> 'w \<Rightarrow> go_error option \<times> 'w" where
  "ensureHeroStubs P ids = (if ids = [] then steps [] else exec P (EnsureHeroStubs ids) id)"

definition upsertMatchRoot :: "'w pgx \<Rightarrow> Match \<Rightarrow> 'w \<Rightarrow> (go_error + bool) \<times> 'w" where
  "upsertMatchRoot P m w =
     (case px_run P (UpsertMatch (match_vals m)) w of
        (Inl e, w1) \<Rightarrow> (Inl (Wrapped ''insert matches: '' e), w1)
      | (Inr n, w1) \<Rightarrow> (Inr (0 < n), w1))"

definition upsertPlayers :: "'w pgx \<Rightarrow> (string \<Rightarrow> bool) \<Rightarrow> Match \<Rightarrow> 'w \<Rightarrow> go_error option \<times> 'w" where
  "upsertPlayers P fz m =
     bulkUpsert P ''_stage_players'' ''player_matches'' player_cols [''match_id'', ''player_slot'', ''start_time'']
       (map (player_vals fz m) (m_Players m))"

definition upsertPlayerDetails :: "'w pgx \<Rightarrow> Match \<Rightarrow> 'w \<Rightarrow> go_error option \<times> 'w" where
  "upsertPlayerDetails P m =
     bulkUpsert P ''_stage_player_details'' ''player_match_details'' detail_cols [''match_id'', ''player_slot'']
       (map (detail_vals m) (m_Details m))"

definition upsertTimeseries :: "'w pgx \<Rightarrow> Match \<Rightarrow> 'w \<Rightarrow> go_error option \<times> 'w" where
  "upsertTimeseries P m =
     bulkUpsert P ''_stage_timeseries'' ''player_timeseries'' timeseries_cols
       [''match_id'', ''player_slot'', ''minute'', ''start_time''] (map (timeseries_vals m) (m_Timeseries m))"

definition upsertPicksBans :: "'w pgx \<Rightarrow> Match \<Rightarrow> 'w \<Rightarrow> go_error option \<times> 'w" where
  "upsertPicksBans P m =
     bulkUpsert P ''_stage_picks_bans'' ''picks_bans'' pick_cols [''match_id'', ''ord''] (map (pick_vals m) (m_PicksBans m))"

definition upsertDraftTimings :: "'w pgx \<Rightarrow> Match \<Rightarrow> 'w \<Rightarrow> go_error option \<times> 'w" where
  "upsertDraftTimings P m =
     bulkUpsert P ''_stage_draft_timings'' ''draft_timings'' timing_cols [''match_id'', ''ord''] (map (timing_vals m) (m_DraftTimings m))"

text \<open>The three tables that are emptied for the match before they are filled.\<close>

definition replace_rows :: "'w pgx \<Rightarrow> string \<Rightarrow> string \<Rightarrow> string list \<Rightarrow> Match \<Rightarrow> sql_value list list \<Rightarrow> 'w \<Rightarrow> go_error option \<times> 'w" where
  "replace_rows P what table cols m rows =
     (if rows = [] then steps []
      else steps
        [exec P (LockMatch (m_MatchID m)) (Wrapped ''lock match: ''),
         exec P (DeleteOf table (m_MatchID m)) (Wrapped (''delete '' @ what @ '': '')),
         exec P (CopyFrom table cols rows) (Wrapped (''copy '' @ what @ '': ''))])"

definition replaceObjectives :: "'w pgx \<Rightarrow> Match \<Rightarrow> 'w \<Rightarrow> go_error option \<times> 'w" where
  "replaceObjectives P m = replace_rows P ''objectives'' ''match_objectives'' objective_cols m (map (objective_vals m) (m_Objectives m))"

definition replaceChat :: "'w pgx \<Rightarrow> Match \<Rightarrow> 'w \<Rightarrow> go_error option \<times> 'w" where
  "replaceChat P m = replace_rows P ''chat'' ''match_chat'' chat_cols m (map (chat_vals m) (m_Chat m))"

definition replaceTeamfights :: "'w pgx \<Rightarrow> Match \<Rightarrow> 'w \<Rightarrow> go_error option \<times> 'w" where
  "replaceTeamfights P m = replace_rows P ''teamfights'' ''match_teamfights'' teamfight_cols m (map (teamfight_vals m) (m_Teamfights m))"

definition upsertAdvantages :: "'w pgx \<Rightarrow> Match \<Rightarrow> 'w \<Rightarrow> go_error option \<times> 'w" where
  "upsertAdvantages P m =
     (case m_Advantages m of
        None \<Rightarrow> steps []
      | Some a \<Rightarrow> exec P (UpsertKeyed ''match_advantages'' [VInt (m_MatchID m), VInts (av_RadiantGoldAdv a), VInts (av_RadiantXPAdv a)]) id)"

definition upsertCosmetics :: "'w pgx \<Rightarrow> Match \<Rightarrow> 'w \<Rightarrow> go_error option \<times> 'w" where
  "upsertCosmetics P m =
     (case m_Cosmetics m of
        None \<Rightarrow> steps []
      | Some j \<Rightarrow> exec P (UpsertKeyed ''match_cosmetics'' [VInt (m_MatchID m), VJson j]) id)"

text \<open>The function that runs in the transaction. A failure of the first call is only logged.\<close>

definition ingest_tx :: "'w pgx \<Rightarrow> (string \<Rightarrow> bool) \<Rightarrow> Match \<Rightarrow> 'w \<Rightarrow> go_error option \<times> 'w" where
  "ingest_tx P fz m w =
     (let heroIDs = collectHeroIDs m;
          w1 = (if heroIDs \<noteq> [] then snd (ensureHeroStubs P heroIDs w) else w)
      in steps
        ([\<lambda>w. (case upsertMatchRoot P m w of (Inl e, w2) \<Rightarrow> (Some e, w2) | (Inr b, w2) \<Rightarrow> (None, w2)), upsertPlayers P fz m] @
         (if m_IsParsed m then
            [upsertPlayerDetails P m, upsertPicksBans P m, upsertDraftTimings P m, upsertAdvantages P m,
             replaceObjectives P m, replaceChat P m, replaceTeamfights P m, upsertCosmetics P m, upsertTimeseries P m]
          else [])) w1)"

definition IngestMatch :: "'w pgx \<Rightarrow> (string \<Rightarrow> bool) \<Rightarrow> Match \<Rightarrow> 'w \<Rightarrow> go_error option \<times> 'w" where
  "IngestMatch P fz m w =
     (if m_MatchID m = 0 \<or> m_StartTime m = 0 then (Some (ErrText ''match: id and start_time required''), w)
      else px_BeginFunc P (ingest_tx P fz m) w)"

section \<open>The effect of the statements\<close>

text \<open>Tables as lists of rows, a row as the values of the columns the store inserts, in their order; the
  temporary tables of the transaction; the identifiers in the table of heroes. The two time stamps of
  a match are left out, as are the identifiers Postgres generates.\<close>

record pg_db =
  db_heroes :: "int list"
  db_tables :: "string \<Rightarrow> sql_value list list"
  db_stages :: "string \<Rightarrow> sql_value list list option"

definition col_value :: "string list \<Rightarrow> sql_value list \<Rightarrow> string \<Rightarrow> sql_value option" where
  "col_value cols vals k = map_of (zip cols vals) k"

definition row_key :: "string list \<Rightarrow> string list \<Rightarrow> sql_value list \<Rightarrow> sql_value option list" where
  "row_key cols keys vals = map (col_value cols vals) keys"

text \<open>\<^verbatim>\<open>ON CONFLICT (keys) DO NOTHING\<close>.\<close>

fun insert_new :: "string list \<Rightarrow> string list \<Rightarrow> sql_value list list \<Rightarrow> sql_value list list \<Rightarrow> sql_value list list" where
  "insert_new cols keys [] tbl = tbl"
| "insert_new cols keys (r # rs) tbl =
     insert_new cols keys rs (if row_key cols keys r \<in> set (map (row_key cols keys) tbl) then tbl else tbl @ [r])"

text \<open>The \<^verbatim>\<open>DO UPDATE\<close> of a match: \<^verbatim>\<open>is_parsed\<close> never goes back, the listed columns take the new value
  unless it is null, the others stay; a parsed match is not touched by an unparsed one.\<close>

definition coalesced_cols :: "string list" where
  "coalesced_cols =
     [''radiant_win'', ''tower_status_radiant'', ''tower_status_dire'', ''barracks_status_radiant'', ''barracks_status_dire'',
      ''radiant_score'', ''dire_score'', ''first_blood_time'', ''replay_salt'', ''replay_url'', ''pauses'']"

definition merge_value :: "string \<Rightarrow> sql_value \<Rightarrow> sql_value \<Rightarrow> sql_value" where
  "merge_value c old new =
     (if c = ''is_parsed'' then VBool (old = VBool True \<or> new = VBool True)
      else if c \<in> set coalesced_cols then (if new = Null then old else new)
      else old)"

fun merge_match :: "string list \<Rightarrow> sql_value list \<Rightarrow> sql_value list \<Rightarrow> sql_value list" where
  "merge_match (c # cs) (x # xs) (y # ys) = merge_value c x y # merge_match cs xs ys"
| "merge_match cs xs ys = xs"

definition match_keys :: "string list" where
  "match_keys = [''match_id'', ''start_time'']"

definition row_parsed :: "sql_value list \<Rightarrow> bool" where
  "row_parsed r \<longleftrightarrow> col_value match_cols r ''is_parsed'' = Some (VBool True)"

definition update_match :: "sql_value list \<Rightarrow> sql_value list \<Rightarrow> sql_value list" where
  "update_match old new = (if \<not> row_parsed old \<or> row_parsed new then merge_match match_cols old new else old)"

fun upsert_match :: "sql_value list \<Rightarrow> sql_value list list \<Rightarrow> sql_value list list" where
  "upsert_match new [] = [new]"
| "upsert_match new (r # rs) =
     (if row_key match_cols match_keys r = row_key match_cols match_keys new then update_match r new # rs
      else r # upsert_match new rs)"

fun upsert_first :: "sql_value list \<Rightarrow> sql_value list list \<Rightarrow> sql_value list list" where
  "upsert_first new [] = [new]"
| "upsert_first new (r # rs) = (if hd r = hd new then new # rs else r # upsert_first new rs)"

fun apply_stmt :: "sql_stmt \<Rightarrow> pg_db \<Rightarrow> pg_db" where
  "apply_stmt (EnsureHeroStubs ids) d = d\<lparr>db_heroes := fold List.insert ids (db_heroes d)\<rparr>"
| "apply_stmt (UpsertMatch vals) d = d\<lparr>db_tables := (db_tables d)(''matches'' := upsert_match vals (db_tables d ''matches''))\<rparr>"
| "apply_stmt (CreateStage t like) d =
     (case db_stages d t of Some _ \<Rightarrow> d | None \<Rightarrow> d\<lparr>db_stages := (db_stages d)(t \<mapsto> [])\<rparr>)"
| "apply_stmt (CopyFrom t cols rows) d =
     (case db_stages d t of
        Some rs \<Rightarrow> d\<lparr>db_stages := (db_stages d)(t \<mapsto> rs @ rows)\<rparr>
      | None \<Rightarrow> d\<lparr>db_tables := (db_tables d)(t := db_tables d t @ rows)\<rparr>)"
| "apply_stmt (InsertFromStage t cols tmp keys) d =
     (case db_stages d tmp of
        None \<Rightarrow> d
      | Some rs \<Rightarrow> d\<lparr>db_tables := (db_tables d)(t := insert_new cols keys rs (db_tables d t))\<rparr>)"
| "apply_stmt (LockMatch i) d = d"
| "apply_stmt (DeleteOf t i) d = d\<lparr>db_tables := (db_tables d)(t := filter (\<lambda>r. hd r \<noteq> VInt i) (db_tables d t))\<rparr>"
| "apply_stmt (UpsertKeyed t vals) d = d\<lparr>db_tables := (db_tables d)(t := upsert_first vals (db_tables d t))\<rparr>"

text \<open>The rows of the temporary tables go with the transaction (\<^verbatim>\<open>ON COMMIT DELETE ROWS\<close>, and
  \<^verbatim>\<open>DISCARD TEMP\<close> when the connection is released).\<close>

definition commit_db :: "pg_db \<Rightarrow> pg_db" where
  "commit_db d = d\<lparr>db_stages := (\<lambda>t. None)\<rparr>"

section \<open>The statements of a match\<close>

definition bulk_stmts :: "string \<Rightarrow> string \<Rightarrow> string list \<Rightarrow> string list \<Rightarrow> sql_value list list \<Rightarrow> sql_stmt list" where
  "bulk_stmts tmp t cols keys rows =
     (if rows = [] then [] else [CreateStage tmp t, CopyFrom tmp cols rows, InsertFromStage t cols tmp keys])"

definition replace_stmts :: "string \<Rightarrow> string list \<Rightarrow> int \<Rightarrow> sql_value list list \<Rightarrow> sql_stmt list" where
  "replace_stmts t cols i rows = (if rows = [] then [] else [LockMatch i, DeleteOf t i, CopyFrom t cols rows])"

definition parsed_stmts :: "Match \<Rightarrow> sql_stmt list" where
  "parsed_stmts m =
     bulk_stmts ''_stage_player_details'' ''player_match_details'' detail_cols [''match_id'', ''player_slot''] (map (detail_vals m) (m_Details m)) @
     bulk_stmts ''_stage_picks_bans'' ''picks_bans'' pick_cols [''match_id'', ''ord''] (map (pick_vals m) (m_PicksBans m)) @
     bulk_stmts ''_stage_draft_timings'' ''draft_timings'' timing_cols [''match_id'', ''ord''] (map (timing_vals m) (m_DraftTimings m)) @
     (case m_Advantages m of
        None \<Rightarrow> []
      | Some a \<Rightarrow> [UpsertKeyed ''match_advantages'' [VInt (m_MatchID m), VInts (av_RadiantGoldAdv a), VInts (av_RadiantXPAdv a)]]) @
     replace_stmts ''match_objectives'' objective_cols (m_MatchID m) (map (objective_vals m) (m_Objectives m)) @
     replace_stmts ''match_chat'' chat_cols (m_MatchID m) (map (chat_vals m) (m_Chat m)) @
     replace_stmts ''match_teamfights'' teamfight_cols (m_MatchID m) (map (teamfight_vals m) (m_Teamfights m)) @
     (case m_Cosmetics m of None \<Rightarrow> [] | Some j \<Rightarrow> [UpsertKeyed ''match_cosmetics'' [VInt (m_MatchID m), VJson j]]) @
     bulk_stmts ''_stage_timeseries'' ''player_timeseries'' timeseries_cols [''match_id'', ''player_slot'', ''minute'', ''start_time'']
       (map (timeseries_vals m) (m_Timeseries m))"

definition stub_stmts :: "Match \<Rightarrow> sql_stmt list" where
  "stub_stmts m = (if collectHeroIDs m = [] then [] else [EnsureHeroStubs (collectHeroIDs m)])"

definition match_stmts :: "(string \<Rightarrow> bool) \<Rightarrow> Match \<Rightarrow> sql_stmt list" where
  "match_stmts fz m =
     stub_stmts m @ UpsertMatch (match_vals m) #
     bulk_stmts ''_stage_players'' ''player_matches'' player_cols [''match_id'', ''player_slot'', ''start_time''] (map (player_vals fz m) (m_Players m)) @
     (if m_IsParsed m then parsed_stmts m else [])"

definition ingested :: "(string \<Rightarrow> bool) \<Rightarrow> Match \<Rightarrow> pg_db \<Rightarrow> pg_db" where
  "ingested fz m d = commit_db (fold apply_stmt (match_stmts fz m) d)"

section \<open>The contract of the driver\<close>

text \<open>\<open>committed\<close> are the tables as other connections see them, \<open>view\<close> as the transaction sees them;
  \<open>aborted\<close> says that a statement of the transaction has failed, after which Postgres refuses the
  others. When the commit itself fails, the transaction may or may not have taken effect.\<close>

locale pg_driver =
  fixes P :: "'w pgx" and committed :: "'w \<Rightarrow> pg_db" and view :: "'w \<Rightarrow> pg_db" and aborted :: "'w \<Rightarrow> bool"
  assumes run_ok: "px_run P s w = (Inr n, w') \<Longrightarrow>
      \<not> aborted w \<and> \<not> aborted w' \<and> view w' = apply_stmt s (view w) \<and> committed w' = committed w"
    and run_err: "px_run P s w = (Inl e, w') \<Longrightarrow> aborted w' \<and> committed w' = committed w"
    and transaction: "px_BeginFunc P f w = (r, w') \<Longrightarrow>
      (r \<noteq> None \<and> committed w' = committed w) \<or>
      (\<exists>w0 w1 e. \<not> aborted w0 \<and> committed w0 = committed w \<and> view w0 = commit_db (committed w) \<and> f w0 = (e, w1) \<and>
         (case e of
            Some x \<Rightarrow> r = Some x \<and> committed w' = committed w1
          | None \<Rightarrow>
              if aborted w1 then r \<noteq> None \<and> committed w' = committed w1
              else (r = None \<and> committed w' = commit_db (view w1)) \<or>
                   (r \<noteq> None \<and> committed w' \<in> {committed w1, commit_db (view w1)})))"
begin

text \<open>A call that sends a list of statements, all of them unless one fails.\<close>

definition sends :: "sql_stmt list \<Rightarrow> ('w \<Rightarrow> go_error option \<times> 'w) \<Rightarrow> bool" where
  "sends ss f \<longleftrightarrow>
     (\<forall>w r w'. f w = (r, w') \<longrightarrow>
        committed w' = committed w \<and>
        (if aborted w then aborted w' \<and> (r = None \<longrightarrow> ss = [])
         else if r = None then \<not> aborted w' \<and> view w' = fold apply_stmt ss (view w)
         else aborted w'))"

lemma sends_nil [intro]: "sends [] (steps [])"
  by (simp add: sends_def)

lemma sends_exec [intro]: "sends [s] (exec P s g)"
  using run_ok run_err by (auto simp: sends_def exec_def split: prod.splits sum.splits)

lemma sends_Cons:
  assumes "sends ss f" and "sends ts (steps fs)"
  shows "sends (ss @ ts) (steps (f # fs))"
  unfolding sends_def
proof (intro allI impI)
  fix w r w'
  assume r: "steps (f # fs) w = (r, w')"
  obtain e w1 where f: "f w = (e, w1)" by fastforce
  have 1: "committed w1 = committed w \<and>
      (if aborted w then aborted w1 \<and> (e = None \<longrightarrow> ss = [])
       else if e = None then \<not> aborted w1 \<and> view w1 = fold apply_stmt ss (view w) else aborted w1)"
    using assms(1) f unfolding sends_def by blast
  show "committed w' = committed w \<and>
      (if aborted w then aborted w' \<and> (r = None \<longrightarrow> ss @ ts = [])
       else if r = None then \<not> aborted w' \<and> view w' = fold apply_stmt (ss @ ts) (view w) else aborted w')"
  proof (cases e)
    case None
    then have "steps fs w1 = (r, w')" using r f by simp
    then have "committed w' = committed w1 \<and>
        (if aborted w1 then aborted w' \<and> (r = None \<longrightarrow> ts = [])
         else if r = None then \<not> aborted w' \<and> view w' = fold apply_stmt ts (view w1) else aborted w')"
      using assms(2) unfolding sends_def by blast
    then show ?thesis using 1 None by (auto split: if_splits)
  qed (use r f 1 in \<open>auto split: if_splits\<close>)
qed

lemma sends_three: "sends [s, t, u] (steps [exec P s f, exec P t g, exec P u h])"
  using sends_Cons [OF sends_exec sends_Cons [OF sends_exec sends_Cons [OF sends_exec sends_nil]]] by simp

lemma sends_bulk: "sends (bulk_stmts tmp t cols keys rows) (bulkUpsert P tmp t cols keys rows)"
  using sends_nil sends_three by (simp add: bulk_stmts_def bulkUpsert_def)

lemma sends_replace: "sends (replace_stmts t cols (m_MatchID m) rows) (replace_rows P what t cols m rows)"
  using sends_nil sends_three by (simp add: replace_stmts_def replace_rows_def)

lemma sends_root:
  "sends [UpsertMatch (match_vals m)] (\<lambda>w. (case upsertMatchRoot P m w of (Inl e, w2) \<Rightarrow> (Some e, w2) | (Inr b, w2) \<Rightarrow> (None, w2)))"
proof -
  have "(\<lambda>w. (case upsertMatchRoot P m w of (Inl e, w2) \<Rightarrow> (Some e, w2) | (Inr b, w2) \<Rightarrow> (None, w2))) =
      exec P (UpsertMatch (match_vals m)) (Wrapped ''insert matches: '')"
    by (auto simp: upsertMatchRoot_def exec_def split: prod.splits sum.splits)
  then show ?thesis using sends_exec by simp
qed

lemma sends_parsed:
  "sends (parsed_stmts m) (steps
     [upsertPlayerDetails P m, upsertPicksBans P m, upsertDraftTimings P m, upsertAdvantages P m,
      replaceObjectives P m, replaceChat P m, replaceTeamfights P m, upsertCosmetics P m, upsertTimeseries P m])"
proof -
  have adv: "sends (case m_Advantages m of None \<Rightarrow> []
      | Some a \<Rightarrow> [UpsertKeyed ''match_advantages'' [VInt (m_MatchID m), VInts (av_RadiantGoldAdv a), VInts (av_RadiantXPAdv a)]])
      (upsertAdvantages P m)"
    using sends_nil sends_exec by (auto simp: upsertAdvantages_def split: option.splits)
  have cos: "sends (case m_Cosmetics m of None \<Rightarrow> [] | Some j \<Rightarrow> [UpsertKeyed ''match_cosmetics'' [VInt (m_MatchID m), VJson j]])
      (upsertCosmetics P m)"
    using sends_nil sends_exec by (auto simp: upsertCosmetics_def split: option.splits)
  have last: "sends (bulk_stmts ''_stage_timeseries'' ''player_timeseries'' timeseries_cols [''match_id'', ''player_slot'', ''minute'', ''start_time'']
       (map (timeseries_vals m) (m_Timeseries m))) (steps [upsertTimeseries P m])"
    using sends_Cons [OF sends_bulk sends_nil] by (simp add: upsertTimeseries_def)
  show ?thesis
    unfolding parsed_stmts_def
    by (intro sends_Cons adv cos last)
       (simp_all add: upsertPlayerDetails_def upsertPicksBans_def upsertDraftTimings_def replaceObjectives_def
         replaceChat_def replaceTeamfights_def sends_bulk sends_replace)
qed

lemma sends_tx: "sends (match_stmts fz m) (ingest_tx P fz m)"
  unfolding sends_def
proof (intro allI impI)
  fix w r w'
  assume r: "ingest_tx P fz m w = (r, w')"
  let ?rest = "UpsertMatch (match_vals m) #
     bulk_stmts ''_stage_players'' ''player_matches'' player_cols [''match_id'', ''player_slot'', ''start_time''] (map (player_vals fz m) (m_Players m)) @
     (if m_IsParsed m then parsed_stmts m else [])"
  let ?fs = "[\<lambda>w. (case upsertMatchRoot P m w of (Inl e, w2) \<Rightarrow> (Some e, w2) | (Inr b, w2) \<Rightarrow> (None, w2)), upsertPlayers P fz m] @
         (if m_IsParsed m then
            [upsertPlayerDetails P m, upsertPicksBans P m, upsertDraftTimings P m, upsertAdvantages P m,
             replaceObjectives P m, replaceChat P m, replaceTeamfights P m, upsertCosmetics P m, upsertTimeseries P m]
          else [])"
  define w1 where "w1 = (if collectHeroIDs m \<noteq> [] then snd (ensureHeroStubs P (collectHeroIDs m) w) else w)"
  have p: "sends (bulk_stmts ''_stage_players'' ''player_matches'' player_cols [''match_id'', ''player_slot'', ''start_time''] (map (player_vals fz m) (m_Players m)))
      (upsertPlayers P fz m)"
    by (simp add: upsertPlayers_def sends_bulk)
  have rest: "sends ?rest (steps ?fs)"
    using sends_Cons [OF sends_root sends_Cons [OF p sends_parsed]] sends_Cons [OF sends_root sends_Cons [OF p sends_nil]]
    by (simp add: append_assoc)
  have tail: "committed w' = committed w1 \<and>
      (if aborted w1 then aborted w' \<and> r \<noteq> None
       else if r = None then \<not> aborted w' \<and> view w' = fold apply_stmt ?rest (view w1) else aborted w')"
    using rest r unfolding sends_def by (fastforce simp: ingest_tx_def w1_def Let_def)
  have stub: "committed w1 = committed w \<and>
      (if aborted w then aborted w1 else aborted w1 \<or> view w1 = fold apply_stmt (stub_stmts m) (view w))"
  proof (cases "collectHeroIDs m = []")
    case False
    obtain e w2 where e: "exec P (EnsureHeroStubs (collectHeroIDs m)) id w = (e, w2)" by fastforce
    then have "w1 = w2" using False by (simp add: w1_def ensureHeroStubs_def)
    moreover have "committed w2 = committed w \<and>
        (if aborted w then aborted w2 \<and> (e = None \<longrightarrow> [EnsureHeroStubs (collectHeroIDs m)] = [])
         else if e = None then \<not> aborted w2 \<and> view w2 = fold apply_stmt [EnsureHeroStubs (collectHeroIDs m)] (view w) else aborted w2)"
      using sends_exec [of "EnsureHeroStubs (collectHeroIDs m)" id] e unfolding sends_def by blast
    ultimately show ?thesis using False by (auto simp: stub_stmts_def split: if_splits)
  qed (simp add: w1_def stub_stmts_def)
  show "committed w' = committed w \<and>
      (if aborted w then aborted w' \<and> (r = None \<longrightarrow> match_stmts fz m = [])
       else if r = None then \<not> aborted w' \<and> view w' = fold apply_stmt (match_stmts fz m) (view w) else aborted w')"
    using tail stub by (auto simp: match_stmts_def split: if_splits)
qed

text \<open>An ingest takes effect as a whole or not at all.\<close>

lemma ingest_atomic:
  assumes "IngestMatch P fz m w = (r, w')"
  shows "(r = None \<longrightarrow> m_MatchID m \<noteq> 0 \<and> m_StartTime m \<noteq> 0 \<and> committed w' = ingested fz m (commit_db (committed w))) \<and>
    (r \<noteq> None \<longrightarrow> committed w' \<in> {committed w, ingested fz m (commit_db (committed w))})"
proof (cases "m_MatchID m = 0 \<or> m_StartTime m = 0")
  case False
  then have b: "px_BeginFunc P (ingest_tx P fz m) w = (r, w')" using assms by (simp add: IngestMatch_def)
  from transaction [OF b] show ?thesis
  proof (elim disjE exE conjE)
    fix w0 w1 e
    assume w0: "\<not> aborted w0" "committed w0 = committed w" "view w0 = commit_db (committed w)" "ingest_tx P fz m w0 = (e, w1)"
      and c: "case e of Some x \<Rightarrow> r = Some x \<and> committed w' = committed w1
          | None \<Rightarrow> if aborted w1 then r \<noteq> None \<and> committed w' = committed w1
              else (r = None \<and> committed w' = commit_db (view w1)) \<or>
                   (r \<noteq> None \<and> committed w' \<in> {committed w1, commit_db (view w1)})"
    have "committed w1 = committed w \<and> (if e = None then \<not> aborted w1 \<and> view w1 = fold apply_stmt (match_stmts fz m) (commit_db (committed w)) else aborted w1)"
      using sends_tx [of fz m] w0 unfolding sends_def by metis
    then show ?thesis using c False by (cases e) (auto simp: ingested_def)
  qed (use False in auto)
qed (use assms in \<open>auto simp: IngestMatch_def\<close>)

text \<open>A failure of the stub function is logged and passed over, but the transaction is aborted by it, and
  the ingest fails.\<close>

lemma failed_stubs_fail_the_ingest:
  assumes "collectHeroIDs m \<noteq> []" and "px_run P (EnsureHeroStubs (collectHeroIDs m)) w = (Inl e, w2)"
  shows "fst (ingest_tx P fz m w) \<noteq> None"
proof -
  have "aborted w2" using run_err [OF assms(2)] by simp
  then obtain x w3 where "px_run P (UpsertMatch (match_vals m)) w2 = (Inl x, w3)"
    using run_ok by (metis obj_sumE old.prod.exhaust)
  then show ?thesis using assms by (simp add: ingest_tx_def ensureHeroStubs_def exec_def Let_def upsertMatchRoot_def)
qed

end

section \<open>The tables after an ingest\<close>

lemma apply_bulk:
  assumes "db_stages d tmp = None"
  shows "fold apply_stmt (bulk_stmts tmp t cols keys rows) d =
    d\<lparr>db_tables := (db_tables d)(t := insert_new cols keys rows (db_tables d t)),
      db_stages := (db_stages d)(tmp := if rows = [] then None else Some rows)\<rparr>"
  using assms by (auto simp: bulk_stmts_def fun_upd_idem)

definition replaced :: "int \<Rightarrow> sql_value list list \<Rightarrow> sql_value list list \<Rightarrow> sql_value list list" where
  "replaced i rows tbl = (if rows = [] then tbl else filter (\<lambda>r. hd r \<noteq> VInt i) tbl @ rows)"

lemma apply_replace:
  assumes "db_stages d t = None"
  shows "fold apply_stmt (replace_stmts t cols i rows) d = d\<lparr>db_tables := (db_tables d)(t := replaced i rows (db_tables d t))\<rparr>"
  using assms by (auto simp: replace_stmts_def replaced_def fun_upd_idem)

definition keyed :: "sql_value list option \<Rightarrow> sql_value list list \<Rightarrow> sql_value list list" where
  "keyed v tbl = (case v of None \<Rightarrow> tbl | Some vals \<Rightarrow> upsert_first vals tbl)"

lemma apply_keyed:
  "fold apply_stmt (case v of None \<Rightarrow> [] | Some x \<Rightarrow> [UpsertKeyed t (f x)]) d =
    d\<lparr>db_tables := (db_tables d)(t := keyed (map_option f v) (db_tables d t))\<rparr>"
  by (auto simp: keyed_def fun_upd_idem split: option.splits)

lemmas apply_groups = apply_bulk apply_replace apply_keyed

text \<open>What one ingest makes of a table.\<close>

definition parsed_table :: "Match \<Rightarrow> string \<Rightarrow> sql_value list list \<Rightarrow> sql_value list list" where
  "parsed_table m t =
     (if t = ''player_match_details'' then insert_new detail_cols [''match_id'', ''player_slot''] (map (detail_vals m) (m_Details m))
      else if t = ''picks_bans'' then insert_new pick_cols [''match_id'', ''ord''] (map (pick_vals m) (m_PicksBans m))
      else if t = ''draft_timings'' then insert_new timing_cols [''match_id'', ''ord''] (map (timing_vals m) (m_DraftTimings m))
      else if t = ''match_advantages'' then
        keyed (map_option (\<lambda>a. [VInt (m_MatchID m), VInts (av_RadiantGoldAdv a), VInts (av_RadiantXPAdv a)]) (m_Advantages m))
      else if t = ''match_objectives'' then replaced (m_MatchID m) (map (objective_vals m) (m_Objectives m))
      else if t = ''match_chat'' then replaced (m_MatchID m) (map (chat_vals m) (m_Chat m))
      else if t = ''match_teamfights'' then replaced (m_MatchID m) (map (teamfight_vals m) (m_Teamfights m))
      else if t = ''match_cosmetics'' then keyed (map_option (\<lambda>j. [VInt (m_MatchID m), VJson j]) (m_Cosmetics m))
      else if t = ''player_timeseries'' then
        insert_new timeseries_cols [''match_id'', ''player_slot'', ''minute'', ''start_time''] (map (timeseries_vals m) (m_Timeseries m))
      else id)"

definition ingested_table :: "(string \<Rightarrow> bool) \<Rightarrow> Match \<Rightarrow> string \<Rightarrow> sql_value list list \<Rightarrow> sql_value list list" where
  "ingested_table fz m t =
     (if t = ''matches'' then upsert_match (match_vals m)
      else if t = ''player_matches'' then
        insert_new player_cols [''match_id'', ''player_slot'', ''start_time''] (map (player_vals fz m) (m_Players m))
      else if m_IsParsed m then parsed_table m t else id)"

lemma parsed_tables:
  assumes "\<And>t. t \<noteq> ''_stage_players'' \<Longrightarrow> db_stages d t = None"
  shows "db_tables (fold apply_stmt (parsed_stmts m) d) t = parsed_table m t (db_tables d t)"
    and "db_heroes (fold apply_stmt (parsed_stmts m) d) = db_heroes d"
  by (simp_all add: parsed_stmts_def apply_groups assms parsed_table_def)

lemma ingested_db:
  assumes "db_stages d = (\<lambda>t. None)"
  shows "ingested fz m d = \<lparr>db_heroes = fold List.insert (collectHeroIDs m) (db_heroes d),
    db_tables = (\<lambda>t. ingested_table fz m t (db_tables d t)), db_stages = (\<lambda>t. None)\<rparr>"
proof -
  define d1 where "d1 = fold apply_stmt (stub_stmts m) d"
  have d1: "db_heroes d1 = fold List.insert (collectHeroIDs m) (db_heroes d)" "db_tables d1 = db_tables d" "db_stages d1 = (\<lambda>t. None)"
    using assms by (simp_all add: d1_def stub_stmts_def)
  define d2 where "d2 = fold apply_stmt
     (bulk_stmts ''_stage_players'' ''player_matches'' player_cols [''match_id'', ''player_slot'', ''start_time''] (map (player_vals fz m) (m_Players m)))
     (apply_stmt (UpsertMatch (match_vals m)) d1)"
  have d2: "db_heroes d2 = db_heroes d1" "\<And>t. t \<noteq> ''_stage_players'' \<Longrightarrow> db_stages d2 t = None"
    "db_tables d2 t = (if t = ''matches'' then upsert_match (match_vals m) (db_tables d1 t)
       else if t = ''player_matches'' then
         insert_new player_cols [''match_id'', ''player_slot'', ''start_time''] (map (player_vals fz m) (m_Players m)) (db_tables d1 t)
       else db_tables d1 t)" for t
    using d1(3) by (simp_all add: d2_def apply_bulk)
  have "ingested fz m d = commit_db (if m_IsParsed m then fold apply_stmt (parsed_stmts m) d2 else d2)"
    by (simp add: ingested_def match_stmts_def d1_def [symmetric] d2_def)
  then show ?thesis
    using parsed_tables [OF d2(2), of m] d1 d2
    by (auto simp: commit_db_def ingested_table_def parsed_table_def fun_eq_iff intro!: pg_db.equality)
qed

section \<open>Ingesting a match again\<close>

lemma insert_new_keys:
  "set (map (row_key cols keys) (insert_new cols keys rows tbl)) = set (map (row_key cols keys) tbl) \<union> set (map (row_key cols keys) rows)"
  by (induction cols keys rows tbl rule: insert_new.induct) auto

lemma insert_new_present:
  "set (map (row_key cols keys) rows) \<subseteq> set (map (row_key cols keys) tbl) \<Longrightarrow> insert_new cols keys rows tbl = tbl"
  by (induction cols keys rows tbl rule: insert_new.induct) auto

lemma insert_new_idem: "insert_new cols keys rows (insert_new cols keys rows tbl) = insert_new cols keys rows tbl"
  by (rule insert_new_present) (use insert_new_keys [of cols keys rows tbl] in blast)

lemma replaced_idem:
  assumes "\<forall>r \<in> set rows. hd r = VInt i"
  shows "replaced i rows (replaced i rows tbl) = replaced i rows tbl"
proof -
  have "filter (\<lambda>r. hd r \<noteq> VInt i) rows = []" using assms by (simp add: filter_empty_conv)
  then show ?thesis by (simp add: replaced_def)
qed

lemma upsert_first_idem: "upsert_first v (upsert_first v tbl) = upsert_first v tbl"
  by (induction v tbl rule: upsert_first.induct) auto

lemma keyed_idem: "keyed v (keyed v tbl) = keyed v tbl"
  by (cases v) (simp_all add: keyed_def upsert_first_idem)

lemma merge_match_idem: "merge_match cs (merge_match cs xs ys) ys = merge_match cs xs ys"
  by (induction cs xs ys rule: merge_match.induct) (auto simp: merge_value_def)

lemma merge_match_same:
  "\<forall>(c, x) \<in> set (zip cs xs). c = ''is_parsed'' \<longrightarrow> (\<exists>b. x = VBool b) \<Longrightarrow> merge_match cs xs xs = xs"
proof (induction cs arbitrary: xs)
  case (Cons c cs)
  then show ?case by (cases xs) (auto simp: merge_value_def)
qed simp

lemma merge_match_col:
  "(\<And>x y. merge_value k x y = x) \<Longrightarrow> col_value cs (merge_match cs xs ys) k = col_value cs xs k"
  by (induction cs xs ys rule: merge_match.induct) (auto simp: col_value_def)

lemma update_match_key: "row_key match_cols match_keys (update_match r new) = row_key match_cols match_keys r"
proof -
  have "merge_value k x y = x" if "k \<in> set match_keys" for k x y
    using that by (auto simp: match_keys_def merge_value_def coalesced_cols_def)
  then show ?thesis by (auto simp: row_key_def update_match_def merge_match_col)
qed

lemma update_match_idem: "update_match (update_match r new) new = update_match r new"
  by (auto simp: update_match_def merge_match_idem)

lemma match_vals_self: "update_match (match_vals m) (match_vals m) = match_vals m"
proof -
  have "\<forall>(c, x) \<in> set (zip match_cols (match_vals m)). c = ''is_parsed'' \<longrightarrow> (\<exists>b. x = VBool b)"
    by (simp add: match_cols_def match_vals_def)
  then show ?thesis using merge_match_same by (simp add: update_match_def)
qed

lemma upsert_match_idem: "upsert_match (match_vals m) (upsert_match (match_vals m) tbl) = upsert_match (match_vals m) tbl"
  by (induction tbl) (simp_all add: match_vals_self update_match_key update_match_idem)

lemma rows_of_match:
  "\<forall>r \<in> set (map (objective_vals m) xs). hd r = VInt (m_MatchID m)"
  "\<forall>r \<in> set (map (chat_vals m) ys). hd r = VInt (m_MatchID m)"
  "\<forall>r \<in> set (map (teamfight_vals m) zs). hd r = VInt (m_MatchID m)"
  by (simp_all add: objective_vals_def chat_vals_def teamfight_vals_def)

lemmas idempotent_tables = insert_new_idem keyed_idem upsert_match_idem
  replaced_idem [OF rows_of_match(1)] replaced_idem [OF rows_of_match(2)] replaced_idem [OF rows_of_match(3)]

lemma ingested_table_idem: "ingested_table fz m t (ingested_table fz m t tbl) = ingested_table fz m t tbl"
  by (simp add: ingested_table_def parsed_table_def idempotent_tables)

lemma fold_insert_present: "set xs \<subseteq> set ys \<Longrightarrow> fold List.insert xs ys = ys"
  by (induction xs) (auto simp: List.insert_def)

lemma set_fold_insert: "set (fold List.insert xs ys) = set xs \<union> set ys"
  by (induction xs arbitrary: ys) auto

lemma ingested_idem:
  assumes "db_stages d = (\<lambda>t. None)"
  shows "ingested fz m (ingested fz m d) = ingested fz m d"
proof -
  have "fold List.insert ids (fold List.insert ids hs) = fold List.insert ids hs" for ids hs :: "int list"
    by (rule fold_insert_present) (simp add: set_fold_insert)
  then show ?thesis using ingested_db [OF assms] ingested_db [of "ingested fz m d"] by (simp add: ingested_table_idem)
qed

text \<open>Rows whose keys are in the table stay as they are: a parsed match ingested after its unparsed
  version does not complete the rows of its players.\<close>

lemma reparse_keeps_player_rows:
  assumes "db_stages d = (\<lambda>t. None)" and "m_MatchID m' = m_MatchID m" and "m_StartTime m' = m_StartTime m"
    and "map pr_PlayerSlot (m_Players m') = map pr_PlayerSlot (m_Players m)"
  shows "db_tables (ingested fz m' (ingested fz m d)) ''player_matches'' = db_tables (ingested fz m d) ''player_matches''"
proof -
  let ?k = "row_key player_cols [''match_id'', ''player_slot'', ''start_time'']"
  have key: "?k (player_vals fz x p) = [Some (VInt (m_MatchID x)), Some (VInt (pr_PlayerSlot p)), Some (VInt (m_StartTime x))]" for x p
    by (simp add: row_key_def col_value_def player_cols_def player_vals_def)
  then have keys: "map ?k (map (player_vals fz x) ps) =
      map (\<lambda>s. [Some (VInt (m_MatchID x)), Some (VInt s), Some (VInt (m_StartTime x))]) (map pr_PlayerSlot ps)" for x ps
    by simp
  have "map ?k (map (player_vals fz m') (m_Players m')) = map ?k (map (player_vals fz m) (m_Players m))"
    by (simp only: keys assms)
  then have same: "set (map ?k (map (player_vals fz m') (m_Players m'))) = set (map ?k (map (player_vals fz m) (m_Players m)))"
    by (rule arg_cong)
  have tbl: "db_tables (ingested fz m d) ''player_matches'' =
      insert_new player_cols [''match_id'', ''player_slot'', ''start_time''] (map (player_vals fz m) (m_Players m)) (db_tables d ''player_matches'')"
    by (simp add: ingested_db [OF assms(1)] ingested_table_def)
  have st: "db_stages (ingested fz m d) = (\<lambda>t. None)" by (simp add: ingested_def commit_db_def)
  have "set (map ?k (map (player_vals fz m') (m_Players m'))) \<subseteq> set (map ?k (db_tables (ingested fz m d) ''player_matches''))"
    unfolding tbl insert_new_keys same by (rule Un_upper2)
  from insert_new_present [OF this] show ?thesis
    by (simp add: ingested_db [OF st] ingested_table_def)
qed

text \<open>Every copied row has a value for each column, and the match identifier comes first.\<close>

lemma aligned_rows:
  "length (player_vals fz m x0) = length player_cols" "hd (player_vals fz m x0) = VInt (m_MatchID m)" "hd player_cols = ''match_id''"
  "length (detail_vals m x1) = length detail_cols" "hd (detail_vals m x1) = VInt (m_MatchID m)" "hd detail_cols = ''match_id''"
  "length (timeseries_vals m x2) = length timeseries_cols" "hd (timeseries_vals m x2) = VInt (m_MatchID m)" "hd timeseries_cols = ''match_id''"
  "length (pick_vals m x3) = length pick_cols" "hd (pick_vals m x3) = VInt (m_MatchID m)" "hd pick_cols = ''match_id''"
  "length (timing_vals m x4) = length timing_cols" "hd (timing_vals m x4) = VInt (m_MatchID m)" "hd timing_cols = ''match_id''"
  "length (objective_vals m x5) = length objective_cols" "hd (objective_vals m x5) = VInt (m_MatchID m)" "hd objective_cols = ''match_id''"
  "length (chat_vals m x6) = length chat_cols" "hd (chat_vals m x6) = VInt (m_MatchID m)" "hd chat_cols = ''match_id''"
  "length (teamfight_vals m x7) = length teamfight_cols" "hd (teamfight_vals m x7) = VInt (m_MatchID m)" "hd teamfight_cols = ''match_id''"
  by (simp_all add: player_vals_def player_cols_def detail_vals_def detail_cols_def timeseries_vals_def timeseries_cols_def pick_vals_def pick_cols_def timing_vals_def timing_cols_def objective_vals_def objective_cols_def chat_vals_def chat_cols_def teamfight_vals_def teamfight_cols_def)

lemma copied_bulk:
  "CopyFrom t cols rows \<in> set (bulk_stmts tmp t' cols' keys rows') \<Longrightarrow> cols = cols' \<and> rows = rows'"
  "CopyFrom t cols rows \<in> set (replace_stmts t' cols' i rows') \<Longrightarrow> cols = cols' \<and> rows = rows'"
  by (auto simp: bulk_stmts_def replace_stmts_def split: if_splits)

lemma not_copied:
  "CopyFrom t cols rows \<in> set (stub_stmts m) \<longleftrightarrow> False" "CopyFrom t cols rows = UpsertMatch v \<longleftrightarrow> False"
  "CopyFrom t cols rows \<in> set (case a of None \<Rightarrow> [] | Some x \<Rightarrow> [UpsertKeyed k (f x)]) \<longleftrightarrow> False"
  by (auto simp: stub_stmts_def split: option.splits)

lemma ingest_rows_aligned:
  assumes "CopyFrom t cols rows \<in> set (match_stmts fz m)" and "r \<in> set rows"
  shows "length r = length cols \<and> hd cols = ''match_id'' \<and> hd r = VInt (m_MatchID m)"
  using assms unfolding match_stmts_def parsed_stmts_def
  by (auto simp only: set_append list.set Un_iff insert_iff empty_iff aligned_rows set_map image_iff not_copied
    split: if_splits dest!: copied_bulk)

lemma collect_ids_spec:
  assumes "distinct ids"
  shows "distinct (collect_ids hs ids) \<and> set (collect_ids hs ids) = set ids \<union> (set hs - {0})"
  using assms by (induction hs ids rule: collect_ids.induct) auto

lemma collectHeroIDs_spec:
  "distinct (collectHeroIDs m) \<and> set (collectHeroIDs m) =
     (pr_HeroID ` set (m_Players m) \<union> pb_HeroID ` set (m_PicksBans m) \<union> dt_HeroID ` set (m_DraftTimings m)) - {0}"
  by (auto simp: collectHeroIDs_def collect_ids_spec)

section \<open>Reading\<close>

text \<open>The answer of a query is its rows and the error that ended the reading.\<close>

datatype sql_query = QUnknown "int list" | QCounts | QIngested int int

type_synonym 'w querier = "sql_query \<Rightarrow> 'w \<Rightarrow> (go_error + sql_value list list \<times> go_error option) \<times> 'w"

definition ErrScan :: go_error where
  "ErrScan = ErrText ''can't scan into dest''"

fun scan_ids :: "sql_value list list \<Rightarrow> go_error + int list" where
  "scan_ids [] = Inr []"
| "scan_ids ([VInt i] # rs) = (case scan_ids rs of Inl e \<Rightarrow> Inl e | Inr is \<Rightarrow> Inr (i # is))"
| "scan_ids (r # rs) = Inl ErrScan"

definition UnknownIDs :: "'w querier \<Rightarrow> int list \<Rightarrow> 'w \<Rightarrow> (go_error + int list) \<times> 'w" where
  "UnknownIDs Q candidates w =
     (if candidates = [] then (Inr [], w)
      else
        case Q (QUnknown candidates) w of
          (Inl e, w1) \<Rightarrow> (Inl e, w1)
        | (Inr (rows, err), w1) \<Rightarrow>
            (case scan_ids rows of
               Inl e \<Rightarrow> (Inl e, w1)
             | Inr ids \<Rightarrow> ((case err of Some e \<Rightarrow> Inl e | None \<Rightarrow> Inr ids), w1)))"

text \<open>\<^verbatim>\<open>QueryRow(...).Scan(...)\<close> of one row.\<close>

definition first_row :: "'w querier \<Rightarrow> sql_query \<Rightarrow> 'w \<Rightarrow> (go_error + sql_value list) \<times> 'w" where
  "first_row Q q w =
     (case Q q w of
        (Inl e, w1) \<Rightarrow> (Inl e, w1)
      | (Inr (r # rs, err), w1) \<Rightarrow> (Inr r, w1)
      | (Inr ([], err), w1) \<Rightarrow> (Inl (case err of Some e \<Rightarrow> e | None \<Rightarrow> ErrText ''no rows in result set''), w1))"

definition pg_Counts :: "'w querier \<Rightarrow> 'w \<Rightarrow> (go_error + Counts) \<times> 'w" where
  "pg_Counts Q w =
     (case first_row Q QCounts w of
        (Inr [VInt a, VInt b], w1) \<Rightarrow> (Inr \<lparr>ct_Matches = a, ct_Players = b\<rparr>, w1)
      | (Inr _, w1) \<Rightarrow> (Inl ErrScan, w1)
      | (Inl e, w1) \<Rightarrow> (Inl e, w1))"

definition IsIngested :: "'w querier \<Rightarrow> int \<Rightarrow> int \<Rightarrow> 'w \<Rightarrow> (go_error + bool) \<times> 'w" where
  "IsIngested Q matchID startTime w =
     (case first_row Q (QIngested matchID startTime) w of
        (Inr [VBool b], w1) \<Rightarrow> (Inr b, w1)
      | (Inr _, w1) \<Rightarrow> (Inl ErrScan, w1)
      | (Inl e, w1) \<Rightarrow> (Inl e, w1))"

text \<open>What the queries find in the tables; the counts are estimates of the planner and stay open.\<close>

definition answers :: "pg_db \<Rightarrow> sql_query \<Rightarrow> sql_value list list" where
  "answers d q =
     (case q of
        QUnknown ids \<Rightarrow> map (\<lambda>i. [VInt i]) (filter (\<lambda>i. VInt i \<notin> set (map hd (db_tables d ''matches''))) ids)
      | QIngested i t \<Rightarrow> [[VBool ([Some (VInt i), Some (VInt t)] \<in> set (map (row_key match_cols match_keys) (db_tables d ''matches'')))]]
      | QCounts \<Rightarrow> [])"

lemma scan_ids_ints: "scan_ids (map (\<lambda>i. [VInt i]) is) = Inr is"
  by (induction "is") simp_all

lemma UnknownIDs_filter:
  assumes "\<And>q. Q q w = (Inr (answers d q, None), w)"
  shows "UnknownIDs Q ids w = (Inr (filter (\<lambda>i. VInt i \<notin> set (map hd (db_tables d ''matches''))) ids), w)"
  by (simp add: UnknownIDs_def assms answers_def scan_ids_ints)

text \<open>After an ingest the match counts as ingested.\<close>

lemma upsert_match_present: "row_key match_cols match_keys new \<in> set (map (row_key match_cols match_keys) (upsert_match new tbl))"
  by (induction new tbl rule: upsert_match.induct) (auto simp: update_match_key)

lemma IsIngested_after:
  assumes "db_stages d = (\<lambda>t. None)" and "\<And>q. Q q w = (Inr (answers (ingested fz m d) q, None), w)"
  shows "IsIngested Q (m_MatchID m) (m_StartTime m) w = (Inr True, w)"
proof -
  have "row_key match_cols match_keys (match_vals m) = [Some (VInt (m_MatchID m)), Some (VInt (m_StartTime m))]"
    by (simp add: row_key_def match_keys_def col_value_def match_cols_def match_vals_def)
  then show ?thesis
    using upsert_match_present [of "match_vals m" "db_tables d ''matches''"]
    by (simp add: IsIngested_def first_row_def assms(2) answers_def ingested_db [OF assms(1)] ingested_table_def)
qed

section \<open>Partitions\<close>

text \<open>The quarters ahead of \<open>now\<close> that have to exist, from the distance to \<open>until\<close> in nanoseconds; the
  division of hours is exact here instead of \<^verbatim>\<open>float64\<close>.\<close>

definition quarters_ahead :: "duration \<Rightarrow> int" where
  "quarters_ahead d =
     (let months = go_div d (30 * 24 * hour); quarters = go_div months 3 + 1
      in if quarters < 1 then 1 else quarters)"

definition EnsurePartitions :: "(int \<Rightarrow> 'w \<Rightarrow> go_error option \<times> 'w) \<Rightarrow> int \<Rightarrow> int \<Rightarrow> 'w \<Rightarrow> go_error option \<times> 'w" where
  "EnsurePartitions run now until w =
     (if until < now then (None, w)
      else run (quarters_ahead (min (until - now) (2 ^ 63 - 1))) w)"

text \<open>Quarters of 90 days cover the distance, and one less would not.\<close>

lemma quarters_cover:
  assumes "0 \<le> d"
  shows "d < quarters_ahead d * (90 * 24 * hour) \<and> (quarters_ahead d - 1) * (90 * 24 * hour) \<le> d"
proof -
  have nn: "0 \<le> d div 2592000000000000" using assms by (simp add: pos_imp_zdiv_nonneg_iff)
  then have q: "quarters_ahead d = d div 2592000000000000 div 3 + 1"
    using assms by (simp add: quarters_ahead_def go_div_nonneg pos_imp_zdiv_nonneg_iff Let_def)
  have "d div 2592000000000000 div 3 = d div 7776000000000000" using zdiv_zmult2_eq [of 3 d 2592000000000000] by simp
  moreover have "d < d div 7776000000000000 * 7776000000000000 + 7776000000000000 \<and> d div 7776000000000000 * 7776000000000000 \<le> d"
    using div_mult_mod_eq [of d 7776000000000000] pos_mod_bound [of 7776000000000000 d] pos_mod_sign [of 7776000000000000 d]
    by linarith
  ultimately show ?thesis by (simp add: q)
qed

section \<open>A small Postgres\<close>

text \<open>\<open>refuse\<close> says which statements fail.\<close>

record pg_world =
  pw_db :: pg_db
  pw_view :: pg_db
  pw_aborted :: bool

definition mini_run :: "(sql_stmt \<Rightarrow> go_error option) \<Rightarrow> sql_stmt \<Rightarrow> pg_world \<Rightarrow> (go_error + int) \<times> pg_world" where
  "mini_run refuse s w =
     (if pw_aborted w then (Inl (PgError ''25P02'' [] ''current transaction is aborted''), w)
      else
        case refuse s of
          Some e \<Rightarrow> (Inl e, w\<lparr>pw_aborted := True\<rparr>)
        | None \<Rightarrow> (Inr 1, w\<lparr>pw_view := apply_stmt s (pw_view w)\<rparr>))"

definition mini_BeginFunc :: "(pg_world \<Rightarrow> go_error option \<times> pg_world) \<Rightarrow> pg_world \<Rightarrow> go_error option \<times> pg_world" where
  "mini_BeginFunc f w =
     (case f (w\<lparr>pw_view := commit_db (pw_db w), pw_aborted := False\<rparr>) of
        (Some e, w1) \<Rightarrow> (Some e, w1)
      | (None, w1) \<Rightarrow>
          if pw_aborted w1 then (Some (ErrText ''commit unexpectedly resulted in rollback''), w1)
          else (None, w1\<lparr>pw_db := commit_db (pw_view w1)\<rparr>))"

definition mini_pgx :: "(sql_stmt \<Rightarrow> go_error option) \<Rightarrow> pg_world pgx" where
  "mini_pgx refuse = \<lparr>px_run = mini_run refuse, px_BeginFunc = mini_BeginFunc\<rparr>"

interpretation mini_pg: pg_driver "mini_pgx refuse" pw_db pw_view pw_aborted for refuse
proof
  fix f r and w w' :: pg_world
  assume b: "px_BeginFunc (mini_pgx refuse) f w = (r, w')"
  obtain e w1 where f: "f (w\<lparr>pw_view := commit_db (pw_db w), pw_aborted := False\<rparr>) = (e, w1)" by fastforce
  show "(r \<noteq> None \<and> pw_db w' = pw_db w) \<or>
      (\<exists>w0 w1 e. \<not> pw_aborted w0 \<and> pw_db w0 = pw_db w \<and> pw_view w0 = commit_db (pw_db w) \<and> f w0 = (e, w1) \<and>
         (case e of
            Some x \<Rightarrow> r = Some x \<and> pw_db w' = pw_db w1
          | None \<Rightarrow>
              if pw_aborted w1 then r \<noteq> None \<and> pw_db w' = pw_db w1
              else (r = None \<and> pw_db w' = commit_db (pw_view w1)) \<or>
                   (r \<noteq> None \<and> pw_db w' \<in> {pw_db w1, commit_db (pw_view w1)})))"
    using b f
    by (intro disjI2 exI [of _ "w\<lparr>pw_view := commit_db (pw_db w), pw_aborted := False\<rparr>"] exI [of _ w1] exI [of _ e])
       (auto simp: mini_pgx_def mini_BeginFunc_def split: option.splits if_splits)
qed (auto simp: mini_pgx_def mini_run_def split: if_splits option.splits)

section \<open>The properties\<close>

text \<open>(C4) A match is written as a whole or not at all. Whatever statement the database refuses, and even
  when the commit itself fails, the tables other connections see after \<^verbatim>\<open>IngestMatch\<close> are those before
  it or those with every row of the match; a success means the latter, and that the match has an
  identifier and a start time.\<close>

theorem match_ingest_atomic:
  assumes "pg_driver P committed view aborted" and "IngestMatch P fz m w = (r, w')"
    and "db_stages (committed w) = (\<lambda>t. None)"
  shows "(r = None \<longrightarrow> m_MatchID m \<noteq> 0 \<and> m_StartTime m \<noteq> 0 \<and> committed w' = ingested fz m (committed w)) \<and>
    (r \<noteq> None \<longrightarrow> committed w' \<in> {committed w, ingested fz m (committed w)})"
proof -
  have "commit_db (committed w) = committed w" using assms(3) by (simp add: commit_db_def)
  then show ?thesis using pg_driver.ingest_atomic [OF assms(1,2)] by simp
qed

text \<open>(C19) A match delivered twice is stored once. When two ingests of the same match succeed with nothing
  in between, the second changes no table: not the match, whose row is merged with itself, not the
  rows with keys, which are there already, and not the objectives, the chat and the teamfights, which
  are deleted and written again.\<close>

theorem duplicate_ingest_changes_nothing:
  assumes "pg_driver P committed view aborted" and "db_stages (committed w) = (\<lambda>t. None)"
    and "IngestMatch P fz m w = (None, w1)" and "committed w2 = committed w1" and "IngestMatch P fz m w2 = (None, w3)"
  shows "committed w3 = committed w1"
proof -
  have n: "db_stages (ingested fz m d) = (\<lambda>t. None)" and c: "commit_db (ingested fz m d) = ingested fz m d" for d
    by (simp_all add: ingested_def commit_db_def)
  have "commit_db (committed w) = committed w" using assms(2) by (simp add: commit_db_def)
  then have "committed w1 = ingested fz m (committed w)"
    using pg_driver.ingest_atomic [OF assms(1,3)] by simp
  moreover have "committed w3 = ingested fz m (commit_db (committed w2))"
    using pg_driver.ingest_atomic [OF assms(1,5)] by simp
  ultimately show ?thesis using assms(4) ingested_idem [OF assms(2), of fz m] c by simp
qed

definition sample_pg_match :: Match where
  "sample_pg_match =
     \<lparr>m_MatchID = 7, m_MatchSeqNum = 0, m_StartTime = 100, m_Duration = 60, m_RadiantWin = True, m_TowerStatusRadiant = 0,
      m_TowerStatusDire = 0, m_BarracksStatusRadiant = 0, m_BarracksStatusDire = 0, m_RadiantScore = 3, m_DireScore = 1,
      m_FirstBloodTime = 9, m_LobbyType = 0, m_GameMode = 2, m_Cluster = 1, m_Region = 1, m_Skill = 0, m_Engine = 1,
      m_HumanPlayers = 10, m_Version = 21, m_PatchID = 50, m_PositiveVotes = 0, m_NegativeVotes = 0, m_LeagueID = 0,
      m_SeriesID = 0, m_SeriesType = 0, m_RadiantTeamID = 0, m_DireTeamID = 0, m_RadiantCaptain = 0, m_DireCaptain = 0,
      m_ReplaySalt = 0, m_ReplayURL = [], m_Pauses = None, m_IsParsed = True, m_Players = [], m_Details = [],
      m_PicksBans = [\<lparr>pb_Order = 0, pb_IsPick = True, pb_HeroID = 5, pb_Team = 0\<rparr>], m_DraftTimings = [], m_Objectives = [],
      m_Chat = [\<lparr>ch_Time = 4, ch_Type = ''chat'', ch_PlayerSlot = 0, ch_Unit = [], ch_Key = ''gl''\<rparr>],
      m_Teamfights = [], m_Advantages = None, m_Cosmetics = None, m_Timeseries = [], m_Raw = []\<rparr>"

abbreviation empty_pg :: pg_world where
  "empty_pg \<equiv> \<lparr>pw_db = \<lparr>db_heroes = [], db_tables = (\<lambda>t. []), db_stages = (\<lambda>t. None)\<rparr>,
     pw_view = \<lparr>db_heroes = [], db_tables = (\<lambda>t. []), db_stages = (\<lambda>t. None)\<rparr>, pw_aborted = False\<rparr>"

abbreviation sample_ingest :: "(sql_stmt \<Rightarrow> go_error option) \<Rightarrow> pg_world \<Rightarrow> go_error option \<times> pg_world" where
  "sample_ingest refuse \<equiv> IngestMatch (mini_pgx refuse) (\<lambda>v. v = ''0'') sample_pg_match"

lemma sample_ingest_ok: "fst (sample_ingest (\<lambda>s. None) empty_pg) = None"
  by code_simp

lemma sample_ingest_twice: "fst (sample_ingest (\<lambda>s. None) (snd (sample_ingest (\<lambda>s. None) empty_pg))) = None"
  by code_simp

text \<open>Refusing the stub function loses the match, although its failure is meant to be passed over.\<close>

lemma sample_stub_failure:
  "fst (sample_ingest (\<lambda>s. case s of EnsureHeroStubs ids \<Rightarrow> Some (PgError ''42883'' [] ''function does not exist'') | _ \<Rightarrow> None) empty_pg) \<noteq> None"
  by code_simp

theorem match_ingest_atomic_witness:
  "pw_db (snd (sample_ingest (\<lambda>s. None) empty_pg)) = ingested (\<lambda>v. v = ''0'') sample_pg_match (pw_db empty_pg) \<and>
   db_tables (pw_db (snd (sample_ingest (\<lambda>s. None) empty_pg))) ''match_chat'' =
     [[VInt 7, VInt 100, VInt 4, VText ''chat'', VInt 0, Null, VText ''gl'']]"
proof
  show "pw_db (snd (sample_ingest (\<lambda>s. None) empty_pg)) = ingested (\<lambda>v. v = ''0'') sample_pg_match (pw_db empty_pg)"
  proof -
    obtain w1 where 1: "sample_ingest (\<lambda>s. None) empty_pg = (None, w1)" using sample_ingest_ok by (metis prod.collapse)
    show ?thesis using match_ingest_atomic [OF mini_pg.pg_driver_axioms 1] 1 by simp
  qed
  show "db_tables (pw_db (snd (sample_ingest (\<lambda>s. None) empty_pg))) ''match_chat'' =
     [[VInt 7, VInt 100, VInt 4, VText ''chat'', VInt 0, Null, VText ''gl'']]"
    by code_simp
qed

theorem duplicate_ingest_changes_nothing_witness:
  "pw_db (snd (sample_ingest (\<lambda>s. None) (snd (sample_ingest (\<lambda>s. None) empty_pg)))) = pw_db (snd (sample_ingest (\<lambda>s. None) empty_pg))"
proof -
  obtain w1 where 1: "sample_ingest (\<lambda>s. None) empty_pg = (None, w1)" using sample_ingest_ok by (metis prod.collapse)
  obtain w3 where 3: "sample_ingest (\<lambda>s. None) w1 = (None, w3)" using sample_ingest_twice 1 by (metis prod.collapse snd_conv)
  show ?thesis
    using duplicate_ingest_changes_nothing [OF mini_pg.pg_driver_axioms _ 1 refl 3] 1 3 by simp
qed

end
