(* ===== verification/RefStores.thy ===== *)
theory RefStores
  imports MatchPg
begin

text \<open>
  The stores of the reference tables on Postgres: the port \<^verbatim>\<open>refdatastore.RefDataWriter\<close> with its
  adapter (\<^verbatim>\<open>storage/refdatastore/refdatapg\<close>), and the writers of leagues, teams, professional players
  and hero statistics (\<^verbatim>\<open>leaguestore\<close>, \<^verbatim>\<open>teamstore\<close>, \<^verbatim>\<open>proplayerstore\<close>, \<^verbatim>\<open>herostatstore\<close>). Every writer
  opens a transaction, sends one \<^verbatim>\<open>INSERT ... ON CONFLICT ... DO UPDATE\<close> per row, commits, and rolls
  back on the way out. The driver is an argument; the effect of the statements on keyed tables is
  written down from their text. The columns with the time of the update are left out.
\<close>

section \<open>Statements and the driver\<close>

text \<open>\<open>UpsertRow table columns key updated values\<close> is
  \<^verbatim>\<open>INSERT INTO table (columns) VALUES (values) ON CONFLICT (key) DO UPDATE SET c = EXCLUDED.c\<close> for the
  updated columns.\<close>

datatype ref_stmt =
    UpsertRow string "string list" "string list" "string list" "sql_value list"
  | HeroStub int                                                    \<comment> \<open>\<^verbatim>\<open>SELECT ensure_hero_stubs(ARRAY[$1::smallint])\<close>\<close>

record 'w pgtx =
  pt_Begin :: "'w \<Rightarrow> go_error option \<times> 'w"
  pt_Exec :: "ref_stmt \<Rightarrow> 'w \<Rightarrow> go_error option \<times> 'w"
  pt_Commit :: "'w \<Rightarrow> go_error option \<times> 'w"
  pt_Rollback :: "'w \<Rightarrow> 'w"

definition null_or :: "('a \<Rightarrow> sql_value) \<Rightarrow> 'a option \<Rightarrow> sql_value" where
  "null_or f x = (case x of None \<Rightarrow> Null | Some v \<Rightarrow> f v)"

text \<open>The statements of one row, each with the text its error is wrapped in.\<close>

fun exec_row :: "'w pgtx \<Rightarrow> (ref_stmt \<times> string) list \<Rightarrow> 'w \<Rightarrow> go_error option \<times> 'w" where
  "exec_row P [] w = (None, w)"
| "exec_row P ((s, pre) # ss) w =
     (case pt_Exec P s w of (Some e, w1) \<Rightarrow> (Some (Wrapped pre e), w1) | (None, w1) \<Rightarrow> exec_row P ss w1)"

fun exec_rows :: "'w pgtx \<Rightarrow> ('a \<Rightarrow> (ref_stmt \<times> string) list) \<Rightarrow> 'a list \<Rightarrow> nat \<Rightarrow> 'w \<Rightarrow> (nat \<times> go_error option) \<times> 'w" where
  "exec_rows P f [] n w = ((n, None), w)"
| "exec_rows P f (x # xs) n w =
     (case exec_row P (f x) w of (Some e, w1) \<Rightarrow> ((n, Some e), w1) | (None, w1) \<Rightarrow> exec_rows P f xs (n + 1) w1)"

text \<open>The transaction around the rows; the deferred rollback runs in every case.\<close>

definition upsert_tx :: "'w pgtx \<Rightarrow> (go_error \<Rightarrow> go_error) \<Rightarrow> ('a \<Rightarrow> (ref_stmt \<times> string) list) \<Rightarrow> 'a list \<Rightarrow> 'w \<Rightarrow> (nat \<times> go_error option) \<times> 'w" where
  "upsert_tx P commit_err f xs w =
     (if xs = [] then ((0, None), w)
      else
        case pt_Begin P w of
          (Some e, w1) \<Rightarrow> ((0, Some (Wrapped ''begin: '' e)), w1)
        | (None, w1) \<Rightarrow>
            (case exec_rows P f xs 0 w1 of
               ((n, Some e), w2) \<Rightarrow> ((n, Some e), pt_Rollback P w2)
             | ((n, None), w2) \<Rightarrow>
                 (case pt_Commit P w2 of
                    (Some e, w3) \<Rightarrow> ((n, Some (commit_err e)), pt_Rollback P w3)
                  | (None, w3) \<Rightarrow> ((n, None), pt_Rollback P w3))))"

definition store_rows :: "'w pgtx \<Rightarrow> (go_error \<Rightarrow> go_error) \<Rightarrow> ('a \<Rightarrow> (ref_stmt \<times> string) list) \<Rightarrow> 'a list \<Rightarrow> 'w \<Rightarrow> go_error option \<times> 'w" where
  "store_rows P commit_err f xs w = (let ((n, e), w') = upsert_tx P commit_err f xs w in (e, w'))"

section \<open>The records\<close>

text \<open>Numbers of type \<^verbatim>\<open>float64\<close> and \<^verbatim>\<open>float32\<close> are texts, times are seconds.\<close>

record HeroRef =
  hr_ID :: int
  hr_Name :: string
  hr_LocalizedName :: string
  hr_PrimaryAttr :: string
  hr_AttackType :: string
  hr_Roles :: "string list"
  hr_Legs :: int

record HeroStatRef =
  hsr_HeroID :: int
  hsr_Winrate :: string
  hsr_Pickrate :: string
  hsr_BannedPct :: string

record HeroAbilityRef =
  har_HeroName :: string
  har_Slot :: int
  har_Ability :: string

record HeroTalentRef =
  htr_HeroName :: string
  htr_Ability :: string
  htr_Level :: int

record HeroFacetRef =
  hfr_HeroName :: string
  hfr_Slot :: int
  hfr_Name :: string
  hfr_Title :: string
  hfr_Description :: string
  hfr_Icon :: string
  hfr_Color :: string
  hfr_GradientID :: int
  hfr_Deprecated :: bool

record AbilityRef =
  abr_Name :: string
  abr_Localized :: string
  abr_Behavior :: "json option"
  abr_TargetTeam :: string
  abr_Description :: string
  abr_Img :: string
  abr_ManaCost :: string
  abr_Cooldown :: string
  abr_Attrib :: "json option"
  abr_IsTalent :: bool

record AbilityIDRef =
  air_ID :: int
  air_Name :: string

record ItemRef =
  itr_ID :: int
  itr_Key :: string
  itr_DName :: string
  itr_Cost :: int
  itr_Qual :: string
  itr_Behavior :: string
  itr_Lore :: string
  itr_Img :: string
  itr_Created :: bool
  itr_Cooldown :: string
  itr_ManaCost :: string

record ItemIDRef =
  iir_ID :: int
  iir_Key :: string

record PatchRef =
  ptr_ID :: int
  ptr_Name :: string
  ptr_ReleaseAt :: int

record LeagueRef =
  lgr_ID :: int
  lgr_Name :: string
  lgr_Tier :: string
  lgr_Region :: string
  lgr_StartAt :: int
  lgr_EndAt :: int

record TeamRef =
  tmr_ID :: int
  tmr_Name :: string
  tmr_Tag :: string
  tmr_LogoURL :: string
  tmr_Country :: string

record NotablePlayerRef =
  npr_AccountID :: int
  npr_Name :: string
  npr_TeamID :: int
  npr_Country :: string

record ProPlayerRef =
  ppr_AccountID :: int
  ppr_Name :: string
  ppr_TeamID :: int
  ppr_Country :: string
  ppr_IsPro :: bool

record GameModeRef =
  gmr_ID :: int
  gmr_Name :: string
  gmr_Balanced :: bool

record LobbyTypeRef =
  ltr_ID :: int
  ltr_Name :: string
  ltr_Balanced :: bool

record RegionRef =
  rgr_ID :: int
  rgr_Name :: string

record League =
  lgu_LeagueID :: int
  lgu_Name :: string
  lgu_Tier :: string
  lgu_Ticket :: string
  lgu_Banner :: string

record Team =
  tem_TeamID :: int
  tem_Name :: string
  tem_Tag :: string
  tem_LogoURL :: string
  tem_Rating :: "string option"
  tem_Wins :: "int option"
  tem_Losses :: "int option"
  tem_LastMatchTime :: "int option"
  tem_Delta :: "string option"
  tem_MatchID :: "int option"

record ProPlayer =
  ppl_AccountID :: int
  ppl_SteamID :: "string option"
  ppl_Personaname :: "string option"
  ppl_Name :: "string option"
  ppl_CountryCode :: "string option"
  ppl_FantasyRole :: "int option"
  ppl_TeamID :: "int option"
  ppl_TeamName :: "string option"
  ppl_TeamTag :: "string option"
  ppl_IsPro :: "bool option"
  ppl_IsLocked :: "bool option"
  ppl_Avatar :: "string option"
  ppl_LastMatchTime :: "int option"
  ppl_LastLogin :: "int option"
  ppl_FullHistoryTime :: "int option"
  ppl_Cheese :: "int option"
  ppl_FhUnavailable :: "bool option"
  ppl_LocCountryCode :: "string option"
  ppl_Plus :: "bool option"

record HeroStat =
  hst_ID :: int
  hst_BaseHealth :: "int option"
  hst_BaseMana :: "int option"
  hst_BaseArmor :: "string option"
  hst_BaseMR :: "string option"
  hst_BaseAttackMin :: "int option"
  hst_BaseAttackMax :: "int option"
  hst_BaseStr :: "int option"
  hst_BaseAgi :: "int option"
  hst_BaseInt :: "int option"
  hst_StrGain :: "string option"
  hst_AgiGain :: "string option"
  hst_IntGain :: "string option"
  hst_AttackRange :: "int option"
  hst_ProjectileSpeed :: "int option"
  hst_AttackRate :: "string option"
  hst_MoveSpeed :: "int option"
  hst_TurnRate :: "string option"
  hst_CmEnabled :: "bool option"
  hst_TurboPicks :: "int option"
  hst_TurboWins :: "int option"
  hst_ProPick :: "int option"
  hst_ProWin :: "int option"
  hst_ProBan :: "int option"
  hst_PubPick :: "int option"
  hst_PubWin :: "int option"

section \<open>The writers of the discoverer\<close>

definition league_row :: "League \<Rightarrow> ref_stmt" where
  "league_row x =
     UpsertRow ''leagues'' [''leagueid'', ''name'', ''tier'', ''ticket'', ''banner'']
        [''leagueid''] [''name'', ''tier'', ''ticket'', ''banner'']
        [VInt (lgu_LeagueID x), VText (lgu_Name x), VText (lgu_Tier x), VText (lgu_Ticket x),
        VText (lgu_Banner x)]"

definition team_row :: "Team \<Rightarrow> ref_stmt" where
  "team_row x =
     UpsertRow ''teams'' [''team_id'', ''name'', ''tag'', ''logo_url'', ''rating'', ''wins'', ''losses'',
        ''last_match_time'', ''delta'', ''match_id'']
        [''team_id''] [''name'', ''tag'', ''logo_url'', ''rating'', ''wins'', ''losses'', ''last_match_time'', ''delta'',
        ''match_id'']
        [VInt (tem_TeamID x), VText (tem_Name x), VText (tem_Tag x), VText (tem_LogoURL x),
        null_or VNum (tem_Rating x), null_or VInt (tem_Wins x), null_or VInt (tem_Losses x),
        null_or VInt (tem_LastMatchTime x), null_or VNum (tem_Delta x), null_or VInt (tem_MatchID x)]"

definition proplayer_row :: "ProPlayer \<Rightarrow> ref_stmt" where
  "proplayer_row x =
     UpsertRow ''pro_players'' [''account_id'', ''steamid'', ''personaname'', ''name'', ''country_code'',
        ''fantasy_role'', ''team_id'', ''team_name'', ''team_tag'', ''is_pro'', ''is_locked'', ''avatar'',
        ''last_match_time'', ''last_login'', ''full_history_time'', ''cheese'', ''fh_unavailable'',
        ''loccountrycode'', ''plus'']
        [''account_id''] [''steamid'', ''personaname'', ''name'', ''country_code'', ''fantasy_role'', ''team_id'', ''team_name'',
        ''team_tag'', ''is_pro'', ''is_locked'', ''avatar'', ''last_match_time'', ''last_login'',
        ''full_history_time'', ''cheese'', ''fh_unavailable'', ''loccountrycode'', ''plus'']
        [VInt (ppl_AccountID x), null_or VText (ppl_SteamID x), null_or VText (ppl_Personaname x),
        null_or VText (ppl_Name x), null_or VText (ppl_CountryCode x), null_or VInt (ppl_FantasyRole x),
        null_or VInt (ppl_TeamID x), null_or VText (ppl_TeamName x), null_or VText (ppl_TeamTag x),
        null_or VBool (ppl_IsPro x), null_or VBool (ppl_IsLocked x), null_or VText (ppl_Avatar x),
        null_or VTime (ppl_LastMatchTime x), null_or VTime (ppl_LastLogin x),
        null_or VTime (ppl_FullHistoryTime x), null_or VInt (ppl_Cheese x),
        null_or VBool (ppl_FhUnavailable x), null_or VText (ppl_LocCountryCode x), null_or VBool (ppl_Plus x)]"

definition herostat_row :: "sql_value \<Rightarrow> sql_value \<Rightarrow> HeroStat \<Rightarrow> ref_stmt" where
  "herostat_row pubWinRate proWinRate x =
     UpsertRow ''hero_stats'' [''id'', ''base_health'', ''base_mana'', ''base_armor'', ''base_mr'',
        ''base_attack_min'', ''base_attack_max'', ''base_str'', ''base_agi'', ''base_int'', ''str_gain'',
        ''agi_gain'', ''int_gain'', ''attack_range'', ''projectile_speed'', ''attack_rate'', ''move_speed'',
        ''turn_rate'', ''cm_enabled'', ''turbo_picks'', ''turbo_wins'', ''pro_picks'', ''pro_wins'',
        ''pro_bans'', ''pub_picks'', ''pub_wins'', ''pub_win_rate'', ''pro_win_rate'']
        [''id''] [''base_health'', ''base_mana'', ''base_armor'', ''base_mr'', ''base_attack_min'', ''base_attack_max'',
        ''base_str'', ''base_agi'', ''base_int'', ''str_gain'', ''agi_gain'', ''int_gain'', ''attack_range'',
        ''projectile_speed'', ''attack_rate'', ''move_speed'', ''turn_rate'', ''cm_enabled'', ''turbo_picks'',
        ''turbo_wins'', ''pro_picks'', ''pro_wins'', ''pro_bans'', ''pub_picks'', ''pub_wins'',
        ''pub_win_rate'', ''pro_win_rate'']
        [VInt (hst_ID x), null_or VInt (hst_BaseHealth x), null_or VInt (hst_BaseMana x),
        null_or VNum (hst_BaseArmor x), null_or VNum (hst_BaseMR x), null_or VInt (hst_BaseAttackMin x),
        null_or VInt (hst_BaseAttackMax x), null_or VInt (hst_BaseStr x), null_or VInt (hst_BaseAgi x),
        null_or VInt (hst_BaseInt x), null_or VNum (hst_StrGain x), null_or VNum (hst_AgiGain x),
        null_or VNum (hst_IntGain x), null_or VInt (hst_AttackRange x), null_or VInt (hst_ProjectileSpeed x),
        null_or VNum (hst_AttackRate x), null_or VInt (hst_MoveSpeed x), null_or VNum (hst_TurnRate x),
        null_or VBool (hst_CmEnabled x), null_or VInt (hst_TurboPicks x), null_or VInt (hst_TurboWins x),
        null_or VInt (hst_ProPick x), null_or VInt (hst_ProWin x), null_or VInt (hst_ProBan x),
        null_or VInt (hst_PubPick x), null_or VInt (hst_PubWin x), pubWinRate, proWinRate]"

definition league_Upsert :: "'w pgtx \<Rightarrow> League list \<Rightarrow> 'w \<Rightarrow> (nat \<times> go_error option) \<times> 'w" where
  "league_Upsert P =
     upsert_tx P (Wrapped ''commit: '') (\<lambda>x. [(league_row x, ''upsert league '' @ itoa (lgu_LeagueID x) @ '': '')])"

definition team_Upsert :: "'w pgtx \<Rightarrow> Team list \<Rightarrow> 'w \<Rightarrow> (nat \<times> go_error option) \<times> 'w" where
  "team_Upsert P =
     upsert_tx P (Wrapped ''commit: '') (\<lambda>x. [(team_row x, ''upsert team '' @ itoa (tem_TeamID x) @ '': '')])"

definition proplayer_Upsert :: "'w pgtx \<Rightarrow> ProPlayer list \<Rightarrow> 'w \<Rightarrow> (nat \<times> go_error option) \<times> 'w" where
  "proplayer_Upsert P =
     upsert_tx P (Wrapped ''commit: '') (\<lambda>x. [(proplayer_row x, ''upsert pro player '' @ itoa (ppl_AccountID x) @ '': '')])"

text \<open>A rate is the quotient of two \<^verbatim>\<open>float32\<close> numbers, the argument \<open>fdiv\<close>.\<close>

definition win_rate :: "(int \<Rightarrow> int \<Rightarrow> string) \<Rightarrow> int option \<Rightarrow> int option \<Rightarrow> sql_value" where
  "win_rate fdiv pick win =
     (case (pick, win) of (Some p, Some n) \<Rightarrow> if 0 < p then VNum (fdiv n p) else Null | _ \<Rightarrow> Null)"

definition herostat_rows :: "(int \<Rightarrow> int \<Rightarrow> string) \<Rightarrow> HeroStat \<Rightarrow> (ref_stmt \<times> string) list" where
  "herostat_rows fdiv x =
     [(HeroStub (hst_ID x), ''hero stub check failed: ''),
      (herostat_row (win_rate fdiv (hst_PubPick x) (hst_PubWin x)) (win_rate fdiv (hst_ProPick x) (hst_ProWin x)) x,
       ''upsert herostat '' @ itoa (hst_ID x) @ '': '')]"

definition herostat_Upsert :: "'w pgtx \<Rightarrow> (int \<Rightarrow> int \<Rightarrow> string) \<Rightarrow> HeroStat list \<Rightarrow> 'w \<Rightarrow> (nat \<times> go_error option) \<times> 'w" where
  "herostat_Upsert P fdiv = upsert_tx P (Wrapped ''commit: '') (herostat_rows fdiv)"

section \<open>The rows of the reference tables\<close>

definition heroes_rows :: "HeroRef \<Rightarrow> (ref_stmt \<times> string) list" where
  "heroes_rows x =
     (if hr_ID x \<le> 0 \<or> 32767 < hr_ID x then []
      else
      [(UpsertRow ''heroes'' [''id'', ''name'', ''localized_name'', ''primary_attr'', ''attack_type'', ''roles'',
        ''legs'']
         [''id''] [''name'', ''localized_name'', ''primary_attr'', ''attack_type'', ''roles'', ''legs'']
         [VInt (hr_ID x), VText (hr_Name x), VText (hr_LocalizedName x), nullIfStr (hr_PrimaryAttr x),
        nullIfStr (hr_AttackType x), VTexts (hr_Roles x), VInt (hr_Legs x)],
       ''upsert hero id='' @ itoa (hr_ID x) @ '': '')])"

definition herostats_rows :: "HeroStatRef \<Rightarrow> (ref_stmt \<times> string) list" where
  "herostats_rows x =
     [(UpsertRow ''hero_stats'' [''id'', ''pub_win_rate'']
         [''id''] [''pub_win_rate'']
         [VInt (hsr_HeroID x), VNum (hsr_Winrate x)],
       ''upsert hero stat '' @ itoa (hsr_HeroID x) @ '': '')]"

definition heroabilities_rows :: "HeroAbilityRef \<Rightarrow> (ref_stmt \<times> string) list" where
  "heroabilities_rows x =
     (if har_HeroName x = [] \<or> har_Ability x = [] then []
      else
      [(UpsertRow ''hero_abilities'' [''hero_name'', ''slot'', ''ability'']
         [''hero_name'', ''slot''] [''ability'']
         [VText (har_HeroName x), VInt (har_Slot x), VText (har_Ability x)],
       ''upsert hero ability '' @ har_HeroName x @ ''/'' @ itoa (har_Slot x) @ '': '')])"

definition herotalents_rows :: "HeroTalentRef \<Rightarrow> (ref_stmt \<times> string) list" where
  "herotalents_rows x =
     (if htr_HeroName x = [] \<or> htr_Ability x = [] \<or> htr_Level x < 1 \<or> 4 < htr_Level x then []
      else
      [(UpsertRow ''hero_talents'' [''hero_name'', ''ability'', ''level'']
         [''hero_name'', ''ability''] [''level'']
         [VText (htr_HeroName x), VText (htr_Ability x), VInt (htr_Level x)],
       ''upsert hero talent '' @ htr_HeroName x @ ''/'' @ htr_Ability x @ '': '')])"

definition herofacets_rows :: "HeroFacetRef \<Rightarrow> (ref_stmt \<times> string) list" where
  "herofacets_rows x =
     (if hfr_HeroName x = [] \<or> hfr_Name x = [] then []
      else
      [(UpsertRow ''hero_facets'' [''hero_name'', ''slot'', ''name'', ''title'', ''description'', ''icon'',
        ''color'', ''gradient_id'', ''deprecated'']
         [''hero_name'', ''slot''] [''name'', ''title'', ''description'', ''icon'', ''color'', ''gradient_id'', ''deprecated'']
         [VText (hfr_HeroName x), VInt (hfr_Slot x), VText (hfr_Name x), VText (hfr_Title x),
        VText (hfr_Description x), VText (hfr_Icon x), VText (hfr_Color x), VInt (hfr_GradientID x),
        VBool (hfr_Deprecated x)],
       ''upsert hero facet '' @ hfr_HeroName x @ ''/'' @ itoa (hfr_Slot x) @ '': '')])"

definition abilities_rows :: "AbilityRef \<Rightarrow> (ref_stmt \<times> string) list" where
  "abilities_rows x =
     (if abr_Name x = [] then []
      else
      [(UpsertRow ''abilities'' [''key'', ''dname'', ''behavior'', ''target_team'', ''description'', ''img'',
        ''mana_cost'', ''cooldown'', ''attrib'', ''is_talent'']
         [''key''] [''dname'', ''behavior'', ''target_team'', ''description'', ''img'', ''mana_cost'', ''cooldown'', ''attrib'',
        ''is_talent'']
         [VText (abr_Name x), VText (abr_Localized x), jsonbOrNull (abr_Behavior x), VText (abr_TargetTeam x),
        VText (abr_Description x), VText (abr_Img x), VText (abr_ManaCost x), VText (abr_Cooldown x),
        jsonbOrNull (abr_Attrib x), VBool (abr_IsTalent x)],
       ''upsert ability '' @ quote (abr_Name x) @ '': '')])"

definition abilityids_rows :: "AbilityIDRef \<Rightarrow> (ref_stmt \<times> string) list" where
  "abilityids_rows x =
     (if air_Name x = [] \<or> air_ID x \<le> 0 then []
      else
      [(UpsertRow ''abilities'' [''key'', ''id'']
         [''key''] [''id'']
         [VText (air_Name x), VInt (air_ID x)],
       ''upsert ability id '' @ itoa (air_ID x) @ '' ('' @ air_Name x @ ''): '')])"

definition items_rows :: "ItemRef \<Rightarrow> (ref_stmt \<times> string) list" where
  "items_rows x =
     (if itr_ID x \<le> 0 \<or> itr_Key x = [] then []
      else
      [(UpsertRow ''items'' [''id'', ''key'', ''dname'', ''cost'', ''qual'', ''behavior'', ''lore'', ''img'',
        ''created'', ''cooldown'', ''mana_cost'']
         [''id''] [''key'', ''dname'', ''cost'', ''qual'', ''behavior'', ''lore'', ''img'', ''created'', ''cooldown'',
        ''mana_cost'']
         [VInt (itr_ID x), VText (itr_Key x), VText (itr_DName x), VInt (itr_Cost x), VText (itr_Qual x),
        VText (itr_Behavior x), VText (itr_Lore x), VText (itr_Img x), VBool (itr_Created x),
        VText (itr_Cooldown x), VText (itr_ManaCost x)],
       ''upsert item '' @ itoa (itr_ID x) @ '': '')])"

definition itemids_rows :: "ItemIDRef \<Rightarrow> (ref_stmt \<times> string) list" where
  "itemids_rows x =
     (if iir_ID x < 0 \<or> iir_Key x = [] then []
      else
      [(UpsertRow ''item_ids'' [''id'', ''key'']
         [''id''] [''key'']
         [VInt (iir_ID x), VText (iir_Key x)],
       ''upsert item_id '' @ itoa (iir_ID x) @ '': '')])"

definition patches_rows :: "PatchRef \<Rightarrow> (ref_stmt \<times> string) list" where
  "patches_rows x =
     (if ptr_ID x \<le> 0 \<or> ptr_Name x = [] then []
      else
      [(UpsertRow ''patches'' [''id'', ''name'', ''release_at'']
         [''id''] [''name'', ''release_at'']
         [VInt (ptr_ID x), VText (ptr_Name x), VTime (ptr_ReleaseAt x)],
       ''upsert patch '' @ itoa (ptr_ID x) @ '': '')])"

definition teams_rows :: "TeamRef \<Rightarrow> (ref_stmt \<times> string) list" where
  "teams_rows x =
     [(UpsertRow ''teams'' [''team_id'', ''name'', ''tag'', ''logo_url'']
         [''team_id''] [''name'', ''tag'', ''logo_url'']
         [VInt (tmr_ID x), VText (tmr_Name x), VText (tmr_Tag x), VText (tmr_LogoURL x)],
       ''upsert team '' @ itoa (tmr_ID x) @ '': '')]"

definition leagues_rows :: "LeagueRef \<Rightarrow> (ref_stmt \<times> string) list" where
  "leagues_rows x =
     [(UpsertRow ''leagues'' [''leagueid'', ''name'', ''tier'']
         [''leagueid''] [''name'', ''tier'']
         [VInt (lgr_ID x), VText (lgr_Name x), VText (lgr_Tier x)],
       ''upsert league '' @ itoa (lgr_ID x) @ '': '')]"

definition notableplayers_rows :: "NotablePlayerRef \<Rightarrow> (ref_stmt \<times> string) list" where
  "notableplayers_rows x =
     [(UpsertRow ''notable_players'' [''account_id'', ''name'', ''team_id'', ''country_code'', ''is_pro'']
         [''account_id''] [''name'', ''team_id'', ''country_code'']
         [VInt (npr_AccountID x), VText (npr_Name x), nullIf0 (npr_TeamID x), VText (npr_Country x), VBool False],
       ''upsert notable player '' @ itoa (npr_AccountID x) @ '': '')]"

definition proplayers_rows :: "ProPlayerRef \<Rightarrow> (ref_stmt \<times> string) list" where
  "proplayers_rows x =
     [(UpsertRow ''notable_players'' [''account_id'', ''name'', ''team_id'', ''country_code'', ''is_pro'']
         [''account_id''] [''name'', ''team_id'', ''country_code'', ''is_pro'']
         [VInt (ppr_AccountID x), VText (ppr_Name x), nullIf0 (ppr_TeamID x), VText (ppr_Country x), VBool True],
       ''upsert pro player '' @ itoa (ppr_AccountID x) @ '': '')]"

definition gamemodes_rows :: "GameModeRef \<Rightarrow> (ref_stmt \<times> string) list" where
  "gamemodes_rows x =
     (if gmr_ID x < 0 \<or> 32767 < gmr_ID x \<or> gmr_Name x = [] then []
      else
      [(UpsertRow ''game_modes'' [''id'', ''name'', ''balanced'']
         [''id''] [''name'', ''balanced'']
         [VInt (gmr_ID x), VText (gmr_Name x), VBool (gmr_Balanced x)],
       ''upsert game_mode '' @ itoa (gmr_ID x) @ '': '')])"

definition lobbytypes_rows :: "LobbyTypeRef \<Rightarrow> (ref_stmt \<times> string) list" where
  "lobbytypes_rows x =
     (if ltr_ID x < 0 \<or> 32767 < ltr_ID x \<or> ltr_Name x = [] then []
      else
      [(UpsertRow ''lobby_types'' [''id'', ''name'', ''balanced'']
         [''id''] [''name'', ''balanced'']
         [VInt (ltr_ID x), VText (ltr_Name x), VBool (ltr_Balanced x)],
       ''upsert lobby_type '' @ itoa (ltr_ID x) @ '': '')])"

definition regions_rows :: "RegionRef \<Rightarrow> (ref_stmt \<times> string) list" where
  "regions_rows x =
     (if rgr_ID x < 0 \<or> 32767 < rgr_ID x \<or> rgr_Name x = [] then []
      else
      [(UpsertRow ''regions'' [''id'', ''name'']
         [''id''] [''name'']
         [VInt (rgr_ID x), VText (rgr_Name x)],
       ''upsert region '' @ itoa (rgr_ID x) @ '': '')])"

section \<open>The port\<close>

text \<open>A call of \<^verbatim>\<open>RefDataWriter\<close>.\<close>

datatype ref_call =
    UpsertHeroes "HeroRef list"
  | UpsertHeroStats "HeroStatRef list"
  | UpsertHeroAbilities "HeroAbilityRef list"
  | UpsertHeroTalents "HeroTalentRef list"
  | UpsertHeroFacets "HeroFacetRef list"
  | UpsertAbilities "AbilityRef list"
  | UpsertAbilityIDs "AbilityIDRef list"
  | UpsertItems "ItemRef list"
  | UpsertItemIDs "ItemIDRef list"
  | UpsertPatches "PatchRef list"
  | UpsertTeams "TeamRef list"
  | UpsertLeagues "LeagueRef list"
  | UpsertNotablePlayers "NotablePlayerRef list"
  | UpsertProPlayers "ProPlayerRef list"
  | UpsertGameModes "GameModeRef list"
  | UpsertLobbyTypes "LobbyTypeRef list"
  | UpsertRegions "RegionRef list"

fun duplicate_name :: "HeroRef list \<Rightarrow> (string \<times> int) list \<Rightarrow> go_error option" where
  "duplicate_name [] seen = None"
| "duplicate_name (h # hs) seen =
     (if hr_Name h = [] then duplicate_name hs seen
      else
        case map_of seen (hr_Name h) of
          Some prev \<Rightarrow>
            Some (ErrText (''duplicate hero name '' @ quote (hr_Name h) @ '' for ids '' @ itoa prev @ '' and '' @ itoa (hr_ID h)))
        | None \<Rightarrow> duplicate_name hs ((hr_Name h, hr_ID h) # seen))"

fun ref_write :: "'w pgtx \<Rightarrow> ref_call \<Rightarrow> 'w \<Rightarrow> go_error option \<times> 'w" where
  "ref_write P (UpsertHeroes xs) =
     (\<lambda>w. if xs = [] then (None, w)
          else case duplicate_name xs [] of
                 Some e \<Rightarrow> (Some e, w)
               | None \<Rightarrow> store_rows P (Wrapped ''commit: '') heroes_rows xs w)"
| "ref_write P (UpsertHeroStats xs) = store_rows P (Wrapped ''commit: '') herostats_rows xs"
| "ref_write P (UpsertHeroAbilities xs) = store_rows P (Wrapped ''commit: '') heroabilities_rows xs"
| "ref_write P (UpsertHeroTalents xs) = store_rows P (Wrapped ''commit: '') herotalents_rows xs"
| "ref_write P (UpsertHeroFacets xs) = store_rows P (Wrapped ''commit: '') herofacets_rows xs"
| "ref_write P (UpsertAbilities xs) = store_rows P (Wrapped ''commit: '') abilities_rows xs"
| "ref_write P (UpsertAbilityIDs xs) = store_rows P (Wrapped ''commit: '') abilityids_rows xs"
| "ref_write P (UpsertItems xs) = store_rows P (Wrapped ''commit: '') items_rows xs"
| "ref_write P (UpsertItemIDs xs) = store_rows P (Wrapped ''commit: '') itemids_rows xs"
| "ref_write P (UpsertPatches xs) = store_rows P (Wrapped ''commit: '') patches_rows xs"
| "ref_write P (UpsertTeams xs) = store_rows P (Wrapped ''commit: '') teams_rows xs"
| "ref_write P (UpsertLeagues xs) = store_rows P (Wrapped ''commit: '') leagues_rows xs"
| "ref_write P (UpsertNotablePlayers xs) = store_rows P id notableplayers_rows xs"
| "ref_write P (UpsertProPlayers xs) = store_rows P id proplayers_rows xs"
| "ref_write P (UpsertGameModes xs) = store_rows P (Wrapped ''commit: '') gamemodes_rows xs"
| "ref_write P (UpsertLobbyTypes xs) = store_rows P (Wrapped ''commit: '') lobbytypes_rows xs"
| "ref_write P (UpsertRegions xs) = store_rows P (Wrapped ''commit: '') regions_rows xs"

section \<open>The effect of the statements\<close>

text \<open>A row is a map from columns to values, a table a map from the values of the key columns to rows.\<close>

type_synonym ref_db = "string \<Rightarrow> sql_value list \<Rightarrow> (string \<Rightarrow> sql_value option) option"

definition upserted :: "string list \<Rightarrow> string list \<Rightarrow> sql_value list \<Rightarrow> (string \<Rightarrow> sql_value option) option \<Rightarrow> (string \<Rightarrow> sql_value option)" where
  "upserted cols upd vals old =
     (case old of
        None \<Rightarrow> map_of (zip cols vals)
      | Some r \<Rightarrow> (\<lambda>c. if c \<in> set upd then map_of (zip cols vals) c else r c))"

definition key_of :: "string list \<Rightarrow> string list \<Rightarrow> sql_value list \<Rightarrow> sql_value list" where
  "key_of cols keys vals = map (\<lambda>k. case map_of (zip cols vals) k of Some v \<Rightarrow> v | None \<Rightarrow> Null) keys"

fun apply_ref :: "ref_stmt \<Rightarrow> ref_db \<Rightarrow> ref_db" where
  "apply_ref (UpsertRow table cols keys upd vals) d =
     (let k = key_of cols keys vals in d(table := (d table)(k \<mapsto> upserted cols upd vals (d table k))))"
| "apply_ref (HeroStub i) d =
     (case d ''heroes'' [VInt i] of
        Some _ \<Rightarrow> d
      | None \<Rightarrow>
          d(''heroes'' := (d ''heroes'')([VInt i] \<mapsto>
            [''id'' \<mapsto> VInt i, ''name'' \<mapsto> VText (''unknown_'' @ itoa i), ''localized_name'' \<mapsto> VText (''Unknown Hero '' @ itoa i)])))"

text \<open>The statements of a call.\<close>

fun call_stmts :: "ref_call \<Rightarrow> ref_stmt list" where
  "call_stmts (UpsertHeroes xs) = concat (map (map fst \<circ> heroes_rows) xs)"
| "call_stmts (UpsertHeroStats xs) = concat (map (map fst \<circ> herostats_rows) xs)"
| "call_stmts (UpsertHeroAbilities xs) = concat (map (map fst \<circ> heroabilities_rows) xs)"
| "call_stmts (UpsertHeroTalents xs) = concat (map (map fst \<circ> herotalents_rows) xs)"
| "call_stmts (UpsertHeroFacets xs) = concat (map (map fst \<circ> herofacets_rows) xs)"
| "call_stmts (UpsertAbilities xs) = concat (map (map fst \<circ> abilities_rows) xs)"
| "call_stmts (UpsertAbilityIDs xs) = concat (map (map fst \<circ> abilityids_rows) xs)"
| "call_stmts (UpsertItems xs) = concat (map (map fst \<circ> items_rows) xs)"
| "call_stmts (UpsertItemIDs xs) = concat (map (map fst \<circ> itemids_rows) xs)"
| "call_stmts (UpsertPatches xs) = concat (map (map fst \<circ> patches_rows) xs)"
| "call_stmts (UpsertTeams xs) = concat (map (map fst \<circ> teams_rows) xs)"
| "call_stmts (UpsertLeagues xs) = concat (map (map fst \<circ> leagues_rows) xs)"
| "call_stmts (UpsertNotablePlayers xs) = concat (map (map fst \<circ> notableplayers_rows) xs)"
| "call_stmts (UpsertProPlayers xs) = concat (map (map fst \<circ> proplayers_rows) xs)"
| "call_stmts (UpsertGameModes xs) = concat (map (map fst \<circ> gamemodes_rows) xs)"
| "call_stmts (UpsertLobbyTypes xs) = concat (map (map fst \<circ> lobbytypes_rows) xs)"
| "call_stmts (UpsertRegions xs) = concat (map (map fst \<circ> regions_rows) xs)"

section \<open>The contract of the driver\<close>

text \<open>\<open>db\<close> are the committed tables, \<open>tx\<close> those the open transaction sees. Every call may fail; a commit
  whose answer is lost may have taken place.\<close>

locale ref_driver =
  fixes P :: "'w pgtx" and db :: "'w \<Rightarrow> ref_db" and tx :: "'w \<Rightarrow> ref_db option"
  assumes begin_law: "pt_Begin P w = (e, w') \<Longrightarrow> db w' = db w \<and> (e = None \<longrightarrow> tx w' = Some (db w))"
    and exec_law: "pt_Exec P s w = (e, w') \<Longrightarrow> db w' = db w \<and> (e = None \<longrightarrow> tx w' = map_option (apply_ref s) (tx w))"
    and commit_law: "pt_Commit P w = (e, w') \<Longrightarrow> tx w = Some t \<Longrightarrow> (e = None \<longrightarrow> db w' = t) \<and> (db w' = db w \<or> db w' = t)"
    and rollback_law: "db (pt_Rollback P w) = db w"
begin

lemma exec_row_effect:
  assumes "exec_row P ss w = (e, w')" and "tx w = Some t"
  shows "db w' = db w \<and> (e = None \<longrightarrow> tx w' = Some (fold apply_ref (map fst ss) t))"
  using assms
proof (induction ss arbitrary: w t)
  case (Cons s ss)
  obtain e1 w1 where x: "pt_Exec P (fst s) w = (e1, w1)" by fastforce
  note X = exec_law [OF x]
  show ?case
  proof (cases e1)
    case None
    have "exec_row P ss w1 = (e, w')" using Cons.prems x None by (cases s) simp
    then show ?thesis using Cons.IH [of w1 "apply_ref (fst s) t"] X None Cons.prems(2) by simp
  next
    case (Some a)
    then show ?thesis using Cons.prems x X by (cases s) auto
  qed
qed simp

lemma exec_rows_effect:
  assumes "exec_rows P f xs n w = ((n', e), w')" and "tx w = Some t"
  shows "db w' = db w \<and>
    (e = None \<longrightarrow> n' = n + length xs \<and> tx w' = Some (fold apply_ref (concat (map (map fst \<circ> f) xs)) t))"
  using assms
proof (induction xs arbitrary: n w t)
  case (Cons x xs)
  obtain e1 w1 where x: "exec_row P (f x) w = (e1, w1)" by fastforce
  note X = exec_row_effect [OF x Cons.prems(2)]
  show ?case
  proof (cases e1)
    case None
    have "exec_rows P f xs (n + 1) w1 = ((n', e), w')" using Cons.prems x None by simp
    then show ?thesis using Cons.IH X None by force
  next
    case (Some a)
    then show ?thesis using Cons.prems x X by auto
  qed
qed simp

text \<open>All rows or none; without an error all, and they were counted.\<close>

lemma upsert_tx_atomic:
  assumes "upsert_tx P c f xs w = ((n, e), w')"
  shows "(e = None \<longrightarrow> db w' = fold apply_ref (concat (map (map fst \<circ> f) xs)) (db w) \<and> n = length xs) \<and>
    (db w' = db w \<or> db w' = fold apply_ref (concat (map (map fst \<circ> f) xs)) (db w))"
proof (cases "xs = []")
  case True
  then show ?thesis using assms by (auto simp: upsert_tx_def)
next
  case xs: False
  obtain e1 w1 where b: "pt_Begin P w = (e1, w1)" by fastforce
  note B = begin_law [OF b]
  show ?thesis
  proof (cases e1)
    case (Some a)
    then show ?thesis using assms xs b B by (auto simp: upsert_tx_def)
  next
    case e1: None
    obtain m e2 w2 where x: "exec_rows P f xs 0 w1 = ((m, e2), w2)" by (metis surj_pair)
    have t: "tx w1 = Some (db w)" using B e1 by simp
    note X = exec_rows_effect [OF x t]
    show ?thesis
    proof (cases e2)
      case (Some a)
      then show ?thesis using assms xs b e1 x X B by (auto simp: upsert_tx_def rollback_law)
    next
      case e2: None
      obtain e3 w3 where c: "pt_Commit P w2 = (e3, w3)" by fastforce
      have "tx w2 = Some (fold apply_ref (concat (map (map fst \<circ> f) xs)) (db w))" using X e2 by simp
      note C = commit_law [OF c this]
      show ?thesis using assms xs b e1 x e2 c C X B
        by (cases e3) (auto simp: upsert_tx_def rollback_law)
    qed
  qed
qed

lemma store_rows_atomic:
  assumes "store_rows P c f xs w = (e, w')"
  shows "(e = None \<longrightarrow> db w' = fold apply_ref (concat (map (map fst \<circ> f) xs)) (db w)) \<and>
    (db w' = db w \<or> db w' = fold apply_ref (concat (map (map fst \<circ> f) xs)) (db w))"
proof -
  obtain n e0 w0 where u: "upsert_tx P c f xs w = ((n, e0), w0)" by (metis surj_pair)
  then show ?thesis using upsert_tx_atomic [OF u] assms by (auto simp: store_rows_def)
qed

lemma ref_write_atomic:
  assumes "ref_write P c w = (e, w')"
  shows "(e = None \<longrightarrow> db w' = fold apply_ref (call_stmts c) (db w)) \<and>
    (db w' = db w \<or> db w' = fold apply_ref (call_stmts c) (db w))"
proof (cases c)
  case (UpsertHeroes xs)
  then show ?thesis using assms store_rows_atomic [of _ heroes_rows xs w e w']
    by (cases "duplicate_name xs []") (auto split: if_splits)
qed (insert assms, (simp, drule store_rows_atomic, simp)+)

end

section \<open>Writing twice\<close>

abbreviation upserts :: "string \<Rightarrow> string list \<Rightarrow> string list \<Rightarrow> string list \<Rightarrow> sql_value list list \<Rightarrow> ref_db \<Rightarrow> ref_db" where
  "upserts table cols keys upd \<equiv> fold (\<lambda>vals. apply_ref (UpsertRow table cols keys upd vals))"

text \<open>What a key holds afterwards: the updated columns of the last row with the key, the others of the
  row that was there, or of the first.\<close>

lemma upserts_lookup:
  "upserts table cols keys upd L d table k =
     (let vs = filter (\<lambda>v. key_of cols keys v = k) L
      in if vs = [] then d table k
         else Some (\<lambda>c. if c \<in> set upd then map_of (zip cols (last vs)) c
                        else (case d table k of None \<Rightarrow> map_of (zip cols (hd vs)) | Some r \<Rightarrow> r) c))"
proof (induction L rule: rev_induct)
  case (snoc v L)
  then show ?case
    by (cases "filter (\<lambda>v. key_of cols keys v = k) L")
       (auto simp: Let_def upserted_def fun_eq_iff split: option.splits)
qed simp

lemma upserts_other: "t \<noteq> table \<Longrightarrow> upserts table cols keys upd L d t = d t"
  by (induction L arbitrary: d) (simp_all add: Let_def)

lemma upserts_twice: "upserts table cols keys upd L (upserts table cols keys upd L d) = upserts table cols keys upd L d"
proof (intro ext)
  fix t k
  have "upserts table cols keys upd L (upserts table cols keys upd L d) table k = upserts table cols keys upd L d table k"
    unfolding upserts_lookup [of table cols keys upd L "upserts table cols keys upd L d"]
    by (simp add: upserts_lookup [of table cols keys upd L d] Let_def fun_eq_iff)
  then show "upserts table cols keys upd L (upserts table cols keys upd L d) t k = upserts table cols keys upd L d t k"
    by (cases "t = table") (simp_all add: upserts_other)
qed

lemma uniform_twice:
  assumes "\<forall>s \<in> set ss. \<exists>vals. s = UpsertRow table cols keys upd vals"
  shows "fold apply_ref ss (fold apply_ref ss d) = fold apply_ref ss d"
proof -
  obtain L where "ss = map (UpsertRow table cols keys upd) L"
    using assms by (metis ex_map_conv)
  then show ?thesis using upserts_twice [of table cols keys upd L d] by (simp add: fold_map comp_def)
qed

lemmas rows_defs =
  store_rows_def heroes_rows_def herostats_rows_def heroabilities_rows_def herotalents_rows_def herofacets_rows_def abilities_rows_def abilityids_rows_def items_rows_def itemids_rows_def patches_rows_def teams_rows_def leagues_rows_def notableplayers_rows_def proplayers_rows_def gamemodes_rows_def lobbytypes_rows_def regions_rows_def

lemma call_uniform: "\<exists>t cols keys upd. \<forall>s \<in> set (call_stmts c). \<exists>vals. s = UpsertRow t cols keys upd vals"
  by (cases c; simp; rule exI; rule exI; rule exI; rule exI; fastforce simp: rows_defs split: if_splits)

lemma call_twice: "fold apply_ref (call_stmts c) (fold apply_ref (call_stmts c) d) = fold apply_ref (call_stmts c) d"
  using call_uniform uniform_twice by metis

section \<open>A database in memory\<close>

text \<open>Each call of the driver fails as the next element of a list says.\<close>

record mem_pg =
  mp_db :: ref_db
  mp_tx :: "ref_db option"
  mp_faults :: "go_error option list"

definition mp_call :: "(mem_pg \<Rightarrow> mem_pg) \<Rightarrow> mem_pg \<Rightarrow> go_error option \<times> mem_pg" where
  "mp_call f w =
     (case mp_faults w of
        [] \<Rightarrow> (None, f w)
      | None # fs \<Rightarrow> (None, f (w\<lparr>mp_faults := fs\<rparr>))
      | Some e # fs \<Rightarrow> (Some e, w\<lparr>mp_faults := fs\<rparr>))"

definition mem_pgtx :: "mem_pg pgtx" where
  "mem_pgtx =
     \<lparr>pt_Begin = mp_call (\<lambda>w. w\<lparr>mp_tx := Some (mp_db w)\<rparr>),
      pt_Exec = (\<lambda>s. mp_call (\<lambda>w. w\<lparr>mp_tx := map_option (apply_ref s) (mp_tx w)\<rparr>)),
      pt_Commit = mp_call (\<lambda>w. case mp_tx w of Some t \<Rightarrow> w\<lparr>mp_db := t, mp_tx := None\<rparr> | None \<Rightarrow> w),
      pt_Rollback = (\<lambda>w. w\<lparr>mp_tx := None\<rparr>)\<rparr>"

interpretation mem_driver: ref_driver mem_pgtx mp_db mp_tx
  by unfold_locales (auto simp: mem_pgtx_def mp_call_def split: list.splits option.splits)

definition sample_pg :: "go_error option list \<Rightarrow> mem_pg" where
  "sample_pg fs = \<lparr>mp_db = (\<lambda>_ _. None), mp_tx = None, mp_faults = fs\<rparr>"

definition sample_call :: ref_call where
  "sample_call = UpsertItemIDs [\<lparr>iir_ID = 1, iir_Key = ''blink''\<rparr>, \<lparr>iir_ID = -1, iir_Key = ''x''\<rparr>, \<lparr>iir_ID = 1, iir_Key = ''aegis''\<rparr>]"

section \<open>Properties\<close>

text \<open>(C31) A call of the reference writer takes effect as a whole or not at all, whichever call of the driver
  fails, and without an error as a whole: each of its rows that is not passed over, in order.\<close>

theorem reference_writes_atomic:
  assumes "ref_driver P db tx" and "ref_write P c w = (e, w')"
  shows "(e = None \<longrightarrow> db w' = fold apply_ref (call_stmts c) (db w)) \<and>
    (db w' = db w \<or> db w' = fold apply_ref (call_stmts c) (db w))"
  by (rule ref_driver.ref_write_atomic [OF assms])

theorem reference_writes_atomic_witness:
  "let fs = [None, None, Some (ErrText ''conn closed'')];
       (e, w') = ref_write mem_pgtx sample_call (sample_pg fs)
   in mp_db w' = mp_db (sample_pg fs) \<or> mp_db w' = fold apply_ref (call_stmts sample_call) (mp_db (sample_pg fs))"
proof -
  obtain e w' where r: "ref_write mem_pgtx sample_call (sample_pg [None, None, Some (ErrText ''conn closed'')]) = (e, w')"
    by fastforce
  then show ?thesis using reference_writes_atomic [OF mem_driver.ref_driver_axioms r] by simp
qed

text \<open>Writing the same reference data a second time leaves the tables as they are.\<close>

theorem reference_writes_idempotent:
  assumes "ref_driver P db tx" and "ref_write P c w = (None, w1)" and "ref_write P c w1 = (None, w2)"
  shows "db w2 = db w1"
  using ref_driver.ref_write_atomic [OF assms(1,2)] ref_driver.ref_write_atomic [OF assms(1,3)]
  by (simp add: call_twice)

theorem reference_writes_idempotent_witness:
  "mp_db (snd (ref_write mem_pgtx sample_call (snd (ref_write mem_pgtx sample_call (sample_pg []))))) =
   mp_db (snd (ref_write mem_pgtx sample_call (sample_pg [])))"
proof -
  have ok: "fst (ref_write mem_pgtx sample_call w) = None \<and> mp_faults (snd (ref_write mem_pgtx sample_call w)) = []"
    if "mp_faults w = []" for w
    using that by (simp add: sample_call_def store_rows_def upsert_tx_def mem_pgtx_def mp_call_def itemids_rows_def)
  then show ?thesis
    using reference_writes_idempotent [OF mem_driver.ref_driver_axioms, of sample_call "sample_pg []"]
    by (metis mem_pg.select_convs(3) prod.collapse sample_pg_def)
qed

text \<open>The writers of the discoverer: all rows or none, and without an error the number of all rows.\<close>

lemma discoverer_writers_atomic:
  assumes "ref_driver P db tx"
  shows "league_Upsert P ls w = ((n, e), w') \<Longrightarrow>
      (e = None \<longrightarrow> db w' = fold apply_ref (map league_row ls) (db w) \<and> n = length ls) \<and>
      (db w' = db w \<or> db w' = fold apply_ref (map league_row ls) (db w))"
    and "team_Upsert P ts w = ((n, e), w') \<Longrightarrow>
      (e = None \<longrightarrow> db w' = fold apply_ref (map team_row ts) (db w) \<and> n = length ts) \<and>
      (db w' = db w \<or> db w' = fold apply_ref (map team_row ts) (db w))"
    and "proplayer_Upsert P ps w = ((n, e), w') \<Longrightarrow>
      (e = None \<longrightarrow> db w' = fold apply_ref (map proplayer_row ps) (db w) \<and> n = length ps) \<and>
      (db w' = db w \<or> db w' = fold apply_ref (map proplayer_row ps) (db w))"
    and "herostat_Upsert P fdiv hs w = ((n, e), w') \<Longrightarrow>
      (let all = fold apply_ref (concat (map (map fst \<circ> herostat_rows fdiv) hs)) (db w)
       in (e = None \<longrightarrow> db w' = all \<and> n = length hs) \<and> (db w' = db w \<or> db w' = all))"
  unfolding league_Upsert_def team_Upsert_def proplayer_Upsert_def herostat_Upsert_def Let_def
  by (drule ref_driver.upsert_tx_atomic [OF assms], simp add: comp_def)+

text \<open>After the statistics of a hero were written, the hero is in the table of heroes.\<close>

lemma herostat_has_hero: "apply_ref (HeroStub i) d ''heroes'' [VInt i] \<noteq> None"
  by (auto split: option.splits)

end
