(* ===== verification/Constants.thy ===== *)
theory Constants
  imports Enrich RefStores
begin

text \<open>
  The sources of the enricher (\<^verbatim>\<open>internal/enrich/sources/dotaconstants\<close>): each fetches one JSON file of the
  dotaconstants project, turns its entries into reference rows and hands them to the writer. The HTTP
  client, the reading of a body, the writer, the order in which Go walks a map and the standard
  library's reading of numbers and dates are the environment \<open>src_env\<close>.
\<close>

section \<open>The environment\<close>

text \<open>A client or writer that is not set is \<open>None\<close>. \<open>se_float\<close> is \<^verbatim>\<open>int64(f)\<close> of a number text read as
  \<^verbatim>\<open>float64\<close>, \<open>None\<close> when it is out of range; \<open>se_rfc3339\<close> is \<^verbatim>\<open>time.Parse\<close>; \<open>se_renum\<close> is a number read
  and printed again.\<close>

record 'w src_env =
  se_HTTP :: "(string \<Rightarrow> 'w \<Rightarrow> (go_error + response) \<times> 'w) option"
  se_depsHTTP :: "(string \<Rightarrow> 'w \<Rightarrow> (go_error + response) \<times> 'w) option"
  se_Writer :: "(ref_call \<Rightarrow> 'w \<Rightarrow> go_error option \<times> 'w) option"
  se_depsWriter :: "(ref_call \<Rightarrow> 'w \<Rightarrow> go_error option \<times> 'w) option"
  se_body :: "response \<Rightarrow> 'w \<Rightarrow> (go_error + bytes) \<times> 'w"
  se_order :: "(string \<times> json) list \<Rightarrow> (string \<times> json) list"
  se_float :: "string \<Rightarrow> int option"
  se_rfc3339 :: "string \<Rightarrow> int option"
  se_renum :: "string \<Rightarrow> string option"

definition DefaultBaseURL :: string where
  "DefaultBaseURL = ''https://raw.githubusercontent.com/odota/dotaconstants/master/build''"

definition trim_slashes_right :: "string \<Rightarrow> string" where
  "trim_slashes_right s = rev (dropWhile (\<lambda>c. c = CHR ''/'') (rev s))"

definition trim_slashes_left :: "string \<Rightarrow> string" where
  "trim_slashes_left s = dropWhile (\<lambda>c. c = CHR ''/'') s"

definition fetchJSON :: "'w src_env \<Rightarrow> (string \<Rightarrow> 'w \<Rightarrow> (go_error + response) \<times> 'w) option \<Rightarrow> go_type \<Rightarrow> string \<Rightarrow> string \<Rightarrow> 'w \<Rightarrow> (go_error + json) \<times> 'w" where
  "fetchJSON E http t base path w =
     (case http of
        None \<Rightarrow> (Inl (ErrText ''http client is nil''), w)
      | Some get \<Rightarrow>
          let url = trim_slashes_right base @ ''/'' @ trim_slashes_left path in
          case get url w of
            (Inl e, w1) \<Rightarrow> (Inl (Wrapped (''get '' @ url @ '': '') e), w1)
          | (Inr resp, w1) \<Rightarrow>
              (case ReadBody (se_body E) resp w1 of
                 (Inl e, w2) \<Rightarrow> (Inl (Wrapped (''read '' @ url @ '': '') e), w2)
               | (Inr body, w2) \<Rightarrow>
                   (case json_parse body of
                      None \<Rightarrow> (Inl (Wrapped (''decode '' @ url @ '': '') (Wrapped ''unmarshal: '' (ErrText ''json''))), w2)
                    | Some j \<Rightarrow>
                        if conforms t j then (Inr j, w2)
                        else (Inl (Wrapped (''decode '' @ url @ '': '') (Wrapped ''unmarshal: '' (ErrText ''json''))), w2))))"

text \<open>The client a source uses, its file read, and what it does with the value; and the writer it calls.\<close>

definition client_of :: "'w src_env \<Rightarrow> (string \<Rightarrow> 'w \<Rightarrow> (go_error + response) \<times> 'w) option" where
  "client_of E = (case se_HTTP E of Some h \<Rightarrow> Some h | None \<Rightarrow> se_depsHTTP E)"

definition with_file :: "'w src_env \<Rightarrow> go_type \<Rightarrow> string \<Rightarrow> string \<Rightarrow> (json \<Rightarrow> 'w \<Rightarrow> go_error option \<times> 'w) \<Rightarrow> 'w \<Rightarrow> go_error option \<times> 'w" where
  "with_file E t base path k w =
     (case fetchJSON E (client_of E) t base path w of
        (Inl e, w1) \<Rightarrow> (Some (Wrapped ''fetch: '' e), w1)
      | (Inr j, w1) \<Rightarrow> k j w1)"

definition put_call :: "'w src_env \<Rightarrow> (go_error \<Rightarrow> go_error) \<Rightarrow> ref_call \<Rightarrow> 'w \<Rightarrow> go_error option \<times> 'w" where
  "put_call E wrap c w =
     (case se_Writer E of
        None \<Rightarrow> (Some (Panic ''nil pointer dereference''), w)
      | Some f \<Rightarrow> (case f c w of (Some e, w1) \<Rightarrow> (Some (wrap e), w1) | (None, w1) \<Rightarrow> (None, w1)))"

text \<open>The entries of a map, in the order of the walk; a repeated key counts once, with its last value.\<close>

definition entries :: "'w src_env \<Rightarrow> json \<Rightarrow> (string \<times> json) list" where
  "entries E j = se_order E (to_map (members j))"

section \<open>Raw values\<close>

text \<open>\<^verbatim>\<open>strings.Join(arr, "/")\<close>\<close>

fun join_slash :: "string list \<Rightarrow> string" where
  "join_slash [] = []"
| "join_slash [s] = s"
| "join_slash (s # ss) = s @ ''/'' @ join_slash ss"

definition rawToString :: "json option \<Rightarrow> string" where
  "rawToString raw =
     (case raw of
        None \<Rightarrow> []
      | Some j \<Rightarrow>
          if j = JNull then []
          else if conforms GString j then str_val j
          else if conforms (GSlice GString) j then join_slash (map str_val (arr_val j))
          else [])"

definition coerceArrayJSON :: "'w src_env \<Rightarrow> json option \<Rightarrow> json option" where
  "coerceArrayJSON E raw =
     (case raw of
        None \<Rightarrow> Some (JArr [])
      | Some JNull \<Rightarrow> Some (JArr [])
      | Some (JArr js) \<Rightarrow> Some (JArr js)
      | Some (JObj kvs) \<Rightarrow> Some (JObj kvs)
      | Some j \<Rightarrow> (case any_json (se_renum E) j of None \<Rightarrow> Some (JArr []) | Some v \<Rightarrow> Some (JArr [v])))"

definition flattenAbilitySlot :: "json \<Rightarrow> string" where
  "flattenAbilitySlot j =
     (if j = JNull then []
      else if conforms GString j then str_val j
      else if conforms (GSlice GString) j \<and> arr_val j \<noteq> [] then str_val (hd (arr_val j))
      else [])"

definition isDeprecated :: "json option \<Rightarrow> bool" where
  "isDeprecated raw =
     (case raw of
        None \<Rightarrow> False
      | Some JNull \<Rightarrow> False
      | Some (JBool b) \<Rightarrow> b
      | Some (JStr s) \<Rightarrow> s \<noteq> []
      | Some (JArr js) \<Rightarrow> js \<noteq> []
      | _ \<Rightarrow> False)"

text \<open>\<^verbatim>\<open>time.Time{}\<close>, in seconds.\<close>

definition zero_time :: int where
  "zero_time = - 62135596800"

definition parsePatchDate :: "'w src_env \<Rightarrow> json option \<Rightarrow> int" where
  "parsePatchDate E raw =
     (case raw of
        None \<Rightarrow> zero_time
      | Some j \<Rightarrow>
          if conforms GString j then
            (let s = str_val j in
             case atoi s of
               Some epoch \<Rightarrow> epoch
             | None \<Rightarrow> (case se_rfc3339 E s of Some t \<Rightarrow> t | None \<Rightarrow> zero_time))
          else
            case j of
              JNum l \<Rightarrow> (case se_float E l of Some t \<Rightarrow> t | None \<Rightarrow> zero_time)
            | JArr (x # xs) \<Rightarrow>
                if any_json (\<lambda>l. map_option (\<lambda>_. l) (se_float E l)) j = None then zero_time
                else (case x of JNum l \<Rightarrow> (case se_float E l of Some t \<Rightarrow> t | None \<Rightarrow> zero_time) | _ \<Rightarrow> zero_time)
            | _ \<Rightarrow> zero_time)"

section \<open>The sources\<close>

definition heroJSON :: go_type where
  "heroJSON =
     GStruct [(''id'', GInt64), (''name'', GString), (''localized_name'', GString), (''primary_attr'', GString),
       (''attack_type'', GString), (''roles'', GSlice GString), (''legs'', GInt64)]"

definition hero_ref :: "json \<Rightarrow> HeroRef" where
  "hero_ref h =
     \<lparr>hr_ID = get_int h ''id'', hr_Name = get_str h ''name'', hr_LocalizedName = get_str h ''localized_name'',
      hr_PrimaryAttr = get_str h ''primary_attr'', hr_AttackType = get_str h ''attack_type'',
      hr_Roles = get_slice str_val h ''roles'', hr_Legs = get_int h ''legs''\<rparr>"

text \<open>Only this source looks for a writer among the dependencies when it has none.\<close>

definition heroes_Run :: "'w src_env \<Rightarrow> string \<Rightarrow> 'w \<Rightarrow> go_error option \<times> 'w" where
  "heroes_Run E base =
     with_file E (GMap heroJSON) base ''heroes.json'' (\<lambda>j w.
       let refs = map (\<lambda>(k, h). hero_ref h) (entries E j) in
       case (case se_Writer E of Some f \<Rightarrow> Some f | None \<Rightarrow> se_depsWriter E) of
         None \<Rightarrow> (Some (ErrText ''heroes: writer not configured''), w)
       | Some f \<Rightarrow> f (UpsertHeroes refs) w)"

definition isSchemaAbility :: "string \<Rightarrow> bool" where
  "isSchemaAbility name \<longleftrightarrow> name = ''special_bonus_attributes'' \<or> name = ''dota_base_ability''"

definition abilityJSON :: go_type where
  "abilityJSON =
     GStruct [(''dname'', GString), (''desc'', GString), (''img'', GString), (''mc'', GRaw), (''cd'', GRaw),
       (''target_team'', GRaw), (''behavior'', GRaw), (''attrib'', GRaw)]"

definition ability_ref :: "'w src_env \<Rightarrow> string \<Rightarrow> json \<Rightarrow> AbilityRef" where
  "ability_ref E name a =
     \<lparr>abr_Name = name, abr_Localized = get_str a ''dname'', abr_Behavior = coerceArrayJSON E (get_raw a ''behavior''),
      abr_TargetTeam = rawToString (get_raw a ''target_team''), abr_Description = get_str a ''desc'',
      abr_Img = get_str a ''img'', abr_ManaCost = rawToString (get_raw a ''mc''),
      abr_Cooldown = rawToString (get_raw a ''cd''), abr_Attrib = coerceArrayJSON E (get_raw a ''attrib''),
      abr_IsTalent = False\<rparr>"

definition abilities_Run :: "'w src_env \<Rightarrow> string \<Rightarrow> 'w \<Rightarrow> go_error option \<times> 'w" where
  "abilities_Run E base =
     with_file E (GMap abilityJSON) base ''abilities.json'' (\<lambda>j.
       put_call E (Wrapped ''upsert: '')
         (UpsertAbilities (map (\<lambda>(name, a). ability_ref E name a)
            (filter (\<lambda>(name, a). \<not> (name = [] \<or> isSchemaAbility name)) (entries E j)))))"

definition ability_id_ref :: "string \<times> json \<Rightarrow> AbilityIDRef option" where
  "ability_id_ref ent =
     (case atoi (trim_space (fst ent)) of
        None \<Rightarrow> None
      | Some i \<Rightarrow> if i \<le> 0 \<or> str_val (snd ent) = [] then None else Some \<lparr>air_ID = i, air_Name = str_val (snd ent)\<rparr>)"

definition ability_ids_Run :: "'w src_env \<Rightarrow> string \<Rightarrow> 'w \<Rightarrow> go_error option \<times> 'w" where
  "ability_ids_Run E base =
     with_file E (GMap GString) base ''ability_ids.json'' (\<lambda>j.
       put_call E (Wrapped ''upsert: '') (UpsertAbilityIDs (List.map_filter ability_id_ref (entries E j))))"

definition heroAbilitiesJSON :: go_type where
  "heroAbilitiesJSON =
     GStruct [(''abilities'', GSlice GRaw),
       (''talents'', GSlice (GStruct [(''name'', GString), (''level'', GInt64)])),
       (''facets'', GSlice (GStruct [(''id'', GInt64), (''name'', GString), (''title'', GString), (''description'', GString),
          (''icon'', GString), (''color'', GString), (''gradient_id'', GInt64), (''deprecated'', GRaw)]))]"

definition hero_ability_refs :: "string \<Rightarrow> json \<Rightarrow> HeroAbilityRef list" where
  "hero_ability_refs hero ha =
     List.map_filter (\<lambda>(slot, raw). let ab = flattenAbilitySlot raw in
         if ab = [] \<or> ab = ''generic_hidden'' then None
         else Some \<lparr>har_HeroName = hero, har_Slot = int slot, har_Ability = ab\<rparr>)
       (List.enumerate 0 (get_slice id ha ''abilities''))"

definition hero_talent_refs :: "string \<Rightarrow> json \<Rightarrow> HeroTalentRef list" where
  "hero_talent_refs hero ha =
     List.map_filter (\<lambda>(name, level). if name = [] \<or> level \<le> 0 then None
         else Some \<lparr>htr_HeroName = hero, htr_Ability = name, htr_Level = level\<rparr>)
       (get_slice (\<lambda>t. (get_str t ''name'', get_int t ''level'')) ha ''talents'')"

definition hero_facet_refs :: "string \<Rightarrow> json \<Rightarrow> HeroFacetRef list" where
  "hero_facet_refs hero ha =
     get_slice (\<lambda>f. \<lparr>hfr_HeroName = hero, hfr_Slot = get_int f ''id'', hfr_Name = get_str f ''name'',
         hfr_Title = get_str f ''title'', hfr_Description = get_str f ''description'', hfr_Icon = get_str f ''icon'',
         hfr_Color = get_str f ''color'', hfr_GradientID = get_int f ''gradient_id'',
         hfr_Deprecated = isDeprecated (get_raw f ''deprecated'')\<rparr>) ha ''facets''"

definition put_some :: "'w src_env \<Rightarrow> string \<Rightarrow> bool \<Rightarrow> ref_call \<Rightarrow> 'w \<Rightarrow> go_error option \<times> 'w" where
  "put_some E pre some c w = (if some then put_call E (Wrapped pre) c w else (None, w))"

definition hero_abilities_Run :: "'w src_env \<Rightarrow> string \<Rightarrow> 'w \<Rightarrow> go_error option \<times> 'w" where
  "hero_abilities_Run E base =
     with_file E (GMap heroAbilitiesJSON) base ''hero_abilities.json'' (\<lambda>j.
       let es = entries E j;
           abilities = concat (map (\<lambda>(hero, ha). hero_ability_refs hero ha) es);
           talents = concat (map (\<lambda>(hero, ha). hero_talent_refs hero ha) es);
           facets = concat (map (\<lambda>(hero, ha). hero_facet_refs hero ha) es)
       in steps
         [put_some E ''hero_abilities: '' (abilities \<noteq> []) (UpsertHeroAbilities abilities),
          put_some E ''hero_talents: '' (talents \<noteq> []) (UpsertHeroTalents talents),
          put_some E ''hero_facets: '' (facets \<noteq> []) (UpsertHeroFacets facets)])"

text \<open>Game modes and lobby types: the identifier of the entry, or else its key.\<close>

definition modeJSON :: go_type where
  "modeJSON = GStruct [(''id'', GInt64), (''name'', GString), (''balanced'', GBool)]"

definition entry_id :: "string \<times> json \<Rightarrow> int option" where
  "entry_id ent = (let i = get_int (snd ent) ''id'' in if i = 0 then atoi (trim_space (fst ent)) else Some i)"

definition game_mode_ref :: "string \<times> json \<Rightarrow> GameModeRef option" where
  "game_mode_ref ent =
     (case entry_id ent of
        None \<Rightarrow> None
      | Some i \<Rightarrow>
          if get_str (snd ent) ''name'' = [] then None
          else Some \<lparr>gmr_ID = i, gmr_Name = get_str (snd ent) ''name'', gmr_Balanced = get_bool (snd ent) ''balanced''\<rparr>)"

definition game_modes_Run :: "'w src_env \<Rightarrow> string \<Rightarrow> 'w \<Rightarrow> go_error option \<times> 'w" where
  "game_modes_Run E base =
     with_file E (GMap modeJSON) base ''game_mode.json'' (\<lambda>j.
       put_call E id (UpsertGameModes (List.map_filter game_mode_ref (entries E j))))"

definition lobby_type_ref :: "string \<times> json \<Rightarrow> LobbyTypeRef option" where
  "lobby_type_ref ent =
     (case entry_id ent of
        None \<Rightarrow> None
      | Some i \<Rightarrow>
          if get_str (snd ent) ''name'' = [] then None
          else Some \<lparr>ltr_ID = i, ltr_Name = get_str (snd ent) ''name'', ltr_Balanced = get_bool (snd ent) ''balanced''\<rparr>)"

definition lobby_types_Run :: "'w src_env \<Rightarrow> string \<Rightarrow> 'w \<Rightarrow> go_error option \<times> 'w" where
  "lobby_types_Run E base =
     with_file E (GMap modeJSON) base ''lobby_type.json'' (\<lambda>j.
       put_call E id (UpsertLobbyTypes (List.map_filter lobby_type_ref (entries E j))))"

definition region_ref :: "string \<times> json \<Rightarrow> RegionRef option" where
  "region_ref ent =
     (case atoi (trim_space (fst ent)) of
        None \<Rightarrow> None
      | Some i \<Rightarrow> if str_val (snd ent) = [] then None else Some \<lparr>rgr_ID = i, rgr_Name = str_val (snd ent)\<rparr>)"

definition regions_Run :: "'w src_env \<Rightarrow> string \<Rightarrow> 'w \<Rightarrow> go_error option \<times> 'w" where
  "regions_Run E base =
     with_file E (GMap GString) base ''region.json'' (\<lambda>j.
       put_call E id (UpsertRegions (List.map_filter region_ref (entries E j))))"

definition itemJSON :: go_type where
  "itemJSON =
     GStruct [(''id'', GInt64), (''dname'', GString), (''cost'', GInt64), (''qual'', GString), (''behavior'', GRaw),
       (''lore'', GString), (''img'', GString), (''created'', GBool), (''charges'', GRaw), (''cd'', GRaw), (''mc'', GRaw)]"

definition item_ref :: "string \<times> json \<Rightarrow> ItemRef option" where
  "item_ref ent =
     (let it = snd ent in
      if fst ent = [] \<or> get_int it ''id'' \<le> 0 then None
      else Some
        \<lparr>itr_ID = get_int it ''id'', itr_Key = fst ent, itr_DName = get_str it ''dname'', itr_Cost = get_int it ''cost'',
         itr_Qual = get_str it ''qual'', itr_Behavior = rawToString (get_raw it ''behavior''),
         itr_Lore = get_str it ''lore'', itr_Img = get_str it ''img'', itr_Created = get_bool it ''created'',
         itr_Cooldown = rawToString (get_raw it ''cd''), itr_ManaCost = rawToString (get_raw it ''mc'')\<rparr>)"

definition items_Run :: "'w src_env \<Rightarrow> string \<Rightarrow> 'w \<Rightarrow> go_error option \<times> 'w" where
  "items_Run E base =
     with_file E (GMap itemJSON) base ''items.json'' (\<lambda>j.
       put_call E id (UpsertItems (List.map_filter item_ref (entries E j))))"

definition item_id_ref :: "string \<times> json \<Rightarrow> ItemIDRef option" where
  "item_id_ref ent =
     (case atoi (trim_space (fst ent)) of
        None \<Rightarrow> None
      | Some i \<Rightarrow> if i < 0 \<or> str_val (snd ent) = [] then None else Some \<lparr>iir_ID = i, iir_Key = str_val (snd ent)\<rparr>)"

definition item_ids_Run :: "'w src_env \<Rightarrow> string \<Rightarrow> 'w \<Rightarrow> go_error option \<times> 'w" where
  "item_ids_Run E base =
     with_file E (GMap GString) base ''item_ids.json'' (\<lambda>j.
       put_call E id (UpsertItemIDs (List.map_filter item_id_ref (entries E j))))"

definition patchJSON :: go_type where
  "patchJSON = GStruct [(''id'', GInt64), (''name'', GString), (''date'', GRaw)]"

definition patch_ref :: "'w src_env \<Rightarrow> json \<Rightarrow> PatchRef option" where
  "patch_ref E p =
     (if get_str p ''name'' = [] then None
      else Some \<lparr>ptr_ID = get_int p ''id'', ptr_Name = get_str p ''name'', ptr_ReleaseAt = parsePatchDate E (get_raw p ''date'')\<rparr>)"

definition patches_Run :: "'w src_env \<Rightarrow> string \<Rightarrow> 'w \<Rightarrow> go_error option \<times> 'w" where
  "patches_Run E base =
     with_file E (GSlice patchJSON) base ''patch.json'' (\<lambda>j.
       put_call E id (UpsertPatches (List.map_filter (patch_ref E) (arr_val j))))"

section \<open>All sources\<close>

text \<open>The sources in the order in which \<^verbatim>\<open>bootstrap/enricher.go\<close> builds them, and the run of one of them.\<close>

definition buildSources :: "source list" where
  "buildSources =
     [\<lparr>src_Name = ''dotaconstants:heroes'', src_Critical = True, src_DependsOn = []\<rparr>,
      \<lparr>src_Name = ''dotaconstants:abilities'', src_Critical = True, src_DependsOn = []\<rparr>,
      \<lparr>src_Name = ''dotaconstants:ability_ids'', src_Critical = False, src_DependsOn = [''dotaconstants:abilities'']\<rparr>,
      \<lparr>src_Name = ''dotaconstants:hero_abilities'', src_Critical = True, src_DependsOn = [''dotaconstants:heroes'']\<rparr>,
      \<lparr>src_Name = ''dotaconstants:game_mode'', src_Critical = False, src_DependsOn = []\<rparr>,
      \<lparr>src_Name = ''dotaconstants:lobby_type'', src_Critical = False, src_DependsOn = []\<rparr>,
      \<lparr>src_Name = ''dotaconstants:region'', src_Critical = False, src_DependsOn = []\<rparr>,
      \<lparr>src_Name = ''dotaconstants:items'', src_Critical = True, src_DependsOn = []\<rparr>,
      \<lparr>src_Name = ''dotaconstants:item_ids'', src_Critical = False, src_DependsOn = [''dotaconstants:items'']\<rparr>,
      \<lparr>src_Name = ''dotaconstants:patch'', src_Critical = True, src_DependsOn = []\<rparr>]"

definition source_base :: "string \<Rightarrow> string" where
  "source_base base = (if base = [] then DefaultBaseURL else base)"

definition constants_Run :: "'w src_env \<Rightarrow> string \<Rightarrow> source \<Rightarrow> 'w \<Rightarrow> go_error option \<times> 'w" where
  "constants_Run E base s =
     (let n = src_Name s; b = source_base base in
      if n = ''dotaconstants:heroes'' then heroes_Run E b
      else if n = ''dotaconstants:abilities'' then abilities_Run E b
      else if n = ''dotaconstants:ability_ids'' then ability_ids_Run E b
      else if n = ''dotaconstants:hero_abilities'' then hero_abilities_Run E b
      else if n = ''dotaconstants:game_mode'' then game_modes_Run E b
      else if n = ''dotaconstants:lobby_type'' then lobby_types_Run E b
      else if n = ''dotaconstants:region'' then regions_Run E b
      else if n = ''dotaconstants:items'' then items_Run E b
      else if n = ''dotaconstants:item_ids'' then item_ids_Run E b
      else patches_Run E b)"

section \<open>What reaches the writer\<close>

fun valid_call :: "ref_call \<Rightarrow> bool" where
  "valid_call (UpsertHeroes xs) = True"
| "valid_call (UpsertAbilities xs) = list_all (\<lambda>x. abr_Name x \<noteq> [] \<and> \<not> isSchemaAbility (abr_Name x)) xs"
| "valid_call (UpsertAbilityIDs xs) = list_all (\<lambda>x. 0 < air_ID x \<and> air_Name x \<noteq> []) xs"
| "valid_call (UpsertHeroAbilities xs) =
     (xs \<noteq> [] \<and> list_all (\<lambda>x. 0 \<le> har_Slot x \<and> har_Ability x \<notin> {[], ''generic_hidden''}) xs)"
| "valid_call (UpsertHeroTalents xs) = (xs \<noteq> [] \<and> list_all (\<lambda>x. htr_Ability x \<noteq> [] \<and> 0 < htr_Level x) xs)"
| "valid_call (UpsertHeroFacets xs) = (xs \<noteq> [])"
| "valid_call (UpsertGameModes xs) = list_all (\<lambda>x. gmr_Name x \<noteq> []) xs"
| "valid_call (UpsertLobbyTypes xs) = list_all (\<lambda>x. ltr_Name x \<noteq> []) xs"
| "valid_call (UpsertRegions xs) = list_all (\<lambda>x. rgr_Name x \<noteq> []) xs"
| "valid_call (UpsertItems xs) = list_all (\<lambda>x. 0 < itr_ID x \<and> itr_Key x \<noteq> []) xs"
| "valid_call (UpsertItemIDs xs) = list_all (\<lambda>x. 0 \<le> iir_ID x \<and> iir_Key x \<noteq> []) xs"
| "valid_call (UpsertPatches xs) = list_all (\<lambda>x. ptr_Name x \<noteq> []) xs"
| "valid_call _ = False"

lemma constants_order: "NewRunner buildSources = Inr buildSources"
  by (simp add: NewRunner_def sortByDependencies_def buildSources_def visit_all_def visit.simps find_source_def)

text \<open>The environment with a log of the calls that reach the writer.\<close>

definition logged_src :: "'w src_env \<Rightarrow> ('w \<times> ref_call list) src_env" where
  "logged_src E =
     (let get = map_option (\<lambda>g u s. let (r, w) = g u (fst s) in (r, (w, snd s)));
          wr = map_option (\<lambda>f c s. let (r, w) = f c (fst s) in (r, (w, snd s @ [c])))
      in \<lparr>se_HTTP = get (se_HTTP E), se_depsHTTP = get (se_depsHTTP E), se_Writer = wr (se_Writer E),
          se_depsWriter = wr (se_depsWriter E),
          se_body = (\<lambda>resp s. let (r, w) = se_body E resp (fst s) in (r, (w, snd s))),
          se_order = se_order E, se_float = se_float E, se_rfc3339 = se_rfc3339 E, se_renum = se_renum E\<rparr>)"

lemma put_call_logged:
  "snd (snd (put_call (logged_src E) wrap c s)) = snd s \<or> snd (snd (put_call (logged_src E) wrap c s)) = snd s @ [c]"
  by (cases "se_Writer E") (auto simp: put_call_def logged_src_def Let_def split: prod.splits option.splits)

lemma fetchJSON_logged:
  assumes "fetchJSON (logged_src E) (client_of (logged_src E)) t base p s = (r, s')"
  shows "snd s' = snd s \<and> (\<forall>j. r = Inr j \<longrightarrow> conforms t j)"
  using assms
  by (auto simp: fetchJSON_def client_of_def logged_src_def ReadBody_def Let_def
      split: option.splits prod.splits sum.splits if_splits)

lemma with_file_logged:
  assumes "\<And>j s. conforms t j \<Longrightarrow> snd s = [] \<Longrightarrow> list_all valid_call (snd (snd (k j s)))" and "snd s = []"
  shows "list_all valid_call (snd (snd (with_file (logged_src E) t base p k s)))"
proof -
  obtain r s1 where f: "fetchJSON (logged_src E) (client_of (logged_src E)) t base p s = (r, s1)"
    by (meson surj_pair)
  note F = fetchJSON_logged [OF f]
  then show ?thesis using f assms by (cases r) (auto simp: with_file_def)
qed

lemma put_call_valid: "valid_call c \<Longrightarrow> list_all valid_call (snd s) \<Longrightarrow> list_all valid_call (snd (snd (put_call (logged_src E) wrap c s)))"
  using put_call_logged [of E wrap c s] by auto

lemma put_some_valid:
  "(b \<Longrightarrow> valid_call c) \<Longrightarrow> list_all valid_call (snd s) \<Longrightarrow> list_all valid_call (snd (snd (put_some (logged_src E) pre b c s)))"
  by (simp add: put_some_def put_call_valid)

lemma one_call_valid:
  assumes "\<And>j. conforms t j \<Longrightarrow> valid_call (c j)" and "snd s = []"
  shows "list_all valid_call (snd (snd (with_file (logged_src E) t base p (\<lambda>j. put_call (logged_src E) wrap (c j)) s)))"
  by (rule with_file_logged [OF _ assms(2)]) (simp add: assms(1) put_call_valid)

lemma steps_valid:
  assumes "\<And>f s. f \<in> set fs \<Longrightarrow> list_all valid_call (snd s) \<Longrightarrow> list_all valid_call (snd (snd (f s)))"
    and "list_all valid_call (snd s)"
  shows "list_all valid_call (snd (snd (steps fs s)))"
  using assms
proof (induction fs arbitrary: s)
  case (Cons f fs)
  obtain e s1 where "f s = (e, s1)" by (meson surj_pair)
  moreover from this have "list_all valid_call (snd s1)" using Cons.prems by (metis list.set_intros(1) snd_conv)
  ultimately show ?case using Cons by (cases e) auto
qed simp

lemmas ref_defs =
  ability_ref_def ability_id_ref_def game_mode_ref_def lobby_type_ref_def region_ref_def item_ref_def item_id_ref_def patch_ref_def

lemma single_runs_valid:
  assumes "snd s = []"
  shows "list_all valid_call (snd (snd (abilities_Run (logged_src E) b s)))"
    and "list_all valid_call (snd (snd (ability_ids_Run (logged_src E) b s)))"
    and "list_all valid_call (snd (snd (game_modes_Run (logged_src E) b s)))"
    and "list_all valid_call (snd (snd (lobby_types_Run (logged_src E) b s)))"
    and "list_all valid_call (snd (snd (regions_Run (logged_src E) b s)))"
    and "list_all valid_call (snd (snd (items_Run (logged_src E) b s)))"
    and "list_all valid_call (snd (snd (item_ids_Run (logged_src E) b s)))"
    and "list_all valid_call (snd (snd (patches_Run (logged_src E) b s)))"
  unfolding abilities_Run_def ability_ids_Run_def game_modes_Run_def lobby_types_Run_def regions_Run_def items_Run_def
    item_ids_Run_def patches_Run_def
  by (rule one_call_valid [OF _ assms];
      auto simp: List.map_filter_def list_all_iff ref_defs Let_def split: option.splits if_splits)+

lemma heroes_run_valid:
  assumes "snd s = []"
  shows "list_all valid_call (snd (snd (heroes_Run (logged_src E) b s)))"
  unfolding heroes_Run_def
  by (rule with_file_logged [OF _ assms]) (auto simp: logged_src_def Let_def split: option.splits prod.splits)

lemma hero_rows_valid:
  "x \<in> set (hero_ability_refs hero ha) \<Longrightarrow> 0 \<le> har_Slot x \<and> har_Ability x \<noteq> [] \<and> har_Ability x \<noteq> ''generic_hidden''"
  "y \<in> set (hero_talent_refs hero ha) \<Longrightarrow> htr_Ability y \<noteq> [] \<and> 0 < htr_Level y"
  by (auto simp: hero_ability_refs_def hero_talent_refs_def List.map_filter_def Let_def split: if_splits)

lemma hero_abilities_run_valid:
  assumes "snd s = []"
  shows "list_all valid_call (snd (snd (hero_abilities_Run (logged_src E) b s)))"
  unfolding hero_abilities_Run_def Let_def
proof (rule with_file_logged [OF _ assms], rule steps_valid)
  fix j f and s :: "'a \<times> ref_call list"
  let ?es = "entries (logged_src E) j"
  let ?a = "concat (map (\<lambda>(hero, ha). hero_ability_refs hero ha) ?es)"
  let ?t = "concat (map (\<lambda>(hero, ha). hero_talent_refs hero ha) ?es)"
  let ?f = "concat (map (\<lambda>(hero, ha). hero_facet_refs hero ha) ?es)"
  have "?a \<noteq> [] \<Longrightarrow> valid_call (UpsertHeroAbilities ?a)" "?t \<noteq> [] \<Longrightarrow> valid_call (UpsertHeroTalents ?t)"
    "?f \<noteq> [] \<Longrightarrow> valid_call (UpsertHeroFacets ?f)"
    by (auto simp: list_all_iff dest: hero_rows_valid)
  moreover assume "f \<in> set [put_some (logged_src E) ''hero_abilities: '' (?a \<noteq> []) (UpsertHeroAbilities ?a),
      put_some (logged_src E) ''hero_talents: '' (?t \<noteq> []) (UpsertHeroTalents ?t),
      put_some (logged_src E) ''hero_facets: '' (?f \<noteq> []) (UpsertHeroFacets ?f)]"
    and "list_all valid_call (snd s)"
  ultimately show "list_all valid_call (snd (snd (f s)))"
    unfolding list.set insert_iff empty_iff by (elim disjE FalseE; blast intro: put_some_valid)
qed (simp add: assms)

section \<open>Reading a file back\<close>

lemma trim_front_plain:
  assumes "\<forall>r \<in> set rs. r \<noteq> [] \<and> hd r \<noteq> c"
  shows "trim_front rs (c # s) = c # s"
proof -
  have "\<not> has_prefix (c # s) r" if "r \<in> set rs" for r
    using assms that by (cases r) (auto simp: has_prefix_def)
  then have "find (has_prefix (c # s)) rs = None" by (simp add: find_None_iff)
  then show ?thesis by simp
qed

lemma number_chars_no_space:
  assumes "c \<in> set ''0123456789-''"
  shows "\<forall>r \<in> set space_runes. r \<noteq> [] \<and> hd r \<noteq> c" and "\<forall>r \<in> set (map rev space_runes). r \<noteq> [] \<and> hd r \<noteq> c"
proof -
  have "\<forall>c \<in> set ''0123456789-''. \<forall>r \<in> set space_runes. r \<noteq> [] \<and> hd r \<noteq> c" by code_simp
  then show "\<forall>r \<in> set space_runes. r \<noteq> [] \<and> hd r \<noteq> c" using assms by blast
  have "\<forall>c \<in> set ''0123456789-''. \<forall>r \<in> set (map rev space_runes). r \<noteq> [] \<and> hd r \<noteq> c" by code_simp
  then show "\<forall>r \<in> set (map rev space_runes). r \<noteq> [] \<and> hd r \<noteq> c" using assms by blast
qed

lemma trim_space_plain:
  assumes "\<forall>c \<in> set s. c \<in> set ''0123456789-''"
  shows "trim_space s = s"
proof (cases "s = []")
  case True
  then show ?thesis by (simp add: trim_space_def)
next
  case False
  have 1: "trim_front space_runes s = s"
    using False assms trim_front_plain [OF number_chars_no_space(1)] by (metis list.set_intros(1) neq_Nil_conv)
  have 2: "trim_front (map rev space_runes) (rev s) = rev s"
    using False assms trim_front_plain [OF number_chars_no_space(2)]
    by (metis list.set_intros(1) neq_Nil_conv rev_is_Nil_conv set_rev)
  show ?thesis by (simp only: trim_space_def 1 2 rev_rev_ident)
qed

lemma itoa_chars: "c \<in> set (itoa i) \<Longrightarrow> c \<in> set ''0123456789-''"
proof -
  have "\<forall>d \<in> set [0..<10]. digit_char d \<in> set ''0123456789-''" by code_simp
  then have d: "digit_char d \<in> set ''0123456789-''" if "d < 10" for d using that by simp
  assume "c \<in> set (itoa i)"
  then have "c = CHR ''-'' \<or> (\<exists>d<10. c = digit_char d)"
    by (auto simp: itoa_def split: if_splits dest: nat_str_digits)
  then show ?thesis using d by auto
qed

lemma trim_itoa: "trim_space (itoa i) = itoa i"
  using trim_space_plain itoa_chars by blast

lemma mset_obj_put: "k \<notin> fst ` set m \<Longrightarrow> mset (obj_put k v m) = add_mset (k, v) (mset m)"
  by (induction k v m rule: obj_put.induct) auto

lemma mset_to_map:
  assumes "distinct (map fst kvs)"
  shows "mset (to_map kvs) = mset kvs"
proof -
  have "mset (fold (\<lambda>(k, v). obj_put k v) kvs m) = mset kvs + mset m" if "fst ` set kvs \<inter> fst ` set m = {}" for m
    using assms that
  proof (induction kvs arbitrary: m)
    case (Cons x kvs)
    have m: "mset (obj_put (fst x) (snd x) m) = add_mset x (mset m)"
      using Cons.prems by (subst mset_obj_put) auto
    then have "set (obj_put (fst x) (snd x) m) = insert x (set m)" by (metis set_mset_add_mset_insert set_mset_mset)
    then have "mset (fold (\<lambda>(k, v). obj_put k v) kvs (obj_put (fst x) (snd x) m)) = mset kvs + mset (obj_put (fst x) (snd x) m)"
      using Cons.prems by (intro Cons.IH) auto
    then show ?case using m by (cases x) simp
  qed simp
  from this [of "[]"] show ?thesis by (simp add: to_map_def)
qed

definition item_ids_file :: "ItemIDRef list \<Rightarrow> json" where
  "item_ids_file xs = JObj (map (\<lambda>x. (itoa (iir_ID x), JStr (iir_Key x))) xs)"

lemma item_ids_file_refs:
  assumes "distinct (map iir_ID xs)" and "\<forall>x \<in> set xs. 0 \<le> iir_ID x \<and> is_int64 (iir_ID x) \<and> iir_Key x \<noteq> []"
    and "\<And>ys. mset (ord ys) = mset ys"
  shows "mset (List.map_filter item_id_ref (ord (to_map (members (item_ids_file xs))))) = mset xs"
proof -
  let ?kvs = "map (\<lambda>x. (itoa (iir_ID x), JStr (iir_Key x))) xs"
  have "distinct (map fst ?kvs)"
    using assms(1) by (simp add: comp_def distinct_map inj_on_def itoa_inject)
  then have "mset (ord (to_map ?kvs)) = mset ?kvs" using assms(3) mset_to_map by metis
  then have "mset (List.map_filter item_id_ref (ord (to_map ?kvs))) = mset (List.map_filter item_id_ref ?kvs)"
    by (simp add: List.map_filter_def)
  moreover have "item_id_ref (itoa (iir_ID x), JStr (iir_Key x)) = Some x" if "x \<in> set xs" for x
    using assms(2) that by (simp add: item_id_ref_def trim_itoa atoi_itoa str_val_def not_less)
  then have "List.map_filter item_id_ref (map (\<lambda>x. (itoa (iir_ID x), JStr (iir_Key x))) ys) = ys" if "set ys \<subseteq> set xs" for ys
    using that by (induction ys) (simp_all only: map_filter_simps list.map option.case list.set insert_subset)
  then have "List.map_filter item_id_ref ?kvs = xs" by blast
  ultimately show ?thesis by (simp only: item_ids_file_def members_def json.case)
qed

section \<open>Properties\<close>


definition sample_src :: "json \<Rightarrow> mem_pg src_env" where
  "sample_src j =
     \<lparr>se_HTTP = Some (\<lambda>u w. (Inr \<lparr>StatusCode = 200, Body = json_print j\<rparr>, w)), se_depsHTTP = None,
      se_Writer = Some (ref_write mem_pgtx), se_depsWriter = None, se_body = (\<lambda>r w. (Inr (Body r), w)),
      se_order = rev, se_float = (\<lambda>l. None), se_rfc3339 = (\<lambda>s. None), se_renum = Some\<rparr>"


text \<open>Every item of a file that lists items by their identifiers reaches the writer, and nothing else:
  the source hands over the rows the file was printed from, in some order.\<close>

theorem item_ids_reach_writer:
  assumes "distinct (map iir_ID xs)" and "\<forall>x \<in> set xs. 0 \<le> iir_ID x \<and> is_int64 (iir_ID x) \<and> iir_Key x \<noteq> []"
    and "\<And>ys. mset (se_order E ys) = mset ys"
    and "client_of E = Some get" and "se_Writer E = Some wr"
    and "get (trim_slashes_right base @ ''/item_ids.json'') w = (Inr resp, w1)" and "StatusCode resp < 400"
    and "se_body E resp w1 = (Inr (json_print (item_ids_file xs)), w2)"
  shows "\<exists>ys. mset ys = mset xs \<and> item_ids_Run E base w = wr (UpsertItemIDs ys) w2"
proof -
  let ?ys = "List.map_filter item_id_ref (entries E (item_ids_file xs))"
  have "wf_json (item_ids_file xs)" by (simp add: item_ids_file_def list_all_iff)
  then have "json_parse (json_print (item_ids_file xs)) = Some (item_ids_file xs)" by (rule json_parse_print)
  moreover have "conforms (GMap GString) (item_ids_file xs)" by (simp add: item_ids_file_def list_all_iff)
  ultimately have "fetchJSON E (client_of E) (GMap GString) base ''item_ids.json'' w = (Inr (item_ids_file xs), w2)"
    using assms(4,6-8) by (simp add: fetchJSON_def ReadBody_def Let_def trim_slashes_left_def)
  then have "item_ids_Run E base w = put_call E id (UpsertItemIDs ?ys) w2"
    by (simp add: item_ids_Run_def with_file_def)
  then have "item_ids_Run E base w = wr (UpsertItemIDs ?ys) w2"
    using assms(5) by (cases "wr (UpsertItemIDs ?ys) w2") (auto simp: put_call_def split: option.splits)
  moreover have "mset ?ys = mset xs" unfolding entries_def by (rule item_ids_file_refs [OF assms(1-3)])
  ultimately show ?thesis by blast
qed

theorem item_ids_reach_writer_witness:
  "\<exists>ys. mset ys = {#\<lparr>iir_ID = 1, iir_Key = ''blink''\<rparr>#} \<and>
     item_ids_Run (sample_src (item_ids_file [\<lparr>iir_ID = 1, iir_Key = ''blink''\<rparr>])) ''http://x/'' (sample_pg []) =
       ref_write mem_pgtx (UpsertItemIDs ys) (sample_pg [])"
proof -
  let ?xs = "[\<lparr>iir_ID = 1, iir_Key = ''blink''\<rparr>]"
  let ?resp = "\<lparr>StatusCode = 200, Body = json_print (item_ids_file ?xs)\<rparr>"
  let ?E = "sample_src (item_ids_file ?xs)"
  have E: "client_of ?E = Some (\<lambda>u w. (Inr ?resp, w))" "se_Writer ?E = Some (ref_write mem_pgtx)"
    "\<And>ys. mset (se_order ?E ys) = mset ys" "\<And>w. se_body ?E ?resp w = (Inr (json_print (item_ids_file ?xs)), w)"
    by (simp_all add: sample_src_def client_of_def)
  have "\<exists>ys. mset ys = mset ?xs \<and> item_ids_Run ?E ''http://x/'' (sample_pg []) = ref_write mem_pgtx (UpsertItemIDs ys) (sample_pg [])"
    by (rule item_ids_reach_writer [OF _ _ E(3) E(1,2) refl _ E(4)]) (simp_all add: is_int64_def)
  then show ?thesis by simp
qed

text \<open>A cooldown or mana cost that the file gives as a number is stored as the empty text.\<close>

lemma numbers_become_empty: "rawToString (Some (JNum l)) = []"
  by (simp add: rawToString_def)

end
