(* ===== verification/Bootstrap.thy ===== *)
theory Bootstrap
  imports Waiting Clients RedisStreams RedisPool Parser Enrich Constants
begin

text \<open>
  Putting the programs together (\<^verbatim>\<open>internal/bootstrap\<close>): the adapters built from the
  configuration, and the fetcher, the parser and the enricher. The connections (Redis, Postgres,
  OpenTelemetry) are arguments.
\<close>

section \<open>Adapters\<close>

text \<open>\<open>connect\<close> is \<^verbatim>\<open>storageredis.New\<close>, \<open>new_sink\<close> is \<^verbatim>\<open>otelmetrics.New\<close>.\<close>

definition RedisClient :: "(redis_config \<Rightarrow> go_error + 'd) \<Rightarrow> redis_config \<Rightarrow> go_error + 'd" where
  "RedisClient connect c =
     (if rdc_Addrs c = [] then Inl (ErrText ''redis: no addresses'')
      else case connect c of Inl e \<Rightarrow> Inl (Wrapped ''redis connect: '' e) | Inr d \<Rightarrow> Inr d)"

definition Core :: "(redis_config \<Rightarrow> go_error + 'd) \<Rightarrow> go_error + 's \<Rightarrow> config \<Rightarrow> go_error + 'd \<times> 's" where
  "Core connect new_sink c =
     (case RedisClient connect (cfg_Redis c) of
        Inl e \<Rightarrow> Inl e
      | Inr d \<Rightarrow> (case new_sink of Inl e \<Rightarrow> Inl (Wrapped ''init otelmetrics: '' e) | Inr s \<Rightarrow> Inr (d, s)))"

definition boot_ProxyPool :: "env \<Rightarrow> proxy_config \<Rightarrow> go_error + rpool_cfg \<times> duration" where
  "boot_ProxyPool env c =
     (case rpool_New env False
             \<lparr>rp_KeyPrefix = pxc_KeyPrefix c,
              rp_RateLimit = \<lparr>RatePerSec = pxc_RateLimitPerSec c, Burst = pxc_RateLimitBurst c, Window = pxc_RateLimitWindow c\<rparr>,
              rp_Ranking = \<lparr>FailurePenalty = pxc_RankingFailure c, SuccessBoost = pxc_RankingSuccess c,
                            InitialWeight = pxc_RankingInitial c\<rparr>,
              rp_MaxFailures = pxc_MaxFailures c\<rparr> of
        Inl e \<Rightarrow> Inl (Wrapped ''proxy pool: '' e)
      | Inr p \<Rightarrow> Inr p)"

definition boot_PayloadStore :: "payload_config \<Rightarrow> go_error + payload_cfg" where
  "boot_PayloadStore c =
     (case rstore_New False \<lparr>pc_KeyPrefix = plc_KeyPrefix c, pc_DefaultTTL = plc_DefaultTTL c\<rparr> of
        Inl e \<Rightarrow> Inl (Wrapped ''payload store: '' e)
      | Inr s \<Rightarrow> Inr s)"

definition boot_DedupSeen :: "'d redis \<Rightarrow> dedup_config \<Rightarrow> 'd \<Rightarrow> (go_error + seen_cfg) \<times> 'd" where
  "boot_DedupSeen R c d =
     (case rseen_New R False \<lparr>sc_KeyPrefix = ddc_KeyPrefix c, sc_TTL = ddc_TTL c, sc_UseBloom = ddc_UseBloom c\<rparr> d of
        (Inl e, d1) \<Rightarrow> (Inl (Wrapped ''dedup seen: '' e), d1)
      | (Inr s, d1) \<Rightarrow> (Inr s, d1))"

record queue_spec =
  qs_Stream :: string
  qs_DLQStream :: string

definition boot_Queue :: "'d redis \<Rightarrow> queue_spec \<Rightarrow> queue_config \<Rightarrow> 'd \<Rightarrow> go_error + 'd rs_queue" where
  "boot_Queue R spec c d =
     (case rs_New R (Some d)
             \<lparr>Stream = qs_Stream spec, DLQStream = qs_DLQStream spec, Group = quc_Group c, Consumer = quc_Consumer c,
              MaxLen = quc_MaxLen c,
              Policy = \<lparr>MaxRetries = quc_MaxRetries c, MaxBackoff = quc_MaxBackoff c\<rparr>,
              DeleteOnAck = quc_DeleteOnAck c\<rparr> of
        Inl e \<Rightarrow> Inl (Wrapped (''queue '' @ qs_Stream spec @ '': '') e)
      | Inr q \<Rightarrow> Inr q)"

definition FetchQueue :: "'d redis \<Rightarrow> queue_config \<Rightarrow> 'd \<Rightarrow> go_error + 'd rs_queue" where
  "FetchQueue R c = boot_Queue R \<lparr>qs_Stream = quc_FetchStream c, qs_DLQStream = quc_FetchDLQStream c\<rparr> c"

definition ParseQueue :: "'d redis \<Rightarrow> queue_config \<Rightarrow> 'd \<Rightarrow> go_error + 'd rs_queue" where
  "ParseQueue R c = boot_Queue R \<lparr>qs_Stream = quc_ParseStream c, qs_DLQStream = quc_ParseDLQStream c\<rparr> c"

section \<open>The fetcher\<close>

text \<open>The two queues are handles on the same database: the state after building them is that of the
  second.\<close>

record 'd fetcher_deps =
  fd_in :: "'d rs_queue"
  fd_out :: "'d rs_queue"
  fd_store :: payload_cfg
  fd_doer :: "doer_cfg \<times> doer"
  fd_worker :: fetch_cfg

definition fetcher_doer :: "config \<Rightarrow> doer_cfg" where
  "fetcher_doer c =
     \<lparr>Hold = pxc_Hold (cfg_Proxy c), Timeout = ftc_HTTPTimeout (cfg_Fetcher c), dc_MaxRetries = ftc_MaxProxyRetries (cfg_Fetcher c),
      dc_Backoff = ftc_ProxyBackoff (cfg_Fetcher c), AllowDirect = ftc_AllowDirect (cfg_Fetcher c)\<rparr>"

definition fetcher_worker :: "config \<Rightarrow> fetch_cfg" where
  "fetcher_worker c =
     \<lparr>fc_UpstreamURL = ftc_UpstreamURL (cfg_Fetcher c), fc_PayloadTTL = ftc_PayloadTTL (cfg_Fetcher c),
      fc_HTTPTimeout = ftc_HTTPTimeout (cfg_Fetcher c), fc_Batch = ftc_Batch (cfg_Fetcher c), fc_Block = ftc_Block (cfg_Fetcher c)\<rparr>"

text \<open>The part after the wait. A failure ends the program; the handles made before it are dropped.\<close>

definition wire_fetcher :: "'d redis \<Rightarrow> config \<Rightarrow> 'd \<Rightarrow> go_error + 'd fetcher_deps" where
  "wire_fetcher R c d =
     (case boot_PayloadStore (cfg_Payload c) of
        Inl e \<Rightarrow> Inl (Wrapped ''fetcher: payload store: '' e)
      | Inr st \<Rightarrow>
      case FetchQueue R (cfg_Queue c) d of
        Inl e \<Rightarrow> Inl (Wrapped ''fetcher: fetch queue: '' e)
      | Inr q1 \<Rightarrow>
      case ParseQueue R (cfg_Queue c) (rdb q1) of
        Inl e \<Rightarrow> Inl (Wrapped ''fetcher: parse queue: '' e)
      | Inr q2 \<Rightarrow>
      case doer_New False (fetcher_doer c) of
        Inl e \<Rightarrow> Inl (Wrapped ''fetcher: httpdoer: '' e)
      | Inr dr \<Rightarrow>
      case fetcher_New False False False False (fetcher_worker c) of
        Inl e \<Rightarrow> Inl (Wrapped ''fetcher: init: '' e)
      | Inr f \<Rightarrow> Inr \<lparr>fd_in = q1, fd_out = q2, fd_store = st, fd_doer = dr, fd_worker = f\<rparr>)"

text \<open>\<open>size_of\<close> is the \<^verbatim>\<open>Size\<close> of the pool.\<close>

definition BuildFetcher ::
  "'d redis \<Rightarrow> ('d \<Rightarrow> (go_error + int) \<times> 'd) \<Rightarrow> ('d \<Rightarrow> int) \<Rightarrow> wait_event list \<Rightarrow> config \<Rightarrow> 'd \<Rightarrow> (go_error + 'd fetcher_deps) option" where
  "BuildFetcher R size_of now es c d =
     (if ftc_AllowDirect (cfg_Fetcher c) then Some (wire_fetcher R c d)
      else
        case WaitForProxies size_of now
               \<lparr>wc_MinSize = pxc_MinPoolSize (cfg_Proxy c), wc_Timeout = ftc_WaitTimeout (cfg_Fetcher c), wc_PollInterval = 2 * second\<rparr> es d of
          (None, d1) \<Rightarrow> None
        | (Some (Some e), d1) \<Rightarrow> Some (Inl (Wrapped ''fetcher: proxies not ready: '' e))
        | (Some None, d1) \<Rightarrow> Some (wire_fetcher R c d1))"

section \<open>The parser\<close>

text \<open>\<open>repo\<close> is the match writer on Postgres; \<open>seen\<close> makes the set of seen matches of a configuration; without
  one (its construction failed) the parser goes on.\<close>

record ('d, 'w) parser_deps =
  pd_in :: "'d rs_queue"
  pd_store :: payload_cfg
  pd_ingester :: "'w ingester"
  pd_breaker :: circuit_breaker
  pd_worker :: parse_cfg

definition BuildParser ::
  "'d redis \<Rightarrow> 'w ingest \<Rightarrow> 'w sink_if \<Rightarrow> (seen_cfg \<Rightarrow> 'w seen_if) \<Rightarrow> config \<Rightarrow> 'd \<Rightarrow> (go_error + ('d, 'w) parser_deps) \<times> 'd" where
  "BuildParser R repo sink seen c d =
     (case boot_PayloadStore (cfg_Payload c) of
        Inl e \<Rightarrow> (Inl (Wrapped ''parser: payload store: '' e), d)
      | Inr st \<Rightarrow>
      case ParseQueue R (cfg_Queue c) d of
        Inl e \<Rightarrow> (Inl (Wrapped ''parser: parse queue: '' e), d)
      | Inr q \<Rightarrow>
      let (ds, d1) = boot_DedupSeen R (cfg_Dedup c) (rdb q);
          dedup = (case ds of Inl _ \<Rightarrow> None | Inr sc \<Rightarrow> Some (seen sc))
      in case ingester_New (Some repo) (Some sink) dedup of
           Inl e \<Rightarrow> (Inl (Wrapped ''parser: ingester: '' e), d1)
         | Inr ig \<Rightarrow>
         case parser_New False False False False
                \<lparr>pcf_Batch = psc_Batch (cfg_Parser c), pcf_Block = psc_Block (cfg_Parser c), pcf_QueueProvider = False\<rparr> of
           Inl e \<Rightarrow> (Inl (Wrapped ''parser: init: '' e), d1)
         | Inr p \<Rightarrow>
             (Inr \<lparr>pd_in = q, pd_store = st, pd_ingester = ig, pd_breaker = NewCircuitBreaker 10 (30 * second), pd_worker = p\<rparr>, d1))"

section \<open>The enricher\<close>

record 'w enricher_deps =
  ed_http :: "doer_cfg \<times> doer"
  ed_gate :: "'w run_gate"
  ed_main :: "source list"
  ed_local :: "source list option"

definition enricher_doer :: "config \<Rightarrow> doer_cfg" where
  "enricher_doer c =
     \<lparr>Hold = pxc_Hold (cfg_Proxy c), Timeout = enc_HTTPTimeout (cfg_Enrich c), dc_MaxRetries = enc_MaxProxyRetries (cfg_Enrich c),
      dc_Backoff = enc_ProxyBackoff (cfg_Enrich c), AllowDirect = enc_AllowDirect (cfg_Enrich c)\<rparr>"

definition enricher_gate :: "'d gate_env \<Rightarrow> enrich_config \<Rightarrow> 'd run_gate" where
  "enricher_gate G c =
     (if enc_ForceBootstrap c then always_if
      else gate_if G \<lparr>gt_Prefix = enc_BootstrapPrefix c, gt_MinAge = enc_Interval c, gt_TTL = enc_Interval c, gt_Mode = Interval\<rparr>)"

definition BuildEnricher :: "'d gate_env \<Rightarrow> config \<Rightarrow> go_error + 'd enricher_deps" where
  "BuildEnricher G c =
     (case NewProxied False (enricher_doer c) of
        Inl e \<Rightarrow> Inl e
      | Inr h \<Rightarrow>
      case NewRunner buildSources of
        Inl e \<Rightarrow> Inl e
      | Inr srcs \<Rightarrow>
          Inr \<lparr>ed_http = h, ed_gate = enricher_gate G (cfg_Enrich c), ed_main = srcs,
               ed_local =
                 (if enc_LocalBootstrapDir (cfg_Enrich c) = [] then None
                  else case NewRunner buildSources of Inl _ \<Rightarrow> None | Inr ls \<Rightarrow> Some ls)\<rparr>)"

definition local_base :: "enrich_config \<Rightarrow> string" where
  "local_base c = ''file://'' @ enc_LocalBootstrapDir c"

section \<open>The stages fit together\<close>

lemma Queue_made:
  assumes "boot_Queue R sp c d = Inr q"
  shows "rs_New R (Some d) \<lparr>Stream = qs_Stream sp, DLQStream = qs_DLQStream sp, Group = quc_Group c, Consumer = quc_Consumer c,
      MaxLen = quc_MaxLen c, Policy = \<lparr>MaxRetries = quc_MaxRetries c, MaxBackoff = quc_MaxBackoff c\<rparr>,
      DeleteOnAck = quc_DeleteOnAck c\<rparr> = Inr q"
  using assms by (simp add: boot_Queue_def split: sum.splits)

lemma ensureGroup_keeps:
  "ensureGroup R q = (e, q') \<Longrightarrow> cfg q' = cfg q \<and> asyncCfg q' = asyncCfg q \<and> asyncStarted q' = asyncStarted q"
  by (auto simp: ensureGroup_def rs_do_def Let_def split: prod.splits option.splits if_splits)

lemma New_handle:
  assumes "rs_New R (Some d) c = Inr q"
  shows "cfg q = c \<and> asyncCfg q = no_async \<and> \<not> asyncStarted q"
  using assms
  by (auto simp: rs_New_def Let_def split: if_splits prod.splits option.splits dest!: ensureGroup_keeps)

lemmas Queue_handle = New_handle [OF Queue_made]

text \<open>What the log of the connection shows of a queue with a group.\<close>

definition group_ready :: "string \<Rightarrow> string \<Rightarrow> redis_cmd \<times> redis_reply \<Rightarrow> bool" where
  "group_ready st g e \<longleftrightarrow>
     fst e = XGROUP_CREATE st g ''$'' \<and>
     (case reply_err (snd e) of None \<Rightarrow> True | Some x \<Rightarrow> isBusyGroup x)"

lemma Queue_group:
  assumes "boot_Queue (logged R) sp c (d, l) = Inr q" and "quc_Consumer c \<noteq> []" and "quc_Group c \<noteq> []"
  shows "\<exists>e. the_log q = l @ [e] \<and> group_ready (qs_Stream sp) (quc_Group c) e"
  using assms
  by (auto simp: boot_Queue_def rs_New_def ensureGroup_def rs_do_def logged_def group_ready_def Let_def
      split: sum.splits if_splits option.splits prod.splits)

lemma wire_fetcher_parts:
  assumes "wire_fetcher R c d = Inr F"
  shows "FetchQueue R (cfg_Queue c) d = Inr (fd_in F)" and "ParseQueue R (cfg_Queue c) (rdb (fd_in F)) = Inr (fd_out F)"
    and "boot_PayloadStore (cfg_Payload c) = Inr (fd_store F)"
    and "fetcher_New False False False False (fetcher_worker c) = Inr (fd_worker F)"
  using assms by (auto simp: wire_fetcher_def split: sum.splits)

lemma BuildParser_parts:
  assumes "BuildParser R repo sink seen c d = (Inr P, d')"
  shows "ParseQueue R (cfg_Queue c) d = Inr (pd_in P)" and "boot_PayloadStore (cfg_Payload c) = Inr (pd_store P)"
    and "pd_breaker P = NewCircuitBreaker 10 (30 * second)"
    and "ig_repo (pd_ingester P) = repo"
  using assms by (auto simp: BuildParser_def ingester_New_def Let_def split: sum.splits prod.splits)

text \<open>(C24) Two stages built from one configuration fit: the fetcher pushes into the stream the parser pops
  from, with the same group and dead letters, and stores the texts under the keys the parser reads; and when
  the queues have a consumer, the groups of both streams exist before the fetcher can push anything.\<close>

theorem stages_are_connected:
  assumes "wire_fetcher (logged R) c (d, l) = Inr F" and "BuildParser R' repo sink seen c d' = (Inr P, d'')"
  shows "cfg (fd_out F) = cfg (pd_in P) \<and> fd_store F = pd_store P \<and>
    (\<forall>k. blob_key (fd_store F) k = blob_key (pd_store P) k) \<and>
    (quc_Consumer (cfg_Queue c) \<noteq> [] \<and> quc_Group (cfg_Queue c) \<noteq> [] \<longrightarrow>
      (\<exists>e1 e2. the_log (fd_out F) = l @ [e1, e2] \<and> group_ready (Stream (cfg (fd_in F))) (quc_Group (cfg_Queue c)) e1 \<and>
         group_ready (Stream (cfg (pd_in P))) (quc_Group (cfg_Queue c)) e2))"
proof -
  note F = wire_fetcher_parts [OF assms(1)] and P = BuildParser_parts [OF assms(2)]
  have cfgs: "cfg (fd_out F) = cfg (pd_in P)"
    using F(2) P(1) by (simp add: ParseQueue_def Queue_handle)
  have logs: "\<exists>e1 e2. the_log (fd_out F) = l @ [e1, e2] \<and> group_ready (Stream (cfg (fd_in F))) (quc_Group (cfg_Queue c)) e1 \<and>
      group_ready (Stream (cfg (pd_in P))) (quc_Group (cfg_Queue c)) e2"
    if named: "quc_Consumer (cfg_Queue c) \<noteq> []" "quc_Group (cfg_Queue c) \<noteq> []"
  proof -
    obtain e1 where e1: "the_log (fd_in F) = l @ [e1]" "group_ready (quc_FetchStream (cfg_Queue c)) (quc_Group (cfg_Queue c)) e1"
      using Queue_group [OF F(1) [unfolded FetchQueue_def] named] by auto
    obtain d1 where "rdb (fd_in F) = (d1, l @ [e1])" using e1(1) by (metis prod.collapse)
    then obtain e2 where "the_log (fd_out F) = (l @ [e1]) @ [e2]" "group_ready (quc_ParseStream (cfg_Queue c)) (quc_Group (cfg_Queue c)) e2"
      using Queue_group [of R _ "cfg_Queue c" d1 "l @ [e1]", OF _ named] F(2) by (fastforce simp: ParseQueue_def)
    then show ?thesis using e1 F(1) P(1) by (auto simp: FetchQueue_def ParseQueue_def Queue_handle)
  qed
  show ?thesis using cfgs logs F(3) P(2) by simp
qed

text \<open>The configuration of an environment with the required URL and the name of the consumer, if any.\<close>

definition config_of :: "string \<Rightarrow> config" where
  "config_of consumer = config_Load (\<lambda>_ e. e) (\<lambda>_. None) [] 
     (\<lambda>k. if k = ''QUEUE_CONSUMER'' then consumer else if k = ''FETCHER_UPSTREAM_URL'' then ''/matches/%d'' else [])"

definition no_seen :: "'w seen_if" where
  "no_seen = \<lparr>sn_MarkSeen = (\<lambda>_ w. (Inr False, w)), sn_IsSeen = (\<lambda>_ w. (Inr False, w)), sn_CheckBatch = (\<lambda>_ w. (Inr [], w))\<rparr>"

theorem stages_are_connected_witness:
  "\<exists>F P d''. wire_fetcher (logged (const_server ok_reply)) (config_of ''c1'') ((), []) = Inr F \<and>
     BuildParser (const_server ok_reply) (ig_repo mem_ingester) stage_sink_if (\<lambda>_. no_seen) (config_of ''c1'') () = (Inr P, d'') \<and>
     cfg (fd_out F) = cfg (pd_in P) \<and> length (the_log (fd_out F)) = 2"
proof -
  let ?F = "wire_fetcher (logged (const_server ok_reply)) (config_of ''c1'') ((), [])"
  let ?P = "BuildParser (const_server ok_reply) (ig_repo mem_ingester) stage_sink_if (\<lambda>_. no_seen) (config_of ''c1'') ()"
  have "case ?F of Inl e \<Rightarrow> False | Inr F \<Rightarrow> True" by code_simp
  then obtain F where F: "?F = Inr F" by (auto split: sum.splits)
  have "case fst ?P of Inl e \<Rightarrow> False | Inr F \<Rightarrow> True" by code_simp
  then obtain P d'' where P: "?P = (Inr P, d'')" by (cases ?P) (auto split: sum.splits)
  have named: "quc_Consumer (cfg_Queue (config_of ''c1'')) \<noteq> []" "quc_Group (cfg_Queue (config_of ''c1'')) \<noteq> []" by code_simp+
  from stages_are_connected [OF F P] named have "length (the_log (fd_out F)) = 2" by auto
  then show ?thesis using F P stages_are_connected [OF F P] by blast
qed

text \<open>Without a name for the consumer, which is the default, no stage can take a task.\<close>

lemma no_consumer_no_tasks:
  assumes "wire_fetcher R (config_of []) d = Inr F"
  shows "rs_Pop R P n b (fd_in F) = (Inl (ErrText ''redisstreams: Consumer and Group required for Pop''), fd_in F)"
proof -
  have "quc_Consumer (cfg_Queue (config_of [])) = []" by code_simp
  then have "Consumer (cfg (fd_in F)) = []"
    using Queue_handle [OF wire_fetcher_parts(1) [OF assms, unfolded FetchQueue_def]] by simp
  then show ?thesis by (simp add: rs_Pop_def)
qed

text \<open>The asynchronous retries of the queue are never switched on: whatever the configuration says, every
  retry of the stages waits in the worker.\<close>

lemma async_retry_never_enabled:
  assumes "wire_fetcher R c d = Inr F" and "BuildParser R' repo sink seen c d' = (Inr P, d'')" and "q = fd_in F \<or> q = pd_in P"
  shows "asyncCfg q = no_async \<and> \<not> asyncStarted q"
  using assms(3) wire_fetcher_parts(1) [OF assms(1)] BuildParser_parts(1) [OF assms(2)]
  by (auto simp: FetchQueue_def ParseQueue_def dest: Queue_handle)

text \<open>The enricher can always be built, and both its runners go through all sources.\<close>

lemma enricher_builds:
  "\<exists>D. BuildEnricher G c = Inr D \<and> ed_main D = buildSources \<and>
     ed_local D = (if enc_LocalBootstrapDir (cfg_Enrich c) = [] then None else Some buildSources)"
  by (simp add: BuildEnricher_def NewProxied_def doer_New_def constants_order)

end
