(* ===== verification/Discovery.thy ===== *)
theory Discovery
  imports Fetcher
begin

text \<open>
  The discovery stage (\<^verbatim>\<open>internal/worker/discovery\<close>): loading the queries (\<^verbatim>\<open>loader.go\<close>), the
  generic fetch-and-upsert cycle (\<^verbatim>\<open>cycle.go\<close>), the scheduler (\<^verbatim>\<open>scheduler.go\<close>), and the cycle that
  finds new matches and queues their fetch tasks (\<^verbatim>\<open>matches/cycle.go\<close>). HTTP, files, the clock and the
  random numbers are arguments.
\<close>

section \<open>Queries\<close>

text \<open>The directory is a list of entries, each a name with whether it is a directory; \<open>rd\<close> reads a file.\<close>

fun load_entries :: "(string \<Rightarrow> go_error + bytes) \<Rightarrow> (string \<times> bool) list \<Rightarrow> (string \<times> string) list \<Rightarrow> go_error + (string \<times> string) list" where
  "load_entries rd [] out = Inr out"
| "load_entries rd ((name, dir) # es) out =
     (if dir \<or> \<not> has_suffix name ''.sql'' then load_entries rd es out
      else
        case rd name of
          Inl e \<Rightarrow> Inl (Wrapped (''read '' @ name @ '': '') e)
        | Inr body \<Rightarrow>
            let s = trim_space body in
            if s = [] then load_entries rd es out
            else load_entries rd es (AList.update (take (length name - 4) name) s out))"

definition LoadQueries :: "string \<Rightarrow> go_error + (string \<times> bool) list \<Rightarrow> (string \<Rightarrow> go_error + bytes) \<Rightarrow> go_error + (string \<times> string) list" where
  "LoadQueries dir entries rd =
     (case entries of
        Inl e \<Rightarrow> Inl (Wrapped (''read dir '' @ dir @ '': '') e)
      | Inr es \<Rightarrow>
          case load_entries rd es [] of
            Inl e \<Rightarrow> Inl e
          | Inr out \<Rightarrow> if out = [] then Inl (ErrText (''no .sql files found in '' @ dir)) else Inr out)"

section \<open>Requests to the explorer\<close>

text \<open>\<^verbatim>\<open>strings.Index\<close>: the first position of a substring, or -1.\<close>

fun str_index :: "string \<Rightarrow> string \<Rightarrow> int" where
  "str_index [] p = (if p = [] then 0 else - 1)"
| "str_index (c # s) p =
     (if has_prefix (c # s) p then 0 else let i = str_index s p in if i < 0 then - 1 else i + 1)"

definition explorer_base :: "string \<Rightarrow> string" where
  "explorer_base base = (let i = str_index base ''?sql='' in if 0 < i then take (nat i) base else base)"

text \<open>\<open>hc_escape\<close> is \<^verbatim>\<open>url.QueryEscape\<close>, \<open>hc_request\<close> the error of \<^verbatim>\<open>http.NewRequestWithContext\<close>,
  \<open>hc_do\<close> the client, \<open>hc_read\<close> the reading of a body.\<close>

record 'w http_client =
  hc_escape :: "string \<Rightarrow> string"
  hc_request :: "string \<Rightarrow> go_error option"
  hc_do :: "string \<Rightarrow> 'w \<Rightarrow> (go_error + response) \<times> 'w"
  hc_read :: "response \<Rightarrow> 'w \<Rightarrow> (go_error + bytes) \<times> 'w"

definition get_body :: "'w http_client \<Rightarrow> (go_error \<Rightarrow> go_error) \<Rightarrow> string \<Rightarrow> 'w \<Rightarrow> (go_error + bytes) \<times> 'w" where
  "get_body H wrap u w =
     (case hc_request H u of
        Some e \<Rightarrow> (Inl e, w)
      | None \<Rightarrow> (case hc_do H u w of (Inl e, w1) \<Rightarrow> (Inl (wrap e), w1) | (Inr resp, w1) \<Rightarrow> hc_read H resp w1))"

section \<open>The generic cycle\<close>

record ('w, 't) cycle =
  cy_name :: string
  cy_interval :: duration
  cy_runAtStart :: bool
  cy_fetch :: "'w \<Rightarrow> (go_error + 't list) \<times> 'w"
  cy_upsert :: "'t list \<Rightarrow> 'w \<Rightarrow> (go_error + int) \<times> 'w"

definition cycle_RunOnce :: "('w, 't) cycle \<Rightarrow> 'w \<Rightarrow> go_error option \<times> 'w" where
  "cycle_RunOnce f w =
     (case cy_fetch f w of
        (Inl e, w1) \<Rightarrow> (Some (Wrapped (cy_name f @ '': fetch: '') e), w1)
      | (Inr items, w1) \<Rightarrow>
          if items = [] then (None, w1)
          else
            case cy_upsert f items w1 of
              (Inl e, w2) \<Rightarrow> (Some (Wrapped (cy_name f @ '': upsert: '') e), w2)
            | (Inr n, w2) \<Rightarrow> (None, w2))"

definition explorer_rows :: "bytes \<Rightarrow> go_error + json list" where
  "explorer_rows body =
     (case json_parse body of
        None \<Rightarrow> Inl (Wrapped ''decode: '' (ErrText ''json''))
      | Some j \<Rightarrow>
          if conforms (GStruct [(''rows'', GSlice GRaw)]) j then Inr (get_slice id j ''rows'')
          else Inl (Wrapped ''decode: '' (ErrText ''json'')))"

definition makeExplorerFetch :: "'w http_client \<Rightarrow> string \<Rightarrow> string \<Rightarrow> (json list \<Rightarrow> go_error + 't list) \<Rightarrow> 'w \<Rightarrow> (go_error + 't list) \<times> 'w" where
  "makeExplorerFetch H explorerURL sql dec w =
     (case get_body H id (explorer_base explorerURL @ ''?sql='' @ hc_escape H sql) w of
        (Inl e, w1) \<Rightarrow> (Inl e, w1)
      | (Inr body, w1) \<Rightarrow>
          (case explorer_rows body of Inl e \<Rightarrow> (Inl e, w1) | Inr rows \<Rightarrow> (dec rows, w1)))"

definition makeHTTPFetch :: "'w http_client \<Rightarrow> string \<Rightarrow> (bytes \<Rightarrow> go_error + 't list) \<Rightarrow> 'w \<Rightarrow> (go_error + 't list) \<times> 'w" where
  "makeHTTPFetch H targetURL dec w =
     (case get_body H id targetURL w of (Inl e, w1) \<Rightarrow> (Inl e, w1) | (Inr body, w1) \<Rightarrow> (dec body, w1))"

definition NewExplorerCycle :: "string \<Rightarrow> 'w http_client \<Rightarrow> string \<Rightarrow> string \<Rightarrow> duration \<Rightarrow> (json list \<Rightarrow> go_error + 't list) \<Rightarrow>
    ('t list \<Rightarrow> 'w \<Rightarrow> (go_error + int) \<times> 'w) \<Rightarrow> ('w, 't) cycle" where
  "NewExplorerCycle name H explorerURL sql interval dec upsert =
     \<lparr>cy_name = name, cy_interval = interval, cy_runAtStart = True,
      cy_fetch = makeExplorerFetch H explorerURL sql dec, cy_upsert = upsert\<rparr>"

definition NewHTTPCycle :: "string \<Rightarrow> 'w http_client \<Rightarrow> string \<Rightarrow> duration \<Rightarrow> (bytes \<Rightarrow> go_error + 't list) \<Rightarrow>
    ('t list \<Rightarrow> 'w \<Rightarrow> (go_error + int) \<times> 'w) \<Rightarrow> ('w, 't) cycle" where
  "NewHTTPCycle name H targetURL interval dec upsert =
     \<lparr>cy_name = name, cy_interval = interval, cy_runAtStart = True,
      cy_fetch = makeHTTPFetch H targetURL dec, cy_upsert = upsert\<rparr>"

section \<open>The scheduler\<close>

text \<open>A cycle as the scheduler sees it.\<close>

record 'w any_cycle =
  ac_Name :: string
  ac_Interval :: duration
  ac_RunAtStart :: bool
  ac_RunOnce :: "'w \<Rightarrow> go_error option \<times> 'w"

text \<open>\<open>rand\<close> is \<^verbatim>\<open>rand.Int63n\<close>.\<close>

definition jitter :: "(int \<Rightarrow> int) \<Rightarrow> duration \<Rightarrow> duration" where
  "jitter rand d =
     (if d \<le> 0 then 0
      else let maxJitter = go_div d 10 in if maxJitter \<le> 0 then d else wrap64 (d + rand maxJitter))"

text \<open>The first part of \<^verbatim>\<open>Run\<close>: every cycle in turn, with the tickers that were started, by the cycle
  they run and their period. An error of a cycle is only logged.\<close>

fun sched_start :: "(int \<Rightarrow> int) \<Rightarrow> 'w any_cycle list \<Rightarrow> 'w \<Rightarrow> ('w any_cycle \<times> duration) list \<times> 'w" where
  "sched_start rand [] w = ([], w)"
| "sched_start rand (c # cs) w =
     (let w1 = (if ac_RunAtStart c then snd (ac_RunOnce c w) else w) in
      if ac_Interval c \<le> 0 then sched_start rand cs w1
      else let (ts, w2) = sched_start rand cs w1 in ((c, jitter rand (ac_Interval c)) # ts, w2))"

text \<open>The second part: the tickers fire in some order until the context ends. An event is the number of
  the ticker that fired.\<close>

fun sched_ticks :: "('w any_cycle \<times> duration) list \<Rightarrow> nat list \<Rightarrow> 'w \<Rightarrow> 'w" where
  "sched_ticks ts [] w = w"
| "sched_ticks ts (i # es) w =
     sched_ticks ts es (if i < length ts then snd (ac_RunOnce (fst (ts ! i)) w) else w)"

definition sched_Run :: "(int \<Rightarrow> int) \<Rightarrow> 'w any_cycle list \<Rightarrow> nat list \<Rightarrow> 'w \<Rightarrow> 'w" where
  "sched_Run rand cs es w = (let (ts, w1) = sched_start rand cs w in sched_ticks ts es w1)"

section \<open>Match identifiers in an answer\<close>

definition match_env_fields :: "(string \<times> go_type) list" where
  "match_env_fields = [(''rows'', GSlice (GStruct [(''match_ids'', GSlice GRaw)]))]"

text \<open>One element: a decimal string or a number; everything else, and everything that is not positive, is
  passed over. The JSON value \<^verbatim>\<open>null\<close> reads as the empty string.\<close>

definition match_id_of :: "json \<Rightarrow> int option" where
  "match_id_of r =
     (if conforms GString r then (case atoi (str_val r) of None \<Rightarrow> None | Some n \<Rightarrow> if n \<le> 0 then None else Some n)
      else if conforms GInt64 r \<and> 0 < int_val r then Some (int_val r)
      else None)"

definition row_match_ids :: "json \<Rightarrow> int list" where
  "row_match_ids row = List.map_filter match_id_of (get_slice id row ''match_ids'')"

definition parseMatchIDs :: "bytes \<Rightarrow> go_error + int list" where
  "parseMatchIDs body =
     (case json_parse body of
        None \<Rightarrow> Inl (Wrapped ''decode envelope: '' (ErrText ''json''))
      | Some j \<Rightarrow>
          if conforms (GStruct match_env_fields) j then Inr (concat (get_slice row_match_ids j ''rows''))
          else Inl (Wrapped ''decode envelope: '' (ErrText ''json'')))"

section \<open>The cycle of the matches\<close>

record matches_cfg =
  mc_ExplorerURL :: string
  mc_Queries :: "(string \<times> string) list"
  mc_DefaultKey :: string
  mc_Interval :: duration
  mc_RunAtStart :: bool
  mc_FileKey :: string

record 'w matches_cycle =
  mcy_out :: "'w queue_if"
  mcy_http :: "'w http_client"
  mcy_sink :: "'w sink_if"
  mcy_dedup :: "'w seen_if option"

definition matches_New :: "bool \<Rightarrow> bool \<Rightarrow> matches_cfg \<Rightarrow> go_error + matches_cfg" where
  "matches_New out_nil doer_nil c =
     (if out_nil then Inl (ErrText ''matches: out queue required'')
      else if doer_nil then Inl (ErrText ''matches: doer required'')
      else if mc_Queries c = [] then Inl (ErrText ''matches: no queries loaded'')
      else
        let key = (if mc_DefaultKey c = [] then ''default'' else mc_DefaultKey c) in
        if map_of (mc_Queries c) key = None then Inl (ErrText (''matches: default query '' @ quote key @ '' not found''))
        else Inr (c\<lparr>mc_DefaultKey := key\<rparr>))"

definition fetchMatchIDs :: "'w matches_cycle \<Rightarrow> matches_cfg \<Rightarrow> string \<Rightarrow> 'w \<Rightarrow> (go_error + int list) \<times> 'w" where
  "fetchMatchIDs C c sql w =
     (case get_body (mcy_http C) (Wrapped ''http: '') (explorer_base (mc_ExplorerURL c) @ ''?sql='' @ hc_escape (mcy_http C) sql) w of
        (Inl e, w1) \<Rightarrow> (Inl e, w1)
      | (Inr body, w1) \<Rightarrow> (parseMatchIDs body, w1))"

text \<open>A match that the set knows is skipped; if the set does not answer, the match is pushed. The result
  counts the pushed and the skipped.\<close>

definition push_id :: "'w matches_cycle \<Rightarrow> int \<Rightarrow> (nat \<times> nat) \<times> 'w \<Rightarrow> (nat \<times> nat) \<times> 'w" where
  "push_id C i s =
     (let ((np, ns), w) = s;
          (seen, w1) = (case mcy_dedup C of
                          None \<Rightarrow> (False, w)
                        | Some D \<Rightarrow> (case sn_IsSeen D (itoa i) w of (Inl e, wa) \<Rightarrow> (False, wa) | (Inr b, wa) \<Rightarrow> (b, wa)))
      in if seen then ((np, ns + 1), w1)
         else
           case q_Push (mcy_out C) (marshal_task i) w1 of
             (Some e, w2) \<Rightarrow> ((np, ns), w2)
           | (None, w2) \<Rightarrow> ((np + 1, ns), w2))"

definition push_ids :: "'w matches_cycle \<Rightarrow> int list \<Rightarrow> 'w \<Rightarrow> (nat \<times> nat) \<times> 'w" where
  "push_ids C ids w = fold (push_id C) ids ((0, 0), w)"

definition matches_RunOnce :: "'w matches_cycle \<Rightarrow> matches_cfg \<Rightarrow> 'w \<Rightarrow> go_error option \<times> 'w" where
  "matches_RunOnce C c w =
     (let key = (if mc_FileKey c \<noteq> [] then mc_FileKey c else mc_DefaultKey c) in
      case map_of (mc_Queries c) key of
        None \<Rightarrow> (Some (ErrText (''query '' @ quote key @ '' not found'')), w)
      | Some sql \<Rightarrow>
          (case fetchMatchIDs C c sql w of
             (Inl e, w1) \<Rightarrow>
               (Some (Wrapped (''fetch match ids ('' @ key @ ''): '') e), mt_FetchFailure (mcy_sink C) KindHTTP w1)
           | (Inr ids, w1) \<Rightarrow> (None, snd (push_ids C ids w1))))"

section \<open>What is found\<close>

lemma match_id_of_pos: "match_id_of r = Some n \<Longrightarrow> 0 < n \<and> is_int64 n"
proof -
  assume r: "match_id_of r = Some n"
  have "is_int64 n" if "atoi s = Some n" for s
    using that by (auto simp: atoi_def in_range64_def split: list.splits option.splits if_splits)
  then show ?thesis using r
    by (auto simp: match_id_of_def int_val_def int_ok_def split: if_splits option.splits json.splits)
qed

lemma match_id_of_number: "0 < n \<Longrightarrow> is_int64 n \<Longrightarrow> match_id_of (JNum (itoa n)) = Some n"
  by (simp add: match_id_of_def int_ok_def atoi_itoa int_val_def)

lemma match_id_of_string: "0 < n \<Longrightarrow> is_int64 n \<Longrightarrow> match_id_of (JStr (itoa n)) = Some n"
  by (simp add: match_id_of_def atoi_itoa str_val_def)

text \<open>An answer of the explorer, as PostgreSQL's \<^verbatim>\<open>array_agg\<close> columns come: rows of identifiers, each a
  number or a decimal string.\<close>

definition id_json :: "int \<times> bool \<Rightarrow> json" where
  "id_json x = (if snd x then JStr (itoa (fst x)) else JNum (itoa (fst x)))"

definition explorer_answer :: "(int \<times> bool) list list \<Rightarrow> json" where
  "explorer_answer rows =
     JObj [(''rows'', JArr (map (\<lambda>r. JObj [(''match_ids'', JArr (map id_json r))]) rows))]"

lemma explorer_answer_wf: "wf_json (explorer_answer rows)"
  by (auto simp: explorer_answer_def list_all_iff id_json_def is_number_itoa)

text \<open>(C35) The identifiers of an answer of the explorer are read completely and in order, whether they are
  written as numbers or as strings, over all rows; and whatever the answer is, only positive 64-bit
  numbers come out.\<close>

theorem match_ids_roundtrip:
  "(\<forall>rows. list_all (list_all (\<lambda>x. 0 < fst x \<and> is_int64 (fst x))) rows \<longrightarrow>
      parseMatchIDs (json_print (explorer_answer rows)) = Inr (concat (map (map fst) rows))) \<and>
   (\<forall>body ids. parseMatchIDs body = Inr ids \<longrightarrow> list_all (\<lambda>n. 0 < n \<and> is_int64 n) ids)"
proof (intro conjI allI impI)
  fix rows :: "(int \<times> bool) list list"
  assume rows: "list_all (list_all (\<lambda>x. 0 < fst x \<and> is_int64 (fst x))) rows"
  let ?row = "\<lambda>r. JObj [(''match_ids'', JArr (map id_json r))]"
  have vals: "field_vals (?row r) ''match_ids'' = [JArr (map id_json r)]"
    "field_vals (explorer_answer rows) ''rows'' = [JArr (map ?row rows)]" for r
    by (simp_all add: field_vals_def members_def key_eq_def explorer_answer_def)
  have ids: "row_match_ids (?row r) = map fst r" if "list_all (\<lambda>x. 0 < fst x \<and> is_int64 (fst x)) r" for r
  proof -
    have "row_match_ids (?row r) = List.map_filter match_id_of (map id_json r)"
      unfolding row_match_ids_def get_slice_def vals by (simp add: last_val_def arr_val_def)
    also have "\<dots> = map fst r"
      using that by (induction r) (auto simp: id_json_def match_id_of_number match_id_of_string)
    finally show ?thesis .
  qed
  have "conforms (GStruct match_env_fields) (explorer_answer rows)"
    by (simp add: match_env_fields_def explorer_answer_def list_all_iff)
  moreover have "get_slice row_match_ids (explorer_answer rows) ''rows'' = map (map fst) rows"
    unfolding get_slice_def vals using rows by (simp add: last_val_def arr_val_def ids list_all_iff)
  ultimately show "parseMatchIDs (json_print (explorer_answer rows)) = Inr (concat (map (map fst) rows))"
    by (simp add: parseMatchIDs_def json_parse_print [OF explorer_answer_wf] del: conforms.simps)
next
  fix body ids
  assume "parseMatchIDs body = Inr ids"
  then obtain j where ids: "ids = concat (get_slice row_match_ids j ''rows'')"
    by (auto simp: parseMatchIDs_def simp del: conforms.simps split: option.splits if_splits)
  show "list_all (\<lambda>n. 0 < n \<and> is_int64 n) ids"
    unfolding ids list_all_iff
    by (auto simp: get_slice_def row_match_ids_def List.map_filter_def dest: match_id_of_pos)
qed

theorem match_ids_roundtrip_witness:
  "parseMatchIDs (json_print (explorer_answer [[(7, False), (8, True)], [], [(9, False)]])) = Inr [7, 8, 9]"
  using match_ids_roundtrip [THEN conjunct1, rule_format, of "[[(7, False), (8, True)], [], [(9, False)]]"]
  by (simp add: is_int64_def)

section \<open>What is pushed\<close>

text \<open>The seen set and the queue of the stage, which do not touch each other.\<close>

locale discovery_stage =
  fixes C :: "'w matches_cycle" and D :: "'w seen_if"
    and seen :: "'w \<Rightarrow> string set" and queued :: "'w \<Rightarrow> bytes list"
  assumes dedup: "mcy_dedup C = Some D" "dedup_seen D seen"
    and seen_frame: "queued (snd (sn_IsSeen D k w)) = queued w"
    and push: "q_Push (mcy_out C) p w = (None, w') \<Longrightarrow> queued w' = queued w @ [p] \<and> seen w' = seen w"
    and push_err: "q_Push (mcy_out C) p w = (Some e, w') \<Longrightarrow> queued w' = queued w \<and> seen w' = seen w"
begin

lemma push_id_step:
  assumes "push_id C i ((a, b), w) = ((a', b'), w')"
  shows "seen w' = seen w \<and>
    (\<exists>q. queued w' = queued w @ q \<and> (q = [] \<or> q = [marshal_task i]) \<and> a' = a + length q \<and>
      (itoa i \<in> seen w \<longrightarrow> b' = b + 1 \<and> q = [] \<or> (\<exists>e. fst (sn_IsSeen D (itoa i) w) = Inl e)) \<and>
      (itoa i \<notin> seen w \<longrightarrow> b' = b))"
proof -
  obtain r w1 where s: "sn_IsSeen D (itoa i) w = (r, w1)" by fastforce
  have s1: "seen w1 = seen w"
    using s dedup_seen.is_seen [OF dedup(2), of "itoa i" w _ w1] dedup_seen.is_seen_err [OF dedup(2), of "itoa i" w _ w1]
    by (cases r) auto
  have q1: "queued w1 = queued w" using seen_frame s by (metis snd_conv)
  obtain e w2 where p: "q_Push (mcy_out C) (marshal_task i) w1 = (e, w2)" by fastforce
  have pq: "seen w2 = seen w \<and> queued w2 = (case e of None \<Rightarrow> queued w @ [marshal_task i] | Some _ \<Rightarrow> queued w)"
    using p push push_err s1 q1 by (cases e) auto
  show ?thesis
  proof (cases r)
    case (Inl x)
    then show ?thesis using assms s p pq dedup(1) by (cases e) (auto simp: push_id_def)
  next
    case (Inr y)
    then have y: "y = (itoa i \<in> seen w)" using s dedup_seen.is_seen [OF dedup(2)] by blast
    show ?thesis
    proof (cases y)
      case True
      then show ?thesis using assms s Inr y s1 q1 dedup(1) by (auto simp: push_id_def)
    next
      case False
      then show ?thesis using assms s Inr y p pq dedup(1) by (cases e) (auto simp: push_id_def)
    qed
  qed
qed

lemma push_fold:
  assumes "fold (push_id C) ids ((a, b), w) = ((a', b'), w')"
  shows "seen w' = seen w \<and> (\<exists>q. queued w' = queued w @ map marshal_task q \<and> subseq q ids \<and> a' = a + length q)"
  using assms
proof (induction ids arbitrary: a b w)
  case (Cons i ids)
  obtain a1 b1 w1 where one: "push_id C i ((a, b), w) = ((a1, b1), w1)" by (metis prod.collapse)
  have rest: "fold (push_id C) ids ((a1, b1), w1) = ((a', b'), w')" using Cons.prems one by simp
  from Cons.IH [OF rest] obtain q where q: "seen w' = seen w1" "queued w' = queued w1 @ map marshal_task q" "subseq q ids" "a' = a1 + length q"
    by blast
  from push_id_step [OF one] obtain p where p: "seen w1 = seen w" "queued w1 = queued w @ p" "p = [] \<or> p = [marshal_task i]" "a1 = a + length p"
    by blast
  from p(3) show ?case
  proof
    assume "p = []"
    then show ?thesis using p q by (intro conjI exI [of _ q]) (simp_all add: list_emb_Cons)
  next
    assume "p = [marshal_task i]"
    then show ?thesis using p q by (intro conjI exI [of _ "i # q"]) simp_all
  qed
qed (auto intro: exI [of _ "[]"])

text \<open>When neither the set nor the queue fails, exactly the unseen identifiers are pushed.\<close>

lemma push_fold_exact:
  assumes "\<And>k w e. fst (sn_IsSeen D k w) \<noteq> Inl e" and "\<And>p w e. fst (q_Push (mcy_out C) p w) \<noteq> Some e"
    and "fold (push_id C) ids ((a, b), w) = ((a', b'), w')"
  shows "queued w' = queued w @ map marshal_task (filter (\<lambda>i. itoa i \<notin> seen w) ids) \<and> seen w' = seen w \<and>
    a' + b' = a + b + length ids"
  using assms(3)
proof (induction ids arbitrary: a b w)
  case (Cons i ids)
  obtain a1 b1 w1 where one: "push_id C i ((a, b), w) = ((a1, b1), w1)" by (metis prod.collapse)
  have rest: "fold (push_id C) ids ((a1, b1), w1) = ((a', b'), w')" using Cons.prems one by simp
  obtain r w2 where s: "sn_IsSeen D (itoa i) w = (r, w2)" by fastforce
  have "r = Inr (itoa i \<in> seen w)"
    using s assms(1) [of "itoa i" w] dedup_seen.is_seen [OF dedup(2), of "itoa i" w _ w2] by (cases r) auto
  moreover have "fst (q_Push (mcy_out C) (marshal_task i) w2) = None"
    using assms(2) by (metis not_None_eq)
  ultimately have "queued w1 = queued w @ (if itoa i \<in> seen w then [] else [marshal_task i]) \<and> a1 + b1 = a + b + 1"
    using one s seen_frame [of "itoa i" w] push [of "marshal_task i" w2 w1] dedup(1)
    by (auto simp: push_id_def split: prod.splits option.splits)
  moreover have "seen w1 = seen w" using push_id_step [OF one] by blast
  ultimately show ?case using Cons.IH [OF rest] by simp
qed simp

end

text \<open>The stage on the in-memory adapters: the seen set is the rest of the world.\<close>

definition on_net :: "('n \<Rightarrow> 'r \<times> 'n) \<Rightarrow> 'n stage_world \<Rightarrow> 'r \<times> 'n stage_world" where
  "on_net f w = (let (r, n) = f (sw_net w) in (r, w\<lparr>sw_net := n\<rparr>))"

definition stage_seen_if :: "inmem_seen stage_world seen_if" where
  "stage_seen_if =
     \<lparr>sn_MarkSeen = (\<lambda>k. on_net (seen_MarkSeen k)), sn_IsSeen = (\<lambda>k. on_net (seen_IsSeen k)),
      sn_CheckBatch = (\<lambda>ks. on_net (seen_CheckBatch ks))\<rparr>"

definition mem_matches :: "bytes \<Rightarrow> inmem_seen stage_world matches_cycle" where
  "mem_matches body =
     \<lparr>mcy_out = out_if,
      mcy_http = \<lparr>hc_escape = id, hc_request = (\<lambda>_. None), hc_do = (\<lambda>_ w. (Inr \<lparr>StatusCode = 200, Body = body\<rparr>, w)),
                  hc_read = (\<lambda>r w. (Inr (Body r), w))\<rparr>,
      mcy_sink = stage_sink_if, mcy_dedup = Some stage_seen_if\<rparr>"

abbreviation sw_seen :: "inmem_seen stage_world \<Rightarrow> string set" where
  "sw_seen w \<equiv> set (sw_net w)"

lemma on_net_cases:
  assumes "on_net f w = (r, w')"
  obtains n where "f (sw_net w) = (r, n)" and "w' = w\<lparr>sw_net := n\<rparr>"
  using assms by (auto simp: on_net_def split: prod.splits)

lemma stage_seen_contract: "dedup_seen stage_seen_if sw_seen"
proof
  fix k ks b bs e and w w' :: "inmem_seen stage_world"
  note d = stage_seen_if_def seen_if.select_convs
  show "sn_MarkSeen stage_seen_if k w = (Inr b, w') \<Longrightarrow> b = (k \<in> sw_seen w) \<and> sw_seen w' = insert k (sw_seen w)"
    unfolding d by (erule on_net_cases) (use inmem_seen.mark in \<open>simp add: mem_seen_if_def\<close>)
  show "sn_MarkSeen stage_seen_if k w = (Inl e, w') \<Longrightarrow> sw_seen w' = sw_seen w \<or> sw_seen w' = insert k (sw_seen w)"
    unfolding d by (erule on_net_cases) (use inmem_seen.mark_err in \<open>simp add: mem_seen_if_def\<close>)
  show "sn_IsSeen stage_seen_if k w = (Inr b, w') \<Longrightarrow> b = (k \<in> sw_seen w) \<and> sw_seen w' = sw_seen w"
    unfolding d by (erule on_net_cases) (use inmem_seen.is_seen in \<open>simp add: mem_seen_if_def\<close>)
  show "sn_IsSeen stage_seen_if k w = (Inl e, w') \<Longrightarrow> sw_seen w' = sw_seen w"
    unfolding d by (erule on_net_cases) (use inmem_seen.is_seen_err in \<open>simp add: mem_seen_if_def\<close>)
  show "sn_CheckBatch stage_seen_if ks w = (Inr bs, w') \<Longrightarrow> bs = map (\<lambda>k. k \<in> sw_seen w) ks \<and> sw_seen w' = sw_seen w"
    unfolding d by (erule on_net_cases) (use inmem_seen.batch in \<open>simp add: mem_seen_if_def\<close>)
  show "sn_CheckBatch stage_seen_if ks w = (Inl e, w') \<Longrightarrow> sw_seen w' = sw_seen w"
    unfolding d by (erule on_net_cases) (use inmem_seen.batch_err in \<open>simp add: mem_seen_if_def\<close>)
qed

lemma mem_discovery_stage: "discovery_stage (mem_matches body) stage_seen_if sw_seen sw_queued"
proof (rule discovery_stage.intro)
  show "dedup_seen stage_seen_if sw_seen" by (rule stage_seen_contract)
qed (auto simp: mem_matches_def stage_seen_if_def on_net_def out_if_def on_out_def inmem_if_def inmem_Push_def nextID_def Let_def
  split: prod.splits)

interpretation mem_discovery: discovery_stage "mem_matches body" stage_seen_if sw_seen sw_queued for body
  by (rule mem_discovery_stage)



section \<open>The jitter of the tickers\<close>

text \<open>The period of a ticker is at least the interval and less than a tenth more; an interval of at
  most nine nanoseconds is taken as it is. The addition never wraps around for an interval of up to
  a hundred years.\<close>

lemma jitter_bounds:
  assumes "0 < d" and "d \<le> 876000 * hour" and "\<And>n. 0 < n \<Longrightarrow> 0 \<le> rand n \<and> rand n < n"
  shows "d \<le> jitter rand d \<and> jitter rand d \<le> d + d div 10 \<and> (10 \<le> d \<longrightarrow> jitter rand d < d + d div 10)"
proof (cases "10 \<le> d")
  case False
  then have "d div 10 = 0" using assms(1) by simp
  then show ?thesis using assms(1) False by (simp add: jitter_def go_div_nonneg)
next
  case True
  then have m: "0 < d div 10" "d div 10 \<le> d" by simp_all
  then have r: "0 \<le> rand (d div 10) \<and> rand (d div 10) < d div 10" using assms(3) by blast
  have "0 \<le> d + rand (d div 10)" "d + rand (d div 10) \<le> 2 * (876000 * hour)" using r m assms(1,2) by linarith+
  then have "is_int64 (d + rand (d div 10))" by (simp add: is_int64_def)
  then have "jitter rand d = d + rand (d div 10)"
    using assms(1) m by (simp add: jitter_def go_div_nonneg wrap64_id Let_def)
  then show ?thesis using r by simp
qed

lemma jitter_example:
  "5 * minute \<le> jitter (\<lambda>n. n - 1) (5 * minute) \<and> jitter (\<lambda>n. n - 1) (5 * minute) < 5 * minute + 30 * second"
  using jitter_bounds [of "5 * minute" "\<lambda>n. n - 1"] by simp

section \<open>The queries that are loaded\<close>

lemma has_suffix_append: "has_suffix (s @ p) p"
  by (simp add: has_suffix_def)

lemma has_suffix_split:
  assumes "has_suffix s p"
  shows "s = take (length s - length p) s @ p"
proof -
  have "rev (drop (length s - length p) s) = rev p"
    using assms by (simp add: has_suffix_def has_prefix_def take_rev)
  then show ?thesis by (metis append_take_drop_id rev_rev_ident)
qed

lemma sql_name: "has_suffix s ''.sql'' \<Longrightarrow> s = take (length s - 4) s @ ''.sql''"
  using has_suffix_split [of s "''.sql''"] by (simp add: numeral_eq_Suc)

lemma load_entries_result:
  assumes "load_entries rd es out = Inr qs" and "distinct (map fst es)"
    and "\<And>x. x \<in> set es \<Longrightarrow> map_of out (take (length (fst x) - 4) (fst x)) = None \<or> \<not> has_suffix (fst x) ''.sql''"
  shows "map_of qs k = (case map_of out k of
      Some s \<Rightarrow> Some s
    | None \<Rightarrow> (if (k @ ''.sql'', False) \<in> set es then
               (case rd (k @ ''.sql'') of Inr b \<Rightarrow> if trim_space b = [] then None else Some (trim_space b) | Inl e \<Rightarrow> None)
             else None))"
  using assms
proof (induction es arbitrary: out)
  case Nil
  then show ?case by (simp split: option.split)
next
  case (Cons x es)
  obtain name dir where x: "x = (name, dir)" by fastforce
  let ?key = "take (length name - 4) name"
  have fresh: "(name, d) \<notin> set es" for d using Cons.prems(2) x by force
  show ?case
  proof (cases "dir \<or> \<not> has_suffix name ''.sql''")
    case True
    then have "load_entries rd es out = Inr qs" using Cons.prems(1) x by simp
    note IH = Cons.IH [OF this] 
    have "name = k @ ''.sql'' \<Longrightarrow> dir" using True has_suffix_append [of k "''.sql''"] by auto
    then have "(k @ ''.sql'', False) \<in> set (x # es) \<longleftrightarrow> (k @ ''.sql'', False) \<in> set es" using x by auto
    then show ?thesis using IH Cons.prems by simp
  next
    case False
    then have nm: "name = ?key @ ''.sql''"
      using sql_name [of name] by simp
    have notin: "map_of out ?key = None" using Cons.prems(3) [of x] x False by simp
    obtain b where b: "rd name = Inr b" using Cons.prems(1) x False by (auto split: sum.splits)
    have keys: "take (length (fst y) - 4) (fst y) \<noteq> ?key \<or> \<not> has_suffix (fst y) ''.sql''" if "y \<in> set es" for y
    proof (rule ccontr)
      assume "\<not> ?thesis"
      then have s: "has_suffix (fst y) ''.sql''" "take (length (fst y) - 4) (fst y) = ?key" by auto
      have "fst y = name" using sql_name [OF s(1)] s(2) nm by simp
      then show False using fresh that by (metis prod.collapse)
    qed
    show ?thesis
    proof (cases "trim_space b = []")
      case True
      then have "load_entries rd es out = Inr qs" using Cons.prems(1) x False b by simp
      note IH = Cons.IH [OF this]
      show ?thesis
      proof (cases "k = ?key")
        case True
        then have "k @ ''.sql'' = name" using nm by simp
        then show ?thesis using IH Cons.prems(2,3) notin True fresh b \<open>trim_space b = []\<close> x False by simp
      next
        case other: False
        then have "k @ ''.sql'' \<noteq> name" using nm by auto
        then show ?thesis using IH Cons.prems(2,3) x by simp
      qed
    next
      case nonempty: False
      let ?out = "AList.update ?key (trim_space b) out"
      have l: "load_entries rd es ?out = Inr qs" using Cons.prems(1) x False b nonempty by (simp add: Let_def)
      have "map_of ?out (take (length (fst y) - 4) (fst y)) = None \<or> \<not> has_suffix (fst y) ''.sql''" if "y \<in> set es" for y
        using keys [OF that] Cons.prems(3) [of y] that by (auto simp: update_conv')
      note IH = Cons.IH [OF l _ this]
      show ?thesis
      proof (cases "k = ?key")
        case True
        then have "k @ ''.sql'' = name" using nm by simp
        then show ?thesis using IH Cons.prems(2) notin True b nonempty x False by (simp add: update_conv')
      next
        case other: False
        then have "k @ ''.sql'' \<noteq> name" using nm by auto
        then show ?thesis using IH Cons.prems(2) x other by (simp add: update_conv')
      qed
    qed
  qed
qed

text \<open>What the loader returns: for a directory without duplicate names, exactly the files that are
  not directories, end in \<^verbatim>\<open>.sql\<close> and are not blank, under the name without the ending, with the
  white space around the text removed; it never returns an empty set of queries.\<close>

theorem load_queries_exact:
  assumes "distinct (map fst es)" and "LoadQueries dir (Inr es) rd = Inr qs"
  shows "qs \<noteq> [] \<and>
    map_of qs k =
      (if (k @ ''.sql'', False) \<in> set es then
         (case rd (k @ ''.sql'') of Inr b \<Rightarrow> if trim_space b = [] then None else Some (trim_space b) | Inl e \<Rightarrow> None)
       else None)"
proof -
  have l: "load_entries rd es [] = Inr qs" and "qs \<noteq> []"
    using assms(2) by (auto simp: LoadQueries_def split: sum.splits if_splits)
  then show ?thesis using load_entries_result [OF l assms(1), of k] by simp
qed

theorem load_queries_exact_witness:
  "let rd = (\<lambda>n. if n = ''a.sql'' then Inr '' SELECT 1 '' else Inr ''  '');
       es = [(''a.sql'', False), (''b.sql'', False), (''notes.txt'', False), (''c.sql'', True)] in
   \<exists>qs. LoadQueries ''q'' (Inr es) rd = Inr qs \<and> map_of qs ''a'' = Some ''SELECT 1'' \<and> map_of qs ''b'' = None \<and> map_of qs ''c'' = None"
proof -
  let ?rd = "\<lambda>n. if n = ''a.sql'' then Inr '' SELECT 1 '' else Inr ''  ''"
  let ?es = "[(''a.sql'', False), (''b.sql'', False), (''notes.txt'', False), (''c.sql'', True)]"
  have l: "LoadQueries ''q'' (Inr ?es) ?rd = Inr [(''a'', ''SELECT 1'')]"
    by (simp add: LoadQueries_def has_suffix_def has_prefix_def trim_space_def space_runes_def)
  have "trim_space '' SELECT 1 '' = ''SELECT 1''" "trim_space ''  '' = []" by (simp_all add: trim_space_def space_runes_def has_prefix_def)
  then show ?thesis unfolding Let_def
    using l load_queries_exact [OF _ l, of "''a''"] load_queries_exact [OF _ l, of "''b''"] load_queries_exact [OF _ l, of "''c''"]
    by (intro exI [of _ "[(''a'', ''SELECT 1'')]"]) simp
qed

end
