(* ===== verification/Discoverer.thy ===== *)
theory Discoverer
  imports Discovery RefStores Waiting
begin

text \<open>
  The wiring of the discoverer (\<^verbatim>\<open>internal/bootstrap/discoverer.go\<close>): the cycle that finds matches and, when
  Postgres answers, the cycles that keep leagues, teams, professional players and hero statistics, with
  the decoders of their answers. The reading of a time in RFC 3339 is the argument \<open>tm\<close>, the order in
  which Go runs through a map the argument \<open>perm\<close>; whether a number fits a float type is not checked.
\<close>

section \<open>Rows of the explorer\<close>

definition deref_text :: "string option \<Rightarrow> string" where
  "deref_text s = (case s of None \<Rightarrow> [] | Some x \<Rightarrow> x)"

definition leagueRow :: go_type where
  "leagueRow =
     GStruct [(''leagueid'', GInt64), (''name'', GPtr GString), (''tier'', GPtr GString), (''ticket'', GPtr GString),
       (''banner'', GPtr GString)]"

definition league_of :: "json \<Rightarrow> League option" where
  "league_of r =
     (if \<not> conforms leagueRow r \<or> get_int r ''leagueid'' = 0 then None
      else Some
        \<lparr>lgu_LeagueID = get_int r ''leagueid'', lgu_Name = deref_text (get_ptr str_val r ''name''),
         lgu_Tier = deref_text (get_ptr str_val r ''tier''), lgu_Ticket = deref_text (get_ptr str_val r ''ticket''),
         lgu_Banner = deref_text (get_ptr str_val r ''banner'')\<rparr>)"

definition teamRow :: go_type where
  "teamRow =
     GStruct [(''team_id'', GInt64), (''name'', GPtr GString), (''tag'', GPtr GString), (''logo_url'', GPtr GString),
       (''rating'', GPtr GFloat), (''wins'', GPtr GInt64), (''losses'', GPtr GInt64), (''last_match_time'', GPtr GInt64),
       (''delta'', GPtr GFloat), (''match_id'', GPtr GInt64)]"

definition team_of :: "json \<Rightarrow> Team option" where
  "team_of r =
     (if \<not> conforms teamRow r \<or> get_int r ''team_id'' = 0 then None
      else Some
        \<lparr>tem_TeamID = get_int r ''team_id'', tem_Name = deref_text (get_ptr str_val r ''name''),
         tem_Tag = deref_text (get_ptr str_val r ''tag''), tem_LogoURL = deref_text (get_ptr str_val r ''logo_url''),
         tem_Rating = get_ptr num_val r ''rating'', tem_Wins = get_ptr int_val r ''wins'',
         tem_Losses = get_ptr int_val r ''losses'', tem_LastMatchTime = get_ptr int_val r ''last_match_time'',
         tem_Delta = get_ptr num_val r ''delta'', tem_MatchID = get_ptr int_val r ''match_id''\<rparr>)"

text \<open>A row that does not decode, or has no identifier, is passed over.\<close>

definition league_rows :: "json list \<Rightarrow> go_error + League list" where
  "league_rows rows = Inr (List.map_filter league_of rows)"

definition team_rows :: "json list \<Rightarrow> go_error + Team list" where
  "team_rows rows = Inr (List.map_filter team_of rows)"

section \<open>Answers of the API\<close>

definition proplayer_type :: go_type where
  "proplayer_type =
     GStruct [(''account_id'', GInt64), (''steamid'', GPtr GString), (''personaname'', GPtr GString),
       (''name'', GPtr GString), (''country_code'', GPtr GString), (''fantasy_role'', GPtr GInt64),
       (''team_id'', GPtr GInt64), (''team_name'', GPtr GString), (''team_tag'', GPtr GString),
       (''is_pro'', GPtr GBool), (''is_locked'', GPtr GBool), (''avatar'', GPtr GString),
       (''last_match_time'', GPtr GString), (''last_login'', GPtr GString), (''full_history_time'', GPtr GString),
       (''cheese'', GPtr GInt64), (''fh_unavailable'', GPtr GBool), (''loccountrycode'', GPtr GString),
       (''plus'', GPtr GBool)]"

definition proplayer_of :: "(string \<Rightarrow> int option) \<Rightarrow> json \<Rightarrow> ProPlayer" where
  "proplayer_of tm j =
     \<lparr>ppl_AccountID = get_int j ''account_id'',
      ppl_SteamID = get_ptr str_val j ''steamid'',
      ppl_Personaname = get_ptr str_val j ''personaname'',
      ppl_Name = get_ptr str_val j ''name'',
      ppl_CountryCode = get_ptr str_val j ''country_code'',
      ppl_FantasyRole = get_ptr int_val j ''fantasy_role'',
      ppl_TeamID = get_ptr int_val j ''team_id'',
      ppl_TeamName = get_ptr str_val j ''team_name'',
      ppl_TeamTag = get_ptr str_val j ''team_tag'',
      ppl_IsPro = get_ptr bool_val j ''is_pro'',
      ppl_IsLocked = get_ptr bool_val j ''is_locked'',
      ppl_Avatar = get_ptr str_val j ''avatar'',
      ppl_LastMatchTime = get_ptr (\<lambda>v. the (tm (str_val v))) j ''last_match_time'',
      ppl_LastLogin = get_ptr (\<lambda>v. the (tm (str_val v))) j ''last_login'',
      ppl_FullHistoryTime = get_ptr (\<lambda>v. the (tm (str_val v))) j ''full_history_time'',
      ppl_Cheese = get_ptr int_val j ''cheese'',
      ppl_FhUnavailable = get_ptr bool_val j ''fh_unavailable'',
      ppl_LocCountryCode = get_ptr str_val j ''loccountrycode'',
      ppl_Plus = get_ptr bool_val j ''plus''\<rparr>"

text \<open>\<^verbatim>\<open>time.Time\<close> refuses a text that is not a time.\<close>

definition time_ok :: "(string \<Rightarrow> int option) \<Rightarrow> json \<Rightarrow> string \<Rightarrow> bool" where
  "time_ok tm j n = list_all (\<lambda>v. v = JNull \<or> tm (str_val v) \<noteq> None) (field_vals j n)"

definition proplayers_decode :: "(string \<Rightarrow> int option) \<Rightarrow> bytes \<Rightarrow> go_error + ProPlayer list" where
  "proplayers_decode tm body =
     (case json_parse body of
        None \<Rightarrow> Inl (ErrText ''json'')
      | Some j \<Rightarrow>
          if conforms (GSlice proplayer_type) j \<and>
             list_all (\<lambda>p. list_all (time_ok tm p) [''last_match_time'', ''last_login'', ''full_history_time'']) (arr_val j)
          then Inr (map (proplayer_of tm) (arr_val j))
          else Inl (ErrText ''json''))"

definition herostat_type :: go_type where
  "herostat_type =
     GStruct [(''id'', GInt16), (''base_health'', GPtr GInt64), (''base_mana'', GPtr GInt64),
       (''base_armor'', GPtr GFloat), (''base_mr'', GPtr GFloat), (''base_attack_min'', GPtr GInt16),
       (''base_attack_max'', GPtr GInt16), (''base_str'', GPtr GInt16), (''base_agi'', GPtr GInt16),
       (''base_int'', GPtr GInt16), (''str_gain'', GPtr GFloat), (''agi_gain'', GPtr GFloat),
       (''int_gain'', GPtr GFloat), (''attack_range'', GPtr GInt16), (''projectile_speed'', GPtr GInt16),
       (''attack_rate'', GPtr GFloat), (''move_speed'', GPtr GInt16), (''turn_rate'', GPtr GFloat),
       (''cm_enabled'', GPtr GBool), (''turbo_picks'', GPtr GInt64), (''turbo_wins'', GPtr GInt64),
       (''pro_pick'', GPtr GInt64), (''pro_win'', GPtr GInt64), (''pro_ban'', GPtr GInt64),
       (''pub_pick'', GPtr GInt64), (''pub_win'', GPtr GInt64)]"

definition herostat_of :: "json \<Rightarrow> HeroStat" where
  "herostat_of j =
     \<lparr>hst_ID = get_int j ''id'',
      hst_BaseHealth = get_ptr int_val j ''base_health'',
      hst_BaseMana = get_ptr int_val j ''base_mana'',
      hst_BaseArmor = get_ptr num_val j ''base_armor'',
      hst_BaseMR = get_ptr num_val j ''base_mr'',
      hst_BaseAttackMin = get_ptr int_val j ''base_attack_min'',
      hst_BaseAttackMax = get_ptr int_val j ''base_attack_max'',
      hst_BaseStr = get_ptr int_val j ''base_str'',
      hst_BaseAgi = get_ptr int_val j ''base_agi'',
      hst_BaseInt = get_ptr int_val j ''base_int'',
      hst_StrGain = get_ptr num_val j ''str_gain'',
      hst_AgiGain = get_ptr num_val j ''agi_gain'',
      hst_IntGain = get_ptr num_val j ''int_gain'',
      hst_AttackRange = get_ptr int_val j ''attack_range'',
      hst_ProjectileSpeed = get_ptr int_val j ''projectile_speed'',
      hst_AttackRate = get_ptr num_val j ''attack_rate'',
      hst_MoveSpeed = get_ptr int_val j ''move_speed'',
      hst_TurnRate = get_ptr num_val j ''turn_rate'',
      hst_CmEnabled = get_ptr bool_val j ''cm_enabled'',
      hst_TurboPicks = get_ptr int_val j ''turbo_picks'',
      hst_TurboWins = get_ptr int_val j ''turbo_wins'',
      hst_ProPick = get_ptr int_val j ''pro_pick'',
      hst_ProWin = get_ptr int_val j ''pro_win'',
      hst_ProBan = get_ptr int_val j ''pro_ban'',
      hst_PubPick = get_ptr int_val j ''pub_pick'',
      hst_PubWin = get_ptr int_val j ''pub_win''\<rparr>"

definition herostats_decode :: "bytes \<Rightarrow> go_error + HeroStat list" where
  "herostats_decode body =
     (case json_parse body of
        None \<Rightarrow> Inl (ErrText ''json'')
      | Some j \<Rightarrow>
          if conforms (GSlice herostat_type) j then Inr (map herostat_of (arr_val j)) else Inl (ErrText ''json''))"

section \<open>The cycles\<close>

definition upsert_fn :: "('t list \<Rightarrow> 'w \<Rightarrow> (nat \<times> go_error option) \<times> 'w) \<Rightarrow> 't list \<Rightarrow> 'w \<Rightarrow> (go_error + int) \<times> 'w" where
  "upsert_fn f items w = (case f items w of ((n, Some e), w1) \<Rightarrow> (Inl e, w1) | ((n, None), w1) \<Rightarrow> (Inr (int n), w1))"

definition buildLeagueCycle :: "'w http_client \<Rightarrow> 'w pgtx \<Rightarrow> string \<Rightarrow> string \<Rightarrow> duration \<Rightarrow> ('w, League) cycle" where
  "buildLeagueCycle H P explorerURL sql interval =
     NewExplorerCycle ''leagues'' H explorerURL sql interval league_rows (upsert_fn (league_Upsert P))"

definition buildTeamCycle :: "'w http_client \<Rightarrow> 'w pgtx \<Rightarrow> string \<Rightarrow> string \<Rightarrow> duration \<Rightarrow> ('w, Team) cycle" where
  "buildTeamCycle H P explorerURL sql interval =
     NewExplorerCycle ''teams'' H explorerURL sql interval team_rows (upsert_fn (team_Upsert P))"

definition buildProPlayerCycle :: "(string \<Rightarrow> int option) \<Rightarrow> 'w http_client \<Rightarrow> 'w pgtx \<Rightarrow> string \<Rightarrow> duration \<Rightarrow> ('w, ProPlayer) cycle" where
  "buildProPlayerCycle tm H P url interval =
     NewHTTPCycle ''proplayers'' H url interval (proplayers_decode tm) (upsert_fn (proplayer_Upsert P))"

definition buildHeroStatsCycle :: "(int \<Rightarrow> int \<Rightarrow> string) \<Rightarrow> 'w http_client \<Rightarrow> 'w pgtx \<Rightarrow> string \<Rightarrow> duration \<Rightarrow> ('w, HeroStat) cycle" where
  "buildHeroStatsCycle fdiv H P url interval =
     NewHTTPCycle ''herostats'' H url interval herostats_decode (upsert_fn (herostat_Upsert P fdiv))"

definition pickQuery :: "((string \<times> string) list \<Rightarrow> (string \<times> string) list) \<Rightarrow> (string \<times> string) list \<Rightarrow> string \<Rightarrow> string" where
  "pickQuery perm queries fallback =
     (case map_of queries fallback of
        Some sql \<Rightarrow> sql
      | None \<Rightarrow> (case perm queries of [] \<Rightarrow> [] | (k, v) # _ \<Rightarrow> v))"

section \<open>The discoverer\<close>

text \<open>What the discoverer is built from besides the configuration: the matches cycle's queue, client, sink
  and seen set, the directories of queries, and how the pool of Postgres runs a transaction.\<close>

record ('w, 'p) disc_env =
  de_matches :: "'w matches_cycle"
  de_list :: "string \<Rightarrow> go_error + (string \<times> bool) list"
  de_read :: "string \<Rightarrow> string \<Rightarrow> go_error + bytes"
  de_perm :: "(string \<times> string) list \<Rightarrow> (string \<times> string) list"
  de_time :: "string \<Rightarrow> int option"
  de_fdiv :: "int \<Rightarrow> int \<Rightarrow> string"
  de_tx :: "'p \<Rightarrow> 'w pgtx"

definition any_of :: "('w, 't) cycle \<Rightarrow> 'w any_cycle" where
  "any_of f = \<lparr>ac_Name = cy_name f, ac_Interval = cy_interval f, ac_RunAtStart = cy_runAtStart f, ac_RunOnce = cycle_RunOnce f\<rparr>"

definition any_matches :: "'w matches_cycle \<Rightarrow> matches_cfg \<Rightarrow> 'w any_cycle" where
  "any_matches C c =
     \<lparr>ac_Name = ''matches'', ac_Interval = mc_Interval c, ac_RunAtStart = mc_RunAtStart c, ac_RunOnce = matches_RunOnce C c\<rparr>"

definition needsPG :: "discovery_config \<Rightarrow> bool" where
  "needsPG c \<longleftrightarrow> dsc_LeagueQueriesDir c \<noteq> [] \<or> dsc_TeamQueriesDir c \<noteq> [] \<or> dsc_ProPlayerURL c \<noteq> [] \<or> dsc_HeroStatsURL c \<noteq> []"

text \<open>A cycle over a directory of queries: none without a directory, or when it holds no query.\<close>

definition query_cycle :: "('w, 'p) disc_env \<Rightarrow> string \<Rightarrow> (string \<Rightarrow> 'w any_cycle) \<Rightarrow> 'w any_cycle list" where
  "query_cycle E dir mk =
     (if dir = [] then []
      else case LoadQueries dir (de_list E dir) (de_read E dir) of
             Inl e \<Rightarrow> []
           | Inr qs \<Rightarrow> if qs = [] then [] else [mk (pickQuery (de_perm E) qs ''default'')])"

definition pg_cycles :: "('w, 'p) disc_env \<Rightarrow> discovery_config \<Rightarrow> 'p \<Rightarrow> 'w any_cycle list" where
  "pg_cycles E c p =
     (let H = mcy_http (de_matches E); P = de_tx E p; url = dsc_UpstreamURL c in
      query_cycle E (dsc_LeagueQueriesDir c) (\<lambda>sql. any_of (buildLeagueCycle H P url sql (dsc_LeagueInterval c))) @
      query_cycle E (dsc_TeamQueriesDir c) (\<lambda>sql. any_of (buildTeamCycle H P url sql (dsc_TeamInterval c))) @
      (if dsc_ProPlayerURL c = [] then []
       else [any_of (buildProPlayerCycle (de_time E) H P (dsc_ProPlayerURL c) (dsc_ProPlayerInterval c))]) @
      (if dsc_HeroStatsURL c = [] then []
       else [any_of (buildHeroStatsCycle (de_fdiv E) H P (dsc_HeroStatsURL c) (dsc_HeroStatsInterval c))]))"

record ('w, 'p) discoverer_deps =
  dd_Pool :: "'p option"
  dd_Cycles :: "'w any_cycle list"
  dd_Matches :: "'w any_cycle"

definition disc_matches_cfg :: "discovery_config \<Rightarrow> (string \<times> string) list \<Rightarrow> string \<Rightarrow> matches_cfg" where
  "disc_matches_cfg c queries fileKey =
     \<lparr>mc_ExplorerURL = dsc_UpstreamURL c, mc_Queries = queries, mc_DefaultKey = dsc_DefaultQueryKey c,
      mc_Interval = dsc_Interval c, mc_RunAtStart = dsc_RunAtStart c, mc_FileKey = fileKey\<rparr>"

text \<open>\<open>None\<close> while it still waits for Postgres.\<close>

definition BuildDiscoverer ::
  "('w, 'p) disc_env \<Rightarrow> ('w \<Rightarrow> (go_error + 'p) \<times> 'w) \<Rightarrow> ('w \<Rightarrow> int) \<Rightarrow> pause list \<Rightarrow> discovery_config \<Rightarrow> (string \<times> string) list \<Rightarrow> string \<Rightarrow>
   'w \<Rightarrow> (go_error + ('w, 'p) discoverer_deps) option \<times> 'w" where
  "BuildDiscoverer E open_pg now es c queries fileKey w =
     (case matches_New False False (disc_matches_cfg c queries fileKey) of
        Inl e \<Rightarrow> (Some (Inl e), w)
      | Inr m \<Rightarrow>
          let mc = any_matches (de_matches E) m;
              without = Inr \<lparr>dd_Pool = None, dd_Cycles = [mc], dd_Matches = mc\<rparr> in
          if \<not> needsPG c then (Some without, w)
          else
            case WaitForPostgres open_pg now \<lparr>wc_MinSize = 0, wc_Timeout = 0, wc_PollInterval = 30 * second\<rparr> es w of
              (None, w1) \<Rightarrow> (None, w1)
            | (Some (Inl e), w1) \<Rightarrow> (Some without, w1)
            | (Some (Inr p), w1) \<Rightarrow>
                (Some (Inr \<lparr>dd_Pool = Some p, dd_Cycles = mc # pg_cycles E c p, dd_Matches = mc\<rparr>), w1))"

section \<open>The leagues of an answer are stored\<close>

text \<open>An answer of the explorer whose rows are leagues, printed, and rows that are none.\<close>

definition league_json :: "League \<Rightarrow> json" where
  "league_json x =
     JObj [(''leagueid'', JNum (itoa (lgu_LeagueID x))), (''name'', JStr (lgu_Name x)), (''tier'', JStr (lgu_Tier x)),
       (''ticket'', JStr (lgu_Ticket x)), (''banner'', JStr (lgu_Banner x))]"

definition league_answer :: "(League + json) list \<Rightarrow> json" where
  "league_answer rows = JObj [(''rows'', JArr (map (case_sum league_json id) rows))]"

definition row_ok :: "League + json \<Rightarrow> bool" where
  "row_ok r = (case r of
     Inl x \<Rightarrow> lgu_LeagueID x \<noteq> 0 \<and> is_int64 (lgu_LeagueID x)
   | Inr j \<Rightarrow> wf_json j \<and> league_of j = None)"

definition the_leagues :: "(League + json) list \<Rightarrow> League list" where
  "the_leagues rows = List.map_filter (case_sum Some (\<lambda>_. None)) rows"

lemma league_of_json: "lgu_LeagueID x \<noteq> 0 \<Longrightarrow> is_int64 (lgu_LeagueID x) \<Longrightarrow> league_of (league_json x) = Some x"
  by (simp add: league_of_def league_json_def leagueRow_def int_ok_def atoi_itoa get_int_def get_ptr_def field_vals_def members_def
      key_eq_def lower_def non_null_def last_val_def int_val_def str_val_def deref_text_def)

lemma league_rows_of_answer:
  "list_all row_ok rows \<Longrightarrow> List.map_filter league_of (map (case_sum league_json id) rows) = the_leagues rows"
  by (induction rows) (auto simp: row_ok_def the_leagues_def league_of_json map_filter_simps split: sum.splits)

lemma league_answer_rows:
  assumes "list_all row_ok rows"
  shows "explorer_rows (json_print (league_answer rows)) = Inr (map (case_sum league_json id) rows)"
proof -
  have "wf_json (league_answer rows)"
    using assms by (auto simp: league_answer_def league_json_def row_ok_def list_all_iff is_number_itoa split: sum.splits)
  from json_parse_print [OF this] show ?thesis
    by (simp only: explorer_rows_def option.case)
       (simp add: league_answer_def get_slice_def field_vals_def members_def key_eq_def
        last_val_def arr_val_def list_all_iff)
qed

lemma league_upsert_db:
  assumes "ref_driver P db tx" and "upsert_fn (league_Upsert P) ls w = (r, w')"
  shows "(db w' = db w \<or> db w' = fold apply_ref (map league_row ls) (db w)) \<and>
    (\<forall>n. r = Inr n \<longrightarrow> db w' = fold apply_ref (map league_row ls) (db w))"
proof -
  obtain n e w1 where u: "league_Upsert P ls w = ((n, e), w1)" by (metis prod.exhaust)
  then show ?thesis using discoverer_writers_atomic(1) [OF assms(1) u] assms(2)
    by (auto simp: upsert_fn_def split: option.splits)
qed


definition sample_rows :: "(League + json) list" where
  "sample_rows =
     [Inl \<lparr>lgu_LeagueID = 7, lgu_Name = ''TI'', lgu_Tier = ''premium'', lgu_Ticket = [], lgu_Banner = []\<rparr>, Inr JNull,
      Inr (JObj [(''leagueid'', JStr ''x'')])]"

definition sample_client :: "mem_pg http_client" where
  "sample_client =
     \<lparr>hc_escape = id, hc_request = (\<lambda>_. None), hc_do = (\<lambda>_ w. (Inr \<lparr>StatusCode = 200, Body = json_print (league_answer sample_rows)\<rparr>, w)),
      hc_read = (\<lambda>r w. (Inr (Body r), w))\<rparr>"


section \<open>Waiting for Postgres\<close>

text \<open>The addresses of the players and of the statistics cannot be emptied by the environment, so the
  discoverer always needs Postgres, and while Postgres does not answer it is never built: not even the
  matches are looked for.\<close>

lemma discoverer_always_needs_postgres: "needsPG (cfg_Discovery (config_Load dotenv pf path env))"
  by (simp add: needsPG_def config_Load_def Let_def load_discovery_config_def getStr_def)

lemma discoverer_waits_for_postgres:
  assumes "needsPG c" and "\<And>w. \<exists>e w'. open_pg w = (Inl e, w')" and "BuildDiscoverer E open_pg now (replicate n Polled) c qs key w = (Some r, w')"
  shows "\<exists>e. r = Inl e \<and> matches_New False False (disc_matches_cfg c qs key) = Inl e"
proof (cases "matches_New False False (disc_matches_cfg c qs key)")
  case (Inl e)
  then show ?thesis using assms(3) by (simp add: BuildDiscoverer_def)
next
  case (Inr m)
  have "fst (WaitForPostgres open_pg now \<lparr>wc_MinSize = 0, wc_Timeout = 0, wc_PollInterval = 30 * second\<rparr> (replicate n Polled) w) = None"
    by (rule postgres_wait_is_unlimited) (simp_all add: assms(2))
  then show ?thesis using assms(1,3) Inr by (auto simp: BuildDiscoverer_def Let_def split: prod.splits option.splits)
qed

end
