(* ===== verification/Programs.thy ===== *)
theory Programs
  imports Bootstrap Discoverer
begin

text \<open>
  The programs of the pipeline (\<^verbatim>\<open>cmd/fetcher\<close>, \<^verbatim>\<open>cmd/parser\<close>, \<^verbatim>\<open>cmd/enricher\<close>, \<^verbatim>\<open>cmd/discoverer\<close>): how each
  starts, and what runs beside or instead of a worker. Telemetry, logging and the closing of connections
  are left out. The waits and the tickers are runs over lists of events.
\<close>

text \<open>How a start ends: it still waits, the program exits with a status, or it runs with what was built.\<close>

datatype 'x start = StillWaiting | Exits int | Runs 'x

definition must :: "go_error + 'a \<Rightarrow> ('a \<Rightarrow> 'x start) \<Rightarrow> 'x start" where
  "must r k = (case r of Inl e \<Rightarrow> Exits 1 | Inr x \<Rightarrow> k x)"

definition must_wait :: "(go_error + 'a) option \<Rightarrow> ('a \<Rightarrow> 'x start) \<Rightarrow> 'x start" where
  "must_wait r k = (case r of None \<Rightarrow> StillWaiting | Some x \<Rightarrow> must x k)"

definition wait_result :: "go_error option option \<Rightarrow> (go_error + unit) option" where
  "wait_result r = map_option (\<lambda>e. case e of None \<Rightarrow> Inr () | Some x \<Rightarrow> Inl x) r"

section \<open>The fetcher\<close>

text \<open>An error of the worker is only logged: once it runs, the program exits with status 0.\<close>

definition fetcher_start ::
  "'d redis \<Rightarrow> (redis_config \<Rightarrow> go_error + 'd) \<Rightarrow> go_error + 's \<Rightarrow> env \<Rightarrow> ('d \<Rightarrow> int) \<Rightarrow> wait_event list \<Rightarrow> config \<Rightarrow> 'd fetcher_deps start" where
  "fetcher_start R connect new_sink env now es c =
     must (Core connect new_sink c) (\<lambda>(d, s).
     must (boot_ProxyPool env (cfg_Proxy c)) (\<lambda>(pool, _).
     must_wait (BuildFetcher R (rpool_Size R pool) now es c d) Runs))"

section \<open>The parser\<close>

definition parser_start ::
  "'d redis \<Rightarrow> (redis_config \<Rightarrow> go_error + 'd) \<Rightarrow> go_error + 's \<Rightarrow> ('d \<Rightarrow> (go_error + 'p) \<times> 'd) \<Rightarrow> ('d \<Rightarrow> int) \<Rightarrow> pause list \<Rightarrow>
   ('p \<Rightarrow> 'w ingest) \<Rightarrow> 'w sink_if \<Rightarrow> (seen_cfg \<Rightarrow> 'w seen_if) \<Rightarrow> config \<Rightarrow> ('d, 'w) parser_deps start" where
  "parser_start R connect new_sink open_pg now es repo sink seen c =
     must (Core connect new_sink c) (\<lambda>(d, s).
     let (r, d1) = WaitForPostgres open_pg now \<lparr>wc_MinSize = 0, wc_Timeout = 0, wc_PollInterval = 30 * second\<rparr> es d
     in must_wait r (\<lambda>p. must (fst (BuildParser R (repo p) sink seen c d1)) Runs))"

text \<open>The goroutine that keeps partitions ahead: once at the start and at every tick. \<open>run\<close> calls the
  function of the database with a number of quarters; \<open>now\<close> is the clock of the program, \<open>later\<close> the
  reading \<^verbatim>\<open>EnsurePartitions\<close> takes after it, \<open>add_year\<close> is \<^verbatim>\<open>AddDate(1, 0, 0)\<close>. Errors are only logged.\<close>

datatype maintenance_event = MaintenanceTick | MaintenanceDone

definition maintain :: "(int \<Rightarrow> 'w \<Rightarrow> go_error option \<times> 'w) \<Rightarrow> ('w \<Rightarrow> int) \<Rightarrow> ('w \<Rightarrow> int) \<Rightarrow> (int \<Rightarrow> int) \<Rightarrow> 'w \<Rightarrow> 'w" where
  "maintain run now later add_year w = snd (EnsurePartitions run (later w) (add_year (now w)) w)"

fun maintenance_loop :: "('w \<Rightarrow> 'w) \<Rightarrow> maintenance_event list \<Rightarrow> 'w \<Rightarrow> 'w" where
  "maintenance_loop step [] w = w"
| "maintenance_loop step (MaintenanceDone # es) w = w"
| "maintenance_loop step (MaintenanceTick # es) w = maintenance_loop step es (step w)"

definition partition_maintenance ::
  "(int \<Rightarrow> 'w \<Rightarrow> go_error option \<times> 'w) \<Rightarrow> ('w \<Rightarrow> int) \<Rightarrow> ('w \<Rightarrow> int) \<Rightarrow> (int \<Rightarrow> int) \<Rightarrow> parser_config \<Rightarrow> maintenance_event list \<Rightarrow> 'w \<Rightarrow> 'w" where
  "partition_maintenance run now later add_year c es w =
     (if 0 < psc_PartitionMaintenanceInterval c then
        (let step = maintain run now later add_year in maintenance_loop step es (step w))
      else w)"

section \<open>The enricher\<close>

text \<open>\<open>ne_src\<close> gives the surroundings of the sources for a base URL: the files or the network, and the
  writer on Postgres.\<close>

record 'w enricher_env =
  ne_now :: "'w \<Rightarrow> int"
  ne_ctx :: "'w \<Rightarrow> go_error option"
  ne_gate :: "'w gate_env"
  ne_src :: "string \<Rightarrow> 'w src_env"

definition runner_env :: "'w enricher_env \<Rightarrow> 'w enricher_deps \<Rightarrow> string \<Rightarrow> 'w enrich_env" where
  "runner_env N D base =
     \<lparr>en_wired = True, en_ctx = ne_ctx N, en_gate = ed_gate D, en_now = ne_now N, en_run = constants_Run (ne_src N base) base\<rparr>"

definition main_cycle :: "'w enricher_env \<Rightarrow> 'w enricher_deps \<Rightarrow> enrich_config \<Rightarrow> 'w \<Rightarrow> 'w" where
  "main_cycle N D c w = snd (enrich_Run (runner_env N D (enc_DotaConstantsBaseURL c)) (ed_main D) w)"

datatype enrich_event = EnrichTick | EnrichDone

fun enrich_loop :: "('w \<Rightarrow> 'w) \<Rightarrow> enrich_event list \<Rightarrow> 'w \<Rightarrow> 'w" where
  "enrich_loop step [] w = w"
| "enrich_loop step (EnrichDone # es) w = w"
| "enrich_loop step (EnrichTick # es) w = enrich_loop step es (step w)"

definition enricher_run :: "'w enricher_env \<Rightarrow> 'w enricher_deps \<Rightarrow> enrich_config \<Rightarrow> enrich_event list \<Rightarrow> 'w \<Rightarrow> 'w" where
  "enricher_run N D c es w =
     (let w1 = (case ed_local D of None \<Rightarrow> w | Some srcs \<Rightarrow> snd (enrich_Run (runner_env N D (local_base c)) srcs w));
          w2 = (if enc_RunAtStart c then main_cycle N D c w1 else w1)
      in if enc_Interval c \<le> 0 then w2 else enrich_loop (main_cycle N D c) es w2)"

definition enricher_start ::
  "'d redis \<Rightarrow> (redis_config \<Rightarrow> go_error + 'd) \<Rightarrow> go_error + 's \<Rightarrow> env \<Rightarrow> ('d \<Rightarrow> int) \<Rightarrow> wait_event list \<Rightarrow> ('d \<Rightarrow> (go_error + 'p) \<times> 'd) \<Rightarrow> pause list \<Rightarrow>
   'd gate_env \<Rightarrow> config \<Rightarrow> ('d enricher_deps \<times> 'd) start" where
  "enricher_start R connect new_sink env now es open_pg ps G c =
     must (Core connect new_sink c) (\<lambda>(d, s).
     must (boot_ProxyPool env (cfg_Proxy c)) (\<lambda>(pool, _).
     let (r, d1) = (if enc_AllowDirect (cfg_Enrich c) then (Some None, d)
                    else WaitForProxies (rpool_Size R pool) now
                      \<lparr>wc_MinSize = pxc_MinPoolSize (cfg_Proxy c), wc_Timeout = enc_WaitTimeout (cfg_Enrich c), wc_PollInterval = 2 * second\<rparr> es d)
     in must_wait (wait_result r) (\<lambda>_.
     let (q, d2) = WaitForPostgres open_pg now \<lparr>wc_MinSize = 0, wc_Timeout = 0, wc_PollInterval = 30 * second\<rparr> ps d1
     in must_wait q (\<lambda>p. must (BuildEnricher G c) (\<lambda>D. Runs (D, d2))))))"

section \<open>The discoverer\<close>

text \<open>\<open>mk\<close> makes the surroundings of the discoverer from the queue, the set of seen matches, if it could be
  made, and the client.\<close>

definition discoverer_doer :: "config \<Rightarrow> doer_cfg" where
  "discoverer_doer c =
     \<lparr>Hold = pxc_Hold (cfg_Proxy c), Timeout = dsc_HTTPTimeout (cfg_Discovery c), dc_MaxRetries = dsc_MaxRetries (cfg_Discovery c),
      dc_Backoff = dsc_RetryBackoff (cfg_Discovery c), AllowDirect = dsc_AllowDirect (cfg_Discovery c)\<rparr>"

definition discoverer_start ::
  "'d redis \<Rightarrow> (redis_config \<Rightarrow> go_error + 'd) \<Rightarrow> go_error + 's \<Rightarrow> env \<Rightarrow> ('d \<Rightarrow> int) \<Rightarrow> wait_event list \<Rightarrow> ('d \<Rightarrow> (go_error + 'p) \<times> 'd) \<Rightarrow> pause list \<Rightarrow>
   (string \<Rightarrow> go_error + (string \<times> bool) list) \<Rightarrow> (string \<Rightarrow> string \<Rightarrow> go_error + bytes) \<Rightarrow>
   ('d rs_queue \<Rightarrow> seen_cfg option \<Rightarrow> doer_cfg \<times> doer \<Rightarrow> ('d, 'p) disc_env) \<Rightarrow> string \<Rightarrow> config \<Rightarrow>
   (('d, 'p) discoverer_deps \<times> 'd) start" where
  "discoverer_start R connect new_sink env now es open_pg ps ls rd mk fileKey c =
     must (Core connect new_sink c) (\<lambda>(d, s).
     must (boot_ProxyPool env (cfg_Proxy c)) (\<lambda>(pool, _).
     let D = cfg_Discovery c;
         (r, d1) = (if dsc_AllowDirect D then (Some None, d)
                    else WaitForProxies (rpool_Size R pool) now
                      \<lparr>wc_MinSize = dsc_MinProxyPoolSize D, wc_Timeout = dsc_WaitTimeout D, wc_PollInterval = 2 * second\<rparr> es d)
     in must_wait (wait_result r) (\<lambda>_.
     must (FetchQueue R (cfg_Queue c) d1) (\<lambda>q.
     let (ds, d2) = boot_DedupSeen R (cfg_Dedup c) (rdb q);
         seen = (case ds of Inl _ \<Rightarrow> None | Inr sc \<Rightarrow> Some sc)
     in must (LoadQueries (dsc_QueriesDir D) (ls (dsc_QueriesDir D)) (rd (dsc_QueriesDir D))) (\<lambda>qs.
     must (doer_New False (discoverer_doer c)) (\<lambda>dr.
     let (b, d3) = BuildDiscoverer (mk q seen dr) open_pg now ps D qs fileKey d2
     in must_wait b (\<lambda>B. Runs (B, d3))))))))"

text \<open>What it does then: one run for a query named on the command line, with its exit status, or the
  schedule of all cycles.\<close>

definition discoverer_run :: "(int \<Rightarrow> int) \<Rightarrow> ('w, 'p) discoverer_deps \<Rightarrow> string \<Rightarrow> nat list \<Rightarrow> 'w \<Rightarrow> int \<times> 'w" where
  "discoverer_run rand B fileKey es w =
     (if fileKey \<noteq> [] then
        (case ac_RunOnce (dd_Matches B) w of (Some e, w1) \<Rightarrow> (1, w1) | (None, w1) \<Rightarrow> (0, w1))
      else (0, sched_Run rand (dd_Cycles B) es w))"

section \<open>Facts about the programs\<close>

text \<open>A year ahead is always five quarters, in leap years too and however late the second reading of the
  clock is within the first hours.\<close>

lemma year_is_five_quarters:
  assumes "364 * 24 * hour \<le> d" and "d \<le> 366 * 24 * hour"
  shows "quarters_ahead d = 5"
proof -
  have "go_div d (30 * 24 * hour) = 12"
    using assms by (simp add: go_div_nonneg int_div_pos_eq)
  moreover have "go_div 12 3 = 4" by (simp add: go_div_nonneg)
  ultimately show ?thesis by (simp add: quarters_ahead_def)
qed

definition ticks_before_done :: "maintenance_event list \<Rightarrow> nat" where
  "ticks_before_done es = length (takeWhile (\<lambda>e. e = MaintenanceTick) es)"

text \<open>While the parser runs it asks the database for five quarters of partitions at its start and at every
  tick until it ends, whatever the earlier calls answered. The two readings of the clock may lie a day
  apart.\<close>

theorem partitions_a_year_ahead:
  assumes "0 < psc_PartitionMaintenanceInterval c"
    and "\<And>w. now w \<le> later w \<and> later w \<le> now w + 24 * hour"
    and "\<And>t. t + 365 * 24 * hour \<le> add_year t \<and> add_year t \<le> t + 366 * 24 * hour"
    and "\<And>n w. calls (snd (run n w)) = calls w @ [n]"
  shows "calls (partition_maintenance run now later add_year c es w) = calls w @ replicate (Suc (ticks_before_done es)) 5"
proof -
  let ?step = "maintain run now later add_year"
  have step: "calls (?step u) = calls u @ [5]" for u
  proof -
    let ?d = "add_year (now u) - later u"
    have d: "364 * 24 * hour \<le> ?d" "?d \<le> 366 * 24 * hour" using assms(2) [of u] assms(3) [of "now u"] by linarith+
    have "\<not> add_year (now u) < later u" and "min ?d (2 ^ 63 - 1) = ?d" using d by simp_all
    then have "?step u = snd (run (quarters_ahead ?d) u)" by (simp add: maintain_def EnsurePartitions_def)
    then show ?thesis using year_is_five_quarters [OF d] assms(4) by simp
  qed
  have loop: "calls (maintenance_loop ?step es u) = calls u @ replicate (ticks_before_done es) 5" for u
  proof (induction es arbitrary: u)
    case (Cons e es)
    then show ?case using step [of u] by (cases e) (simp_all add: ticks_before_done_def)
  qed (simp add: ticks_before_done_def)
  show ?thesis using assms(1) loop [of "?step w"] step [of w] by (simp add: partition_maintenance_def Let_def)
qed

theorem partitions_a_year_ahead_witness:
  "partition_maintenance (\<lambda>n w. (None, w @ [n])) (\<lambda>_. 0) (\<lambda>_. 5) (\<lambda>t. t + 365 * 24 * hour)
     \<lparr>psc_Batch = 1, psc_Block = 1, psc_PartitionMaintenanceInterval = hour\<rparr> [MaintenanceTick, MaintenanceTick, MaintenanceDone] [] = [5, 5, 5]"
  using partitions_a_year_ahead [of "\<lparr>psc_Batch = 1, psc_Block = 1, psc_PartitionMaintenanceInterval = hour\<rparr>" "\<lambda>_. 0" "\<lambda>_. 5"
      "\<lambda>t. t + 365 * 24 * hour" id "\<lambda>n w. (None, w @ [n])" "[MaintenanceTick, MaintenanceTick, MaintenanceDone]" "[]"]
  by (simp add: ticks_before_done_def numeral_eq_Suc)

text \<open>The gate of the enricher closes for exactly the interval of its ticker. A source that started \<open>e0\<close> after
  its tick, because other sources ran before it, is skipped at the next tick when its turn comes sooner
  after that.\<close>

lemma jittered_tick_skips_source:
  assumes "\<not> enc_ForceBootstrap c"
    and "rd_do (ge_redis G) (GET (enc_BootstrapPrefix c @ '':run:'' @ name)) d = (RBulk s, d1)" and "ge_parse G s = Some (tick + e0)"
    and "ge_now G d1 = tick + enc_Interval c + e1" and "e1 < e0"
  shows "fst (rg_ShouldRun (enricher_gate G c) name d) = (False, None)"
  using assms by (simp add: enricher_gate_def gate_if_def gate_ShouldRun_def gate_key_def str_reply_def reply_err_def)

text \<open>A discoverer started for a single query of matches waits for Postgres as well.\<close>

lemma must_Runs: "must r k = Runs x \<longleftrightarrow> (\<exists>y. r = Inr y \<and> k y = Runs x)"
  by (cases r) (simp_all add: must_def)

lemma must_wait_Runs: "must_wait r k = Runs x \<longleftrightarrow> (\<exists>y. r = Some (Inr y) \<and> k y = Runs x)"
  by (cases r) (simp_all add: must_wait_def must_Runs)

lemma one_shot_waits_for_postgres:
  assumes "\<And>w. \<exists>e w'. open_pg w = (Inl e, w')"
  shows "discoverer_start R connect new_sink env now es open_pg (replicate n Polled) ls rd mk fileKey (config_Load dotenv pf path env') \<noteq> Runs x"
proof
  let ?c = "config_Load dotenv pf path env'"
  assume r: "discoverer_start R connect new_sink env now es open_pg (replicate n Polled) ls rd mk fileKey ?c = Runs x"
  have no: "fst (BuildDiscoverer E open_pg now (replicate n Polled) (cfg_Discovery ?c) qs fileKey d) \<noteq> Some (Inr B)" for E qs d B
  proof
    assume "fst (BuildDiscoverer E open_pg now (replicate n Polled) (cfg_Discovery ?c) qs fileKey d) = Some (Inr B)"
    then obtain d' where "BuildDiscoverer E open_pg now (replicate n Polled) (cfg_Discovery ?c) qs fileKey d = (Some (Inr B), d')"
      by (metis prod.collapse)
    from discoverer_waits_for_postgres [OF discoverer_always_needs_postgres assms this] show False by simp
  qed
  from r show False
    by (simp add: discoverer_start_def must_Runs must_wait_Runs case_prod_beta Let_def no)
qed

end
