(* ===== verification/ProxyLoader.thy ===== *)
theory ProxyLoader
  imports HttpDo "HOL-Library.Multiset"
begin

text \<open>
  The proxy loader (\<^verbatim>\<open>internal/proxy/loader\<close>): the sources of proxy addresses (\<^verbatim>\<open>file.go\<close>,
  \<^verbatim>\<open>http.go\<close>), the probe of one proxy (\<^verbatim>\<open>validator.go\<close>), and the loader itself
  (\<^verbatim>\<open>loader.go\<close>), which validates a list chunk by chunk with at most \<^verbatim>\<open>Parallel\<close> probes at a
  time and adds the healthy addresses of a chunk to the pool. Files, the network, the context and the
  pool are arguments that act on a world of arbitrary type; the interleaving of the probing
  goroutines is a list of events, and every list of events is a schedule.
\<close>

section \<open>Lines of a text\<close>

text \<open>\<^verbatim>\<open>bufio.Scanner\<close> with its default limits: the lines, and whether a line was too long, which ends
  the scan.\<close>

definition MaxScanTokenSize :: int where
  "MaxScanTokenSize = 65536"

definition drop_cr :: "string \<Rightarrow> string" where
  "drop_cr s = (if s \<noteq> [] \<and> last s = CHR 0x0D then butlast s else s)"

function scan_lines :: "bytes \<Rightarrow> string list \<times> bool" where
  "scan_lines s =
     (if s = [] then ([], False)
      else
        let l = takeWhile (\<lambda>c. c \<noteq> CHR 0x0A) s; rest = dropWhile (\<lambda>c. c \<noteq> CHR 0x0A) s
        in if MaxScanTokenSize \<le> int (length l) then ([], True)
           else let (ls, e) = scan_lines (tl rest) in (drop_cr l # ls, e))"
  by pat_completeness auto
termination
proof (relation "measure length", goal_cases)
  case (2 s l rest)
  have "length (dropWhile (\<lambda>c. c \<noteq> CHR 0x0A) s) \<le> length s" by (rule length_dropWhile_le)
  then show ?case using 2 by (cases "dropWhile (\<lambda>c. c \<noteq> CHR 0x0A) s") auto
qed simp

declare scan_lines.simps [simp del]

definition ErrTooLong :: go_error where
  "ErrTooLong = ErrText ''bufio.Scanner: token too long''"

text \<open>The address lines of a text: blank lines and comments are skipped. \<open>e\<close> is the error with which
  reading ended.\<close>

definition address_lines :: "bytes \<Rightarrow> go_error option \<Rightarrow> string list \<times> go_error option" where
  "address_lines body e =
     (let (ls, long) = scan_lines body
      in (filter (\<lambda>l. l \<noteq> [] \<and> \<not> has_prefix l ''#'') (map trim_space ls), if long then Some ErrTooLong else e))"

section \<open>IP addresses\<close>

text \<open>\<^verbatim>\<open>net.ParseIP\<close> as far as success goes: dotted decimals without leading zeros, or groups of
  hexadecimal digits with at most one ellipsis and an optional dotted tail; no zone.\<close>

definition octet_ok :: "string \<Rightarrow> bool" where
  "octet_ok f \<longleftrightarrow>
     f \<noteq> [] \<and> list_all dec_digit f \<and> (length f = 1 \<or> hd f \<noteq> CHR ''0'') \<and> length f \<le> 3 \<and> digits_num f \<le> 255"

definition ipv4_ok :: "string \<Rightarrow> bool" where
  "ipv4_ok s \<longleftrightarrow> length (split_on CHR ''.'' s) = 4 \<and> list_all octet_ok (split_on CHR ''.'' s)"

definition hex_digit :: "char \<Rightarrow> bool" where
  "hex_digit c \<longleftrightarrow>
     dec_digit c \<or> (let k = of_char c :: nat in 97 \<le> k \<and> k \<le> 102 \<or> 65 \<le> k \<and> k \<le> 70)"

definition ipv6_end :: "nat \<Rightarrow> bool \<Rightarrow> bool" where
  "ipv6_end i ell = (if i < 16 then ell else \<not> ell)"

text \<open>\<open>i\<close> bytes of the address are known; \<open>ell\<close> tells whether the ellipsis has been seen.\<close>

function ipv6_groups :: "nat \<Rightarrow> bool \<Rightarrow> string \<Rightarrow> bool" where
  "ipv6_groups i ell s =
     (if 16 \<le> i then s = [] \<and> ipv6_end i ell
      else
        let h = takeWhile hex_digit s; rest = drop (length h) s
        in if h = [] \<or> 4 < length h then False
           else if rest = [] then ipv6_end (i + 2) ell
           else if hd rest = CHR ''.'' then (ell \<or> i = 12) \<and> i + 4 \<le> 16 \<and> ipv4_ok s \<and> ipv6_end (i + 4) ell
           else if hd rest \<noteq> CHR '':'' \<or> tl rest = [] then False
           else if hd (tl rest) = CHR '':'' then
             \<not> ell \<and> (if tl (tl rest) = [] then ipv6_end (i + 2) True else ipv6_groups (i + 2) True (tl (tl rest)))
           else ipv6_groups (i + 2) ell (tl rest))"
  by pat_completeness auto
termination by (relation "measure (\<lambda>(i, _, _). 16 - i)") auto

declare ipv6_groups.simps [simp del]

definition ipv6_ok :: "string \<Rightarrow> bool" where
  "ipv6_ok s =
     (if CHR ''%'' \<in> set s then False
      else if take 2 s = ''::'' then (drop 2 s = [] \<or> ipv6_groups 0 True (drop 2 s))
      else ipv6_groups 0 False s)"

definition parse_ip :: "string \<Rightarrow> bool" where
  "parse_ip s =
     (case find (\<lambda>c. c \<in> {CHR ''.'', CHR '':'', CHR ''%''}) s of
        None \<Rightarrow> False
      | Some c \<Rightarrow> if c = CHR ''.'' then ipv4_ok s else c = CHR '':'' \<and> ipv6_ok s)"

lemma parse_ip_examples:
  "parse_ip ''93.184.216.34''" "parse_ip ''2001:db8::1''" "parse_ip ''::ffff:10.0.0.1''" "parse_ip ''::''"
  "\<not> parse_ip ''10.0.0.256''" "\<not> parse_ip ''10.0.01.1''" "\<not> parse_ip ''1:2:3:4:5:6:7:8::''" "\<not> parse_ip ''<html>''"
  "\<not> parse_ip ''1:2:3''" "\<not> parse_ip ''fe80::1%eth0''"
  by code_simp+

section \<open>Sources\<close>

record http_client =
  cl_Transport :: "transport option"
  cl_Timeout :: duration

record http_answer =
  ha_StatusCode :: int
  ha_Body :: bytes
  ha_ReadErr :: "go_error option"

text \<open>\<open>le_file\<close> opens a file and reads it: the error of opening, or its text and the error that ended
  the reading. \<open>le_request\<close> is the error of \<^verbatim>\<open>http.NewRequest\<close>; \<open>le_send\<close> sends a GET request with a
  client and, where it is given, under a time limit of its own.\<close>

record 'w load_env =
  le_pool :: "'w pool_if"
  le_ctx :: "'w \<Rightarrow> go_error option"
  le_elapse :: "'w \<Rightarrow> 'w"
  le_file :: "string \<Rightarrow> 'w \<Rightarrow> (go_error + bytes \<times> go_error option) \<times> 'w"
  le_parse :: "string \<Rightarrow> go_error + url"
  le_dialer :: "url \<Rightarrow> go_error + bool"
  le_request :: "string \<Rightarrow> go_error option"
  le_send :: "http_client \<Rightarrow> duration option \<Rightarrow> string \<Rightarrow> 'w \<Rightarrow> (go_error + http_answer) \<times> 'w"

record file_source =
  fs_Path :: string

definition fs_Name :: "file_source \<Rightarrow> string" where
  "fs_Name f = ''file:'' @ fs_Path f"

definition fs_Load :: "'w load_env \<Rightarrow> file_source \<Rightarrow> 'w \<Rightarrow> (string list \<times> go_error option) \<times> 'w" where
  "fs_Load E f w =
     (if fs_Path f = [] then (([], Some (ErrText ''file path is empty'')), w)
      else
        case le_file E (fs_Path f) w of
          (Inl e, w1) \<Rightarrow> (([], Some (Wrapped (''open '' @ fs_Path f @ '': '') e)), w1)
        | (Inr (body, e), w1) \<Rightarrow> (address_lines body e, w1))"

record http_source =
  hs_URL :: string
  hs_Client :: "http_client option"
  hs_ProxyURL :: string
  hs_Timeout :: duration

definition hs_Name :: "http_source \<Rightarrow> string" where
  "hs_Name h = ''http:'' @ hs_URL h"

definition hs_client :: "'w load_env \<Rightarrow> http_source \<Rightarrow> go_error + http_client" where
  "hs_client E h =
     (let timeout = (if hs_Timeout h \<le> 0 then 15 * second else hs_Timeout h)
      in if hs_ProxyURL h \<noteq> [] then
           (case le_parse E (hs_ProxyURL h) of
              Inl e \<Rightarrow> Inl (Wrapped ''parse proxy url: '' e)
            | Inr pu \<Rightarrow>
                (case transport_For (le_dialer E) (Some pu) of
                   Inl e \<Rightarrow> Inl (Wrapped ''proxy transport: '' e)
                 | Inr tr \<Rightarrow> Inr \<lparr>cl_Transport = Some tr, cl_Timeout = timeout\<rparr>))
         else case hs_Client h of
                Some cl \<Rightarrow> Inr cl
              | None \<Rightarrow> Inr \<lparr>cl_Transport = None, cl_Timeout = timeout\<rparr>)"

definition hs_Load :: "'w load_env \<Rightarrow> http_source \<Rightarrow> 'w \<Rightarrow> (string list \<times> go_error option) \<times> 'w" where
  "hs_Load E h w =
     (if hs_URL h = [] then (([], Some (ErrText ''URL is empty'')), w)
      else
        case hs_client E h of
          Inl e \<Rightarrow> (([], Some e), w)
        | Inr cl \<Rightarrow>
            (case le_request E (hs_URL h) of
               Some e \<Rightarrow> (([], Some e), w)
             | None \<Rightarrow>
                 (case le_send E cl None (hs_URL h) w of
                    (Inl e, w1) \<Rightarrow> (([], Some (Wrapped ''fetch remote list: '' e)), w1)
                  | (Inr resp, w1) \<Rightarrow>
                      if 400 \<le> ha_StatusCode resp then
                        (([], Some (ErrText (''remote list status '' @ itoa (ha_StatusCode resp)))), w1)
                      else (address_lines (ha_Body resp) (ha_ReadErr resp), w1))))"

text \<open>A source is a file, a URL, or another implementation of the interface.\<close>

datatype 'w source = FileSource file_source | HTTPSource http_source | OtherSource "'w \<Rightarrow> (string list \<times> go_error option) \<times> 'w"

fun source_Load :: "'w load_env \<Rightarrow> 'w source \<Rightarrow> 'w \<Rightarrow> (string list \<times> go_error option) \<times> 'w" where
  "source_Load E (FileSource f) w = fs_Load E f w"
| "source_Load E (HTTPSource h) w = hs_Load E h w"
| "source_Load E (OtherSource ld) w = ld w"

section \<open>The probe\<close>

record validator =
  CanaryURL :: string
  v_Timeout :: duration
  RequireIPBody :: bool

text \<open>The text of the last error carries the body as it is, without the quotes of \<^verbatim>\<open>%q\<close>.\<close>

definition canary_verdict :: "validator \<Rightarrow> http_answer \<Rightarrow> go_error option" where
  "canary_verdict v resp =
     (if 400 \<le> ha_StatusCode resp then Some (ErrText (''canary status '' @ itoa (ha_StatusCode resp)))
      else if RequireIPBody v then
        let s = trim_space (take 64 (ha_Body resp))
        in if parse_ip s then None else Some (ErrText (''canary returned non-IP body: '' @ s))
      else None)"

definition Probe :: "'w load_env \<Rightarrow> validator \<Rightarrow> string \<Rightarrow> 'w \<Rightarrow> go_error option \<times> 'w" where
  "Probe E v proxyRaw w =
     (if proxyRaw = [] then (Some (ErrText ''empty proxy URL''), w)
      else
        case le_parse E proxyRaw of
          Inl e \<Rightarrow> (Some (Wrapped ''parse: '' e), w)
        | Inr pu \<Rightarrow>
            let timeout = (if v_Timeout v \<le> 0 then 8 * second else v_Timeout v)
            in case transport_For (le_dialer E) (Some pu) of
                 Inl e \<Rightarrow> (Some (Wrapped ''transport: '' e), w)
               | Inr tr \<Rightarrow>
                   (case le_request E (CanaryURL v) of
                      Some e \<Rightarrow> (Some e, w)
                    | None \<Rightarrow>
                        (case le_send E \<lparr>cl_Transport = Some tr, cl_Timeout = timeout\<rparr> (Some timeout) (CanaryURL v) w of
                           (Inl e, w1) \<Rightarrow> (Some (Wrapped ''request: '' e), w1)
                         | (Inr resp, w1) \<Rightarrow> (canary_verdict v resp, w1))))"

section \<open>The goroutines of one chunk\<close>

text \<open>The addresses for which no goroutine has been started, those whose goroutine waits for the
  semaphore, those being probed, and the healthy ones in the order in which their probes ended.\<close>

record 'w vstate =
  vs_todo :: "string list"
  vs_waiting :: "string list"
  vs_running :: "string list"
  vs_healthy :: "string list"
  vs_world :: 'w

datatype probe_event = Spawn | Enter nat | Quit nat | Finish nat | Elapse

definition remove_at :: "nat \<Rightarrow> 'a list \<Rightarrow> 'a list" where
  "remove_at i xs = take i xs @ drop (Suc i) xs"

text \<open>An event that is not possible in a state changes nothing. \<open>Spawn\<close> is an iteration of the loop,
  \<open>Enter\<close> the passage of a goroutine through the semaphore and its look at the context, \<open>Quit\<close> the
  other branch of its \<^verbatim>\<open>select\<close>, \<open>Finish\<close> its probe with what follows.\<close>

fun vstep :: "'w load_env \<Rightarrow> validator \<Rightarrow> nat \<Rightarrow> 'w vstate \<Rightarrow> probe_event \<Rightarrow> 'w vstate" where
  "vstep E v par s Spawn =
     (case vs_todo s of
        [] \<Rightarrow> s
      | p # ps \<Rightarrow>
          if le_ctx E (vs_world s) \<noteq> None then s\<lparr>vs_todo := []\<rparr>
          else s\<lparr>vs_todo := ps, vs_waiting := vs_waiting s @ [p]\<rparr>)"
| "vstep E v par s (Enter i) =
     (if i < length (vs_waiting s) \<and> length (vs_running s) < par then
        (let s1 = s\<lparr>vs_waiting := remove_at i (vs_waiting s)\<rparr>
         in if le_ctx E (vs_world s) \<noteq> None then s1 else s1\<lparr>vs_running := vs_running s @ [vs_waiting s ! i]\<rparr>)
      else s)"
| "vstep E v par s (Quit i) =
     (if i < length (vs_waiting s) \<and> le_ctx E (vs_world s) \<noteq> None then s\<lparr>vs_waiting := remove_at i (vs_waiting s)\<rparr>
      else s)"
| "vstep E v par s (Finish i) =
     (if i < length (vs_running s) then
        let p = vs_running s ! i; (e, w1) = Probe E v p (vs_world s);
            s1 = s\<lparr>vs_running := remove_at i (vs_running s), vs_world := w1\<rparr>
        in (case e of Some _ \<Rightarrow> s1 | None \<Rightarrow> s1\<lparr>vs_healthy := vs_healthy s @ [p]\<rparr>)
      else s)"
| "vstep E v par s Elapse = s\<lparr>vs_world := le_elapse E (vs_world s)\<rparr>"

definition vrun :: "'w load_env \<Rightarrow> validator \<Rightarrow> nat \<Rightarrow> probe_event list \<Rightarrow> 'w vstate \<Rightarrow> 'w vstate" where
  "vrun E v par evs s = foldl (vstep E v par) s evs"

text \<open>The schedule that brings every goroutine to its end, for what a list of events leaves over.\<close>

definition rest_events :: "'w vstate \<Rightarrow> probe_event list" where
  "rest_events s =
     replicate (length (vs_todo s)) Spawn @ replicate (length (vs_running s)) (Finish 0) @
     concat (replicate (length (vs_todo s) + length (vs_waiting s)) [Enter 0, Finish 0])"

definition validateAll :: "'w load_env \<Rightarrow> validator \<Rightarrow> nat \<Rightarrow> probe_event list \<Rightarrow> string list \<Rightarrow> 'w \<Rightarrow> string list \<times> 'w" where
  "validateAll E v par evs list w =
     (let s = vrun E v par evs \<lparr>vs_todo = list, vs_waiting = [], vs_running = [], vs_healthy = [], vs_world = w\<rparr>;
          s1 = vrun E v par (rest_events s) s
      in (vs_healthy s1, vs_world s1))"

section \<open>The loader\<close>

record 'w loader_cfg =
  lc_Seed :: "'w source option"
  lc_Remote :: "'w source option"
  lc_Validate :: validator
  lc_Parallel :: int
  lc_ChunkSize :: int
  lc_MinPublish :: int

definition loader_New :: "bool \<Rightarrow> 'w loader_cfg \<Rightarrow> go_error + 'w loader_cfg" where
  "loader_New nil_pool c =
     (if nil_pool then Inl (ErrText ''loader: pool required'')
      else if lc_Seed c = None then Inl (ErrText ''loader: seed source required'')
      else if CanaryURL (lc_Validate c) = [] then Inl (ErrText ''loader: canary URL required'')
      else Inr (c\<lparr>lc_Parallel := (if lc_Parallel c \<le> 0 then 20 else lc_Parallel c),
                  lc_ChunkSize := (if lc_ChunkSize c \<le> 0 then 100 else lc_ChunkSize c),
                  lc_MinPublish := (if lc_MinPublish c < 1 then 1 else lc_MinPublish c)\<rparr>))"

text \<open>What is done with the healthy addresses of a chunk.\<close>

definition publish_chunk :: "'w load_env \<Rightarrow> 'w loader_cfg \<Rightarrow> string list \<Rightarrow> 'w \<Rightarrow> 'w" where
  "publish_chunk E c healthy w =
     (if healthy \<noteq> [] \<and> lc_MinPublish c \<le> int (length healthy) then snd (pl_Add (le_pool E) healthy w) else w)"

text \<open>The loop from chunk \<open>idx\<close> on, with \<open>n\<close> chunks left. \<open>sched\<close> gives the schedule of each chunk.\<close>

fun chunk_loop :: "'w load_env \<Rightarrow> 'w loader_cfg \<Rightarrow> (nat \<Rightarrow> probe_event list) \<Rightarrow> string list \<Rightarrow> nat \<Rightarrow> nat \<Rightarrow> string list \<Rightarrow> 'w \<Rightarrow>
    (string list \<times> go_error option) \<times> 'w" where
  "chunk_loop E c sched list idx 0 allHealthy w = ((allHealthy, None), w)"
| "chunk_loop E c sched list idx (Suc n) allHealthy w =
     (case le_ctx E w of
        Some e \<Rightarrow> ((allHealthy, Some e), w)
      | None \<Rightarrow>
          let start = idx * nat (lc_ChunkSize c);
              stop = min (start + nat (lc_ChunkSize c)) (length list);
              chunk = drop start (take stop list);
              (healthy, w1) = validateAll E (lc_Validate c) (nat (lc_Parallel c)) (sched idx) chunk w
          in chunk_loop E c sched list (Suc idx) n (allHealthy @ healthy) (publish_chunk E c healthy w1))"

text \<open>The number of chunks is computed on 64-bit integers.\<close>

definition chunk_count :: "int \<Rightarrow> int \<Rightarrow> int" where
  "chunk_count len chunkSize = go_div (wrap64 (wrap64 (len + chunkSize) - 1)) chunkSize"

definition validateAndPublishChunks :: "'w load_env \<Rightarrow> 'w loader_cfg \<Rightarrow> (nat \<Rightarrow> probe_event list) \<Rightarrow> string list \<Rightarrow> 'w \<Rightarrow>
    (string list \<times> go_error option) \<times> 'w" where
  "validateAndPublishChunks E c sched list w =
     (if list = [] then (([], None), w)
      else chunk_loop E c sched list 0 (nat (chunk_count (int (length list)) (lc_ChunkSize c))) [] w)"

definition filterOut :: "string list \<Rightarrow> string set \<Rightarrow> string list" where
  "filterOut xs dropped = filter (\<lambda>x. x \<notin> dropped) xs"

fun remote_attempts :: "'w load_env \<Rightarrow> http_source \<Rightarrow> string \<Rightarrow> string list \<Rightarrow> go_error option \<Rightarrow> 'w \<Rightarrow> (string list \<times> go_error option) \<times> 'w" where
  "remote_attempts E hs msg [] lastErr w =
     (([], Some (case lastErr of Some e \<Rightarrow> Wrapped msg e | None \<Rightarrow> ErrText (msg @ ''%!w(<nil>)''))), w)"
| "remote_attempts E hs msg (c # cs) lastErr w =
     (case hs_Load E (hs\<lparr>hs_ProxyURL := c\<rparr>) w of
        ((out, None), w1) \<Rightarrow> ((out, None), w1)
      | ((out, Some e), w1) \<Rightarrow> remote_attempts E hs msg cs (Some e) w1)"

definition loadRemoteWithFallback :: "'w load_env \<Rightarrow> 'w source \<Rightarrow> string list \<Rightarrow> 'w \<Rightarrow> (string list \<times> go_error option) \<times> 'w" where
  "loadRemoteWithFallback E remote candidates w =
     (case remote of
        HTTPSource hs \<Rightarrow>
          if candidates = [] then (([], Some (ErrText ''no candidates to fetch remote list through'')), w)
          else
            let m = (if 5 < length candidates then 5 else length candidates)
            in remote_attempts E hs
                 (''remote fetch: '' @ itoa (int m) @ ''/'' @ itoa (int (length candidates)) @ '' attempts failed, last: '')
                 (take m candidates) None w
      | _ \<Rightarrow> source_Load E remote w)"

text \<open>The seed phase.\<close>

definition seed_phase :: "'w load_env \<Rightarrow> 'w loader_cfg \<Rightarrow> (nat \<Rightarrow> probe_event list) \<Rightarrow> 'w source \<Rightarrow> 'w \<Rightarrow> (go_error + string list) \<times> 'w" where
  "seed_phase E c sched seedSrc w =
     (case source_Load E seedSrc w of
        ((_, Some e), w1) \<Rightarrow> (Inl (Wrapped ''seed load: '' e), w1)
      | ((seed, None), w1) \<Rightarrow>
          if seed = [] then (Inl (ErrText ''seed list empty''), w1)
          else
            case validateAndPublishChunks E c sched seed w1 of
              ((_, Some e), w2) \<Rightarrow> (Inl (Wrapped ''seed chunk validation: '' e), w2)
            | ((healthy, None), w2) \<Rightarrow>
                if healthy = [] then (Inl (ErrText ''no healthy proxies after chunked validation''), w2)
                else (Inr healthy, w2))"

text \<open>The remote phase never fails the run.\<close>

definition remote_phase :: "'w load_env \<Rightarrow> 'w loader_cfg \<Rightarrow> (nat \<Rightarrow> probe_event list) \<Rightarrow> string list \<Rightarrow> 'w \<Rightarrow> 'w" where
  "remote_phase E c sched seedHealthy w =
     (case lc_Remote c of
        None \<Rightarrow> snd (pl_Size (le_pool E) w)
      | Some src \<Rightarrow>
          (case loadRemoteWithFallback E src seedHealthy w of
             ((_, Some e), w1) \<Rightarrow> snd (pl_Size (le_pool E) w1)
           | ((remote, None), w1) \<Rightarrow>
               let (_, w2) = validateAndPublishChunks E c sched (filterOut remote (set seedHealthy)) w1
               in snd (pl_Size (le_pool E) w2)))"

text \<open>The seed source is not nil after \<open>loader_New\<close>. The schedules are given for the chunks of the seed
  list and for those of the remote list.\<close>

definition loader_Run :: "'w load_env \<Rightarrow> 'w loader_cfg \<Rightarrow> (nat \<Rightarrow> probe_event list) \<Rightarrow> (nat \<Rightarrow> probe_event list) \<Rightarrow> 'w \<Rightarrow> go_error option \<times> 'w" where
  "loader_Run E c seedSched remoteSched w =
     (case lc_Seed c of
        None \<Rightarrow> (Some (Panic ''nil source''), w)
      | Some src \<Rightarrow>
          (case seed_phase E c seedSched src w of
             (Inl e, w1) \<Rightarrow> (Some e, w1)
           | (Inr healthy, w1) \<Rightarrow> (None, remote_phase E c remoteSched healthy w1)))"

section \<open>Schedules end\<close>

lemma remove_at_mset: "i < length xs \<Longrightarrow> mset xs = add_mset (xs ! i) (mset (remove_at i xs))"
  by (metis append_take_drop_id Cons_nth_drop_Suc mset.simps(2) mset_append remove_at_def union_mset_add_mset_right)

lemma remove_at_length [simp]: "i < length xs \<Longrightarrow> length (remove_at i xs) = length xs - 1"
  by (simp add: remove_at_def)

lemma remove_at_set: "set (remove_at i xs) \<subseteq> set xs"
  by (auto simp: remove_at_def dest: in_set_takeD in_set_dropD)

lemma vrun_simps [simp]:
  "vrun E v par [] s = s" "vrun E v par (e # es) s = vrun E v par es (vstep E v par s e)"
  "vrun E v par (es @ fs) s = vrun E v par fs (vrun E v par es s)"
  by (simp_all add: vrun_def)

text \<open>At no time do more than \<^verbatim>\<open>Parallel\<close> goroutines hold the semaphore.\<close>

lemma vstep_parallel: "length (vs_running s) \<le> par \<Longrightarrow> length (vs_running (vstep E v par s e)) \<le> par"
  by (cases e) (auto simp: Let_def split: list.splits prod.splits option.splits)

lemma vrun_parallel: "length (vs_running s) \<le> par \<Longrightarrow> length (vs_running (vrun E v par es s)) \<le> par"
  by (induction es arbitrary: s) (auto intro: vstep_parallel)

lemma spawn_all:
  fixes E :: "'w load_env" and v :: validator and par :: nat and s :: "'w vstate"
  assumes "length (vs_todo s) \<le> n"
  defines "s' \<equiv> vrun E v par (replicate n Spawn) s"
  shows "vs_todo s' = [] \<and> vs_running s' = vs_running s \<and> length (vs_waiting s') \<le> length (vs_todo s) + length (vs_waiting s)"
  unfolding s'_def using assms(1)
proof (induction n arbitrary: s)
  case (Suc n)
  let ?t = "vstep E v par s Spawn"
  have "length (vs_todo ?t) \<le> n" and "vs_running ?t = vs_running s"
    and "length (vs_todo ?t) + length (vs_waiting ?t) \<le> length (vs_todo s) + length (vs_waiting s)"
    using Suc.prems by (auto split: list.splits)
  then show ?case using Suc.IH [of ?t] by (simp del: vstep.simps)
qed simp

lemma finish_all:
  fixes E :: "'w load_env" and v :: validator and par :: nat and s :: "'w vstate"
  assumes "length (vs_running s) \<le> n"
  defines "s' \<equiv> vrun E v par (replicate n (Finish 0)) s"
  shows "vs_running s' = [] \<and> vs_todo s' = vs_todo s \<and> vs_waiting s' = vs_waiting s"
  unfolding s'_def using assms(1)
proof (induction n arbitrary: s)
  case (Suc n)
  let ?t = "vstep E v par s (Finish 0)"
  have "length (vs_running ?t) \<le> n" and "vs_todo ?t = vs_todo s" and "vs_waiting ?t = vs_waiting s"
    using Suc.prems by (auto simp: Let_def split: prod.splits option.splits)
  then show ?case using Suc.IH [of ?t] by (simp del: vstep.simps)
qed simp

lemma enter_all:
  fixes E :: "'w load_env" and v :: validator and par :: nat and s :: "'w vstate"
  assumes "length (vs_waiting s) \<le> n" and "vs_todo s = []" and "vs_running s = []" and "0 < par"
  defines "s' \<equiv> vrun E v par (concat (replicate n [Enter 0, Finish 0])) s"
  shows "vs_todo s' = [] \<and> vs_waiting s' = [] \<and> vs_running s' = []"
  unfolding s'_def using assms(1-4)
proof (induction n arbitrary: s)
  case (Suc n)
  let ?t = "vstep E v par (vstep E v par s (Enter 0)) (Finish 0)"
  have "length (vs_waiting ?t) \<le> n" and "vs_todo ?t = []" and "vs_running ?t = []"
    using Suc.prems by (auto simp: Let_def remove_at_def split: prod.splits option.splits)
  then show ?case using Suc.IH [of ?t] Suc.prems(4) by (simp del: vstep.simps)
qed simp

text \<open>Whatever the schedule, every goroutine comes to its end.\<close>

lemma rest_events_complete:
  fixes E :: "'w load_env" and v :: validator and par :: nat and s :: "'w vstate"
  assumes "0 < par"
  defines "s' \<equiv> vrun E v par (rest_events s) s"
  shows "vs_todo s' = [] \<and> vs_waiting s' = [] \<and> vs_running s' = []"
proof -
  define s1 where "s1 = vrun E v par (replicate (length (vs_todo s)) Spawn) s"
  define s2 where "s2 = vrun E v par (replicate (length (vs_running s)) (Finish 0)) s1"
  note spawn_all [of s "length (vs_todo s)" E v par, folded s1_def]
  moreover from this have "vs_running s2 = [] \<and> vs_todo s2 = vs_todo s1 \<and> vs_waiting s2 = vs_waiting s1"
    using finish_all [of s1 "length (vs_running s)" E v par] by (simp add: s2_def)
  ultimately show ?thesis
    using enter_all [of s2 "length (vs_todo s) + length (vs_waiting s)" par E v] assms(1)
    by (simp add: s'_def rest_events_def s1_def s2_def)
qed

section \<open>The contract of the loader's surroundings\<close>

text \<open>The sources the repository provides.\<close>

definition known_source :: "'w source option \<Rightarrow> bool" where
  "known_source s \<longleftrightarrow> (case s of Some (OtherSource f) \<Rightarrow> False | _ \<Rightarrow> True)"

text \<open>\<open>passed\<close> are the addresses whose probe has succeeded so far; \<open>members\<close> are the addresses in the
  pool, which only \<^verbatim>\<open>Pool.Add\<close> changes.\<close>

locale loader_world =
  fixes E :: "'w load_env" and v :: validator and members :: "'w \<Rightarrow> string set" and passed :: "'w \<Rightarrow> string set"
  assumes probe: "Probe E v p w = (r, w') \<Longrightarrow> members w' = members w \<and> passed w \<subseteq> passed w' \<and> (r = None \<longrightarrow> p \<in> passed w')"
    and elapse: "members (le_elapse E w) = members w \<and> passed w \<subseteq> passed (le_elapse E w)"
    and read_file: "le_file E f w = (r', w') \<Longrightarrow> members w' = members w \<and> passed w \<subseteq> passed w'"
    and send: "le_send E cl t u w = (ra, w') \<Longrightarrow> members w' = members w \<and> passed w \<subseteq> passed w'"
    and add: "pl_Add (le_pool E) xs w = (e, w') \<Longrightarrow> members w' \<subseteq> members w \<union> set xs \<and> passed w \<subseteq> passed w'"
    and pool_size: "pl_Size (le_pool E) w = (n, w') \<Longrightarrow> members w' = members w \<and> passed w \<subseteq> passed w'"
begin

lemma vstep_safe:
  assumes "set (vs_healthy s) \<subseteq> passed (vs_world s)"
  shows "members (vs_world (vstep E v par s e)) = members (vs_world s) \<and>
    passed (vs_world s) \<subseteq> passed (vs_world (vstep E v par s e)) \<and>
    set (vs_healthy (vstep E v par s e)) \<subseteq> passed (vs_world (vstep E v par s e))"
proof (cases e)
  case (Finish i)
  obtain r w' where p: "Probe E v (vs_running s ! i) (vs_world s) = (r, w')" by fastforce
  have "set (vs_healthy s) \<subseteq> passed w'" using probe [OF p] assms by blast
  then show ?thesis using probe [OF p] assms Finish p by (cases r) auto
next
  case Elapse
  have "set (vs_healthy s) \<subseteq> passed (le_elapse E (vs_world s))" using elapse assms by blast
  then show ?thesis using elapse Elapse by simp
qed (use assms in \<open>simp_all add: Let_def split: list.splits\<close>)

lemma vrun_safe:
  assumes "set (vs_healthy s) \<subseteq> passed (vs_world s)"
  shows "members (vs_world (vrun E v par es s)) = members (vs_world s) \<and>
    passed (vs_world s) \<subseteq> passed (vs_world (vrun E v par es s)) \<and>
    set (vs_healthy (vrun E v par es s)) \<subseteq> passed (vs_world (vrun E v par es s))"
  using assms
proof (induction es arbitrary: s)
  case (Cons e es)
  have "set (vs_healthy (vstep E v par s e)) \<subseteq> passed (vs_world (vstep E v par s e))"
    using vstep_safe [OF Cons.prems] by blast
  from Cons.IH [OF this] vstep_safe [OF Cons.prems, of par e] show ?case by auto
qed simp

lemma validateAll_safe:
  assumes "validateAll E v par es xs w = (h, w')"
  shows "members w' = members w \<and> passed w \<subseteq> passed w' \<and> set h \<subseteq> passed w'"
proof -
  let ?s = "vrun E v par es \<lparr>vs_todo = xs, vs_waiting = [], vs_running = [], vs_healthy = [], vs_world = w\<rparr>"
  have "members (vs_world ?s) = members w \<and> passed w \<subseteq> passed (vs_world ?s) \<and> set (vs_healthy ?s) \<subseteq> passed (vs_world ?s)"
    using vrun_safe [of "\<lparr>vs_todo = xs, vs_waiting = [], vs_running = [], vs_healthy = [], vs_world = w\<rparr>"] by simp
  then show ?thesis using vrun_safe [of ?s par "rest_events ?s"] assms by (auto simp: validateAll_def Let_def)
qed

lemma publish_chunk_safe:
  "members (publish_chunk E c h w) \<subseteq> members w \<union> set h \<and> passed w \<subseteq> passed (publish_chunk E c h w)"
  using add by (auto simp: publish_chunk_def) (metis UnE prod.collapse subsetD)+

lemma chunk_loop_safe:
  assumes "chunk_loop E c sched xs i n acc w = (r, w')" and "lc_Validate c = v"
  shows "members w' \<subseteq> members w \<union> passed w' \<and> passed w \<subseteq> passed w'"
  using assms(1)
proof (induction n arbitrary: i acc w)
  case (Suc n)
  show ?case
  proof (cases "le_ctx E w")
    case None
    let ?k = "nat (lc_ChunkSize c)"
    obtain h w1 where h: "validateAll E v (nat (lc_Parallel c)) (sched i) (drop (i * ?k) (take (min (i * ?k + ?k) (length xs)) xs)) w = (h, w1)"
      by (meson surj_pair)
    have "chunk_loop E c sched xs (Suc i) n (acc @ h) (publish_chunk E c h w1) = (r, w')"
      using Suc.prems None h assms(2) by (simp add: Let_def)
    from Suc.IH [OF this] publish_chunk_safe [of c h w1] validateAll_safe [OF h] show ?thesis by blast
  qed (use Suc.prems in auto)
qed simp

lemma validateAndPublish_safe:
  assumes "validateAndPublishChunks E c sched xs w = (r, w')" and "lc_Validate c = v"
  shows "members w' \<subseteq> members w \<union> passed w' \<and> passed w \<subseteq> passed w'"
  using assms chunk_loop_safe by (auto simp: validateAndPublishChunks_def split: if_splits)

lemma hs_Load_safe: "hs_Load E h w = (r, w') \<Longrightarrow> members w' = members w \<and> passed w \<subseteq> passed w'"
  using send by (auto simp: hs_Load_def split: if_splits sum.splits option.splits prod.splits)

lemma fs_Load_safe: "fs_Load E f w = (r, w') \<Longrightarrow> members w' = members w \<and> passed w \<subseteq> passed w'"
  by (auto simp: fs_Load_def split: if_splits sum.splits prod.splits dest: read_file)

lemma source_Load_safe:
  assumes "source_Load E s w = (r, w')" and "known_source (Some s)"
  shows "members w' = members w \<and> passed w \<subseteq> passed w'"
  using assms by (cases s) (simp_all add: known_source_def fs_Load_safe hs_Load_safe)

lemma remote_attempts_safe:
  "remote_attempts E hs msg cs l w = (r, w') \<Longrightarrow> members w' = members w \<and> passed w \<subseteq> passed w'"
proof (induction cs arbitrary: l w)
  case (Cons c cs)
  obtain out e w1 where h: "hs_Load E (hs\<lparr>hs_ProxyURL := c\<rparr>) w = ((out, e), w1)" by (metis prod.collapse)
  show ?case using Cons h hs_Load_safe [OF h] by (cases e) fastforce+
qed simp

lemma remote_safe:
  assumes "loadRemoteWithFallback E s xs w = (r, w')" and "known_source (Some s)"
  shows "members w' = members w \<and> passed w \<subseteq> passed w'"
proof (cases s)
  case (HTTPSource hs)
  then show ?thesis
    using assms(1) by (auto simp: loadRemoteWithFallback_def Let_def split: if_splits dest: remote_attempts_safe)
qed (use assms source_Load_safe [of s w r w'] in \<open>simp_all add: loadRemoteWithFallback_def\<close>)

text \<open>Only addresses that passed a probe enter the pool, whatever the schedules, the context and the
  answers do.\<close>

lemma Run_safe:
  assumes "loader_Run E c sched1 sched2 w = (r, w')" and "lc_Validate c = v"
    and "known_source (lc_Seed c)" and "known_source (lc_Remote c)"
  shows "members w' \<subseteq> members w \<union> passed w' \<and> passed w \<subseteq> passed w'"
proof (cases "lc_Seed c")
  case (Some src)
  obtain e w1 where p1: "seed_phase E c sched1 src w = (e, w1)" by fastforce
  have s1: "members w1 \<subseteq> members w \<union> passed w1 \<and> passed w \<subseteq> passed w1"
  proof -
    obtain xs x wa where l: "source_Load E src w = ((xs, x), wa)" by (metis prod.collapse)
    obtain hs y wb where c: "validateAndPublishChunks E c sched1 xs wa = ((hs, y), wb)" by (metis prod.collapse)
    have "w1 = wa \<or> w1 = wb"
      using p1 l c by (auto simp: seed_phase_def split: option.splits if_splits)
    then show ?thesis
      using source_Load_safe [OF l] validateAndPublish_safe [OF c assms(2)] assms(3) Some by fastforce
  qed
  show ?thesis
  proof (cases e)
    case (Inr healthy)
    then have w': "w' = remote_phase E c sched2 healthy w1" using assms(1) Some p1 by (simp add: loader_Run_def)
    have sz: "members (snd (pl_Size (le_pool E) u)) = members u \<and> passed u \<subseteq> passed (snd (pl_Size (le_pool E) u))" for u
      using pool_size by (metis prod.collapse)
    have "members w' \<subseteq> members w1 \<union> passed w' \<and> passed w1 \<subseteq> passed w'"
    proof (cases "lc_Remote c")
      case None
      then show ?thesis using w' sz [of w1] by (simp add: remote_phase_def)
    next
      case rem: (Some s)
      obtain ys x wa where l: "loadRemoteWithFallback E s healthy w1 = ((ys, x), wa)" by (metis prod.collapse)
      obtain hs wb where c: "validateAndPublishChunks E c sched2 (filterOut ys (set healthy)) wa = (hs, wb)" by fastforce
      have "w' = snd (pl_Size (le_pool E) wa) \<or> w' = snd (pl_Size (le_pool E) wb)"
        using w' rem l c by (cases x) (auto simp: remote_phase_def)
      then show ?thesis
        using remote_safe [OF l] validateAndPublish_safe [OF c assms(2)] assms(4) rem sz [of wa] sz [of wb] by fastforce
    qed
    then show ?thesis using s1 by blast
  qed (use assms(1) Some p1 s1 in \<open>auto simp: loader_Run_def\<close>)
qed (use assms(1) in \<open>simp add: loader_Run_def\<close>)

end

section \<open>What a run promises\<close>

text \<open>The chunks of a list, the addresses of a chunk that are published, and those of the whole list.\<close>

definition chunk_at :: "nat \<Rightarrow> 'a list \<Rightarrow> nat \<Rightarrow> 'a list" where
  "chunk_at k xs i = take k (drop (i * k) xs)"

definition publishable :: "(string \<Rightarrow> bool) \<Rightarrow> 'w loader_cfg \<Rightarrow> string list \<Rightarrow> nat \<Rightarrow> string list" where
  "publishable good c xs i =
     (let h = filter good (chunk_at (nat (lc_ChunkSize c)) xs i)
      in if h \<noteq> [] \<and> lc_MinPublish c \<le> int (length h) then h else [])"

definition published :: "(string \<Rightarrow> bool) \<Rightarrow> 'w loader_cfg \<Rightarrow> string list \<Rightarrow> string list" where
  "published good c xs = concat (map (publishable good c xs) [0..<length xs])"

lemma concat_chunks: "concat (map (chunk_at k xs) [0..<n]) = take (n * k) xs"
proof (induction n)
  case (Suc n)
  have "take (Suc n * k) xs = take (n * k) xs @ take k (drop (n * k) xs)"
    using take_add [of "n * k" k xs] by (simp add: add.commute)
  then show ?case using Suc by (simp add: chunk_at_def)
qed simp

lemma chunk_at_beyond: "length xs \<le> i * k \<Longrightarrow> chunk_at k xs i = []"
  by (simp add: chunk_at_def)

lemma chunk_slice: "drop (i * k) (take (min (i * k + k) (length xs)) xs) = chunk_at k xs i"
  by (simp add: chunk_at_def min_def drop_take)

lemma publishable_beyond: "length xs \<le> i * nat (lc_ChunkSize c) \<Longrightarrow> publishable good c xs i = []"
  by (simp add: publishable_def chunk_at_beyond Let_def)

lemma published_members:
  assumes "length xs \<le> n * nat (lc_ChunkSize c)" and "n \<le> length xs"
  shows "set (published good c xs) = (\<Union>i\<in>{0..<n}. set (publishable good c xs i))"
proof -
  have "publishable good c xs i = []" if "n \<le> i" for i
    using assms(1) mult_le_mono1 [OF that, of "nat (lc_ChunkSize c)"] by (intro publishable_beyond) linarith
  then have "x \<in> set (publishable good c xs i) \<Longrightarrow> i < n" for x i by (metis empty_iff list.set(1) not_le_imp_less)
  then show ?thesis using assms(2) by (fastforce simp: published_def)
qed

text \<open>Without overflow the chunks cover the list.\<close>

lemma chunk_count_covers:
  assumes "0 < k" and "int l + k < 2 ^ 63" and "0 < l"
  shows "int l \<le> chunk_count (int l) k * k \<and> 0 \<le> chunk_count (int l) k \<and> chunk_count (int l) k \<le> int l"
proof -
  have c: "chunk_count (int l) k = (int l + k - 1) div k"
    using assms by (simp add: chunk_count_def go_div_nonneg wrap64_id is_int64_def)
  have "(int l + k - 1) div k * k + (int l + k - 1) mod k = int l + k - 1" by simp
  moreover have "(int l + k - 1) mod k \<le> k - 1" using assms(1) pos_mod_bound [of k "int l + k - 1"] by linarith
  moreover have "(int l + k - 1) div k \<le> int l"
  proof -
    have "k - 1 \<le> int l * (k - 1)" using assms(1,3) mult_right_mono [of 1 "int l" "k - 1"] by simp
    then have "int l + k - 1 \<le> int l * k" by (simp add: right_diff_distrib)
    then have "(int l + k - 1) div k \<le> int l * k div k" using assms(1) by (intro zdiv_mono1) auto
    then show ?thesis using assms(1) by simp
  qed
  moreover have "0 \<le> (int l + k - 1) div k" using assms(1,3) by (intro pos_imp_zdiv_nonneg_iff [THEN iffD2]) auto
  ultimately show ?thesis unfolding c by (intro conjI) linarith+
qed

text \<open>A calm world: the context lives on, an address gives the same verdict whenever it is probed, and
  the pool accepts every addition.\<close>

locale calm_loader = loader_world E v members passed
  for E :: "'w load_env" and v :: validator and members :: "'w \<Rightarrow> string set" and passed :: "'w \<Rightarrow> string set" +
  fixes calm :: "'w \<Rightarrow> bool" and good :: "string \<Rightarrow> bool"
  assumes ctx: "calm w \<Longrightarrow> le_ctx E w = None"
    and calm_probe: "calm w \<Longrightarrow> Probe E v p w = (r, w') \<Longrightarrow> calm w' \<and> (r = None \<longleftrightarrow> good p)"
    and calm_elapse: "calm w \<Longrightarrow> calm (le_elapse E w)"
    and calm_file: "calm w \<Longrightarrow> le_file E f w = (r', w') \<Longrightarrow> calm w'"
    and calm_send: "calm w \<Longrightarrow> le_send E cl t u w = (ra, w') \<Longrightarrow> calm w'"
    and calm_add: "calm w \<Longrightarrow> pl_Add (le_pool E) xs w = (e, w') \<Longrightarrow> calm w' \<and> members w' = members w \<union> set xs"
    and calm_size: "calm w \<Longrightarrow> pl_Size (le_pool E) w = (n, w') \<Longrightarrow> calm w'"
begin

definition due :: "'w vstate \<Rightarrow> string multiset" where
  "due s = filter_mset good (mset (vs_todo s) + mset (vs_waiting s) + mset (vs_running s)) + mset (vs_healthy s)"

lemma vstep_calm:
  assumes "calm (vs_world s)"
  shows "calm (vs_world (vstep E v par s e)) \<and> due (vstep E v par s e) = due s"
proof (cases e)
  case Spawn
  then show ?thesis using assms ctx [OF assms] by (auto simp: due_def split: list.splits)
next
  case (Enter i)
  then show ?thesis
    using assms ctx [OF assms] remove_at_mset [of i "vs_waiting s"] by (auto simp: due_def Let_def)
next
  case (Finish i)
  obtain r w' where p: "Probe E v (vs_running s ! i) (vs_world s) = (r, w')" by fastforce
  show ?thesis
    using assms calm_probe [OF assms p] Finish p remove_at_mset [of i "vs_running s"]
    by (cases r) (auto simp: due_def)
qed (use assms ctx [OF assms] calm_elapse [OF assms] in \<open>simp_all add: due_def\<close>)

lemma vrun_calm: "calm (vs_world s) \<Longrightarrow> calm (vs_world (vrun E v par es s)) \<and> due (vrun E v par es s) = due s"
proof (induction es arbitrary: s)
  case (Cons e es)
  then show ?case using vstep_calm [of s par e] by simp
qed simp

text \<open>Every schedule ends with the good addresses of the chunk, in some order.\<close>

lemma validateAll_calm:
  assumes "calm w" and "0 < par" and "validateAll E v par es xs w = (h, w')"
  shows "calm w' \<and> mset h = mset (filter good xs)"
proof -
  let ?s = "vrun E v par es \<lparr>vs_todo = xs, vs_waiting = [], vs_running = [], vs_healthy = [], vs_world = w\<rparr>"
  let ?t = "vrun E v par (rest_events ?s) ?s"
  have "calm (vs_world ?s) \<and> due ?s = mset (filter good xs)"
    using vrun_calm [of "\<lparr>vs_todo = xs, vs_waiting = [], vs_running = [], vs_healthy = [], vs_world = w\<rparr>" par es] assms(1)
    by (simp add: due_def)
  then have "calm (vs_world ?t) \<and> due ?t = mset (filter good xs)" using vrun_calm [of ?s par "rest_events ?s"] by simp
  then show ?thesis
    using rest_events_complete [OF assms(2), of E v ?s] assms(3) by (auto simp: validateAll_def Let_def due_def)
qed

lemma publish_chunk_calm:
  assumes "calm w" and "mset h = mset (filter good (chunk_at (nat (lc_ChunkSize c)) xs i))"
  shows "calm (publish_chunk E c h w) \<and> members (publish_chunk E c h w) = members w \<union> set (publishable good c xs i)"
proof -
  have h: "set h = set (filter good (chunk_at (nat (lc_ChunkSize c)) xs i))"
    "length h = length (filter good (chunk_at (nat (lc_ChunkSize c)) xs i))"
    using assms(2) by (metis set_mset_mset, metis size_mset)
  then have ne: "h = [] \<longleftrightarrow> filter good (chunk_at (nat (lc_ChunkSize c)) xs i) = []" by (metis length_0_conv)
  obtain e w' where a: "pl_Add (le_pool E) h w = (e, w')" by fastforce
  show ?thesis using calm_add [OF assms(1) a] a assms(1) h ne by (auto simp: publish_chunk_def publishable_def Let_def)
qed

lemma chunk_loop_calm:
  assumes "chunk_loop E c sched xs i n acc w = ((hs, e), w')" and "calm w" and "lc_Validate c = v" and "0 < lc_Parallel c"
  shows "e = None \<and> calm w' \<and>
    mset hs = mset acc + mset (filter good (concat (map (chunk_at (nat (lc_ChunkSize c)) xs) [i..<i + n]))) \<and>
    members w' = members w \<union> (\<Union>j\<in>{i..<i + n}. set (publishable good c xs j))"
  using assms(1,2)
proof (induction n arbitrary: i acc w)
  case (Suc n)
  let ?k = "nat (lc_ChunkSize c)"
  obtain h w1 where h: "validateAll E v (nat (lc_Parallel c)) (sched i) (chunk_at ?k xs i) w = (h, w1)" by fastforce
  note v = validateAll_calm [OF Suc.prems(2) _ h]
  have w1: "calm w1" and mh: "mset h = mset (filter good (chunk_at ?k xs i))" using v assms(4) by simp_all
  have mw: "members w1 = members w" using validateAll_safe [OF h] by blast
  have "chunk_loop E c sched xs (Suc i) n (acc @ h) (publish_chunk E c h w1) = ((hs, e), w')"
    using Suc.prems(1) ctx [OF Suc.prems(2)] h assms(3) by (simp add: Let_def chunk_slice)
  from Suc.IH [OF this] publish_chunk_calm [OF w1 mh]
  have IH: "e = None" "calm w'"
    "mset hs = mset (acc @ h) + mset (filter good (concat (map (chunk_at ?k xs) [Suc i..<Suc i + n])))"
    "members w' = members w \<union> set (publishable good c xs i) \<union> (\<Union>j\<in>{Suc i..<Suc i + n}. set (publishable good c xs j))"
    by (auto simp: mw)
  have up: "[i..<i + Suc n] = i # [Suc i..<Suc i + n]" by (simp add: upt_rec)
  have "{i..<i + Suc n} = insert i {Suc i..<Suc i + n}" by auto
  then show ?case using IH up mh by (auto simp: ac_simps)
qed simp

lemma validateAndPublish_calm:
  assumes "validateAndPublishChunks E c sched xs w = ((hs, e), w')" and "calm w" and "lc_Validate c = v"
    and "0 < lc_Parallel c" and "0 < lc_ChunkSize c" and "int (length xs) + lc_ChunkSize c < 2 ^ 63"
  shows "e = None \<and> calm w' \<and> mset hs = mset (filter good xs) \<and> members w' = members w \<union> set (published good c xs)"
proof (cases "xs = []")
  case False
  let ?k = "nat (lc_ChunkSize c)" and ?n = "nat (chunk_count (int (length xs)) (lc_ChunkSize c))"
  have cov: "length xs \<le> ?n * ?k" and le: "?n \<le> length xs"
    using chunk_count_covers [OF assms(5,6)] False assms(5) by (auto simp: nat_mult_distrib [symmetric] le_nat_iff)
  have "concat (map (chunk_at ?k xs) [0..<?n]) = xs" using cov by (simp add: concat_chunks)
  then show ?thesis
    using chunk_loop_calm [of c sched xs 0 ?n "[]" w hs e w'] assms False published_members [OF cov le]
    by (simp add: validateAndPublishChunks_def)
qed (use assms in \<open>simp add: validateAndPublishChunks_def published_def\<close>)

lemma source_Load_calm:
  assumes "calm w" and "source_Load E s w = (r, w')" and "known_source (Some s)"
  shows "calm w'"
proof (cases s)
  case (FileSource f)
  then show ?thesis
    using assms(1,2) by (auto simp: fs_Load_def split: if_splits sum.splits prod.splits dest: calm_file)
next
  case (HTTPSource h)
  then show ?thesis
    using assms(1,2) by (auto simp: hs_Load_def split: if_splits sum.splits option.splits prod.splits dest: calm_send)
qed (use assms(3) in \<open>simp add: known_source_def\<close>)

lemma remote_attempts_calm: "remote_attempts E hs msg cs l w = (r, w') \<Longrightarrow> calm w \<Longrightarrow> calm w'"
proof (induction cs arbitrary: l w)
  case (Cons c cs)
  obtain out e w1 where h: "hs_Load E (hs\<lparr>hs_ProxyURL := c\<rparr>) w = ((out, e), w1)" by (metis prod.collapse)
  have "calm w1" using source_Load_calm [of w "HTTPSource (hs\<lparr>hs_ProxyURL := c\<rparr>)"] h Cons.prems(2) by (simp add: known_source_def)
  then show ?case using Cons h by (cases e) auto
qed simp

lemma remote_calm:
  assumes "loadRemoteWithFallback E s xs w = (r, w')" and "known_source (Some s)" and "calm w"
  shows "calm w'"
proof (cases s)
  case (HTTPSource hs)
  then show ?thesis
    using assms(1,3) by (auto simp: loadRemoteWithFallback_def Let_def split: if_splits dest: remote_attempts_calm)
qed (use assms source_Load_calm [of w s r w'] in \<open>simp_all add: loadRemoteWithFallback_def\<close>)

lemma remote_attempts_loads:
  "remote_attempts E hs msg cs l w = ((ys, None), w') \<Longrightarrow> \<exists>src u. known_source (Some src) \<and> source_Load E src u = ((ys, None), w')"
proof (induction cs arbitrary: l w)
  case (Cons c cs)
  obtain out e w1 where h: "hs_Load E (hs\<lparr>hs_ProxyURL := c\<rparr>) w = ((out, e), w1)" by (metis prod.collapse)
  show ?case
  proof (cases e)
    case None
    then have "source_Load E (HTTPSource (hs\<lparr>hs_ProxyURL := c\<rparr>)) w = ((ys, None), w')" using Cons.prems h by simp
    moreover have "known_source (Some (HTTPSource (hs\<lparr>hs_ProxyURL := c\<rparr>)))" by (simp add: known_source_def)
    ultimately show ?thesis by blast
  qed (use Cons h in auto)
qed simp

lemma remote_loads:
  assumes "loadRemoteWithFallback E s xs w = ((ys, None), w')" and "known_source (Some s)"
  shows "\<exists>src u. known_source (Some src) \<and> source_Load E src u = ((ys, None), w')"
proof (cases s)
  case (HTTPSource hs)
  then show ?thesis
    using assms(1) remote_attempts_loads by (simp add: loadRemoteWithFallback_def Let_def split: if_splits)
next
  case (FileSource f)
  then have "source_Load E s w = ((ys, None), w')" using assms(1) by (simp add: loadRemoteWithFallback_def)
  then show ?thesis using assms(2) by blast
qed (use assms(2) in \<open>simp add: known_source_def\<close>)

lemma Run_calm:
  assumes "loader_New False c0 = Inr c" and "lc_Seed c0 = Some src" and "lc_Validate c0 = v"
    and "known_source (lc_Seed c0)" and "known_source (lc_Remote c0)" and "calm w"
    and "source_Load E src w = ((xs, None), w1)"
    and "\<And>s u ys u'. known_source (Some s) \<Longrightarrow> source_Load E s u = ((ys, None), u') \<Longrightarrow> int (length ys) + lc_ChunkSize c < 2 ^ 63"
    and "loader_Run E c sched1 sched2 w = (r, w')"
  shows "(r = None \<longleftrightarrow> filter good xs \<noteq> []) \<and>
    (r \<noteq> None \<or> lc_Remote c = None \<longrightarrow> members w' = members w \<union> set (published good c xs)) \<and>
    (\<forall>s. r = None \<and> lc_Remote c = Some s \<longrightarrow>
      (\<exists>hs w2 ys e w3. mset hs = mset (filter good xs) \<and> loadRemoteWithFallback E s hs w2 = ((ys, e), w3) \<and>
        members w' = members w \<union> set (published good c xs) \<union>
          (if e = None then set (published good c (filterOut ys (set (filter good xs)))) else {})))"
proof -
  have cfg: "lc_Seed c = Some src" "lc_Remote c = lc_Remote c0" "lc_Validate c = v" "0 < lc_Parallel c" "0 < lc_ChunkSize c"
    using assms(1-3) by (auto simp: loader_New_def split: if_splits)
  obtain hs e w2 where p: "validateAndPublishChunks E c sched1 xs w1 = ((hs, e), w2)" by (metis prod.collapse)
  have w1: "calm w1" "members w1 = members w"
    using source_Load_calm [OF assms(6,7)] source_Load_safe [OF assms(7)] assms(2,4) by simp_all
  have w2: "e = None" "calm w2" "mset hs = mset (filter good xs)" "members w2 = members w \<union> set (published good c xs)"
    using validateAndPublish_calm [OF p w1(1) cfg(3,4,5) assms(8) [OF _ assms(7)]] w1(2) assms(2,4) by simp_all
  have hs: "set hs = set (filter good xs)" using w2(3) by (metis set_mset_mset)
  have hs0: "hs = [] \<longleftrightarrow> filter good xs = []" using w2(3) by (metis mset_zero_iff)
  show ?thesis
  proof (cases "filter good xs = []")
    case True
    have "validateAndPublishChunks E c sched1 [] w1 = (([], None), w1)" by (simp add: validateAndPublishChunks_def)
    moreover have "published good c [] = []" by (simp add: published_def)
    ultimately show ?thesis
      using True hs0 p assms(7,9) cfg(1) w2 w1 by (cases "xs = []") (auto simp: loader_Run_def seed_phase_def)
  next
    case False
    then have run: "r = None" "w' = remote_phase E c sched2 hs w2"
      using assms(7,9) cfg(1) hs0 p w2(1) by (cases "xs = []", auto simp: loader_Run_def seed_phase_def)+
    have sz: "members (snd (pl_Size (le_pool E) u)) = members u" for u using pool_size by (metis prod.collapse)
    show ?thesis
    proof (cases "lc_Remote c")
      case None
      then show ?thesis using run False w2 sz by (simp add: remote_phase_def)
    next
      case (Some s)
      obtain ys x w3 where l: "loadRemoteWithFallback E s hs w2 = ((ys, x), w3)" by (metis prod.collapse)
      have ks: "known_source (Some s)" using assms(5) Some cfg(2) by simp
      have w3: "calm w3" "members w3 = members w2" using remote_calm [OF l ks w2(2)] remote_safe [OF l ks] by simp_all
      obtain gs y w4 where c: "validateAndPublishChunks E c sched2 (filterOut ys (set hs)) w3 = ((gs, y), w4)"
        by (metis prod.collapse)
      have "members w' = members w2 \<union> (if x = None then set (published good c (filterOut ys (set hs))) else {})"
      proof (cases x)
        case None
        obtain src' u where "known_source (Some src')" and "source_Load E src' u = ((ys, None), w3)"
          using remote_loads [OF _ ks] l None by blast
        then have "int (length ys) + lc_ChunkSize c < 2 ^ 63" by (rule assms(8))
        then have "int (length (filterOut ys (set hs))) + lc_ChunkSize c < 2 ^ 63"
          using length_filter_le [of "\<lambda>z. z \<notin> set hs" ys] unfolding filterOut_def by linarith
        from validateAndPublish_calm [OF c w3(1) cfg(3,4,5) this] show ?thesis
          using run(2) Some l c None w3(2) sz by (simp add: remote_phase_def)
      qed (use run(2) Some l w3(2) sz in \<open>simp add: remote_phase_def\<close>)
      then have "members w' = members w \<union> set (published good c xs) \<union>
          (if x = None then set (published good c (filterOut ys (set (filter good xs)))) else {})"
        using w2(4) hs by simp
      then show ?thesis using False run(1) Some w2(3) l by (intro conjI allI impI exI [of _ hs] exI [of _ w2] exI [of _ ys] exI [of _ x] exI [of _ w3]) simp_all
    qed
  qed
qed

end

section \<open>The loader on the in-memory pool\<close>

text \<open>Files that do not change, and a network in which a request with a client to an address always has
  the same answer; the world is the pool and the requests sent.\<close>

definition mem_load_env :: "(string \<Rightarrow> bytes option) \<Rightarrow> (http_client \<Rightarrow> string \<Rightarrow> go_error + http_answer) \<Rightarrow> (string \<Rightarrow> go_error + url) \<Rightarrow>
    (inmem_pool \<times> (http_client \<times> string) list) load_env" where
  "mem_load_env files net parse =
     \<lparr>le_pool = beside (mem_pool_if None), le_ctx = (\<lambda>w. None), le_elapse = (\<lambda>w. w),
      le_file = (\<lambda>f w. (case files f of None \<Rightarrow> Inl (ErrText ''no such file'') | Some b \<Rightarrow> Inr (b, None), w)),
      le_parse = parse, le_dialer = (\<lambda>u. Inr True), le_request = (\<lambda>u. None),
      le_send = (\<lambda>cl t u (p, log). (net cl u, (p, log @ [(cl, u)])))\<rparr>"

text \<open>The client of a probe, and the addresses whose probe is among the requests with a good answer.\<close>

definition probe_client :: "(string \<Rightarrow> go_error + url) \<Rightarrow> validator \<Rightarrow> string \<Rightarrow> http_client option" where
  "probe_client parse v p =
     (if p = [] then None
      else
        case parse p of
          Inl e \<Rightarrow> None
        | Inr pu \<Rightarrow>
            (case transport_For (\<lambda>u. Inr True) (Some pu) of
               Inl e \<Rightarrow> None
             | Inr tr \<Rightarrow> Some \<lparr>cl_Transport = Some tr, cl_Timeout = (if v_Timeout v \<le> 0 then 8 * second else v_Timeout v)\<rparr>))"

definition answers_well :: "(http_client \<Rightarrow> string \<Rightarrow> go_error + http_answer) \<Rightarrow> (string \<Rightarrow> go_error + url) \<Rightarrow> validator \<Rightarrow> string \<Rightarrow> bool" where
  "answers_well net parse v p =
     (case probe_client parse v p of
        None \<Rightarrow> False
      | Some cl \<Rightarrow> (case net cl (CanaryURL v) of Inl e \<Rightarrow> False | Inr a \<Rightarrow> canary_verdict v a = None))"

definition probed :: "(http_client \<Rightarrow> string \<Rightarrow> go_error + http_answer) \<Rightarrow> (string \<Rightarrow> go_error + url) \<Rightarrow> validator \<Rightarrow>
    inmem_pool \<times> (http_client \<times> string) list \<Rightarrow> string set" where
  "probed net parse v w =
     {p. \<exists>cl. probe_client parse v p = Some cl \<and> (cl, CanaryURL v) \<in> set (snd w) \<and> answers_well net parse v p}"

lemma mem_probe:
  assumes "Probe (mem_load_env files net parse) v p w = (r, w')"
  shows "(r = None \<longleftrightarrow> answers_well net parse v p) \<and> fst w' = fst w \<and>
    (w' = w \<or> (\<exists>cl. probe_client parse v p = Some cl \<and> snd w' = snd w @ [(cl, CanaryURL v)])) \<and>
    (r = None \<longrightarrow> (\<exists>cl. probe_client parse v p = Some cl \<and> snd w' = snd w @ [(cl, CanaryURL v)]))"
  using assms
  by (auto simp: Probe_def mem_load_env_def probe_client_def answers_well_def Let_def
    split: if_splits sum.splits prod.splits)

lemma add_new_set: "set (add_new us ps) = set ps \<union> set us"
  by (induction us ps rule: add_new.induct) auto

interpretation mem_loader: calm_loader "mem_load_env files net parse" v "\<lambda>w. set (proxies (fst w))" "probed net parse v"
  "\<lambda>w. True" "answers_well net parse v" for files net parse v
proof
  fix p r and w w' :: "inmem_pool \<times> (http_client \<times> string) list"
  assume "Probe (mem_load_env files net parse) v p w = (r, w')"
  from mem_probe [OF this]
  show "set (proxies (fst w')) = set (proxies (fst w)) \<and> probed net parse v w \<subseteq> probed net parse v w' \<and>
      (r = None \<longrightarrow> p \<in> probed net parse v w')" and "True \<and> (r = None) = answers_well net parse v p"
    by (auto simp: probed_def)
qed (auto simp: mem_load_env_def probed_def beside_def mem_pool_if_def pool_Add_def pool_Size_def add_new_set
  split: prod.splits)

section \<open>The properties\<close>

text \<open>Only proxies that answered a probe enter the pool: whatever the sources, the network and the
  context do, however the probing goroutines are scheduled and whether the run fails, every address
  in the pool after a run was there before or passed a probe of the configured validator.\<close>

theorem only_probed_proxies_enter:
  assumes "loader_world E (lc_Validate c) members passed"
    and "known_source (lc_Seed c)" and "known_source (lc_Remote c)"
    and "loader_Run E c sched1 sched2 w = (r, w')"
  shows "members w' \<subseteq> members w \<union> passed w'"
  using loader_world.Run_safe [OF assms(1,4) refl assms(2,3)] by blast

definition sample_files :: "string \<Rightarrow> bytes option" where
  "sample_files f =
     (if f = ''proxy.txt'' then Some (''# seeds'' @ [CHR 0x0A] @ ''a:1'' @ [CHR 0x0D, CHR 0x0A, CHR 0x0A] @ '' b:2'' @ [CHR 0x0A] @ ''c:3'')
      else None)"

definition sample_answer :: "http_client \<Rightarrow> string \<Rightarrow> go_error + http_answer" where
  "sample_answer cl u =
     (case cl_Transport cl of
        Some (HttpProxy p) \<Rightarrow>
          if u_Rest p = ''b:2'' then Inr \<lparr>ha_StatusCode = 200, ha_Body = ''<html>'', ha_ReadErr = None\<rparr>
          else if u = ''list'' then Inr \<lparr>ha_StatusCode = 200, ha_Body = ''c:3'' @ [CHR 0x0A] @ ''d:4'', ha_ReadErr = None\<rparr>
          else Inr \<lparr>ha_StatusCode = 200, ha_Body = ''10.0.0.1'', ha_ReadErr = None\<rparr>
      | _ \<Rightarrow> Inl (ErrText ''refused''))"

definition sample_loader :: "(inmem_pool \<times> (http_client \<times> string) list) loader_cfg" where
  "sample_loader =
     \<lparr>lc_Seed = Some (FileSource \<lparr>fs_Path = ''proxy.txt''\<rparr>),
      lc_Remote = Some (HTTPSource \<lparr>hs_URL = ''list'', hs_Client = None, hs_ProxyURL = [], hs_Timeout = 0\<rparr>),
      lc_Validate = \<lparr>CanaryURL = ''canary'', v_Timeout = 0, RequireIPBody = True\<rparr>,
      lc_Parallel = 2, lc_ChunkSize = 2, lc_MinPublish = 1\<rparr>"

abbreviation sample_load_env :: "(inmem_pool \<times> (http_client \<times> string) list) load_env" where
  "sample_load_env \<equiv> mem_load_env sample_files sample_answer (\<lambda>s. Inr \<lparr>u_Scheme = ''http'', u_Rest = s\<rparr>)"

text \<open>The second proxy answers with a page instead of an address.\<close>

lemma sample_seed:
  "source_Load sample_load_env (FileSource \<lparr>fs_Path = ''proxy.txt''\<rparr>) w = (([''a:1'', ''b:2'', ''c:3''], None), w)"
proof -
  have "address_lines (the (sample_files ''proxy.txt'')) None = ([''a:1'', ''b:2'', ''c:3''], None)" by code_simp
  then show ?thesis by (simp add: fs_Load_def mem_load_env_def sample_files_def)
qed

lemma sample_chunks:
  "fst (validateAndPublishChunks sample_load_env sample_loader (\<lambda>i. [Spawn, Spawn, Enter 1, Enter 0, Finish 1]) [''a:1'', ''b:2'', ''c:3''] (pool_New [], [])) =
     ([''a:1'', ''c:3''], None)"
  by code_simp

theorem only_probed_proxies_enter_witness:
  "set (proxies (fst (snd (loader_Run sample_load_env sample_loader (\<lambda>i. []) (\<lambda>i. []) (pool_New [''z''], []))))) \<subseteq>
     {''z''} \<union> probed sample_answer (\<lambda>s. Inr \<lparr>u_Scheme = ''http'', u_Rest = s\<rparr>) (lc_Validate sample_loader)
       (snd (loader_Run sample_load_env sample_loader (\<lambda>i. []) (\<lambda>i. []) (pool_New [''z''], [])))"
  using only_probed_proxies_enter [OF mem_loader.loader_world_axioms [of sample_files sample_answer "\<lambda>s. Inr \<lparr>u_Scheme = ''http'', u_Rest = s\<rparr>" "lc_Validate sample_loader"], of "\<lambda>i. []" "\<lambda>i. []" "(pool_New [''z''], [])"]
  by (simp add: sample_loader_def known_source_def pool_New_def prod_eq_iff)

text \<open>(C23) A run publishes exactly the working proxies. When the context lives, the pool accepts additions and
  an address gives the same verdict at every probe, a run succeeds just when the seed list has a
  working proxy, for every schedule of the goroutines; it adds the working seeds of the chunks that
  have at least \<^verbatim>\<open>MinPublish\<close> of them, and then, if the remote list can be fetched through a working
  seed, those of the remote list that are not working seeds. A failed fetch leaves the seeds in the
  pool and the run successful.\<close>

theorem run_publishes_working_proxies:
  assumes "calm_loader E (lc_Validate c0) members passed calm good"
    and "loader_New False c0 = Inr c" and "lc_Seed c0 = Some src"
    and "known_source (lc_Seed c0)" and "known_source (lc_Remote c0)" and "calm w"
    and "source_Load E src w = ((xs, None), w1)"
    and "\<And>s u ys u'. known_source (Some s) \<Longrightarrow> source_Load E s u = ((ys, None), u') \<Longrightarrow> int (length ys) + lc_ChunkSize c < 2 ^ 63"
    and "loader_Run E c sched1 sched2 w = (r, w')"
  shows "(r = None \<longleftrightarrow> filter good xs \<noteq> []) \<and>
    (r \<noteq> None \<or> lc_Remote c = None \<longrightarrow> members w' = members w \<union> set (published good c xs)) \<and>
    (\<forall>s. r = None \<and> lc_Remote c = Some s \<longrightarrow>
      (\<exists>hs w2 ys e w3. mset hs = mset (filter good xs) \<and> loadRemoteWithFallback E s hs w2 = ((ys, e), w3) \<and>
        members w' = members w \<union> set (published good c xs) \<union>
          (if e = None then set (published good c (filterOut ys (set (filter good xs)))) else {})))"
  by (rule calm_loader.Run_calm [OF assms(1-3) refl assms(4-9)])

lemma scan_lines_step:
  assumes "s \<noteq> []" and "\<not> MaxScanTokenSize \<le> int (length (takeWhile (\<lambda>c. c \<noteq> CHR 0x0A) s))"
  shows "fst (scan_lines s) = drop_cr (takeWhile (\<lambda>c. c \<noteq> CHR 0x0A) s) # fst (scan_lines (tl (dropWhile (\<lambda>c. c \<noteq> CHR 0x0A) s)))"
  using assms by (subst scan_lines.simps) (simp only: if_False Let_def case_prod_unfold fst_conv)

lemma address_lines_length: "length (fst (address_lines body e)) \<le> length body"
proof -
  have "length (fst (scan_lines s)) \<le> length s" for s
  proof (induction s rule: scan_lines.induct)
    case (1 s)
    let ?rest = "dropWhile (\<lambda>c. c \<noteq> CHR 0x0A) s"
    show ?case
    proof (cases "s = [] \<or> MaxScanTokenSize \<le> int (length (takeWhile (\<lambda>c. c \<noteq> CHR 0x0A) s))")
      case True
      then have "fst (scan_lines s) = []" by (subst scan_lines.simps) (auto simp only: if_True if_False Let_def fst_conv split: if_split)
      then show ?thesis by simp
    next
      case False
      then have "0 < length s" by blast
      moreover have "length (tl ?rest) = length ?rest - 1" by (rule length_tl)
      moreover have "length ?rest \<le> length s" by (rule length_dropWhile_le)
      ultimately have "length (tl ?rest) < length s" by linarith
      moreover have "length (fst (scan_lines (tl ?rest))) \<le> length (tl ?rest)" using False by (intro 1) blast+
      moreover have "length (fst (scan_lines s)) = Suc (length (fst (scan_lines (tl ?rest))))"
        using scan_lines_step [of s] False by simp
      ultimately show ?thesis by linarith
    qed
  qed
  note scan = this [of body]
  have eq: "fst (address_lines body e) = filter (\<lambda>l. l \<noteq> [] \<and> \<not> has_prefix l ''#'') (map trim_space (fst (scan_lines body)))"
    by (simp add: address_lines_def Let_def case_prod_unfold)
  have "length (fst (address_lines body e)) \<le> length (map trim_space (fst (scan_lines body)))"
    unfolding eq by (rule length_filter_le)
  also have "\<dots> = length (fst (scan_lines body))" by (rule length_map)
  also have "\<dots> \<le> length body" by (rule scan)
  finally show ?thesis .
qed

lemma hs_Load_lines:
  assumes "hs_Load E h w = ((ys, e), w')"
  shows "ys = [] \<or> (\<exists>cl resp. fst (le_send E cl None (hs_URL h) w) = Inr resp \<and> address_lines (ha_Body resp) (ha_ReadErr resp) = (ys, e))"
proof (cases "hs_client E h")
  case (Inr cl)
  obtain r w1 where r: "le_send E cl None (hs_URL h) w = (r, w1)" by fastforce
  show ?thesis
  proof (cases r)
    case (Inr resp)
    have "ys = [] \<or> address_lines (ha_Body resp) (ha_ReadErr resp) = (ys, e)"
      using assms r \<open>hs_client E h = Inr cl\<close> Inr by (auto simp: hs_Load_def split: if_splits option.splits)
    moreover have "fst (le_send E cl None (hs_URL h) w) = Inr resp" using r Inr by simp
    ultimately show ?thesis by blast
  qed (use assms r Inr in \<open>auto simp: hs_Load_def split: if_splits option.splits\<close>)
qed (use assms in \<open>auto simp: hs_Load_def split: if_splits\<close>)

lemma sample_answer_short: "sample_answer cl u = Inr a \<Longrightarrow> length (ha_Body a) \<le> 30"
  by (auto simp: sample_answer_def split: option.splits transport.splits if_splits)

lemma sample_sources_short:
  assumes "known_source (Some s)" and "source_Load sample_load_env s u = ((ys, e), u')"
  shows "length ys \<le> 30"
proof (cases s)
  case (FileSource f)
  have "length (the (sample_files ''proxy.txt'')) \<le> 30" by code_simp
  moreover have "ys = [] \<or> address_lines (the (sample_files ''proxy.txt'')) None = (ys, e)"
  proof (cases "fs_Path f = ''proxy.txt''")
    case True
    then have "le_file sample_load_env (fs_Path f) u = (Inr (the (sample_files ''proxy.txt''), None), u)"
      by (simp add: mem_load_env_def sample_files_def)
    then show ?thesis using assms(2) FileSource True by (simp add: fs_Load_def)
  next
    case False
    then have "le_file sample_load_env (fs_Path f) u = (Inl (ErrText ''no such file''), u)"
      by (simp add: mem_load_env_def sample_files_def)
    then show ?thesis using assms(2) FileSource by (auto simp: fs_Load_def split: if_splits)
  qed
  ultimately show ?thesis
    using address_lines_length [of "the (sample_files ''proxy.txt'')" None] by auto
next
  case (HTTPSource h)
  have send: "fst (le_send sample_load_env cl t v w) = sample_answer cl v" for cl t v w
    by (simp add: mem_load_env_def case_prod_unfold)
  from assms(2) HTTPSource have "hs_Load sample_load_env h u = ((ys, e), u')" by simp
  from hs_Load_lines [OF this] show ?thesis
    unfolding send using sample_answer_short address_lines_length by (metis fst_conv le_trans list.size(3) zero_le)
qed (use assms(1) in \<open>simp add: known_source_def\<close>)

theorem run_publishes_working_proxies_witness:
  "fst (loader_Run sample_load_env (sample_loader\<lparr>lc_Remote := None\<rparr>) (\<lambda>i. [Spawn, Spawn, Enter 1, Enter 0, Finish 1]) (\<lambda>i. []) (pool_New [''z''], [])) = None \<and>
   set (proxies (fst (snd (loader_Run sample_load_env (sample_loader\<lparr>lc_Remote := None\<rparr>) (\<lambda>i. [Spawn, Spawn, Enter 1, Enter 0, Finish 1]) (\<lambda>i. []) (pool_New [''z''], []))))) =
     {''a:1'', ''c:3'', ''z''}"
proof -
  let ?c = "sample_loader\<lparr>lc_Remote := None\<rparr>" and ?p = "\<lambda>s. Inr \<lparr>u_Scheme = ''http'', u_Rest = s\<rparr>"
  let ?good = "answers_well sample_answer ?p (lc_Validate sample_loader)"
  have new: "loader_New False ?c = Inr ?c" by (simp add: loader_New_def sample_loader_def)
  have good: "published ?good ?c [''a:1'', ''b:2'', ''c:3''] = [''a:1'', ''c:3'']"
    "filter ?good [''a:1'', ''b:2'', ''c:3''] = [''a:1'', ''c:3'']"
    by code_simp+
  have len: "int (length ys) + lc_ChunkSize ?c < 2 ^ 63"
    if "known_source (Some s)" "source_Load sample_load_env s u = ((ys, None), u')" for s u ys u'
    using sample_sources_short [OF that] by (simp add: sample_loader_def)
  show ?thesis
    using run_publishes_working_proxies [OF mem_loader.calm_loader_axioms new _ _ _ TrueI sample_seed len
      prod.collapse [symmetric]] good
    by (simp add: sample_loader_def known_source_def pool_New_def)
qed

text \<open>The threshold applies to each chunk: two working seeds in chunks of their own stay out of the pool,
  and the run succeeds.\<close>

lemma small_chunks_stay_unpublished:
  "fst (loader_Run sample_load_env (sample_loader\<lparr>lc_Remote := None, lc_MinPublish := 2\<rparr>) s1 s2 (pool_New [], [])) = None \<and>
   set (proxies (fst (snd (loader_Run sample_load_env (sample_loader\<lparr>lc_Remote := None, lc_MinPublish := 2\<rparr>) s1 s2 (pool_New [], []))))) = {}"
proof -
  let ?c = "sample_loader\<lparr>lc_Remote := None, lc_MinPublish := 2\<rparr>" and ?p = "\<lambda>s. Inr \<lparr>u_Scheme = ''http'', u_Rest = s\<rparr>"
  let ?good = "answers_well sample_answer ?p (lc_Validate sample_loader)"
  have new: "loader_New False ?c = Inr ?c" by (simp add: loader_New_def sample_loader_def)
  have good: "published ?good ?c [''a:1'', ''b:2'', ''c:3''] = []"
    "filter ?good [''a:1'', ''b:2'', ''c:3''] = [''a:1'', ''c:3'']"
    by code_simp+
  have len: "int (length ys) + lc_ChunkSize ?c < 2 ^ 63"
    if "known_source (Some s)" "source_Load sample_load_env s u = ((ys, None), u')" for s u ys u'
    using sample_sources_short [OF that] by (simp add: sample_loader_def)
  show ?thesis
    using mem_loader.Run_calm [OF new _ _ _ _ TrueI sample_seed len prod.collapse [symmetric]] good
    by (simp add: sample_loader_def known_source_def pool_New_def)
qed

end
