(* ===== verification/LoaderMain.thy ===== *)
theory LoaderMain
  imports ProxyLoader Config
begin

text \<open>
  The program that keeps the proxy pool filled (\<^verbatim>\<open>cmd/proxyloader/main.go\<close>): the loader built from the
  configuration, the first load, and the loop over its two tickers. The loop is a run over the list of
  the events its \<^verbatim>\<open>select\<close> sees; each reload comes with the schedules of its probes.
\<close>

section \<open>Settings\<close>

definition getEnvDuration :: "env \<Rightarrow> string \<Rightarrow> duration \<Rightarrow> duration" where
  "getEnvDuration env key def =
     (if env key = [] then def else case parse_duration (env key) of None \<Rightarrow> def | Some d \<Rightarrow> d)"

definition loader_validator :: "proxy_config \<Rightarrow> validator" where
  "loader_validator c =
     \<lparr>CanaryURL = (if pxc_CanaryURL c = [] then ''https://api.ipify.org'' else pxc_CanaryURL c),
      v_Timeout = pxc_ValidateTimeout c, RequireIPBody = False\<rparr>"

definition loader_settings :: "proxy_config \<Rightarrow> 'w loader_cfg" where
  "loader_settings c =
     \<lparr>lc_Seed = Some (FileSource \<lparr>fs_Path = (if pxc_SeedFile c = [] then ''proxy.txt'' else pxc_SeedFile c)\<rparr>),
      lc_Remote =
        (if pxc_RemoteURL c = [] then None
         else Some (HTTPSource \<lparr>hs_URL = pxc_RemoteURL c, hs_Client = Some \<lparr>cl_Transport = None, cl_Timeout = 15 * second\<rparr>,
                                hs_ProxyURL = [], hs_Timeout = 0\<rparr>)),
      lc_Validate = loader_validator c,
      lc_Parallel = pxc_ValidateParallel c, lc_ChunkSize = pxc_ValidateChunkSize c, lc_MinPublish = pxc_ValidateMinPublish c\<rparr>"

definition min_pool_size :: "proxy_config \<Rightarrow> int" where
  "min_pool_size c = (if pxc_MinPoolSize c \<le> 0 then 20 else pxc_MinPoolSize c)"

definition force_interval :: "env \<Rightarrow> duration" where
  "force_interval env = getEnvDuration env ''PROXY_FORCE_REFRESH_INTERVAL'' hour"

text \<open>\<open>rand\<close> is \<^verbatim>\<open>rand.Int63n\<close>.\<close>

definition nextTopUpTick :: "(int \<Rightarrow> int) \<Rightarrow> duration \<Rightarrow> duration" where
  "nextTopUpTick rand topUp =
     (if topUp \<le> 0 \<or> topUp < second then topUp
      else
        let n = go_div (topUp - second) 5 in
        if n \<le> 0 then topUp
        else
          let result = wrap64 (topUp - go_div topUp 10 + rand n)
          in if topUp < result then topUp else result)"

section \<open>The loop\<close>

type_synonym schedules = "(nat \<Rightarrow> probe_event list) \<times> (nat \<Rightarrow> probe_event list)"

datatype loader_event = CtxDone | ForceTick schedules | TopUpTick schedules

text \<open>The interval of a ticker, or \<open>None\<close> for the nil channel of a disabled one, which never fires.\<close>

definition topup_ticker :: "(int \<Rightarrow> int) \<Rightarrow> duration \<Rightarrow> duration option" where
  "topup_ticker rand topUp = (if 0 < topUp then Some (nextTopUpTick rand topUp) else None)"

definition force_ticker :: "duration \<Rightarrow> duration option" where
  "force_ticker force = (if 0 < force then Some force else None)"

definition run_loader :: "'w load_env \<Rightarrow> 'w loader_cfg \<Rightarrow> schedules \<Rightarrow> 'w \<Rightarrow> go_error option \<times> 'w" where
  "run_loader E c s w = loader_Run E c (fst s) (snd s) w"

definition topup :: "'w load_env \<Rightarrow> 'w loader_cfg \<Rightarrow> int \<Rightarrow> schedules \<Rightarrow> 'w \<Rightarrow> 'w" where
  "topup E c minSize s w =
     (case pl_Size (le_pool E) w of
        (Inl e, w1) \<Rightarrow> w1
      | (Inr n, w1) \<Rightarrow> if minSize \<le> n then w1 else snd (run_loader E c s w1))"

fun loader_loop :: "'w load_env \<Rightarrow> 'w loader_cfg \<Rightarrow> int \<Rightarrow> duration option \<Rightarrow> duration option \<Rightarrow> loader_event list \<Rightarrow> 'w \<Rightarrow> 'w" where
  "loader_loop E c minSize topUp force [] w = w"
| "loader_loop E c minSize topUp force (CtxDone # es) w = w"
| "loader_loop E c minSize topUp force (ForceTick s # es) w =
     loader_loop E c minSize topUp force es (if force = None then w else snd (run_loader E c s w))"
| "loader_loop E c minSize topUp force (TopUpTick s # es) w =
     loader_loop E c minSize topUp force es (if topUp = None then w else topup E c minSize s w)"

text \<open>The program after the pool was connected, with its exit status.\<close>

definition proxyloader_main ::
  "'w load_env \<Rightarrow> (int \<Rightarrow> int) \<Rightarrow> env \<Rightarrow> proxy_config \<Rightarrow> schedules \<Rightarrow> loader_event list \<Rightarrow> 'w \<Rightarrow> int \<times> 'w" where
  "proxyloader_main E rand env c first es w =
     (case loader_New False (loader_settings c) of
        Inl e \<Rightarrow> (1, w)
      | Inr ld \<Rightarrow>
          let (r, w1) = run_loader E ld first w; topUp = pxc_RefreshInterval c; force = force_interval env in
          if topUp \<le> 0 \<and> force \<le> 0 then (if r = None then 0 else 1, w1)
          else (0, loader_loop E ld (min_pool_size c) (topup_ticker rand topUp) (force_ticker force) es w1))"

section \<open>The interval of the conditional reload\<close>

text \<open>The period of the conditional reload lies between nine tenths of the configured interval and the
  interval itself, whatever the random number is; it is positive, so the ticker does not panic. (Beyond
  the bound, some 146 years, the sum may overflow.)\<close>

theorem topup_tick_bounds:
  assumes "0 < topUp" and "topUp \<le> 2 ^ 62" and "\<And>n. 0 < n \<Longrightarrow> 0 \<le> rand n \<and> rand n < n"
  shows "0 < nextTopUpTick rand topUp \<and> topUp - topUp div 10 \<le> nextTopUpTick rand topUp \<and> nextTopUpTick rand topUp \<le> topUp"
proof (cases "topUp < second \<or> go_div (topUp - second) 5 \<le> 0")
  case True
  then show ?thesis using assms(1) by (auto simp: nextTopUpTick_def Let_def)
next
  case False
  define n where "n = (topUp - second) div 5"
  have dv: "go_div topUp 10 = topUp div 10" "go_div (topUp - second) 5 = n"
    using assms(1) False by (simp_all add: go_div_nonneg n_def)
  have n: "0 < n" and r: "0 \<le> rand n" "rand n < n" using False dv assms(3) [of n] by auto
  let ?x = "topUp - topUp div 10 + rand n"
  have ten: "topUp div 10 * 10 \<le> topUp" "topUp < topUp div 10 * 10 + 10" "n * 5 \<le> topUp - second"
    unfolding n_def by linarith+
  then have "0 < ?x" and "?x < 2 * topUp" using assms(1) r by linarith+
  then have "is_int64 ?x" using assms(2) by (simp add: is_int64_def)
  then have "nextTopUpTick rand topUp = (if topUp < ?x then topUp else ?x)"
    using False assms(1) dv n by (simp add: nextTopUpTick_def Let_def wrap64_id)
  then show ?thesis using ten r assms(1) \<open>0 < ?x\<close> by auto
qed

theorem topup_tick_bounds_witness:
  "0 < nextTopUpTick (\<lambda>n. n - 1) (5 * minute) \<and> nextTopUpTick (\<lambda>n. n - 1) (5 * minute) \<le> 5 * minute"
  using topup_tick_bounds [of "5 * minute" "\<lambda>n. n - 1"] by simp

section \<open>The pool over the life of the program\<close>

context loader_world
begin

lemma run_loader_safe:
  assumes "lc_Validate c = v" and "known_source (lc_Seed c)" and "known_source (lc_Remote c)" and "run_loader E c s w = (r, w')"
  shows "members w' \<subseteq> members w \<union> passed w' \<and> passed w \<subseteq> passed w'"
  using Run_safe [OF _ assms(1-3)] assms(4) by (simp add: run_loader_def)

lemma topup_safe:
  assumes "lc_Validate c = v" and "known_source (lc_Seed c)" and "known_source (lc_Remote c)"
  shows "members (topup E c m s w) \<subseteq> members w \<union> passed (topup E c m s w) \<and> passed w \<subseteq> passed (topup E c m s w)"
proof -
  obtain n w1 where n: "pl_Size (le_pool E) w = (n, w1)" by (rule prod.exhaust)
  obtain r w2 where r: "run_loader E c s w1 = (r, w2)" by (rule prod.exhaust)
  show ?thesis using pool_size [OF n] run_loader_safe [OF assms r] n r by (auto simp: topup_def split: sum.splits)
qed

lemma loader_loop_safe:
  assumes "lc_Validate c = v" and "known_source (lc_Seed c)" and "known_source (lc_Remote c)"
  shows "members (loader_loop E c m t f es w) \<subseteq> members w \<union> passed (loader_loop E c m t f es w) \<and>
    passed w \<subseteq> passed (loader_loop E c m t f es w)"
proof (induction es arbitrary: w)
  case (Cons e es)
  show ?case
  proof (cases e)
    case (ForceTick s)
    obtain r w1 where r: "run_loader E c s w = (r, w1)" by (rule prod.exhaust)
    show ?thesis using run_loader_safe [OF assms r] Cons.IH [of w] Cons.IH [of w1] ForceTick r by (cases f) auto
  next
    case (TopUpTick s)
    show ?thesis using topup_safe [OF assms, of m s w] Cons.IH [of w] Cons.IH [of "topup E c m s w"] TopUpTick by (cases t) auto
  qed simp
qed simp

end

lemma settings_made:
  assumes "loader_New False (loader_settings c) = Inr ld"
  shows "lc_Validate ld = loader_validator c" and "known_source (lc_Seed ld)" and "known_source (lc_Remote ld)"
  using assms by (auto simp: loader_New_def loader_settings_def known_source_def split: if_splits)

lemma main_safe:
  assumes "loader_world E (loader_validator c) members passed"
    and "proxyloader_main E rand env c first es w = (st, w')"
  shows "members w' \<subseteq> members w \<union> passed w'"
proof (cases "loader_New False (loader_settings c) :: go_error + 'a loader_cfg")
  case (Inl e)
  then show ?thesis using assms(2) by (auto simp: proxyloader_main_def)
next
  case (Inr ld)
  note k = settings_made [OF Inr]
  obtain r w1 where r: "run_loader E ld first w = (r, w1)" by (rule prod.exhaust)
  let ?loop = "loader_loop E ld (min_pool_size c) (topup_ticker rand (pxc_RefreshInterval c)) (force_ticker (force_interval env)) es w1"
  note R = loader_world.run_loader_safe [OF assms(1) k r] and L = loader_world.loader_loop_safe [OF assms(1) k]
  have "w' = w1 \<or> w' = ?loop"
    using assms(2) Inr r by (auto simp: proxyloader_main_def Let_def split: if_splits)
  then show ?thesis
  proof
    assume "w' = w1"
    then show ?thesis using R by blast
  next
    assume "w' = ?loop"
    then have "members w' \<subseteq> members w1 \<union> passed w' \<and> passed w1 \<subseteq> passed w'" using L by blast
    then show ?thesis using R by blast
  qed
qed

text \<open>(C22) Over the whole life of the program, whatever ticks, answers and schedules come: an address is in the
  pool only if it was there at the start or passed a probe of the configured validator.\<close>

theorem proxyloader_pool_is_probed:
  assumes "loader_world E (loader_validator c) members passed"
    and "proxyloader_main E rand env c first es w = (st, w')"
  shows "members w' \<subseteq> members w \<union> passed w'"
  by (rule main_safe [OF assms])

definition sample_proxies :: proxy_config where
  "sample_proxies = load_proxy_config (\<lambda>_. None) (\<lambda>k. if k = ''PROXY_REMOTE_URL'' then ''list'' else [])"

theorem proxyloader_pool_is_probed_witness:
  "\<exists>st w'. proxyloader_main sample_load_env (\<lambda>n. 0) (\<lambda>_. []) sample_proxies (\<lambda>_. [], \<lambda>_. []) [TopUpTick (\<lambda>_. [], \<lambda>_. []), CtxDone] (pool_New [''z''], []) = (st, w') \<and>
     set (proxies (fst w')) \<subseteq> {''z''} \<union> probed sample_answer (\<lambda>s. Inr \<lparr>u_Scheme = ''http'', u_Rest = s\<rparr>) (loader_validator sample_proxies) w'"
proof -
  obtain st w' where m: "proxyloader_main sample_load_env (\<lambda>n. 0) (\<lambda>_. []) sample_proxies (\<lambda>_. [], \<lambda>_. []) [TopUpTick (\<lambda>_. [], \<lambda>_. []), CtxDone] (pool_New [''z''], []) = (st, w')"
    by (rule prod.exhaust)
  have "loader_world sample_load_env v (\<lambda>w. set (proxies (fst w))) (probed sample_answer (\<lambda>s. Inr \<lparr>u_Scheme = ''http'', u_Rest = s\<rparr>) v)" for v
    by (rule mem_loader.loader_world_axioms)
  from proxyloader_pool_is_probed [OF this m] m show ?thesis
    by (auto simp: pool_New_def)
qed

text \<open>A reload never takes an address out of the pool that does not pass its probe: degraded proxies stay.
  The addresses a run may lose, on any pool, are among those it adds.\<close>

lemma reload_evicts_no_degraded_proxy:
  assumes "loader_world E (loader_validator c) (\<lambda>w. - members w) passed"
    and "proxyloader_main E rand env c first es w = (st, w')" and "p \<in> members w" and "p \<notin> passed w'"
  shows "p \<in> members w'"
  using main_safe [OF assms(1,2)] assms(3,4) by blast

lemma mem_pool_keeps: "loader_world (mem_load_env files net parse) v (\<lambda>w. - set (proxies (fst w))) (probed net parse v)"
proof
  fix p r and w w' :: "inmem_pool \<times> (http_client \<times> string) list"
  assume "Probe (mem_load_env files net parse) v p w = (r, w')"
  from mem_probe [OF this]
  show "- set (proxies (fst w')) = - set (proxies (fst w)) \<and> probed net parse v w \<subseteq> probed net parse v w' \<and>
      (r = None \<longrightarrow> p \<in> probed net parse v w')"
    by (auto simp: probed_def)
qed (auto simp: mem_load_env_def probed_def beside_def mem_pool_if_def pool_Add_def pool_Size_def add_new_set
  split: prod.splits)

text \<open>The ticker of the conditional reload leaves a pool of the wanted size alone.\<close>

lemma topup_skips_healthy_pool: "pl_Size (le_pool E) w = (Inr n, w1) \<Longrightarrow> m \<le> n \<Longrightarrow> topup E c m s w = w1"
  by (simp add: topup_def)

end
