(* ===== verification/Migrator.thy ===== *)
theory Migrator
  imports Waiting Json
begin

text \<open>
  The migrator (\<^verbatim>\<open>cmd/migrator/main.go\<close>): it reads the numbered scripts of a directory and runs, in the
  order of their versions, those the database does not list as applied. The file system and the
  connection are arguments; \<^verbatim>\<open>lib/pq\<close>'s and \<^verbatim>\<open>database/sql\<close>'s behaviour is the contract \<open>migration_conn\<close>.
\<close>

section \<open>The scripts\<close>

record migration =
  mi_version :: int
  mi_filename :: string
  mi_sql :: string

text \<open>\<^verbatim>\<open>filenameRe\<close>: digits, an underscore, one or more letters, digits, underscores or hyphens, and
  \<^verbatim>\<open>.sql\<close>; the value is the group of the digits.\<close>

definition dec_digit :: "char \<Rightarrow> bool" where
  "dec_digit c = (let k = of_char c :: nat in 48 \<le> k \<and> k \<le> 57)"

definition name_char :: "char \<Rightarrow> bool" where
  "name_char c =
     (let k = of_char c :: nat
      in dec_digit c \<or> (65 \<le> k \<and> k \<le> 90) \<or> (97 \<le> k \<and> k \<le> 122) \<or> k = 95 \<or> k = 45)"

definition filename_version :: "string \<Rightarrow> string option" where
  "filename_version name =
     (let ds = takeWhile dec_digit name; rest = dropWhile dec_digit name in
      if ds \<noteq> [] \<and> has_prefix rest ''_'' \<and> has_suffix (tl rest) ''.sql'' then
        (let body = take (length (tl rest) - 4) (tl rest)
         in if body \<noteq> [] \<and> list_all name_char body then Some ds else None)
      else None)"

text \<open>The files of the loader: \<^verbatim>\<open>os.Stat\<close> with the answer of \<^verbatim>\<open>IsDir\<close>, \<^verbatim>\<open>os.ReadDir\<close> with the names and
  whether they are directories, and the content of a file of the directory.\<close>

record mig_files =
  mf_stat :: "string \<Rightarrow> go_error + bool"
  mf_list :: "string \<Rightarrow> go_error + (string \<times> bool) list"
  mf_read :: "string \<Rightarrow> string \<Rightarrow> go_error + bytes"

fun read_migrations :: "(string \<Rightarrow> go_error + bytes) \<Rightarrow> (string \<times> bool) list \<Rightarrow> go_error + migration list" where
  "read_migrations rd [] = Inr []"
| "read_migrations rd ((name, dir) # es) =
     (if dir then read_migrations rd es
      else
        case filename_version name of
          None \<Rightarrow> read_migrations rd es
        | Some ds \<Rightarrow>
            case atoi ds of
              None \<Rightarrow> Inl (Wrapped (''bad version in '' @ quote name @ '': '')
                             (ErrText (''strconv.Atoi: parsing '' @ quote ds @ '': value out of range'')))
            | Some v \<Rightarrow>
                case rd name of
                  Inl e \<Rightarrow> Inl (Wrapped (''read '' @ quote name @ '': '') e)
                | Inr b \<Rightarrow>
                    case read_migrations rd es of
                      Inl e \<Rightarrow> Inl e
                    | Inr ms \<Rightarrow> Inr (\<lparr>mi_version = v, mi_filename = name, mi_sql = b\<rparr> # ms))"

text \<open>The first pair of neighbours with one version.\<close>

fun duplicate_version :: "migration list \<Rightarrow> (migration \<times> migration) option" where
  "duplicate_version (a # b # ms) = (if mi_version b = mi_version a then Some (a, b) else duplicate_version (b # ms))"
| "duplicate_version _ = None"

text \<open>\<^verbatim>\<open>sort.Slice\<close> is not stable: among scripts with equal versions its order may differ from this one,
  which only shows in the two names of the error.\<close>

definition loadMigrations :: "mig_files \<Rightarrow> string \<Rightarrow> go_error + migration list" where
  "loadMigrations F dir =
     (case mf_stat F dir of
        Inl e \<Rightarrow> Inl (Wrapped (''stat '' @ dir @ '': '') e)
      | Inr is_dir \<Rightarrow>
          if \<not> is_dir then Inl (ErrText (dir @ '' is not a directory''))
          else
            case mf_list F dir of
              Inl e \<Rightarrow> Inl (Wrapped (''read dir '' @ dir @ '': '') e)
            | Inr es \<Rightarrow>
                case read_migrations (mf_read F dir) es of
                  Inl e \<Rightarrow> Inl e
                | Inr ms \<Rightarrow>
                    let out = sort_key mi_version ms
                    in case duplicate_version out of
                         Some (a, b) \<Rightarrow>
                           Inl (ErrText (''duplicate migration version '' @ itoa (mi_version b) @ '': '' @ mi_filename a @ '' and '' @ mi_filename b))
                       | None \<Rightarrow> Inr out)"

section \<open>The database\<close>

text \<open>The dedicated connection: the advisory lock, the table of the applied versions, its rows, and the
  parts of a transaction. \<open>mc_Exec\<close> runs a script, \<open>mc_Record\<close> inserts a row unless the version is there.\<close>

record 'w mig_conn =
  mc_TryLock :: "'w \<Rightarrow> (go_error + bool) \<times> 'w"
  mc_EnsureTable :: "'w \<Rightarrow> go_error option \<times> 'w"
  mc_Applied :: "'w \<Rightarrow> (go_error + (int \<times> string) list) \<times> 'w"
  mc_Begin :: "'w \<Rightarrow> go_error option \<times> 'w"
  mc_Exec :: "string \<Rightarrow> 'w \<Rightarrow> go_error option \<times> 'w"
  mc_Record :: "int \<Rightarrow> string \<Rightarrow> 'w \<Rightarrow> go_error option \<times> 'w"
  mc_Commit :: "'w \<Rightarrow> go_error option \<times> 'w"
  mc_Rollback :: "'w \<Rightarrow> 'w"

definition apply_migration :: "'w mig_conn \<Rightarrow> migration \<Rightarrow> 'w \<Rightarrow> go_error option \<times> 'w" where
  "apply_migration C m w =
     (case mc_Begin C w of
        (Some e, w1) \<Rightarrow> (Some (Wrapped ''begin: '' e), w1)
      | (None, w1) \<Rightarrow>
      case mc_Exec C (mi_sql m) w1 of
        (Some e, w2) \<Rightarrow> (Some (Wrapped (''exec '' @ mi_filename m @ '': '') e), mc_Rollback C w2)
      | (None, w2) \<Rightarrow>
      case mc_Record C (mi_version m) (mi_filename m) w2 of
        (Some e, w3) \<Rightarrow> (Some (Wrapped (''record '' @ mi_filename m @ '': '') e), mc_Rollback C w3)
      | (None, w3) \<Rightarrow> let (e, w4) = mc_Commit C w3 in (e, mc_Rollback C w4))"

text \<open>The loop of the program, with the number of scripts it applied.\<close>

fun migrate :: "'w mig_conn \<Rightarrow> (int \<times> string) list \<Rightarrow> migration list \<Rightarrow> nat \<Rightarrow> 'w \<Rightarrow> (go_error + nat) \<times> 'w" where
  "migrate C applied [] pending w = (Inr pending, w)"
| "migrate C applied (m # ms) pending w =
     (if mi_version m \<in> fst ` set applied then migrate C applied ms pending w
      else
        case apply_migration C m w of
          (Some e, w1) \<Rightarrow> (Inl e, w1)
        | (None, w1) \<Rightarrow> migrate C applied ms (pending + 1) w1)"

section \<open>The program\<close>

definition getEnv :: "env \<Rightarrow> string \<Rightarrow> string \<Rightarrow> string" where
  "getEnv env k def = (if env k \<noteq> [] then env k else def)"

definition migrator_dsn :: "env \<Rightarrow> migrator_config \<Rightarrow> string" where
  "migrator_dsn env c =
     (if mgc_DSN c \<noteq> [] then mgc_DSN c
      else ''host='' @ getEnv env ''POSTGRES_HOST'' ''postgres'' @ '' port='' @ getEnv env ''POSTGRES_PORT'' ''5432'' @
           '' user='' @ getEnv env ''POSTGRES_USER'' ''dota2'' @ '' password='' @ getEnv env ''POSTGRES_PASSWORD'' ''dota2'' @
           '' dbname='' @ getEnv env ''POSTGRES_DB'' ''dota2'' @ '' sslmode='' @ getEnv env ''POSTGRES_SSLMODE'' ''disable'')"

definition migrations_dir :: "env \<Rightarrow> migrator_config \<Rightarrow> string" where
  "migrations_dir env c = (if mgc_MigrationsDir c \<noteq> [] then mgc_MigrationsDir c else getEnv env ''MIGRATIONS_DIR'' ''/migrations'')"

text \<open>The run on a connection. The result is the number of applied scripts; every \<open>Inl\<close> is an exit with
  status 1 after the error was logged.\<close>

definition run_migrations :: "'w mig_conn \<Rightarrow> mig_files \<Rightarrow> string \<Rightarrow> 'w \<Rightarrow> (go_error + nat) \<times> 'w" where
  "run_migrations C F dir w =
     (case mc_TryLock C w of
        (Inl e, w1) \<Rightarrow> (Inl e, w1)
      | (Inr locked, w1) \<Rightarrow>
      if \<not> locked then (Inl (ErrText ''migrator: another instance is already running''), w1)
      else
      case mc_EnsureTable C w1 of
        (Some e, w2) \<Rightarrow> (Inl e, w2)
      | (None, w2) \<Rightarrow>
      case loadMigrations F dir of
        Inl e \<Rightarrow> (Inl e, w2)
      | Inr migs \<Rightarrow>
      case mc_Applied C w2 of
        (Inl e, w3) \<Rightarrow> (Inl e, w3)
      | (Inr applied, w3) \<Rightarrow> migrate C applied migs 0 w3)"

text \<open>\<open>open_db dsn\<close> opens and pings, \<open>db_conn\<close> takes the dedicated connection.\<close>

definition migrator_main ::
  "(string \<Rightarrow> 'w \<Rightarrow> (go_error + 'p) \<times> 'w) \<Rightarrow> ('p \<Rightarrow> 'w \<Rightarrow> (go_error + 'w mig_conn) \<times> 'w) \<Rightarrow> ('w \<Rightarrow> int) \<Rightarrow> pause list \<Rightarrow>
   mig_files \<Rightarrow> env \<Rightarrow> migrator_config \<Rightarrow> 'w \<Rightarrow> (go_error + nat) option \<times> 'w" where
  "migrator_main open_db db_conn now es F env c w =
     (case openWithRetry (open_db (migrator_dsn env c)) now es w of
        (None, w1) \<Rightarrow> (None, w1)
      | (Some (Inl e), w1) \<Rightarrow> (Some (Inl e), w1)
      | (Some (Inr p), w1) \<Rightarrow>
      case db_conn p w1 of
        (Inl e, w2) \<Rightarrow> (Some (Inl e), w2)
      | (Inr C, w2) \<Rightarrow>
          let (r, w3) = run_migrations C F (migrations_dir env c) w2 in (Some r, w3))"

section \<open>What the loader returns\<close>

lemma read_migrations_set:
  "read_migrations rd es = Inr ms \<Longrightarrow>
    m \<in> set ms \<longleftrightarrow>
    (\<exists>ds. (mi_filename m, False) \<in> set es \<and> filename_version (mi_filename m) = Some ds \<and> atoi ds = Some (mi_version m) \<and>
       rd (mi_filename m) = Inr (mi_sql m))"
proof (induction rd es arbitrary: ms rule: read_migrations.induct)
  case (2 rd name dir es)
  show ?case
  proof (cases "dir \<or> filename_version name = None")
    case True
    then show ?thesis using 2 by (auto split: if_splits)
  next
    case False
    then obtain ds v b ms' where "filename_version name = Some ds" "atoi ds = Some v" "rd name = Inr b"
        "read_migrations rd es = Inr ms'" "ms = \<lparr>mi_version = v, mi_filename = name, mi_sql = b\<rparr> # ms'"
      using 2(4) by (auto split: option.splits sum.splits)
    then show ?thesis using 2(3) False by (cases m) auto
  qed
qed simp

lemma no_duplicates:
  "sorted (map mi_version ms) \<Longrightarrow> duplicate_version ms = None \<Longrightarrow> sorted_wrt (<) (map mi_version ms)"
proof (induction ms rule: duplicate_version.induct)
  case (1 a b ms)
  then have "sorted_wrt (<) (map mi_version (b # ms))" by (simp split: if_splits)
  moreover have "mi_version a < mi_version b" using 1(2,3) by (simp split: if_splits)
  ultimately show ?case by (auto intro: less_trans)
qed auto

text \<open>The loader takes exactly the scripts of the directory, the files named by digits, an underscore and
  a name ending in \<^verbatim>\<open>.sql\<close>, with their contents, in strictly increasing order of their versions.\<close>

theorem load_migrations_exact:
  assumes "loadMigrations F dir = Inr ms" and "mf_list F dir = Inr es"
  shows "sorted_wrt (<) (map mi_version ms) \<and>
    (\<forall>m. m \<in> set ms \<longleftrightarrow>
      (\<exists>ds. (mi_filename m, False) \<in> set es \<and> filename_version (mi_filename m) = Some ds \<and> atoi ds = Some (mi_version m) \<and>
         mf_read F dir (mi_filename m) = Inr (mi_sql m)))"
proof -
  obtain ms0 where ms0: "read_migrations (mf_read F dir) es = Inr ms0" "ms = sort_key mi_version ms0" "duplicate_version ms = None"
    using assms by (auto simp: loadMigrations_def Let_def split: sum.splits if_splits option.splits)
  then have "sorted (map mi_version ms)" by simp
  with ms0(3) have "sorted_wrt (<) (map mi_version ms)" by (rule no_duplicates [rotated])
  then show ?thesis using read_migrations_set [OF ms0(1)] ms0(2) by simp
qed

definition sample_files :: mig_files where
  "sample_files =
     \<lparr>mf_stat = (\<lambda>_. Inr True),
      mf_list = (\<lambda>_. Inr [(''010_b.sql'', False), (''2_a-1.sql'', False), (''README.md'', False), (''3_x.sql'', True), (''_y.sql'', False)]),
      mf_read = (\<lambda>d f. Inr (''-- '' @ f))\<rparr>"

theorem load_migrations_exact_witness:
  "\<exists>ms. loadMigrations sample_files ''/m'' = Inr ms \<and> map mi_version ms = [2, 10] \<and> sorted_wrt (<) (map mi_version ms)"
proof -
  let ?ms = "[\<lparr>mi_version = 2, mi_filename = ''2_a-1.sql'', mi_sql = ''-- 2_a-1.sql''\<rparr>,
              \<lparr>mi_version = 10, mi_filename = ''010_b.sql'', mi_sql = ''-- 010_b.sql''\<rparr>]"
  have l: "loadMigrations sample_files ''/m'' = Inr ?ms" by code_simp
  moreover have "mf_list sample_files ''/m'' = Inr [(''010_b.sql'', False), (''2_a-1.sql'', False), (''README.md'', False), (''3_x.sql'', True), (''_y.sql'', False)]"
    by (simp add: sample_files_def)
  ultimately show ?thesis using load_migrations_exact by (intro exI [of _ ?ms]) auto
qed

section \<open>The contract of the connection\<close>

text \<open>\<open>run\<close> is the effect of a script on the schema; \<open>db\<close> is what is committed, the schema and the rows of
  \<^verbatim>\<open>schema_migrations\<close>, \<open>tx\<close> what the open transaction sees.\<close>

type_synonym 's mig_db = "'s \<times> (int \<times> string) list"

definition record_version :: "int \<Rightarrow> string \<Rightarrow> (int \<times> string) list \<Rightarrow> (int \<times> string) list" where
  "record_version v f rows = (if v \<in> fst ` set rows then rows else rows @ [(v, f)])"

locale migration_conn =
  fixes C :: "'w mig_conn" and run :: "string \<Rightarrow> 's \<Rightarrow> 's option" and db :: "'w \<Rightarrow> 's mig_db" and tx :: "'w \<Rightarrow> 's mig_db option"
  assumes lock_law: "mc_TryLock C w = (b, w') \<Longrightarrow> db w' = db w"
    and table_law: "mc_EnsureTable C w = (e, w') \<Longrightarrow> db w' = db w"
    and applied_law: "mc_Applied C w = (r, w') \<Longrightarrow> db w' = db w \<and> (\<forall>rows. r = Inr rows \<longrightarrow> set rows = set (snd (db w)))"
    and begin_law: "mc_Begin C w = (e, w') \<Longrightarrow> db w' = db w \<and> (e = None \<longrightarrow> tx w' = Some (db w))"
    and exec_law: "mc_Exec C q w = (e, w') \<Longrightarrow> tx w = Some (s, rows) \<Longrightarrow>
      db w' = db w \<and> (e = None \<longrightarrow> (\<exists>s'. run q s = Some s' \<and> tx w' = Some (s', rows)))"
    and record_law: "mc_Record C v f w = (e, w') \<Longrightarrow> tx w = Some (s, rows) \<Longrightarrow>
      db w' = db w \<and> (e = None \<longrightarrow> tx w' = Some (s, record_version v f rows))"
    and commit_law: "mc_Commit C w = (e, w') \<Longrightarrow> tx w = Some t \<Longrightarrow> (db w' = db w \<or> db w' = t) \<and> (e = None \<longrightarrow> db w' = t)"
    and rollback_law: "db (mc_Rollback C w) = db w"

text \<open>The specification: scripts one after the other, each with its row.\<close>

definition apply_one :: "(string \<Rightarrow> 's \<Rightarrow> 's option) \<Rightarrow> migration \<Rightarrow> 's mig_db \<Rightarrow> 's mig_db option" where
  "apply_one run m t =
     map_option (\<lambda>s. (s, record_version (mi_version m) (mi_filename m) (snd t))) (run (mi_sql m) (fst t))"

fun apply_all :: "(string \<Rightarrow> 's \<Rightarrow> 's option) \<Rightarrow> migration list \<Rightarrow> 's mig_db \<Rightarrow> 's mig_db option" where
  "apply_all run [] t = Some t"
| "apply_all run (m # ms) t = (case apply_one run m t of None \<Rightarrow> None | Some t1 \<Rightarrow> apply_all run ms t1)"

definition pending_of :: "(int \<times> string) list \<Rightarrow> migration list \<Rightarrow> migration list" where
  "pending_of rows ms = filter (\<lambda>m. mi_version m \<notin> fst ` set rows) ms"

context migration_conn
begin

lemma apply_migration_effect:
  assumes "apply_migration C m w = (e, w')"
  shows "(db w' = db w \<or> apply_one run m (db w) = Some (db w')) \<and> (e = None \<longrightarrow> apply_one run m (db w) = Some (db w'))"
proof -
  obtain s rows where sd: "db w = (s, rows)" by (rule prod.exhaust)
  obtain e1 w1 where b: "mc_Begin C w = (e1, w1)" by (rule prod.exhaust)
  note B = begin_law [OF b]
  show ?thesis
  proof (cases e1)
    case (Some e)
    then show ?thesis using assms b B by (auto simp: apply_migration_def)
  next
    case None
    then have tx1: "tx w1 = Some (s, rows)" using B sd by simp
    obtain e2 w2 where x: "mc_Exec C (mi_sql m) w1 = (e2, w2)" by (rule prod.exhaust)
    note X = exec_law [OF x tx1]
    show ?thesis
    proof (cases e2)
      case (Some e)
      then show ?thesis using assms b None x X B rollback_law by (auto simp: apply_migration_def)
    next
      case e2: None
      then obtain s' where s': "run (mi_sql m) s = Some s'" and tx2: "tx w2 = Some (s', rows)" using X by auto
      obtain e3 w3 where r: "mc_Record C (mi_version m) (mi_filename m) w2 = (e3, w3)" by (rule prod.exhaust)
      note R = record_law [OF r tx2]
      show ?thesis
      proof (cases e3)
        case (Some e)
        then show ?thesis using assms b None x e2 r R X B rollback_law by (auto simp: apply_migration_def)
      next
        case e3: None
        then have tx3: "tx w3 = Some (s', record_version (mi_version m) (mi_filename m) rows)" using R by simp
        obtain e4 w4 where c: "mc_Commit C w3 = (e4, w4)" by (rule prod.exhaust)
        have eq: "e = e4" "db w' = db w4"
          using assms b None x e2 r e3 c rollback_law by (auto simp: apply_migration_def)
        from commit_law [OF c tx3] eq X R B sd s' show ?thesis by (auto simp: apply_one_def)
      qed
    qed
  qed
qed

lemma migrate_effect:
  "migrate C applied ms n w = (r, w') \<Longrightarrow>
    \<exists>k \<le> length (pending_of applied ms). apply_all run (take k (pending_of applied ms)) (db w) = Some (db w') \<and>
      (\<forall>n'. r = Inr n' \<longrightarrow> k = length (pending_of applied ms) \<and> n' = n + k)"
proof (induction ms arbitrary: n w)
  case Nil
  then show ?case by (auto simp: pending_of_def)
next
  case (Cons m ms)
  show ?case
  proof (cases "mi_version m \<in> fst ` set applied")
    case True
    then show ?thesis using Cons by (simp add: pending_of_def)
  next
    case False
    then have P: "pending_of applied (m # ms) = m # pending_of applied ms" by (simp add: pending_of_def)
    obtain e w1 where a: "apply_migration C m w = (e, w1)" by (rule prod.exhaust)
    note A = apply_migration_effect [OF a]
    show ?thesis
    proof (cases e)
      case (Some x)
      then have w': "w' = w1" and r: "r = Inl x" using Cons.prems False a by auto
      from A consider "db w1 = db w" | "apply_one run m (db w) = Some (db w1)" by blast
      then show ?thesis
      proof cases
        case 1
        then show ?thesis using w' r P by (intro exI [of _ 0]) simp
      next
        case 2
        then show ?thesis using w' r P by (intro exI [of _ 1]) simp
      qed
    next
      case None
      then have "migrate C applied ms (n + 1) w1 = (r, w')" using Cons.prems False a by simp
      from Cons.IH [OF this] obtain k where k: "k \<le> length (pending_of applied ms)"
        "apply_all run (take k (pending_of applied ms)) (db w1) = Some (db w')"
        "\<forall>n'. r = Inr n' \<longrightarrow> k = length (pending_of applied ms) \<and> n' = n + 1 + k" by blast
      then show ?thesis using A None P by (intro exI [of _ "Suc k"]) auto
    qed
  qed
qed

lemma run_effect:
  assumes "run_migrations C F dir w = (r, w')"
  shows "(\<exists>e. r = Inl e \<and> db w' = db w) \<or>
    (\<exists>ms k. loadMigrations F dir = Inr ms \<and> k \<le> length (pending_of (snd (db w)) ms) \<and>
       apply_all run (take k (pending_of (snd (db w)) ms)) (db w) = Some (db w') \<and>
       (\<forall>n. r = Inr n \<longrightarrow> k = length (pending_of (snd (db w)) ms) \<and> n = k))"
proof -
  obtain l w1 where l: "mc_TryLock C w = (l, w1)" by (rule prod.exhaust)
  obtain e w2 where t: "mc_EnsureTable C w1 = (e, w2)" by (rule prod.exhaust)
  obtain a w3 where a: "mc_Applied C w2 = (a, w3)" by (rule prod.exhaust)
  note L = lock_law [OF l] and T = table_law [OF t] and A = applied_law [OF a]
  show ?thesis
  proof (cases "\<exists>ms rows. l = Inr True \<and> e = None \<and> loadMigrations F dir = Inr ms \<and> a = Inr rows")
    case True
    then obtain ms rows where h: "l = Inr True" "e = None" "loadMigrations F dir = Inr ms" "a = Inr rows" by blast
    then have m: "migrate C rows ms 0 w3 = (r, w')" using assms l t a by (simp add: run_migrations_def)
    have "pending_of rows ms = pending_of (snd (db w)) ms" and "db w3 = db w"
      using A h(4) L T by (simp_all add: pending_of_def)
    then show ?thesis using migrate_effect [OF m] h(3) by auto
  next
    case False
    then show ?thesis using assms l t a L T A
      by (auto simp: run_migrations_def split: sum.splits if_splits option.splits)
  qed
qed

end

lemma record_version_keys: "fst ` set (record_version v f rows) = insert v (fst ` set rows)"
  by (cases "v \<in> fst ` set rows") (auto simp: record_version_def)

lemma apply_all_rows: "apply_all run ms t = Some t' \<Longrightarrow> fst ` set (snd t') = fst ` set (snd t) \<union> mi_version ` set ms"
proof (induction ms arbitrary: t)
  case (Cons m ms)
  then obtain t1 where t1: "apply_one run m t = Some t1" "apply_all run ms t1 = Some t'" by (auto split: option.splits)
  from t1(1) have "snd t1 = record_version (mi_version m) (mi_filename m) (snd t)" by (auto simp: apply_one_def)
  then have "fst ` set (snd t1) = insert (mi_version m) (fst ` set (snd t))" by (simp add: record_version_keys)
  with Cons.IH [OF t1(2)] show ?case by auto
qed simp

section \<open>Scripts in memory\<close>

text \<open>A database whose schema is the list of the scripts it ran; \<open>mm_faults\<close> are the errors of the next
  calls.\<close>

record mem_mig =
  mm_db :: "string list mig_db"
  mm_tx :: "string list mig_db option"
  mm_faults :: "go_error option list"

definition mm_call :: "(mem_mig \<Rightarrow> mem_mig) \<Rightarrow> mem_mig \<Rightarrow> go_error option \<times> mem_mig" where
  "mm_call f w =
     (case mm_faults w of
        [] \<Rightarrow> (None, f w)
      | Some e # fs \<Rightarrow> (Some e, w\<lparr>mm_faults := fs\<rparr>)
      | None # fs \<Rightarrow> (None, f (w\<lparr>mm_faults := fs\<rparr>)))"

definition mem_conn :: "mem_mig mig_conn" where
  "mem_conn =
     \<lparr>mc_TryLock = (\<lambda>w. (Inr True, w)), mc_EnsureTable = mm_call id, mc_Applied = (\<lambda>w. (Inr (snd (mm_db w)), w)),
      mc_Begin = mm_call (\<lambda>w. w\<lparr>mm_tx := Some (mm_db w)\<rparr>),
      mc_Exec = (\<lambda>q. mm_call (\<lambda>w. w\<lparr>mm_tx := map_option (\<lambda>(s, rows). (s @ [q], rows)) (mm_tx w)\<rparr>)),
      mc_Record = (\<lambda>v f. mm_call (\<lambda>w. w\<lparr>mm_tx := map_option (\<lambda>(s, rows). (s, record_version v f rows)) (mm_tx w)\<rparr>)),
      mc_Commit = mm_call (\<lambda>w. case mm_tx w of None \<Rightarrow> w | Some t \<Rightarrow> w\<lparr>mm_db := t, mm_tx := None\<rparr>),
      mc_Rollback = (\<lambda>w. w\<lparr>mm_tx := None\<rparr>)\<rparr>"

interpretation mem_mig: migration_conn mem_conn "\<lambda>q s. Some (s @ [q])" mm_db mm_tx
  by unfold_locales (auto simp: mem_conn_def mm_call_def split: list.splits option.splits)

section \<open>Properties of the migrator\<close>


definition sample_mig :: "go_error option list \<Rightarrow> mem_mig" where
  "sample_mig fs = \<lparr>mm_db = ([''old''], [(1, ''1_old.sql'')]), mm_tx = None, mm_faults = fs\<rparr>"




text \<open>A script that was added with a version below one already applied runs too, after it.\<close>

lemma late_script_still_runs:
  assumes "migration_conn C run db tx" and "run_migrations C F dir w = (Inr n, w')" and "loadMigrations F dir = Inr ms" and "m \<in> set ms"
  shows "mi_version m \<in> fst ` set (snd (db w'))"
  using migration_conn.run_effect [OF assms(1,2)] assms(3,4) by (auto dest!: apply_all_rows simp: pending_of_def)

end
