(* ===== verification/Dlq.thy ===== *)
theory Dlq
  imports Config Redis Json
begin

text \<open>
  The dead-letter tool (\<^verbatim>\<open>cmd/dlq/main.go\<close>): listing, replaying and purging the newest entries of the
  dead-letter streams. A replay copies an entry to its stream and removes it in one script, after a
  guard key per match identifier was taken. Redis is an argument; the order in which Go walks the
  fields of an entry is the argument \<open>ord\<close>. What the tool only logs is returned.
\<close>

section \<open>Entries\<close>

text \<open>The fields of an entry, which the client delivers as a map of strings.\<close>

definition field :: "xmessage \<Rightarrow> string \<Rightarrow> string option" where
  "field m = map_of (rev (xValues m))"

definition extractMatchID :: "string option \<Rightarrow> string" where
  "extractMatchID payload =
     (case payload of
        None \<Rightarrow> []
      | Some s \<Rightarrow>
          (case json_parse s of
             Some (JObj kvs) \<Rightarrow>
               (case map_of (rev kvs) ''match_id'' of
                  None \<Rightarrow> []
                | Some mid \<Rightarrow>
                    if conforms GInt64 mid then itoa (int_val mid)
                    else if conforms GString mid then str_val mid
                    else [])
           | _ \<Rightarrow> []))"

text \<open>An entry without a payload field is replayed with the nil interface, which the client sends as the
  empty text.\<close>

definition replayValues :: "xmessage \<Rightarrow> string option \<Rightarrow> (string \<times> string) list" where
  "replayValues m payload =
     [(''p'', case payload of Some p \<Rightarrow> p | None \<Rightarrow> []), (''r'', ''0'')] @
     (case field m ''_otel_traceparent'' of Some tp \<Rightarrow> [(''_otel_traceparent'', tp)] | None \<Rightarrow> []) @
     (case field m ''_otel_tracestate'' of Some ts \<Rightarrow> [(''_otel_tracestate'', ts)] | None \<Rightarrow> [])"

section \<open>The commands\<close>

definition newest :: "'d redis \<Rightarrow> string \<Rightarrow> int \<Rightarrow> 'd \<Rightarrow> (go_error + xmessage list) \<times> 'd" where
  "newest R s limit d =
     (let (r, d1) = rd_do R (XREVRANGE s limit) d
      in (case msgs_reply r of
            Inl e \<Rightarrow> Inl (Wrapped (''xrevrange '' @ s @ '': '') e)
          | Inr (_, ms) \<Rightarrow> Inr ms, d1))"

record dlq_line =
  dl_id :: string
  dl_retries :: string
  dl_reason :: string
  dl_bytes :: nat

definition list_line :: "xmessage \<Rightarrow> dlq_line" where
  "list_line m =
     \<lparr>dl_id = xID m,
      dl_retries = (case field m ''r'' of Some r \<Rightarrow> r | None \<Rightarrow> ''0''),
      dl_reason = (case field m ''reason'' of Some r \<Rightarrow> r | None \<Rightarrow> []),
      dl_bytes = (case field m ''p'' of Some p \<Rightarrow> length p | None \<Rightarrow> 0)\<rparr>"

fun cmdList :: "'d redis \<Rightarrow> string list \<Rightarrow> int \<Rightarrow> 'd \<Rightarrow> (go_error + (string \<times> dlq_line list) list) \<times> 'd" where
  "cmdList R [] limit d = (Inr [], d)"
| "cmdList R (s # ss) limit d =
     (case newest R s limit d of
        (Inl e, d1) \<Rightarrow> (Inl e, d1)
      | (Inr ms, d1) \<Rightarrow>
          (case cmdList R ss limit d1 of
             (Inl e, d2) \<Rightarrow> (Inl e, d2)
           | (Inr rest, d2) \<Rightarrow> (Inr ((s, map list_line ms) # rest), d2)))"

text \<open>The script \<^verbatim>\<open>luaReplayAtomic\<close>.\<close>

definition replay_script :: "'d redis \<Rightarrow> string \<Rightarrow> string \<Rightarrow> int \<Rightarrow> string \<Rightarrow> (string \<times> string) list \<Rightarrow> 'd \<Rightarrow> redis_reply \<times> 'd" where
  "replay_script R target dlq maxLen i fvs =
     call R (XADD_MAXLEN target maxLen fvs) (\<lambda>_. call R (XDEL dlq [i]) Pair)"

definition mapping :: "queue_config \<Rightarrow> string \<Rightarrow> string" where
  "mapping q s =
     (if s = quc_ParseDLQStream q then quc_ParseStream q
      else if s = quc_FetchDLQStream q then quc_FetchStream q
      else [])"

definition streamLabel :: "queue_config \<Rightarrow> string \<Rightarrow> string" where
  "streamLabel q target =
     (if target = quc_FetchStream q then ''fetch''
      else if target = quc_ParseStream q then ''parse''
      else ''unknown'')"

definition guardKey :: "queue_config \<Rightarrow> string \<Rightarrow> string" where
  "guardKey q target = ''dota2:dlq:guard:'' @ streamLabel q target"

definition guardTTL :: duration where
  "guardTTL = 7 * 24 * hour"

record replay_count =
  rc_replayed :: nat
  rc_skipped :: nat
  rc_failed :: nat

text \<open>A \<^verbatim>\<open>SetNX\<close> that fails counts as a key that was not added.\<close>

definition take_guard :: "'d redis \<Rightarrow> string \<Rightarrow> 'd \<Rightarrow> bool \<times> 'd" where
  "take_guard R key d =
     (let (r, d1) = rd_do R (SET key ''1'' guardTTL True) d
      in (case bool_reply r of Inr b \<Rightarrow> b | Inl _ \<Rightarrow> False, d1))"

definition run_replay :: "'d redis \<Rightarrow> ((string \<times> string) list \<Rightarrow> (string \<times> string) list) \<Rightarrow> queue_config \<Rightarrow> string \<Rightarrow> string \<Rightarrow> xmessage \<Rightarrow> replay_count \<times> 'd \<Rightarrow> replay_count \<times> 'd" where
  "run_replay R ord q target dlq m s =
     (let (r, d1) = run_script R (replay_script R target dlq (quc_MaxLen q) (xID m) (ord (replayValues m (field m ''p'')))) (snd s)
      in case int_reply r of
           Inl _ \<Rightarrow> ((fst s)\<lparr>rc_failed := rc_failed (fst s) + 1\<rparr>, d1)
         | Inr _ \<Rightarrow> ((fst s)\<lparr>rc_replayed := rc_replayed (fst s) + 1\<rparr>, d1))"

definition replay_one :: "'d redis \<Rightarrow> ((string \<times> string) list \<Rightarrow> (string \<times> string) list) \<Rightarrow> queue_config \<Rightarrow> string \<Rightarrow> string \<Rightarrow> xmessage \<Rightarrow> replay_count \<times> 'd \<Rightarrow> replay_count \<times> 'd" where
  "replay_one R ord q target dlq m s =
     (let mid = extractMatchID (field m ''p'')
      in if mid \<noteq> [] then
           (let (added, d1) = take_guard R (guardKey q target @ '':'' @ mid) (snd s)
            in if \<not> added then ((fst s)\<lparr>rc_skipped := rc_skipped (fst s) + 1\<rparr>, d1)
               else run_replay R ord q target dlq m (fst s, d1))
         else run_replay R ord q target dlq m s)"

fun cmdReplay :: "'d redis \<Rightarrow> ((string \<times> string) list \<Rightarrow> (string \<times> string) list) \<Rightarrow> queue_config \<Rightarrow> string list \<Rightarrow> int \<Rightarrow> bool \<Rightarrow> 'd \<Rightarrow> (go_error + (string \<times> replay_count) list) \<times> 'd" where
  "cmdReplay R ord q [] limit dryRun d = (Inr [], d)"
| "cmdReplay R ord q (dlq # dlqs) limit dryRun d =
     (if mapping q dlq = [] then cmdReplay R ord q dlqs limit dryRun d
      else
        case newest R dlq limit d of
          (Inl e, d1) \<Rightarrow> (Inl e, d1)
        | (Inr ms, d1) \<Rightarrow>
            if dryRun then cmdReplay R ord q dlqs limit dryRun d1
            else
              let (n, d2) = fold (replay_one R ord q (mapping q dlq) dlq) ms (\<lparr>rc_replayed = 0, rc_skipped = 0, rc_failed = 0\<rparr>, d1)
              in case cmdReplay R ord q dlqs limit dryRun d2 of
                   (Inl e, d3) \<Rightarrow> (Inl e, d3)
                 | (Inr ns, d3) \<Rightarrow> (Inr ((dlq, n) # ns), d3))"

fun cmdPurge :: "'d redis \<Rightarrow> string list \<Rightarrow> int \<Rightarrow> bool \<Rightarrow> 'd \<Rightarrow> go_error option \<times> 'd" where
  "cmdPurge R [] limit dryRun d = (None, d)"
| "cmdPurge R (s # ss) limit dryRun d =
     (case newest R s limit d of
        (Inl e, d1) \<Rightarrow> (Some e, d1)
      | (Inr ms, d1) \<Rightarrow>
          if dryRun then cmdPurge R ss limit dryRun d1
          else if ms = [] then cmdPurge R ss limit dryRun d1
          else
            let (r, d2) = rd_do R (XDEL s (map xID ms)) d1
            in case int_reply r of
                 Inl e \<Rightarrow> (Some (Wrapped (''xdel '' @ s @ '': '') e), d2)
               | Inr _ \<Rightarrow> cmdPurge R ss limit dryRun d2)"

section \<open>The program\<close>

record dlq_flags =
  fl_action :: string
  fl_stream :: string
  fl_limit :: int
  fl_dryRun :: bool

definition dlq_streams :: "queue_config \<Rightarrow> string \<Rightarrow> string list" where
  "dlq_streams q st =
     (if st = ''all'' \<or> st = ''fetch'' then [quc_FetchDLQStream q] else []) @
     (if st = ''all'' \<or> st = ''parse'' then [quc_ParseDLQStream q] else [])"

text \<open>The exit status. Connecting to Redis is the argument \<open>conn\<close>.\<close>

definition dlq_main :: "'d redis \<Rightarrow> ((string \<times> string) list \<Rightarrow> (string \<times> string) list) \<Rightarrow> ('d \<Rightarrow> go_error option \<times> 'd) \<Rightarrow> config \<Rightarrow> dlq_flags \<Rightarrow> 'd \<Rightarrow> nat \<times> 'd" where
  "dlq_main R ord conn cfg fl d =
     (if fl_action fl \<notin> {''list'', ''replay'', ''purge''} then (1, d)
      else if fl_stream fl \<notin> {''fetch'', ''parse'', ''all''} then (1, d)
      else if fl_limit fl \<le> 0 then (1, d)
      else
        case conn d of
          (Some e, d1) \<Rightarrow> (1, d1)
        | (None, d1) \<Rightarrow>
            let q = cfg_Queue cfg; ss = dlq_streams q (fl_stream fl)
            in if ss = [] then (1, d1)
               else if fl_action fl = ''list'' then
                 (case cmdList R ss (fl_limit fl) d1 of (Inl _, d2) \<Rightarrow> (1, d2) | (Inr _, d2) \<Rightarrow> (0, d2))
               else if fl_action fl = ''replay'' then
                 (case cmdReplay R ord q ss (fl_limit fl) (fl_dryRun fl) d1 of (Inl _, d2) \<Rightarrow> (1, d2) | (Inr _, d2) \<Rightarrow> (0, d2))
               else
                 (case cmdPurge R ss (fl_limit fl) (fl_dryRun fl) d1 of (Some _, d2) \<Rightarrow> (1, d2) | (None, d2) \<Rightarrow> (0, d2)))"

section \<open>Copies\<close>

text \<open>An entry of a target stream that carries the payload of a dead letter, with the retries reset.\<close>

definition payload_of :: "xmessage \<Rightarrow> string" where
  "payload_of m = (case field m ''p'' of Some p \<Rightarrow> p | None \<Rightarrow> [])"

definition copy_of :: "xmessage \<Rightarrow> xmessage \<Rightarrow> bool" where
  "copy_of m m' \<longleftrightarrow> field m' ''p'' = Some (payload_of m) \<and> field m' ''r'' = Some ''0''"

definition keeps_fields :: "((string \<times> string) list \<Rightarrow> (string \<times> string) list) \<Rightarrow> bool" where
  "keeps_fields ord \<longleftrightarrow> (\<forall>xs. mset (ord xs) = mset xs)"

lemma replayValues_distinct: "distinct (map fst (replayValues m p))"
  by (auto simp: replayValues_def split: option.splits)

lemma field_ord:
  assumes "keeps_fields ord"
  shows "field \<lparr>xID = j, xValues = ord (replayValues m p)\<rparr> k = map_of (replayValues m p) k"
proof -
  let ?xs = "replayValues m p"
  have ms: "mset (rev (ord ?xs)) = mset ?xs" using assms by (simp add: keeps_fields_def)
  then have "mset (map fst (rev (ord ?xs))) = mset (map fst ?xs)" by (metis mset_map)
  then have "distinct (map fst (rev (ord ?xs)))"
    using replayValues_distinct mset_eq_imp_distinct_iff by blast
  moreover have "set (rev (ord ?xs)) = set ?xs" using ms by (rule mset_eq_setD)
  ultimately have "map_of (rev (ord ?xs)) = map_of ?xs"
    using map_of_inject_set replayValues_distinct by blast
  then show ?thesis by (simp add: field_def)
qed

lemma replayed_copy:
  "keeps_fields ord \<Longrightarrow> copy_of m \<lparr>xID = j, xValues = ord (replayValues m (field m ''p''))\<rparr>"
  by (simp add: copy_of_def field_ord) (simp add: replayValues_def payload_of_def split: option.splits)

lemma replayed_match_id:
  "keeps_fields ord \<Longrightarrow>
   extractMatchID (field \<lparr>xID = j, xValues = ord (replayValues m (field m ''p''))\<rparr> ''p'') = extractMatchID (field m ''p'')"
proof -
  have "extractMatchID (Some []) = []" by code_simp
  then show "keeps_fields ord \<Longrightarrow> ?thesis"
    by (simp add: field_ord) (simp add: replayValues_def extractMatchID_def split: option.splits)
qed

lemma cmdReplay_step:
  "newest R s limit d = (Inr ms, d1) \<Longrightarrow> mapping q s \<noteq> [] \<Longrightarrow>
   fold (replay_one R ord q (mapping q s) s) ms (\<lparr>rc_replayed = 0, rc_skipped = 0, rc_failed = 0\<rparr>, d1) = (c, d2) \<Longrightarrow>
   snd (cmdReplay R ord q (s # ss) limit False d) = snd (cmdReplay R ord q ss limit False d2)"
  by (cases "cmdReplay R ord q ss limit False d2") (auto split: sum.splits)

text \<open>The entries that name a match.\<close>

definition naming :: "string \<Rightarrow> xmessage list \<Rightarrow> nat" where
  "naming mid ms = length (filter (\<lambda>m. extractMatchID (field m ''p'') = mid) ms)"

lemma naming_drop: "naming mid (drop k ms) \<le> naming mid ms"
proof -
  have "naming mid ms = naming mid (take k ms) + naming mid (drop k ms)"
    by (simp add: naming_def flip: length_append filter_append)
  then show ?thesis by simp
qed

lemma naming_filter: "naming mid (filter P ms) \<le> naming mid ms"
  by (induction ms) (auto simp: naming_def)

section \<open>The documented behaviour of the commands\<close>

text \<open>\<open>entries\<close> are the streams of a database, oldest entry first, and \<open>live\<close> its unexpired keys; a guard
  that was taken stays for the runs considered (its expiry is seven days). Every command may fail. An
  entry that is added gets a new identifier, and \<^verbatim>\<open>MAXLEN ~ n\<close> may drop the oldest entries of a stream
  as long as \<open>n\<close> are left.\<close>

locale dlq_server =
  fixes R :: "'d redis" and entries :: "'d \<Rightarrow> string \<Rightarrow> xmessage list" and live :: "'d \<Rightarrow> string set"
  assumes range_law: "rd_do R (XREVRANGE s n) d = (r, d') \<Longrightarrow>
          entries d' = entries d \<and> live d' = live d \<and>
          ((\<exists>e. r = RErr e) \<or> (\<exists>c. r = RMsgs c (take (nat n) (rev (entries d s)))))"
    and setnx_law: "0 < t \<Longrightarrow> rd_do R (SET k v t True) d = (r, d') \<Longrightarrow>
          entries d' = entries d \<and> live d \<subseteq> live d' \<and>
          ((\<exists>e. r = RErr e) \<or> r = RNil \<and> k \<in> live d \<or> r = ROk \<and> k \<notin> live d \<and> k \<in> live d')"
    and fault_law: "rd_fault R d = (x, d') \<Longrightarrow> entries d' = entries d \<and> live d' = live d"
    and add_law: "rd_call R (XADD_MAXLEN s n fs) d = (r, d') \<Longrightarrow>
          live d' = live d \<and>
          ((\<exists>e. r = RErr e) \<and> entries d' = entries d \<or>
           (\<exists>i k. r = RBulk i \<and> (k = 0 \<or> k + nat n \<le> length (entries d s) + 1) \<and>
              entries d' = (entries d)(s := drop k (entries d s @ [\<lparr>xID = i, xValues = fs\<rparr>]))))"
    and del_law: "rd_call R (XDEL s is) d = (r, d') \<Longrightarrow>
          live d' = live d \<and>
          ((\<exists>e. r = RErr e) \<and> entries d' = entries d \<or>
           (\<exists>n. r = RInt n) \<and> entries d' = (entries d)(s := filter (\<lambda>m. xID m \<notin> set is) (entries d s)))"
    and del_do_law: "rd_do R (XDEL s is) d = (r, d') \<Longrightarrow>
          live d' = live d \<and>
          ((\<exists>e. r = RErr e) \<and> entries d' = entries d \<or>
           (\<exists>n. r = RInt n) \<and> entries d' = (entries d)(s := filter (\<lambda>m. xID m \<notin> set is) (entries d s)))"
begin

lemma newest_reads:
  assumes "newest R s limit d = (x, d')"
  shows "entries d' = entries d \<and> live d' = live d \<and>
    (\<forall>ms. x = Inr ms \<longrightarrow> ms = take (nat limit) (rev (entries d s)))"
proof -
  obtain r d1 where c: "rd_do R (XREVRANGE s limit) d = (r, d1)" by fastforce
  then show ?thesis using assms range_law [OF c]
    by (auto simp: newest_def msgs_reply_def reply_err_def)
qed

text \<open>A script of a replay: nothing, the copy alone, or the copy and the removal.\<close>

lemma script_effect:
  assumes "run_script R (replay_script R t s n i fs) d = (r, d')"
  shows "live d' = live d \<and>
    (entries d' = entries d \<and> (\<exists>e. int_reply r = Inl e) \<or>
     (\<exists>j k. (k = 0 \<or> k + nat n \<le> length (entries d t) + 1) \<and>
        (let E = (entries d)(t := drop k (entries d t @ [\<lparr>xID = j, xValues = fs\<rparr>]))
         in entries d' = E \<and> (\<exists>e. int_reply r = Inl e) \<or>
            entries d' = E(s := filter (\<lambda>m. xID m \<noteq> i) (E s)) \<and> (\<exists>c. int_reply r = Inr c))))"
proof -
  obtain x d1 where f: "rd_fault R d = (x, d1)" by fastforce
  note F = fault_law [OF f]
  show ?thesis
  proof (cases x)
    case (Some e)
    then show ?thesis using assms f F by (auto simp: run_script_def int_reply_def reply_err_def)
  next
    case None
    obtain r1 d2 where a: "rd_call R (XADD_MAXLEN t n fs) d1 = (r1, d2)" by fastforce
    note A = add_law [OF a]
    show ?thesis
    proof (cases "\<exists>e. r1 = RErr e")
      case True
      then show ?thesis using assms f F a A None
        by (auto simp: run_script_def replay_script_def call_def int_reply_def reply_err_def)
    next
      case False
      then obtain j k where jk: "r1 = RBulk j" "k = 0 \<or> k + nat n \<le> length (entries d t) + 1"
        "entries d2 = (entries d)(t := drop k (entries d t @ [\<lparr>xID = j, xValues = fs\<rparr>]))"
        using A F by auto
      obtain r2 d3 where e: "rd_call R (XDEL s [i]) d2 = (r2, d3)" by fastforce
      note E = del_law [OF e]
      have fin: "(r, d') = (r2, d3)"
        using assms f None a jk(1) e
        by (cases r2) (simp_all add: run_script_def replay_script_def call_def)
      have "entries d3 = entries d2 \<and> (\<exists>e. int_reply r2 = Inl e) \<or>
          entries d3 = (entries d2)(s := filter (\<lambda>m. xID m \<noteq> i) (entries d2 s)) \<and> (\<exists>c. int_reply r2 = Inr c)"
        using E by (auto simp: int_reply_def reply_err_def)
      then have "\<exists>j k. (k = 0 \<or> k + nat n \<le> length (entries d t) + 1) \<and>
        (let E = (entries d)(t := drop k (entries d t @ [\<lparr>xID = j, xValues = fs\<rparr>]))
         in entries d' = E \<and> (\<exists>e. int_reply r = Inl e) \<or>
            entries d' = E(s := filter (\<lambda>m. xID m \<noteq> i) (E s)) \<and> (\<exists>c. int_reply r = Inr c))"
        using jk(2,3) fin unfolding Let_def by (metis prod.inject)
      moreover have "live d' = live d" using fin E A F by simp
      ultimately show ?thesis by blast
    qed
  qed
qed

text \<open>What a replay of one entry \<open>x\<close> of \<open>s\<close> does to the streams: at most one copy at the end of \<open>t\<close>, and
  the entry leaves \<open>s\<close> only after that.\<close>

lemma run_replay_effect:
  assumes "run_replay R ord q t s x (c, d) = (c', d')" and "keeps_fields ord" and "s \<noteq> t"
  shows "live d' = live d \<and>
    (entries d' = entries d \<or>
     (\<exists>m' k. copy_of x m' \<and> extractMatchID (field m' ''p'') = extractMatchID (field x ''p'') \<and>
        (k = 0 \<or> k + nat (quc_MaxLen q) \<le> length (entries d t) + 1) \<and>
        (let E = (entries d)(t := drop k (entries d t @ [m']))
         in entries d' = E \<or> entries d' = E(s := filter (\<lambda>m. xID m \<noteq> xID x) (entries d s)))))"
proof -
  let ?fs = "ord (replayValues x (field x ''p''))"
  obtain r d1 where r: "run_script R (replay_script R t s (quc_MaxLen q) (xID x) ?fs) d = (r, d1)" by fastforce
  have d: "d' = d1" using assms(1) r by (auto simp: run_replay_def split: sum.splits)
  note S = script_effect [OF r]
  show ?thesis
  proof (cases "entries d1 = entries d")
    case True
    then show ?thesis using S d by simp
  next
    case False
    then obtain j k where l: "live d1 = live d" and k: "k = 0 \<or> k + nat (quc_MaxLen q) \<le> length (entries d t) + 1"
      and E: "let E = (entries d)(t := drop k (entries d t @ [\<lparr>xID = j, xValues = ?fs\<rparr>]))
         in entries d1 = E \<and> (\<exists>e. int_reply r = Inl e) \<or>
            entries d1 = E(s := filter (\<lambda>m. xID m \<noteq> xID x) (E s)) \<and> (\<exists>c. int_reply r = Inr c)"
      using S by blast
    let ?m = "\<lparr>xID = j, xValues = ?fs\<rparr>"
    have "copy_of x ?m" "extractMatchID (field ?m ''p'') = extractMatchID (field x ''p'')"
      using assms(2) replayed_copy replayed_match_id by blast+
    moreover have "let E = (entries d)(t := drop k (entries d t @ [?m]))
         in entries d1 = E \<or> entries d1 = E(s := filter (\<lambda>m. xID m \<noteq> xID x) (entries d s))"
      using E assms(3) by (auto simp: Let_def)
    ultimately show ?thesis using l k d by blast
  qed
qed

lemma take_guard_effect:
  assumes "take_guard R k d = (b, d')"
  shows "entries d' = entries d \<and> live d \<subseteq> live d' \<and> (b \<longrightarrow> k \<notin> live d \<and> k \<in> live d')"
proof -
  obtain r d1 where c: "rd_do R (SET k ''1'' guardTTL True) d = (r, d1)" by fastforce
  have "0 < guardTTL" by (simp add: guardTTL_def)
  from setnx_law [OF this c] show ?thesis using assms c
    by (auto simp: take_guard_def bool_reply_def)
qed

definition covered :: "'d \<Rightarrow> string \<Rightarrow> string \<Rightarrow> xmessage \<Rightarrow> bool" where
  "covered d s t m \<longleftrightarrow> m \<in> set (entries d s) \<or> (\<exists>m' \<in> set (entries d t). copy_of m m')"

lemma run_replay_covers:
  assumes "run_replay R ord q t s x (c, d) = (c', d')" and "keeps_fields ord" and "s \<noteq> t" and "s \<noteq> t'"
    and room: "int (length (entries d t)) < quc_MaxLen q"
    and same: "s = s' \<Longrightarrow> t' = t \<and> (xID m = xID x \<longrightarrow> m = x)"
    and cov: "covered d s' t' m"
  shows "covered d' s' t' m"
proof (cases "entries d' = entries d")
  case True
  then show ?thesis using cov by (simp add: covered_def)
next
  case False
  then obtain m' k where cp: "copy_of x m'" and k: "k = 0 \<or> k + nat (quc_MaxLen q) \<le> length (entries d t) + 1"
    and E: "let E = (entries d)(t := drop k (entries d t @ [m']))
         in entries d' = E \<or> entries d' = E(s := filter (\<lambda>m. xID m \<noteq> xID x) (entries d s))"
    using run_replay_effect [OF assms(1-3)] by blast
  have "k = 0" using k room by linarith
  then have E': "entries d' = (entries d)(t := entries d t @ [m']) \<or>
      entries d' = (entries d)(t := entries d t @ [m'], s := filter (\<lambda>m. xID m \<noteq> xID x) (entries d s))"
    using E by (simp add: Let_def)
  show ?thesis
  proof (cases "s = s'")
    case True
    then show ?thesis using E' same [OF True] cov cp assms(3) by (auto simp: covered_def)
  next
    case False
    then show ?thesis using E' cov assms(3,4) by (auto simp: covered_def)
  qed
qed

text \<open>One entry: passed over, or its guard is taken (when it names a match) and its script runs.\<close>

lemma replay_one_cases:
  assumes "replay_one R ord q t s x (c, d) = (c', d')"
  obtains (skipped) "entries d' = entries d" "live d \<subseteq> live d'"
  | (run) d1 c1 where "entries d1 = entries d" "live d \<subseteq> live d1" "run_replay R ord q t s x (c1, d1) = (c', d')"
      "let mid = extractMatchID (field x ''p''); k = guardKey q t @ '':'' @ mid
       in mid = [] \<or> k \<notin> live d \<and> k \<in> live d1"
proof (cases "extractMatchID (field x ''p'') = []")
  case True
  then show ?thesis using assms run [of d c] by (simp add: replay_one_def)
next
  case False
  obtain b d1 where g: "take_guard R (guardKey q t @ '':'' @ extractMatchID (field x ''p'')) d = (b, d1)" by fastforce
  note G = take_guard_effect [OF g]
  show ?thesis
  proof (cases b)
    case True
    then have "run_replay R ord q t s x (c, d1) = (c', d')" using assms g False by (simp add: replay_one_def)
    then show ?thesis using G True run [of d1 c] by (simp add: Let_def)
  next
    case no: False
    then have "d' = d1" using assms g False by (simp add: replay_one_def)
    then show ?thesis using G skipped by simp
  qed
qed

lemma run_replay_frame:
  assumes "run_replay R ord q t s x (c, d) = (c', d')" and "keeps_fields ord" and "s \<noteq> t"
  shows "length (entries d' u) \<le> length (entries d u) + (if u = t then 1 else 0) \<and>
    (u \<noteq> t \<longrightarrow> set (entries d' u) \<subseteq> set (entries d u))"
proof (cases "entries d' = entries d")
  case False
  then obtain m' k where
    "let E = (entries d)(t := drop k (entries d t @ [m']))
     in entries d' = E \<or> entries d' = E(s := filter (\<lambda>m. xID m \<noteq> xID x) (entries d s))"
    using run_replay_effect [OF assms] by blast
  moreover have "length (filter (\<lambda>m. xID m \<noteq> xID x) (entries d s)) \<le> length (entries d s)" by simp
  moreover have "length (drop k (entries d t @ [m'])) \<le> Suc (length (entries d t))"
    using length_drop [of k "entries d t @ [m']"] by simp
  ultimately show ?thesis using assms(3)
    by (auto simp: Let_def le_SucI simp del: drop_append length_drop split: if_splits)
qed simp

lemma replay_loop:
  assumes "fold (replay_one R ord q t s) ms (c, d) = (c', d')" and "keeps_fields ord" and "s \<noteq> t" and "s \<noteq> t'"
    and "int (length (entries d t)) + int (length ms) \<le> quc_MaxLen q"
    and "s = s' \<Longrightarrow> t' = t \<and> (\<forall>x \<in> set ms. xID m = xID x \<longrightarrow> m = x)"
    and "covered d s' t' m"
  shows "covered d' s' t' m \<and>
    (\<forall>u. length (entries d' u) \<le> length (entries d u) + (if u = t then length ms else 0) \<and>
         (u \<noteq> t \<longrightarrow> set (entries d' u) \<subseteq> set (entries d u)))"
  using assms(1,5-7)
proof (induction ms arbitrary: c d)
  case (Cons x ms)
  obtain c1 d1 where one: "replay_one R ord q t s x (c, d) = (c1, d1)" by fastforce
  have rest: "fold (replay_one R ord q t s) ms (c1, d1) = (c', d')" using Cons.prems(1) one by simp
  have step: "covered d1 s' t' m \<and> (\<forall>u. length (entries d1 u) \<le> length (entries d u) + (if u = t then 1 else 0) \<and>
         (u \<noteq> t \<longrightarrow> set (entries d1 u) \<subseteq> set (entries d u)))"
    using one
  proof (cases rule: replay_one_cases)
    case skipped
    then show ?thesis using Cons.prems(4) by (simp add: covered_def)
  next
    case (run d2 c2)
    have room: "int (length (entries d2 t)) < quc_MaxLen q" using Cons.prems(2) run(1) by simp
    have same: "s = s' \<Longrightarrow> t' = t \<and> (xID m = xID x \<longrightarrow> m = x)" using Cons.prems(3) by simp
    have cov: "covered d2 s' t' m" using Cons.prems(4) run(1) by (simp add: covered_def)
    have "covered d1 s' t' m"
      using run_replay_covers [OF run(3) assms(2,3,4) room same cov] .
    then show ?thesis using run_replay_frame [OF run(3) assms(2,3)] run(1) by simp
  qed
  have "int (length (entries d1 t)) + int (length ms) \<le> quc_MaxLen q"
    using Cons.prems(2) step spec [of _ t] by (force dest: spec [of _ t])
  then have IH: "covered d' s' t' m \<and>
    (\<forall>u. length (entries d' u) \<le> length (entries d1 u) + (if u = t then length ms else 0) \<and>
         (u \<noteq> t \<longrightarrow> set (entries d' u) \<subseteq> set (entries d1 u)))"
    using Cons.IH [OF rest] Cons.prems(3) step by simp
  have "length (entries d' u) \<le> length (entries d u) + (if u = t then length (x # ms) else 0) \<and>
         (u \<noteq> t \<longrightarrow> set (entries d' u) \<subseteq> set (entries d u))" for u
  proof -
    have "length (entries d1 u) \<le> length (entries d u) + (if u = t then 1 else 0)"
      "u \<noteq> t \<longrightarrow> set (entries d1 u) \<subseteq> set (entries d u)" using step by blast+
    moreover have "length (entries d' u) \<le> length (entries d1 u) + (if u = t then length ms else 0)"
      "u \<noteq> t \<longrightarrow> set (entries d' u) \<subseteq> set (entries d1 u)" using IH by blast+
    ultimately show ?thesis by (auto split: if_splits)
  qed
  then show ?case using IH by blast
qed simp

lemma cmdReplay_covers:
  assumes "keeps_fields ord" and "t' = mapping q s'"
    and "\<forall>s \<in> insert s' (set dlqs). s \<notin> T" and "\<forall>s \<in> insert s' (set dlqs). mapping q s \<in> T"
    and "\<forall>t \<in> T. int (length (entries d t)) + int (length dlqs) * int (nat limit) \<le> quc_MaxLen q"
    and "set (entries d s') \<subseteq> X" and "\<forall>x \<in> X. xID m = xID x \<longrightarrow> m = x"
    and "covered d s' t' m"
  shows "covered (snd (cmdReplay R ord q dlqs limit dry d)) s' t' m"
  using assms(3-)
proof (induction dlqs arbitrary: d)
  case (Cons s ss)
  obtain y d1 where n: "newest R s limit d = (y, d1)" by fastforce
  note N = newest_reads [OF n]
  have same: "\<forall>u. entries d1 u = entries d u" using N by simp
  have len: "int (length (s # ss)) * int (nat limit) = int (nat limit) + int (length ss) * int (nat limit)"
    by (simp add: algebra_simps)
  have pass: "covered (snd (cmdReplay R ord q ss limit dry e)) s' t' m" if "\<forall>u. entries e u = entries d u" for e
  proof (rule Cons.IH)
    show "\<forall>t \<in> T. int (length (entries e t)) + int (length ss) * int (nat limit) \<le> quc_MaxLen q"
      using Cons.prems(3) that len by fastforce
  qed (use Cons.prems that in \<open>simp_all add: covered_def\<close>)
  show ?case
  proof (cases y)
    case (Inl e)
    then show ?thesis using n same Cons.prems pass by (simp add: covered_def)
  next
    case (Inr ms)
    have ms: "ms = take (nat limit) (rev (entries d s))" using N Inr by simp
    show ?thesis
    proof (cases "mapping q s = [] \<or> dry")
      case True
      then show ?thesis using n Inr same pass by auto
    next
      case False
      let ?t = "mapping q s" and ?c = "\<lparr>rc_replayed = 0, rc_skipped = 0, rc_failed = 0\<rparr>"
      obtain c d2 where f: "fold (replay_one R ord q ?t s) ms (?c, d1) = (c, d2)" by fastforce
      have tT: "?t \<in> T" "s \<notin> T" "t' \<in> T" "s' \<notin> T" using Cons.prems(1,2) assms(2) by auto
      have lm: "length ms \<le> nat limit" using ms by simp
      have room: "int (length (entries d1 ?t)) + int (length ms) \<le> quc_MaxLen q"
      proof -
        have "int (length (entries d ?t)) + (int (nat limit) + int (length ss) * int (nat limit)) \<le> quc_MaxLen q"
          using Cons.prems(3) tT(1) len by (metis (no_types))
        moreover have "0 \<le> int (length ss) * int (nat limit)" by simp
        ultimately show ?thesis using lm unfolding same [rule_format] by linarith
      qed
      have ids: "s = s' \<Longrightarrow> t' = ?t \<and> (\<forall>x \<in> set ms. xID m = xID x \<longrightarrow> m = x)"
        using Cons.prems(4,5) ms assms(2) by (auto dest!: in_set_takeD)
      have "s \<noteq> ?t" "s \<noteq> t'" using tT by auto
      have cov1: "covered d1 s' t' m" using Cons.prems(6) same by (simp add: covered_def)
      have L: "covered d2 s' t' m \<and>
        (\<forall>u. length (entries d2 u) \<le> length (entries d1 u) + (if u = ?t then length ms else 0) \<and>
             (u \<noteq> ?t \<longrightarrow> set (entries d2 u) \<subseteq> set (entries d1 u)))"
        using replay_loop [OF f assms(1) \<open>s \<noteq> ?t\<close> \<open>s \<noteq> t'\<close> room ids cov1] by blast
      have "covered (snd (cmdReplay R ord q ss limit dry d2)) s' t' m"
      proof (rule Cons.IH)
        show "\<forall>t \<in> T. int (length (entries d2 t)) + int (length ss) * int (nat limit) \<le> quc_MaxLen q"
        proof
          fix t assume "t \<in> T"
          then have "int (length (entries d t)) + (int (nat limit) + int (length ss) * int (nat limit)) \<le> quc_MaxLen q"
            using Cons.prems(3) len by (metis (no_types))
          moreover have "length (entries d2 t) \<le> length (entries d t) + nat limit"
            using L [THEN conjunct2, rule_format, of t] same lm by (auto split: if_splits)
          ultimately show "int (length (entries d2 t)) + int (length ss) * int (nat limit) \<le> quc_MaxLen q" by linarith
        qed
        show "set (entries d2 s') \<subseteq> X"
          using L [THEN conjunct2, rule_format, of s'] same Cons.prems(4) tT by auto
      qed (use Cons.prems L in simp_all)
      then show ?thesis using cmdReplay_step [OF _ _ f] n Inr False by simp
    qed
  qed
qed simp

text \<open>The copies of a match in a stream, plus one as long as its guard is free: no step makes it
  larger.\<close>

definition open_copies :: "queue_config \<Rightarrow> string \<Rightarrow> string \<Rightarrow> 'd \<Rightarrow> nat" where
  "open_copies q t mid d =
     naming mid (entries d t) + (if guardKey q t @ '':'' @ mid \<in> live d then 0 else 1)"

lemma open_copies_frame:
  "entries d' = entries d \<Longrightarrow> live d \<subseteq> live d' \<Longrightarrow> open_copies q t mid d' \<le> open_copies q t mid d"
  by (auto simp: open_copies_def)

lemma run_replay_copies:
  assumes "run_replay R ord q t2 s x (c, d) = (c', d')" and "keeps_fields ord" and "s \<noteq> t2"
  shows "naming mid (entries d' t) \<le> naming mid (entries d t) +
    (if t = t2 \<and> extractMatchID (field x ''p'') = mid then 1 else 0)"
proof (cases "entries d' = entries d")
  case False
  then obtain m' k where id: "extractMatchID (field m' ''p'') = extractMatchID (field x ''p'')"
    and E: "let E = (entries d)(t2 := drop k (entries d t2 @ [m']))
     in entries d' = E \<or> entries d' = E(s := filter (\<lambda>m. xID m \<noteq> xID x) (entries d s))"
    using run_replay_effect [OF assms] by blast
  have "naming mid (drop k (entries d t2 @ [m'])) \<le> naming mid (entries d t2 @ [m'])" by (rule naming_drop)
  moreover have "naming mid (entries d t2 @ [m']) =
      naming mid (entries d t2) + (if extractMatchID (field x ''p'') = mid then 1 else 0)"
    using id by (simp add: naming_def)
  ultimately have "naming mid (drop k (entries d t2 @ [m'])) \<le>
      naming mid (entries d t2) + (if extractMatchID (field x ''p'') = mid then 1 else 0)" by simp
  moreover have "naming mid (filter (\<lambda>m. xID m \<noteq> xID x) (entries d s)) \<le> naming mid (entries d s)"
    by (rule naming_filter)
  ultimately show ?thesis using E assms(3)
    by (auto simp: Let_def le_SucI simp del: drop_append split: if_splits)
qed simp

lemma replay_one_copies:
  assumes "replay_one R ord q t2 s x (c, d) = (c', d')" and "keeps_fields ord" and "s \<noteq> t2" and "mid \<noteq> []"
  shows "open_copies q t mid d' \<le> open_copies q t mid d"
  using assms(1)
proof (cases rule: replay_one_cases)
  case skipped
  then show ?thesis by (rule open_copies_frame)
next
  case (run d1 c1)
  note C = run_replay_copies [OF run(3) assms(2,3), of mid t]
  have l: "live d' = live d1" using run_replay_effect [OF run(3) assms(2,3)] by blast
  show ?thesis
  proof (cases "t = t2 \<and> extractMatchID (field x ''p'') = mid")
    case True
    then have "guardKey q t @ '':'' @ mid \<notin> live d" "guardKey q t @ '':'' @ mid \<in> live d'"
      using run(4) assms(4) l by (simp_all add: Let_def)
    then show ?thesis using C run(1) True by (simp add: open_copies_def)
  next
    case False
    then show ?thesis using C run(1,2) l by (auto simp: open_copies_def)
  qed
qed

lemma replay_loop_copies:
  assumes "keeps_fields ord" and "s \<noteq> t2" and "mid \<noteq> []"
  shows "open_copies q t mid (snd (fold (replay_one R ord q t2 s) ms (c, d))) \<le> open_copies q t mid d"
proof (induction ms arbitrary: c d)
  case (Cons x ms)
  obtain c1 d1 where one: "replay_one R ord q t2 s x (c, d) = (c1, d1)" by fastforce
  show ?case using Cons.IH [of c1 d1] replay_one_copies [OF one assms, of t] one by simp
qed simp

lemma cmdReplay_copies:
  assumes "keeps_fields ord" and "mid \<noteq> []"
  shows "(\<forall>s \<in> set dlqs. mapping q s \<noteq> s) \<Longrightarrow>
    open_copies q t mid (snd (cmdReplay R ord q dlqs limit dry d)) \<le> open_copies q t mid d"
proof (induction dlqs arbitrary: d)
  case (Cons s ss)
  obtain y d1 where n: "newest R s limit d = (y, d1)" by fastforce
  have 1: "open_copies q t mid d1 \<le> open_copies q t mid d"
    using newest_reads [OF n] by (intro open_copies_frame) auto
  have IH: "open_copies q t mid (snd (cmdReplay R ord q ss limit dry e)) \<le> open_copies q t mid e" for e
    using Cons by simp
  show ?case
  proof (cases y)
    case (Inl e)
    then show ?thesis using n 1 IH [of d] by simp
  next
    case (Inr ms)
    show ?thesis
    proof (cases "mapping q s = [] \<or> dry")
      case True
      then show ?thesis using n Inr IH [of d] IH [of d1] 1 by (auto intro: order_trans)
    next
      case False
      obtain c d2 where f: "fold (replay_one R ord q (mapping q s) s) ms
          (\<lparr>rc_replayed = 0, rc_skipped = 0, rc_failed = 0\<rparr>, d1) = (c, d2)" by fastforce
      have "open_copies q t mid d2 \<le> open_copies q t mid d1"
        using replay_loop_copies [OF assms(1) _ assms(2), of s "mapping q s" q t ms _ d1] Cons.prems f
        by (metis list.set_intros(1) snd_conv)
      moreover have "snd (cmdReplay R ord q (s # ss) limit dry d) = snd (cmdReplay R ord q ss limit dry d2)"
        using cmdReplay_step [OF _ _ f] n Inr False by simp
      ultimately show ?thesis using IH [of d2] 1 by (metis order_trans)
    qed
  qed
qed simp

text \<open>Purging: of every stream at most the newest entries go, and nothing else changes.\<close>

lemma cmdPurge_keeps:
  "live (snd (cmdPurge R ss limit dry d)) = live d \<and>
   (s \<notin> set ss \<or> dry \<longrightarrow> entries (snd (cmdPurge R ss limit dry d)) s = entries d s)"
proof (induction ss arbitrary: d)
  case (Cons s' ss)
  obtain y d1 where n: "newest R s' limit d = (y, d1)" by fastforce
  note N = newest_reads [OF n]
  show ?case
  proof (cases y)
    case (Inl e)
    then show ?thesis using n N by simp
  next
    case (Inr ms)
    obtain r d2 where x: "rd_do R (XDEL s' (map xID ms)) d1 = (r, d2)" by fastforce
    note X = del_do_law [OF x]
    have d2: "live d2 = live d" "s \<noteq> s' \<Longrightarrow> entries d2 s = entries d s" using X N by auto
    show ?thesis using n Inr N x d2 Cons.IH [of d1] Cons.IH [of d2]
      by (auto simp: Let_def split: sum.splits)
  qed
qed simp

end

section \<open>A server in memory\<close>

text \<open>Streams and guards without expiry; the scripts fail as a list says.\<close>

record dlq_db =
  db_streams :: "string \<Rightarrow> xmessage list"
  db_keys :: "string list"
  db_next :: nat
  db_faults :: "go_error option list"

fun dlq_do :: "redis_cmd \<Rightarrow> dlq_db \<Rightarrow> redis_reply \<times> dlq_db" where
  "dlq_do (XREVRANGE s n) d = (RMsgs [] (take (nat n) (rev (db_streams d s))), d)"
| "dlq_do (SET k v t nx) d = (if nx \<and> k \<in> set (db_keys d) then (RNil, d) else (ROk, d\<lparr>db_keys := k # db_keys d\<rparr>))"
| "dlq_do (XADD_MAXLEN s n fs) d =
     (RBulk (nat_str (db_next d)),
      d\<lparr>db_streams := (db_streams d)(s := drop (length (db_streams d s) + 1 - nat n)
                                          (db_streams d s @ [\<lparr>xID = nat_str (db_next d), xValues = fs\<rparr>])),
        db_next := db_next d + 1\<rparr>)"
| "dlq_do (XDEL s is) d =
     (RInt (int (length (filter (\<lambda>m. xID m \<in> set is) (db_streams d s)))),
      d\<lparr>db_streams := (db_streams d)(s := filter (\<lambda>m. xID m \<notin> set is) (db_streams d s))\<rparr>)"
| "dlq_do _ d = (ROk, d)"

definition dlq_redis :: "dlq_db redis" where
  "dlq_redis =
     \<lparr>rd_do = dlq_do, rd_pipe = (\<lambda>cs d. ([], d)), rd_tx = (\<lambda>cs d. ([], d)), rd_call = dlq_do,
      rd_fault = (\<lambda>d. case db_faults d of [] \<Rightarrow> (None, d) | f # fs \<Rightarrow> (f, d\<lparr>db_faults := fs\<rparr>))\<rparr>"

interpretation mem_dlq: dlq_server dlq_redis db_streams "\<lambda>d. set (db_keys d)"
proof unfold_locales
  fix s n fs d r d'
  assume "rd_call dlq_redis (XADD_MAXLEN s n fs) d = (r, d')"
  then have "r = RBulk (nat_str (db_next d)) \<and> set (db_keys d') = set (db_keys d) \<and>
      db_streams d' = (db_streams d)(s := drop (length (db_streams d s) + 1 - nat n)
        (db_streams d s @ [\<lparr>xID = nat_str (db_next d), xValues = fs\<rparr>]))"
    by (auto simp: dlq_redis_def simp del: drop_append)
  moreover have "length (db_streams d s) + 1 - nat n = 0 \<or>
      length (db_streams d s) + 1 - nat n + nat n \<le> length (db_streams d s) + 1" by linarith
  ultimately show "set (db_keys d') = set (db_keys d) \<and>
      ((\<exists>e. r = RErr e) \<and> db_streams d' = db_streams d \<or>
       (\<exists>i k. r = RBulk i \<and> (k = 0 \<or> k + nat n \<le> length (db_streams d s) + 1) \<and>
          db_streams d' = (db_streams d)(s := drop k (db_streams d s @ [\<lparr>xID = i, xValues = fs\<rparr>]))))"
    by blast
qed (auto simp: dlq_redis_def split: if_splits list.splits)

section \<open>Properties\<close>


definition sample_letter :: "string \<Rightarrow> xmessage" where
  "sample_letter i = \<lparr>xID = i, xValues = [(''p'', ''{\"match_id\":7}''), (''r'', ''4''), (''reason'', ''http'')]\<rparr>"

definition sample_dlq :: "go_error option list \<Rightarrow> dlq_db" where
  "sample_dlq fs =
     \<lparr>db_streams = (\<lambda>s. if s = ''dota2:fetch:dlq'' then [sample_letter ''1'', sample_letter ''2''] else []),
      db_keys = [], db_next = 10, db_faults = fs\<rparr>"

definition sample_queue_config :: queue_config where
  "sample_queue_config = load_queue_config (\<lambda>_. [])"

lemma sample_queue_config_fields [simp]:
  "quc_FetchStream sample_queue_config = ''dota2:fetch''" "quc_ParseStream sample_queue_config = ''dota2:parse''"
  "quc_FetchDLQStream sample_queue_config = ''dota2:fetch:dlq''" "quc_ParseDLQStream sample_queue_config = ''dota2:parse:dlq''"
  "quc_MaxLen sample_queue_config = 10000"
  by (simp_all add: sample_queue_config_def load_queue_config_def getStr_def getInt64_def getVal_def)

lemma keeps_fields_id [simp]: "keeps_fields id"
  by (simp add: keeps_fields_def)




text \<open>A script that fails leaves the guard taken: for as long as the guard lives the letter is skipped as a
  duplicate, though its match was never replayed.\<close>

lemma failed_replay_is_never_retried:
  "fst (cmdReplay dlq_redis id sample_queue_config [''dota2:fetch:dlq''] 1 False (sample_dlq [Some (ErrText ''io'')]))
     = Inr [(''dota2:fetch:dlq'', \<lparr>rc_replayed = 0, rc_skipped = 0, rc_failed = 1\<rparr>)]"
  "fst (cmdReplay dlq_redis id sample_queue_config [''dota2:fetch:dlq''] 1 False
      (snd (cmdReplay dlq_redis id sample_queue_config [''dota2:fetch:dlq''] 1 False (sample_dlq [Some (ErrText ''io'')]))))
     = Inr [(''dota2:fetch:dlq'', \<lparr>rc_replayed = 0, rc_skipped = 1, rc_failed = 0\<rparr>)]"
  by code_simp+

text \<open>A maximal length of 0, which a push takes as no limit, empties the stream a letter is replayed to.\<close>

lemma replay_trims_unlimited_stream:
  "db_streams (snd (cmdReplay dlq_redis id (sample_queue_config\<lparr>quc_MaxLen := 0\<rparr>) [''dota2:fetch:dlq''] 1 False (sample_dlq [])))
     ''dota2:fetch'' = []"
  by code_simp

end
