(* ===== verification/Platform.thy ===== *)
theory Platform
  imports Config Metrics MatchPg Stores
begin

text \<open>
  The adapters at the edge of the programs: the Redis client (\<^verbatim>\<open>storage/redis/client.go\<close>), the pool of
  Postgres connections (\<^verbatim>\<open>storage/pgclient\<close>), the OpenTelemetry sink (\<^verbatim>\<open>metrics/otelmetrics\<close>) and the
  decision whether to trace (\<^verbatim>\<open>bootstrap/telemetry.go\<close>), the markers of finished sources
  (\<^verbatim>\<open>enrich/initmarker\<close>) and the lookups in the reference tables (\<^verbatim>\<open>lookupstore/lookuppg\<close>).
\<close>

section \<open>The Redis client\<close>

definition nonZero :: "int \<Rightarrow> int \<Rightarrow> int" where
  "nonZero v fallback = (if v = 0 then fallback else v)"

record redis_options =
  ro_Addr :: string
  ro_Password :: string
  ro_DB :: int
  ro_PoolSize :: int
  ro_MinIdleConns :: int
  ro_MaxActiveConns :: int
  ro_ConnMaxLifetime :: duration
  ro_ConnMaxIdleTime :: duration
  ro_DialTimeout :: duration
  ro_ReadTimeout :: duration
  ro_WriteTimeout :: duration

definition master_options :: "int \<Rightarrow> redis_config \<Rightarrow> redis_options" where
  "master_options ncpu c =
     \<lparr>ro_Addr = hd (rdc_Addrs c), ro_Password = rdc_Password c, ro_DB = rdc_DB c,
      ro_PoolSize = nonZero (rdc_PoolSize c) (ncpu * 10), ro_MinIdleConns = nonZero (rdc_MinIdleConns c) 10,
      ro_MaxActiveConns = nonZero (rdc_MaxActiveConns c) (ncpu * 10),
      ro_ConnMaxLifetime = nonZero (rdc_ConnMaxLifetime c) (30 * minute),
      ro_ConnMaxIdleTime = nonZero (rdc_ConnMaxIdleTime c) (5 * minute),
      ro_DialTimeout = nonZero (rdc_DialTimeout c) (5 * second), ro_ReadTimeout = nonZero (rdc_ReadTimeout c) (3 * second),
      ro_WriteTimeout = nonZero (rdc_WriteTimeout c) (3 * second)\<rparr>"

record redis_client =
  rcl_master :: redis_options
  rcl_replica :: "redis_options option"

text \<open>\<open>ping\<close> is the error of \<^verbatim>\<open>PING\<close> on a client with the options; \<open>ncpu\<close> is \<^verbatim>\<open>runtime.NumCPU()\<close>.\<close>

definition redis_client_New :: "int \<Rightarrow> (redis_options \<Rightarrow> go_error option) \<Rightarrow> redis_config \<Rightarrow> go_error + redis_client" where
  "redis_client_New ncpu ping c =
     (if rdc_Addrs c = [] then Inl (ErrText ''redis: at least one address required'')
      else
        let opts = master_options ncpu c
        in case ping opts of
             Some e \<Rightarrow> Inl (Wrapped ''redis ping: '' e)
           | None \<Rightarrow>
               Inr \<lparr>rcl_master = opts,
                    rcl_replica = (if rdc_ReadOnly c \<and> 1 < length (rdc_Addrs c) then Some (opts\<lparr>ro_Addr := rdc_Addrs c ! 1\<rparr>) else None)\<rparr>)"

definition client_Read :: "redis_client \<Rightarrow> redis_options" where
  "client_Read c = (case rcl_replica c of Some r \<Rightarrow> r | None \<Rightarrow> rcl_master c)"

text \<open>The errors of closing both clients, collected.\<close>

definition client_Close :: "(redis_options \<Rightarrow> go_error option) \<Rightarrow> redis_client \<Rightarrow> go_error option" where
  "client_Close close c =
     (let errs = List.map_filter close (rcl_master c # (case rcl_replica c of None \<Rightarrow> [] | Some r \<Rightarrow> [r]))
      in if errs = [] then None
         else Some (ErrText (''redis close: ['' @ concat (map (\<lambda>i. (if i = 0 then [] else '' '') @ err_string (errs ! i)) [0..<length errs]) @ '']'')))"

text \<open>A client that was made has no zero among its sizes and time limits, so none of the library's own
  defaults applies: in particular the limit of active connections cannot be switched off.\<close>

lemma nonZero_nonzero: "f \<noteq> 0 \<Longrightarrow> nonZero v f \<noteq> 0"
  by (simp add: nonZero_def)

lemma nonZero_zero: "v = 0 \<Longrightarrow> nonZero v f = f"
  by (simp add: nonZero_def)

lemma client_options_set:
  assumes "redis_client_New ncpu ping c = Inr r" and "0 < ncpu"
  shows "ro_PoolSize (rcl_master r) \<noteq> 0 \<and> ro_MaxActiveConns (rcl_master r) \<noteq> 0 \<and> ro_ReadTimeout (rcl_master r) \<noteq> 0 \<and>
    (rdc_MaxActiveConns c = 0 \<longrightarrow> ro_MaxActiveConns (rcl_master r) = ncpu * 10)"
proof -
  have "rcl_master r = master_options ncpu c"
    using assms(1) by (auto simp: redis_client_New_def Let_def split: if_splits option.splits)
  then show ?thesis using assms(2) by (simp add: master_options_def nonZero_nonzero nonZero_zero)
qed

lemma client_reads_replica:
  assumes "redis_client_New ncpu ping c = Inr r"
  shows "ro_Addr (client_Read r) = (if rdc_ReadOnly c \<and> 1 < length (rdc_Addrs c) then rdc_Addrs c ! 1 else hd (rdc_Addrs c))"
  using assms by (auto simp: redis_client_New_def master_options_def client_Read_def Let_def split: if_splits option.splits)

section \<open>The pool of Postgres connections\<close>

definition wrap32 :: "int \<Rightarrow> int" where
  "wrap32 x = (x + 2 ^ 31) mod 2 ^ 32 - 2 ^ 31"

record pool_options =
  po_MaxConns :: int
  po_MaxConnLifetime :: duration
  po_MaxConnIdleTime :: duration

text \<open>\<open>parse\<close> is \<^verbatim>\<open>pgxpool.ParseConfig\<close>, with the options the text itself sets; \<open>connect\<close> makes the pool,
  \<open>ping\<close> tries it and \<open>close\<close> closes it. The idle connections of the configuration are not used. The
  tracer and the hook that discards temporary tables belong to the library's pool.\<close>

definition pg_options :: "postgres_config \<Rightarrow> pool_options \<Rightarrow> pool_options" where
  "pg_options c p =
     (let p1 = (if 0 < pgc_MaxOpenConns c then p\<lparr>po_MaxConns := wrap32 (pgc_MaxOpenConns c)\<rparr> else p);
          p2 = (if 0 < pgc_ConnMaxLifetime c then p1\<lparr>po_MaxConnLifetime := pgc_ConnMaxLifetime c\<rparr> else p1)
      in if 0 < pgc_ConnMaxIdleTime c then p2\<lparr>po_MaxConnIdleTime := pgc_ConnMaxIdleTime c\<rparr> else p2)"

definition pg_Open ::
  "(string \<Rightarrow> go_error + pool_options) \<Rightarrow> (pool_options \<Rightarrow> 'w \<Rightarrow> (go_error + 'p) \<times> 'w) \<Rightarrow> ('p \<Rightarrow> 'w \<Rightarrow> go_error option \<times> 'w) \<Rightarrow>
   ('p \<Rightarrow> 'w \<Rightarrow> 'w) \<Rightarrow> postgres_config \<Rightarrow> 'w \<Rightarrow> (go_error + 'p) \<times> 'w" where
  "pg_Open parse connect ping close c w =
     (if pgc_DSN c = [] then (Inl (ErrText ''postgres: DSN is required''), w)
      else
        case parse (pgc_DSN c) of
          Inl e \<Rightarrow> (Inl (Wrapped ''parse dsn: '' e), w)
        | Inr p \<Rightarrow>
            case connect (pg_options c p) w of
              (Inl e, w1) \<Rightarrow> (Inl (Wrapped ''open: '' e), w1)
            | (Inr pool, w1) \<Rightarrow>
                (case ping pool w1 of
                   (Some e, w2) \<Rightarrow> (Inl (Wrapped ''ping: '' e), close pool w2)
                 | (None, w2) \<Rightarrow> (Inr pool, w2)))"

section \<open>Tracing\<close>

text \<open>Without an endpoint there is no tracing; a sampling rate outside of (0, 1] counts as 1. The exporter is
  the library's.\<close>

definition sample_rate :: "rat \<Rightarrow> rat" where
  "sample_rate r = (if r \<le> 0 \<or> 1 < r then 1 else r)"

definition InitTelemetry :: "go_error option \<Rightarrow> go_error option \<Rightarrow> telemetry_config \<Rightarrow> go_error + rat option" where
  "InitTelemetry resource_err exporter_err c =
     (if tlc_Endpoint c = [] then Inr None
      else
        case resource_err of
          Some e \<Rightarrow> Inl (Wrapped ''otel resource: '' e)
        | None \<Rightarrow>
            (case exporter_err of
               Some e \<Rightarrow> Inl (Wrapped ''otel trace exporter: '' e)
             | None \<Rightarrow> Inr (Some (sample_rate (tlc_SampleRate c)))))"

lemma sample_rate_valid: "0 < sample_rate r \<and> sample_rate r \<le> 1"
  by (simp add: sample_rate_def)

section \<open>The OpenTelemetry sink\<close>

text \<open>A call of an instrument: a counter with its attribute \<^verbatim>\<open>kind\<close>, or the histogram with its attribute
  \<^verbatim>\<open>stage\<close>. The world is the list of the calls.\<close>

datatype measurement = Added string "failure_kind option" | Recorded string stage rat

definition otel_sink_if :: "measurement list sink_if" where
  "otel_sink_if =
     \<lparr>mt_IngestSuccess = (\<lambda>w. w @ [Added ''dota2.ingest.success'' None]),
      mt_IngestFailure = (\<lambda>k i e w. w @ [Added ''dota2.ingest.failure'' (Some k)]),
      mt_ParseSuccess = (\<lambda>w. w @ [Added ''dota2.parse.success'' None]),
      mt_ParseFailure = (\<lambda>k w. w @ [Added ''dota2.parse.failure'' (Some k)]),
      mt_ParseDuplicate = (\<lambda>w. w @ [Added ''dota2.parse.duplicate'' None]),
      mt_FetchSuccess = (\<lambda>w. w @ [Added ''dota2.fetch.success'' None]),
      mt_FetchFailure = (\<lambda>k w. w @ [Added ''dota2.fetch.failure'' (Some k)]),
      mt_RecordQueueDepth = (\<lambda>_ _ _ w. w),
      mt_RecordLatency = (\<lambda>st ms w. w @ [Recorded ''dota2.stage.latency'' st ms])\<rparr>"

text \<open>The two observable gauges: what each reports of the pending and the delivered entries of a queue.\<close>

definition otel_gauges :: "(string \<Rightarrow> int \<times> int) option \<Rightarrow> (string \<Rightarrow> int \<times> int) option \<Rightarrow> (string \<times> int) list" where
  "otel_gauges fetchStats parseStats =
     (case fetchStats of None \<Rightarrow> [] | Some f \<Rightarrow> [(''dota2.fetch.queue.pending'', snd (f ''fetch''))]) @
     (case parseStats of None \<Rightarrow> [] | Some f \<Rightarrow> [(''dota2.parse.queue.in_flight'', fst (f ''parse''))])"

text \<open>Creating the instruments and the gauges; the first error ends it. \<open>create\<close> is the meter of the library.\<close>

definition NewWithProviders ::
  "(string \<Rightarrow> go_error option) \<Rightarrow> (string \<Rightarrow> int \<times> int) option \<Rightarrow> (string \<Rightarrow> int \<times> int) option \<Rightarrow> go_error + measurement list sink_if" where
  "NewWithProviders create fetchStats parseStats =
     (case List.map_filter create
             [''dota2.ingest.success'', ''dota2.ingest.failure'', ''dota2.parse.success'', ''dota2.parse.failure'',
              ''dota2.parse.duplicate'', ''dota2.fetch.success'', ''dota2.fetch.failure'', ''dota2.stage.latency''] of
        e # _ \<Rightarrow> Inl e
      | [] \<Rightarrow>
          (case (if fetchStats = None then None else create ''dota2.fetch.queue.pending'') of
             Some e \<Rightarrow> Inl (Wrapped ''queue pending gauge: '' e)
           | None \<Rightarrow>
               (case (if parseStats = None then None else create ''dota2.parse.queue.in_flight'') of
                  Some e \<Rightarrow> Inl (Wrapped ''queue in_flight gauge: '' e)
                | None \<Rightarrow> Inr otel_sink_if)))"

definition otel_New :: "(string \<Rightarrow> go_error option) \<Rightarrow> go_error + measurement list sink_if" where
  "otel_New create = NewWithProviders create None None"

text \<open>A report to a sink.\<close>

fun report :: "'w sink_if \<Rightarrow> metric_event \<Rightarrow> 'w \<Rightarrow> 'w" where
  "report S MIngestOk = mt_IngestSuccess S"
| "report S (MIngestFail k i e) = mt_IngestFailure S k i e"
| "report S MParseOk = mt_ParseSuccess S"
| "report S (MParseFail k) = mt_ParseFailure S k"
| "report S MParseDup = mt_ParseDuplicate S"
| "report S MFetchOk = mt_FetchSuccess S"
| "report S (MFetchFail k) = mt_FetchFailure S k"

definition counter :: "string \<Rightarrow> measurement list \<Rightarrow> nat" where
  "counter n w = length (filter (\<lambda>x. case x of Added m k \<Rightarrow> m = n | _ \<Rightarrow> False) w)"

definition kind_counter :: "failure_kind \<Rightarrow> measurement list \<Rightarrow> nat" where
  "kind_counter k w = length (filter (\<lambda>x. case x of Added m a \<Rightarrow> a = Some k | _ \<Rightarrow> False) w)"

lemma mem_report: "report mem_sink_if e s = sink_exec e s"
  by (cases e) (simp_all add: mem_sink_if_def)

text \<open>Every report is one call of one instrument.\<close>

fun measurement_of :: "metric_event \<Rightarrow> measurement" where
  "measurement_of MIngestOk = Added ''dota2.ingest.success'' None"
| "measurement_of (MIngestFail k i e) = Added ''dota2.ingest.failure'' (Some k)"
| "measurement_of MParseOk = Added ''dota2.parse.success'' None"
| "measurement_of (MParseFail k) = Added ''dota2.parse.failure'' (Some k)"
| "measurement_of MParseDup = Added ''dota2.parse.duplicate'' None"
| "measurement_of MFetchOk = Added ''dota2.fetch.success'' None"
| "measurement_of (MFetchFail k) = Added ''dota2.fetch.failure'' (Some k)"

lemma otel_report: "report otel_sink_if e w = w @ [measurement_of e]"
  by (cases e) (simp_all add: otel_sink_if_def)

lemma otel_trace: "fold (report otel_sink_if) es w = w @ map measurement_of es"
  by (induction es arbitrary: w) (simp_all add: otel_report)

lemma counted_cong: "(\<And>e. P (f e) = Q e) \<Longrightarrow> length (filter P (map f es)) = length (filter Q es)"
  by (induction es) simp_all

lemma otel_counts:
  "counter ''dota2.ingest.success'' (map measurement_of es) = length (filter (\<lambda>e. e = MIngestOk) es)"
  "counter ''dota2.parse.success'' (map measurement_of es) = length (filter (\<lambda>e. e = MParseOk) es)"
  "counter ''dota2.parse.duplicate'' (map measurement_of es) = length (filter (\<lambda>e. e = MParseDup) es)"
  "counter ''dota2.fetch.success'' (map measurement_of es) = length (filter (\<lambda>e. e = MFetchOk) es)"
  "kind_counter k (map measurement_of es) = length (filter (\<lambda>e. kind_of_event e = Some k) es)"
  unfolding counter_def kind_counter_def by (rule counted_cong; case_tac e; simp)+


text \<open>The gauges show each other's number: the one named after the pending entries the delivered ones, and the
  other way round.\<close>

lemma gauges_are_swapped:
  "otel_gauges (Some (\<lambda>_. (5, 2))) (Some (\<lambda>_. (7, 3))) = [(''dota2.fetch.queue.pending'', 2), (''dota2.parse.queue.in_flight'', 7)]"
  by (simp add: otel_gauges_def)

section \<open>Markers of finished sources\<close>

record 'w marker_if =
  mk_Done :: "string \<Rightarrow> 'w \<Rightarrow> (go_error + bool) \<times> 'w"
  mk_MarkDone :: "string \<Rightarrow> 'w \<Rightarrow> go_error option \<times> 'w"

text \<open>The port: \<open>done\<close> are the sources that were marked.\<close>

locale bootstrap_marker =
  fixes M :: "'w marker_if" and finished :: "'w \<Rightarrow> string set"
  assumes done_law: "mk_Done M s w = (r, w') \<Longrightarrow> finished w' = finished w \<and> (\<forall>b. r = Inr b \<longrightarrow> b = (s \<in> finished w))"
    and mark_law: "mk_MarkDone M s w = (e, w') \<Longrightarrow>
      (finished w' = finished w \<or> finished w' = insert s (finished w)) \<and> (e = None \<longrightarrow> finished w' = insert s (finished w))"
begin

text \<open>A source that was marked stays marked, whatever is marked or asked after it.\<close>

lemma marked_stays:
  assumes "mk_MarkDone M s w = (None, w1)" and "snd (fold (\<lambda>t. \<lambda>(_, u). mk_MarkDone M t u) ts (None, w1)) = w2" and "mk_Done M s w2 = (Inr b, w3)"
  shows b
proof -
  have "finished w1 \<subseteq> finished (snd (fold (\<lambda>t. \<lambda>(_, u). mk_MarkDone M t u) ts (e, w1)))" for e w1
  proof (induction ts arbitrary: e w1)
    case (Cons t ts)
    obtain e2 u where m: "mk_MarkDone M t w1 = (e2, u)" by (rule prod.exhaust)
    show ?case using Cons.IH [of u e2] mark_law [OF m] m by auto
  qed simp
  from this [of w1 None] show ?thesis using mark_law [OF assms(1)] done_law [OF assms(3)] assms(2) by auto
qed

end

definition inmem_marker :: "string list marker_if" where
  "inmem_marker = \<lparr>mk_Done = (\<lambda>s w. (Inr (s \<in> set w), w)), mk_MarkDone = (\<lambda>s w. (None, List.insert s w))\<rparr>"

interpretation inmem_marker: bootstrap_marker inmem_marker set
  by unfold_locales (auto simp: inmem_marker_def)

record marker_cfg =
  mkc_Prefix :: string
  mkc_TTL :: duration
  mkc_Force :: bool

definition done_key :: "marker_cfg \<Rightarrow> string \<Rightarrow> string" where
  "done_key c s = mkc_Prefix c @ '':bootstrap:done:'' @ s"

definition rmarker_New :: "marker_cfg \<Rightarrow> marker_cfg" where
  "rmarker_New c = c\<lparr>mkc_TTL := (if mkc_TTL c \<le> 0 then 30 * 24 * hour else mkc_TTL c)\<rparr>"

definition rmarker_Done :: "'d redis \<Rightarrow> marker_cfg \<Rightarrow> string \<Rightarrow> 'd \<Rightarrow> (go_error + bool) \<times> 'd" where
  "rmarker_Done R c s d =
     (if mkc_Force c then (Inr False, d)
      else
        let (r, d1) = rd_do R (EXISTS (done_key c s)) d
        in (case int_reply r of Inl e \<Rightarrow> Inl (Wrapped ''exists: '' e) | Inr n \<Rightarrow> Inr (n = 1), d1))"

definition rmarker_MarkDone :: "'d redis \<Rightarrow> marker_cfg \<Rightarrow> string \<Rightarrow> 'd \<Rightarrow> go_error option \<times> 'd" where
  "rmarker_MarkDone R c s d =
     (let (r, d1) = rd_do R (SET (done_key c s) ''1'' (mkc_TTL c) False) d in (map_option (Wrapped ''set: '') (reply_err r), d1))"

definition rmarker_if :: "'d redis \<Rightarrow> marker_cfg \<Rightarrow> 'd marker_if" where
  "rmarker_if R c = \<lparr>mk_Done = rmarker_Done R c, mk_MarkDone = rmarker_MarkDone R c\<rparr>"

text \<open>A server whose strings behave as documented, \<^verbatim>\<open>EXISTS\<close> included, keeps the port, unless the marker was told
  to forget.\<close>

lemma redis_marker:
  assumes "string_laws R val" and "\<not> mkc_Force c" and "0 < mkc_TTL c"
    and ex: "\<And>k d r d'. rd_do R (EXISTS k) d = (r, d') \<Longrightarrow> val d' = val d \<and> (r = RInt (of_bool (val d k \<noteq> None)) \<or> faulty r)"
  shows "bootstrap_marker (rmarker_if R c) (\<lambda>d. {s. val d (done_key c s) \<noteq> None})"
proof
  have flt: "faulty r \<Longrightarrow> \<exists>e. r = RErr e" for r by (cases r) (simp_all add: faulty_def)
  fix s e r and d d' :: 'a
  obtain x d1 where q: "rd_do R (EXISTS (done_key c s)) d = (x, d1)" by (rule prod.exhaust)
  show "mk_Done (rmarker_if R c) s d = (r, d') \<Longrightarrow>
      {s. val d' (done_key c s) \<noteq> None} = {s. val d (done_key c s) \<noteq> None} \<and>
      (\<forall>b. r = Inr b \<longrightarrow> b = (s \<in> {s. val d (done_key c s) \<noteq> None}))"
    using ex [OF q] q assms(2) flt [of x]
    by (auto simp: rmarker_if_def rmarker_Done_def int_reply_def reply_err_def)
  obtain y d2 where m: "rd_do R (SET (done_key c s) ''1'' (mkc_TTL c) False) d = (y, d2)" by (rule prod.exhaust)
  let ?old = "{t. val d (done_key c t) \<noteq> None}" and ?new = "{t. val d' (done_key c t) \<noteq> None}"
  have keys: "val d2 = (val d)(done_key c s := Some ''1'') \<Longrightarrow> {t. val d2 (done_key c t) \<noteq> None} = insert s ?old"
    by (auto simp: done_key_def)
  have law: "y = ROk \<and> val d2 = (val d)(done_key c s := Some ''1'') \<or>
      faulty y \<and> (val d2 = val d \<or> val d2 = (val d)(done_key c s := Some ''1''))"
    using assms(1) m assms(3) unfolding string_laws_def by (meson less_imp_le)
  have made: "mk_MarkDone (rmarker_if R c) s d = (map_option (Wrapped ''set: '') (reply_err y), d2)"
    using m by (simp add: rmarker_if_def rmarker_MarkDone_def)
  have err: "faulty y \<Longrightarrow> reply_err y \<noteq> None" using flt [of y] by (auto simp: reply_err_def)
  show "(?new = ?old \<or> ?new = insert s ?old) \<and> (e = None \<longrightarrow> ?new = insert s ?old)"
    if "mk_MarkDone (rmarker_if R c) s d = (e, d')"
  proof -
    have e: "e = map_option (Wrapped ''set: '') (reply_err y)" "d' = d2" using made that by simp_all
    from law show ?thesis
    proof (elim disjE conjE)
      assume "faulty y" "val d2 = val d"
      then show ?thesis using err unfolding e by (cases "reply_err y") simp_all
    qed (unfold e(2), (drule keys, simp)+)
  qed
qed

interpretation redis_marker: bootstrap_marker "rmarker_if mini_redis (rmarker_New \<lparr>mkc_Prefix = p, mkc_TTL = t, mkc_Force = False\<rparr>)"
  "\<lambda>d. {s. map_of (kv d) (done_key (rmarker_New \<lparr>mkc_Prefix = p, mkc_TTL = t, mkc_Force = False\<rparr>) s) \<noteq> None}" for p t
  by (rule redis_marker [OF mini_string_laws]) (auto simp: rmarker_New_def mini_redis_def)

section \<open>Lookups\<close>

datatype lookup_query = QHeroIDs | QItemIDs | QPatchAt int

type_synonym 'w lookups = "lookup_query \<Rightarrow> 'w \<Rightarrow> (go_error + sql_value list list \<times> go_error option) \<times> 'w"

record PatchInfo =
  pi_ID :: int
  pi_Name :: string
  pi_StartedAt :: int

text \<open>The map and the error of reading the identifiers: an error of the query or of a row returns no map, one
  after the rows comes beside the map.\<close>

definition id_set :: "'w lookups \<Rightarrow> lookup_query \<Rightarrow> 'w \<Rightarrow> (int set option \<times> go_error option) \<times> 'w" where
  "id_set Q q w =
     (case Q q w of
        (Inl e, w1) \<Rightarrow> ((None, Some e), w1)
      | (Inr (rows, err), w1) \<Rightarrow>
          (case scan_ids rows of
             Inl e \<Rightarrow> ((None, Some e), w1)
           | Inr ids \<Rightarrow> ((Some (set ids), err), w1)))"

definition HeroIDs :: "'w lookups \<Rightarrow> 'w \<Rightarrow> (int set option \<times> go_error option) \<times> 'w" where
  "HeroIDs Q = id_set Q QHeroIDs"

definition ItemIDs :: "'w lookups \<Rightarrow> 'w \<Rightarrow> (int set option \<times> go_error option) \<times> 'w" where
  "ItemIDs Q = id_set Q QItemIDs"

text \<open>Without a row the answer is the zero patch and no error; \<open>zero\<close> is the zero time.\<close>

definition PatchByTimestamp :: "int \<Rightarrow> 'w lookups \<Rightarrow> int \<Rightarrow> 'w \<Rightarrow> (PatchInfo \<times> go_error option) \<times> 'w" where
  "PatchByTimestamp zero Q t w =
     (let nothing = \<lparr>pi_ID = 0, pi_Name = [], pi_StartedAt = zero\<rparr> in
      case Q (QPatchAt t) w of
        (Inl e, w1) \<Rightarrow> ((nothing, Some e), w1)
      | (Inr ([VInt i, VText n, VTime ra] # _, err), w1) \<Rightarrow> ((\<lparr>pi_ID = i, pi_Name = n, pi_StartedAt = ra\<rparr>, None), w1)
      | (Inr (_ # _, err), w1) \<Rightarrow> ((nothing, Some ErrScan), w1)
      | (Inr ([], err), w1) \<Rightarrow> ((nothing, err), w1))"

text \<open>What the queries find: \<open>ps\<close> is the table of patches, by identifier, name and second of release; the row of
  \<^verbatim>\<open>ORDER BY release_at DESC LIMIT 1\<close> is one with the latest release not after the time.\<close>

fun latest :: "int \<Rightarrow> (int \<times> string \<times> int) list \<Rightarrow> (int \<times> string \<times> int) option" where
  "latest t [] = None"
| "latest t ((i, n, ra) # ps) =
     (case latest t ps of
        None \<Rightarrow> if ra \<le> t then Some (i, n, ra) else None
      | Some (j, m, rb) \<Rightarrow> if ra \<le> t \<and> rb < ra then Some (i, n, ra) else Some (j, m, rb))"

definition lookup_answer :: "int list \<Rightarrow> int list \<Rightarrow> (int \<times> string \<times> int) list \<Rightarrow> lookup_query \<Rightarrow> sql_value list list" where
  "lookup_answer hs is ps q =
     (case q of
        QHeroIDs \<Rightarrow> map (\<lambda>i. [VInt i]) hs
      | QItemIDs \<Rightarrow> map (\<lambda>i. [VInt i]) is
      | QPatchAt t \<Rightarrow> (case latest t ps of None \<Rightarrow> [] | Some (i, n, ra) \<Rightarrow> [[VInt i, VText n, VTime ra]]))"

lemma latest_spec:
  "(latest t ps = None \<longrightarrow> (\<forall>(i, n, ra) \<in> set ps. t < ra)) \<and>
   (\<forall>i n ra. latest t ps = Some (i, n, ra) \<longrightarrow>
      (i, n, ra) \<in> set ps \<and> ra \<le> t \<and> (\<forall>(j, m, rb) \<in> set ps. rb \<le> t \<longrightarrow> rb \<le> ra))"
  by (induction t ps rule: latest.induct) (fastforce split: option.splits if_splits)+

text \<open>On a database that answers, the lookups are exact: the sets of identifiers, and of the patches the one
  that was current at the time, or the zero patch when there was none yet.\<close>

lemma lookups_exact:
  assumes "\<And>q. Q q w = (Inr (lookup_answer hs is ps q, None), w)"
  shows "HeroIDs Q w = ((Some (set hs), None), w)" and "ItemIDs Q w = ((Some (set is), None), w)"
    and "fst (fst (PatchByTimestamp zero Q t w)) = \<lparr>pi_ID = i, pi_Name = n, pi_StartedAt = ra\<rparr> \<Longrightarrow> ps \<noteq> [] \<Longrightarrow> i \<noteq> 0 \<Longrightarrow>
      (i, n, ra) \<in> set ps \<and> ra \<le> t \<and> (\<forall>(j, m, rb) \<in> set ps. rb \<le> t \<longrightarrow> rb \<le> ra)"
    and "\<forall>(i, n, ra) \<in> set ps. t < ra \<Longrightarrow> PatchByTimestamp zero Q t w = ((\<lparr>pi_ID = 0, pi_Name = [], pi_StartedAt = zero\<rparr>, None), w)"
proof -
  show "HeroIDs Q w = ((Some (set hs), None), w)" "ItemIDs Q w = ((Some (set is), None), w)"
    by (simp_all add: HeroIDs_def ItemIDs_def id_set_def assms lookup_answer_def scan_ids_ints)
  show "(i, n, ra) \<in> set ps \<and> ra \<le> t \<and> (\<forall>(j, m, rb) \<in> set ps. rb \<le> t \<longrightarrow> rb \<le> ra)"
    if "fst (fst (PatchByTimestamp zero Q t w)) = \<lparr>pi_ID = i, pi_Name = n, pi_StartedAt = ra\<rparr>" "ps \<noteq> []" "i \<noteq> 0"
    using that latest_spec [of t ps] by (cases "latest t ps") (auto simp: PatchByTimestamp_def assms lookup_answer_def)
  show "PatchByTimestamp zero Q t w = ((\<lparr>pi_ID = 0, pi_Name = [], pi_StartedAt = zero\<rparr>, None), w)"
    if "\<forall>(i, n, ra) \<in> set ps. t < ra"
  proof -
    have "latest t ps = None" using latest_spec [of t ps] that by (cases "latest t ps") force+
    then show ?thesis by (simp add: PatchByTimestamp_def assms lookup_answer_def)
  qed
qed

end
