(* ===== verification/Spec2Isabelle.thy ===== *)
theory Spec2Isabelle
  imports Programs LoaderMain Migrator Dlq Platform
begin

text \<open>
  go-dota2: a pipeline that finds matches, fetches their texts through a pool of proxies, parses them and
  stores them in Postgres. This development translates the Go code under \<^verbatim>\<open>src/\<close> into executable
  definitions, one theory per component, and proves what makes each component, and their composition,
  correct. Every definition is named after the function or type it translates; the operations of
  adapters carry a short prefix (\<open>inmem_\<close>, \<open>rs_\<close>, \<open>rpool_\<close>, ...).

  \<^bold>\<open>The program.\<close> The discoverer asks an explorer for identifiers of matches and pushes fetch tasks for those
  not seen yet. The fetcher takes a task, requests the text through a leased proxy, stores it under the
  identifier and pushes a parse task. The parser reads the text, decodes and validates it and hands the
  match to the ingester, which writes it in one transaction. Queues (Redis Streams), payloads, seen keys
  and the proxy pool are in Redis. Beside the pipeline run the proxy loader, which fills the pool, the
  enricher, which keeps the reference tables, the migrator of the schema, and the dead-letter tool.

  \<^bold>\<open>How code becomes definitions.\<close> A Go interface is a record of functions over an abstract world
  (\<open>'w queue_if\<close>, \<open>'w payload_if\<close>, \<open>'w pool_if\<close>, \<open>'w sink_if\<close>, ...); a struct is a record, its mutable part the
  state that is passed and returned. An error is a value of \<open>go_error\<close>, kept as it is wrapped, so that
  \<^verbatim>\<open>errors.Is\<close> and \<^verbatim>\<open>errors.As\<close> can be followed; a panic is the error \<open>Panic\<close>. 64-bit
  integers are \<open>int\<close> with their range proved or the wrap-around (\<open>wrap64\<close>) written out; durations are
  nanoseconds. What the sources only call (the Redis server, HTTP, the Postgres driver, clocks, random
  numbers, contexts, files, the walk through a map) is an argument of the definitions. What they rely on is the
  assumption of a locale, and every locale is interpreted on definitions of the model; a theorem for all
  servers or drivers has the predicate of the locale as a hypothesis.

  \<^bold>\<open>Theories.\<close>
  \<^item> \<open>Prelude\<close>: types and errors of Go, \<^verbatim>\<open>strconv\<close>, durations, collections of facts. \<open>Json\<close>: \<^verbatim>\<open>encoding/json\<close>,
    with the round trip of printing and parsing.
  \<^item> \<open>Queue\<close>, \<open>RedisStreams\<close>: port, retry policy and both adapters of the queue (\<^verbatim>\<open>internal/queue\<close>). \<open>Redis\<close>: the
    server as an argument, scripts, and a server with a log. \<open>Stores\<close>: payloads and seen keys
    (\<^verbatim>\<open>internal/payload\<close>, \<^verbatim>\<open>internal/dedup\<close>).
  \<^item> \<open>ProxyPool\<close>, \<open>RedisPool\<close>, \<open>HttpDo\<close>, \<open>ProxyLoader\<close>, \<open>LoaderMain\<close>, \<open>Clients\<close>: leases and both pools
    (\<^verbatim>\<open>internal/proxy\<close>, with its Lua scripts), the request loop, the loader and its program
    (\<^verbatim>\<open>cmd/proxyloader\<close>), and the HTTP clients built on them.
  \<^item> \<open>Runner\<close>, \<open>Fetcher\<close>, \<open>Parser\<close>, \<open>Ingester\<close>, \<open>Discovery\<close>: the worker loop, the circuit breaker and the stages
    (\<^verbatim>\<open>internal/worker\<close>). \<open>MatchRecords\<close>, \<open>Decode\<close>: the data of a match and its decoder.
  \<^item> \<open>MatchPg\<close>, \<open>RefStores\<close>: the writers on Postgres (\<^verbatim>\<open>internal/storage\<close>), as statements in transactions on
    tables.
  \<^item> \<open>EnrichSort\<close>, \<open>Enrich\<close>, \<open>Constants\<close>: the runner, the gate and the sources of the enricher
    (\<^verbatim>\<open>internal/enrich\<close>).
  \<^item> \<open>Metrics\<close>, \<open>Platform\<close>: the sinks, the connections, tracing, markers and lookups.
  \<^item> \<open>Config\<close>, \<open>Waiting\<close>, \<open>Bootstrap\<close>, \<open>Discoverer\<close>: configuration, waits and wiring (\<^verbatim>\<open>internal/config\<close>,
    \<^verbatim>\<open>internal/bootstrap\<close>). \<open>Programs\<close>: the mains of fetcher, parser, enricher and discoverer. \<open>Migrator\<close>, \<open>Dlq\<close>:
    the two tools.
  \<^item> This theory: the properties of stages and tools together.

  \<^bold>\<open>What is proved.\<close> Queues: no task is lost or doubled by the in-memory queue, retries end in the dead letters,
  an entry of a stream is acknowledged only after its copy was added, and entries survive encoding and
  decoding. Pools: a proxy is never leased more often than it may be, each request returns its leases,
  the rate limit holds in every window. Stages: a task is finished only when its effect is there, and
  whatever fails leaves the stored text for the retry; the worker settles each task it took exactly once;
  the breaker never sticks open. Data: which texts are accepted, that decoded matches are typed and aligned,
  that the series are expanded pointwise. Postgres: an ingest is all or nothing and a repeated one
  changes nothing. Enricher: sources run after what they depend on, and write rows that fit the keys of
  their tables. Tools: the migrator applies scripts in order and once, the dead-letter tool loses nothing
  and replays a match once. Composition: a fetched text is the one that is parsed, the stages built from one
  configuration are connected, and a dead letter can be replayed.

  \<^bold>\<open>Loops, bounds and fuel.\<close> Loops over data are structural or come with a termination proof (\<open>visit\<close>, \<open>lex\<close>,
  \<open>lex_str\<close>, \<open>scan_lines\<close>, \<open>duration_loop\<close>). The loops that are meant to run forever take either the number of
  passes (\<open>run_loop\<close>, where \<open>None\<close> means still running, and the properties hold for every number) or the
  list of the events their \<^verbatim>\<open>select\<close> sees (the waits, tickers and schedulers, the probes of the loader, the
  steps of leases); a property for all lists is a property for all interleavings of these events. The
  methods that hold a mutex are one step, as is a Lua script. The scanner of JSON keeps no limit of
  nesting. Bounds in hypotheses (lengths below \<open>2 ^ 63\<close> and the like) keep sums from overflowing.

  \<^bold>\<open>Not modelled.\<close> Logging (\<^verbatim>\<open>internal/bootstrap/slog.go\<close> and all log calls), spans of traces, flags and signals, the
  closing of connections at exit, real time (timeouts are errors that a call may return), and the parts
  that are not code of this repository: the Redis and Postgres servers and clients, the HTTP stack, the
  OpenTelemetry libraries. SQL functions and triggers of the migrations are outside of the Go code; what a
  statement does to a table is written down from its text. Floating-point numbers are kept as their text or
  as rationals, so rounding is not covered, and strings are bytes, so the repair of invalid UTF-8 is not.
  \<^verbatim>\<open>NewStores\<close> only collects stores. Columns that hold the time of an update are left out.
\<close>

section \<open>A match on its way through the stages\<close>

text \<open>(C1) From the upstream to the database. A task the fetch stage finished has left exactly one parse task,
  and when the parse stage takes that task, at any later time at which the stored text is still there, it
  decodes the text the upstream sent, under the match identifier of the fetch task. It succeeds only if that
  text is a valid match which the ingester took or had already; it drops the task only if the text is not
  a valid match; and unless it succeeded every stored text is kept.\<close>

theorem fetched_text_is_parsed:
  assumes "fetch_stage F content queued" and "parse_stage P content"
    and "unmarshal_task (Payload t) = Some mid"
    and "fetcher_Process F c t w = (Returned ResultSuccess None, w1)"
    and "Payload t' = last (queued w1)" and "content w2 (itoa mid) = content w1 (itoa mid)"
    and "parser_Process P t' w2 = (out, w3)"
  shows "\<exists>blob. fst (fetchOne F c mid w) = Inr blob \<and> queued w1 = queued w @ [Payload t'] \<and>
    ((\<exists>m r. out = Returned ResultSuccess None \<and> decodeMatch mid blob = Inr m \<and> validate m = None \<and>
        r = fst (pa_ingest P m (snd (ps_Get (pa_store P) (itoa mid) w2))) \<and>
        (r = None \<or> (\<exists>e. r = Some e \<and> errors_is e ErrAlreadySeen)) \<and> (\<forall>k. k \<noteq> itoa mid \<longrightarrow> content w3 k = content w2 k)) \<or>
     (\<exists>e. out = Returned ResultRetry (Some e) \<and> content w3 = content w2) \<or>
     (\<exists>e. out = Returned ResultDrop (Some e) \<and> content w3 = content w2 \<and>
        \<not> (\<exists>m. decodeMatch mid blob = Inr m \<and> validate m = None)))"
proof -
  obtain blob v where f: "fetchOne F c mid w = (Inr blob, v)" "content w1 = (content w)(itoa mid := Some blob)"
      "queued w1 = queued w @ [marshal_task mid]"
    using fetch_stage.process_cases [OF assms(1,4)] assms(3) by (auto simp: result_defs)
  have p: "Payload t' = marshal_task mid" using assms(5) f(3) by simp
  have t: "unmarshal_task (marshal_task mid) = Some mid"
    using unmarshal_task_range [OF assms(3)] by (rule task_roundtrip)
  have b: "content w2 (itoa mid) = Some blob" using assms(6) f(2) by simp
  show ?thesis
    using parse_stage.process_cases [OF assms(2,7)] f(1,3) p
    by (intro exI [of _ blob]) (elim disjE exE conjE; auto simp: t b result_defs)
qed

text \<open>A match the in-memory database does not have yet goes through.\<close>

definition upstream :: "bytes \<Rightarrow> string \<Rightarrow> match_db \<Rightarrow> (go_error + response) \<times> match_db" where
  "upstream b u db = (Inr \<lparr>StatusCode = 200, Body = b\<rparr>, db)"

definition first_world :: "match_db stage_world" where
  "first_world =
     \<lparr>sw_out = inmem_New \<lparr>MaxRetries = 3, MaxBackoff = second\<rparr>, sw_store = store_New 0, sw_sink = sink_New 0,
      sw_net = \<lparr>db_matches = [], db_broken = None\<rparr>\<rparr>"

lemma first_fetch:
  "fst (fetcher_Process (mem_fetcher (upstream b)) Fetcher.sample_cfg fetch_task first_world) = Returned ResultSuccess None"
proof -
  have f: "fetchOne (mem_fetcher (upstream b)) Fetcher.sample_cfg 7 first_world = (Inr b, first_world)"
    by (simp add: fetchOne_def mem_fetcher_def upstream_def)
  have "fst (store_and_push (mem_fetcher (upstream b)) Fetcher.sample_cfg 7 b first_world) = Returned ResultSuccess None"
    by (simp add: store_and_push_def mem_fetcher_def stage_store_if_def on_store_def store_Put_def out_if_def on_out_def
        inmem_if_def inmem_Push_def Let_def nextID_def split: prod.splits)
  then show ?thesis using f sample_task by (simp add: fetcher_Process_def)
qed

theorem fetched_text_is_parsed_witness:
  "let w1 = snd (fetcher_Process (mem_fetcher (upstream sample_text)) Fetcher.sample_cfg fetch_task first_world);
       t' = \<lparr>ID = ''2'', Payload = last (sw_queued w1), RetryCount = 0, Ctx = None\<rparr>
   in sw_queued w1 = sw_queued first_world @ [Payload t'] \<and>
      (\<forall>e. fst (parser_Process mem_parser t' w1) \<noteq> Returned ResultDrop (Some e))"
proof -
  let ?F = "mem_fetcher (upstream sample_text)"
  obtain out w1 where f: "fetcher_Process ?F Fetcher.sample_cfg fetch_task first_world = (out, w1)" by fastforce
  then have f: "fetcher_Process ?F Fetcher.sample_cfg fetch_task first_world = (Returned ResultSuccess None, w1)"
    using first_fetch [of sample_text] by simp
  let ?t = "\<lparr>ID = ''2'', Payload = last (sw_queued w1), RetryCount = 0, Ctx = None\<rparr>"
  obtain out w3 where p: "parser_Process mem_parser ?t w1 = (out, w3)" by fastforce
  have sent: "fst (fetchOne ?F Fetcher.sample_cfg 7 first_world) = Inr sample_text"
    by (simp add: fetchOne_def mem_fetcher_def upstream_def)
  show ?thesis
    using fetched_text_is_parsed [OF mem_stage.fetch_stage_axioms mem_parse.parse_stage_axioms sample_task f _ refl p] f p sent
      sample_decoded
    by (auto simp: Let_def result_defs)
qed

section \<open>A dead letter and its replay\<close>

lemma two_fields:
  assumes "keeps_fields ord"
  shows "ord [x, y] = [x, y] \<or> ord [x, y] = [y, x]"
proof -
  have m: "mset (ord [x, y]) = {#x, y#}" using assms by (simp add: keeps_fields_def)
  then have "length (ord [x, y]) = 2" by (metis size_mset size_add_mset size_empty numeral_2_eq_2)
  then obtain a b where "ord [x, y] = [a, b]" by (auto simp: numeral_2_eq_2 length_Suc_conv)
  then show ?thesis using m by (auto simp: add_eq_conv_ex)
qed

text \<open>(C15) What the queue writes when it gives up on a task, the dead-letter tool can put back: the entry the queue
  adds to the dead-letter stream, replayed in whatever order Go walks its fields, is decoded to a task with the
  same payload and no retries. The context of the trace is not part of the entry, so the replayed task
  starts without one.\<close>

theorem dead_letter_roundtrip:
  assumes "keeps_fields ord" and "DLQStream (cfg q) \<noteq> []" and "rdb q = (d, l)"
    and "routeDLQ (logged R) t reason q = (e, q')"
  shows "\<exists>fs r l'. snd (rdb q') = l @ (XADD (DLQStream (cfg q)) 0 fs, r) # l' \<and> (e = None \<longrightarrow> reply_err r = None) \<and>
    (\<forall>P i j. let m = \<lparr>xID = i, xValues = fs\<rparr>
       in decodeMessage P \<lparr>xID = j, xValues = ord (replayValues m (field m ''p''))\<rparr> =
            Inr \<lparr>ID = j, Payload = Payload t, RetryCount = 0, Ctx = p_extract P []\<rparr>)"
proof -
  let ?fs = "[(fieldPayload, Payload t), (fieldRetry, itoa (RetryCount t)), (fieldReason, reason)]"
  obtain r d1 where x: "rd_do R (XADD (DLQStream (cfg q)) 0 ?fs) d = (r, d1)" by fastforce
  have log: "\<exists>l'. snd (rdb q') = l @ (XADD (DLQStream (cfg q)) 0 ?fs, r) # l' \<and> (e = None \<longrightarrow> reply_err r = None)"
    using assms(2-4) x
    by (cases "rd_do R (XACK (Stream (cfg q)) (Group (cfg q)) (ID t)) d1")
       (auto simp: routeDLQ_def rs_Ack_def rs_do_def logged_def Let_def split: option.splits if_splits prod.splits)
  have "atoi ''0'' = Some 0" by code_simp
  then have dec: "let m = \<lparr>xID = i, xValues = ?fs\<rparr>
      in decodeMessage P \<lparr>xID = j, xValues = ord (replayValues m (field m ''p''))\<rparr> =
         Inr \<lparr>ID = j, Payload = Payload t, RetryCount = 0, Ctx = p_extract P []\<rparr>" for P i j
    using two_fields [OF assms(1), of "(''p'', Payload t)" "(''r'', ''0'')"]
    by (auto simp: Let_def replayValues_def field_def field_defs decodeMessage_def msg_values_distinct has_prefix_def)
  show ?thesis using log dec by blast
qed

theorem dead_letter_roundtrip_witness:
  "\<exists>fs r l'. snd (rdb (snd (routeDLQ (logged (const_server ok_reply)) fetch_task ''upstream'' (sample_queue no_async)))) =
      (XADD ''dlq'' 0 fs, r) # l' \<and>
    decodeMessage \<lparr>p_inject = \<lambda>c. [], p_extract = \<lambda>c. None\<rparr>
      \<lparr>xID = ''9-0'', xValues = rev (replayValues \<lparr>xID = ''1-0'', xValues = fs\<rparr> (field \<lparr>xID = ''1-0'', xValues = fs\<rparr> ''p''))\<rparr> =
      Inr \<lparr>ID = ''9-0'', Payload = marshal_task 7, RetryCount = 0, Ctx = None\<rparr>"
proof -
  let ?P = "\<lparr>p_inject = \<lambda>c. [], p_extract = \<lambda>c. None\<rparr> :: propagator"
  obtain e q' where r: "routeDLQ (logged (const_server ok_reply)) fetch_task ''upstream'' (sample_queue no_async) = (e, q')"
    by (rule prod.exhaust)
  have "keeps_fields rev" and "DLQStream (cfg (sample_queue no_async)) = ''dlq''" and "rdb (sample_queue no_async) = ((), [])"
    by (simp_all add: keeps_fields_def sample_queue_def RedisStreams.sample_cfg_def)
  from dead_letter_roundtrip [OF this(1) _ this(3) r] this(2)
  obtain fs y l' where l: "snd (rdb q') = (XADD ''dlq'' 0 fs, y) # l'"
    and d: "\<And>P i j. let m = \<lparr>xID = i, xValues = fs\<rparr>
       in decodeMessage P \<lparr>xID = j, xValues = rev (replayValues m (field m ''p''))\<rparr> =
            Inr \<lparr>ID = j, Payload = Payload fetch_task, RetryCount = 0, Ctx = p_extract P []\<rparr>" by auto
  have "Payload fetch_task = marshal_task 7" by (simp add: fetch_task_def)
  then show ?thesis using l d [of "''1-0''" ?P "''9-0''"] r by (simp add: Let_def)
qed

end
